(* ===== verification/Prelude.thy ===== *)
theory Prelude
  imports Main "HOL-Library.Word" "HOL-Library.State_Monad"
begin

text \<open>
  Shared vocabulary of the development: the C++ integer types as words, little-endian byte
  strings (\<open>le_bytes\<close>, \<open>le_word\<close>), buffers updated in place (\<open>splice\<close>, \<open>slice\<close>), the two
  state-monad accessors the model uses beside those of the library (\<open>gets\<close>, \<open>modify\<close>), and a
  small weakest-precondition calculus (\<open>wp\<close>) with its rules in the collection \<open>wps\<close>.
  Every component proof is an application of these rules followed by simplification.
\<close>

unbundle bit_operations_syntax

section \<open>Machine integers\<close>

type_synonym u8 = "8 word"
type_synonym u16 = "16 word"
type_synonym u32 = "32 word"
type_synonym u64 = "64 word"
type_synonym bytes = "8 word list"

abbreviation (input) u64_max :: u64 where "u64_max \<equiv> - 1"

section \<open>Little-endian byte strings\<close>

text \<open>
  The wire format is the little-endian host representation (\<open>static_assert\<close> on
  \<open>std::endian\<close> in \<open>sidp_defs.hpp\<close>): \<open>le_bytes n w\<close> are the \<open>n\<close> low bytes of \<open>w\<close> in memory
  order and \<open>le_word\<close> reads them back.
\<close>

fun le_bytes :: "nat \<Rightarrow> 'a::len word \<Rightarrow> bytes" where
  "le_bytes 0 w = []"
| "le_bytes (Suc n) w = ucast w # le_bytes n (drop_bit 8 w)"

fun le_word :: "bytes \<Rightarrow> 'a::len word" where
  "le_word [] = 0"
| "le_word (b # bs) = ucast b OR push_bit 8 (le_word bs)"

lemma length_le_bytes [simp]: "length (le_bytes n w) = n"
  by (induction n arbitrary: w) auto

lemma bit_le_word:
  "bit (le_word bs :: 'a::len word) i \<longleftrightarrow>
     i < LENGTH('a) \<and> i div 8 < length bs \<and> bit (bs ! (i div 8)) (i mod 8)"
proof (induction bs arbitrary: i)
  case Nil
  then show ?case by simp
next
  case (Cons b bs)
  show ?case
  proof (cases "i < 8")
    case True
    then show ?thesis by (auto simp: bit_or_iff bit_ucast_iff bit_push_bit_iff)
  next
    case False
    then have "\<not> bit b i" by (auto dest: bit_imp_le_length)
    moreover from False obtain j where "i = j + 8" by (metis add.commute le_Suc_ex not_less)
    moreover have "(j + 8) div 8 = Suc (j div 8)" by simp
    ultimately show ?thesis
      by (auto simp: bit_or_iff bit_ucast_iff bit_push_bit_iff Cons.IH simp del: div_add_self2)
  qed
qed

lemma le_word_le_bytes_take: "le_word (le_bytes n w) = take_bit (8 * n) (w :: 'a::len word)"
proof (induction n arbitrary: w)
  case 0
  then show ?case by simp
next
  case (Suc n)
  show ?case
    by (rule bit_word_eqI)
      (auto simp: Suc bit_or_iff bit_ucast_iff bit_push_bit_iff bit_take_bit_iff bit_drop_bit_eq
        le_add_diff_inverse dest: bit_imp_le_length)
qed

lemma le_word_le_bytes [simp]:
  "LENGTH('a) \<le> 8 * n \<Longrightarrow> le_word (le_bytes n (w :: 'a::len word)) = w"
  by (simp add: le_word_le_bytes_take take_bit_word_eq_self)

lemma nth_le_bytes: "i < n \<Longrightarrow> le_bytes n w ! i = ucast (drop_bit (8 * i) w)"
proof (induction n arbitrary: i w)
  case 0
  then show ?case by simp
next
  case (Suc n)
  then show ?case
    by (cases i) (auto simp: drop_bit_drop_bit add.commute)
qed

lemma le_bytes_le_word:
  assumes "length bs = n" and "8 * n \<le> LENGTH('a)"
  shows "le_bytes n (le_word bs :: 'a::len word) = bs"
proof (rule nth_equalityI)
  show "length (le_bytes n (le_word bs :: 'a word)) = length bs" using assms by simp
  fix i assume "i < length (le_bytes n (le_word bs :: 'a word))"
  then have i: "i < n" by simp
  have "(8 * i + j) div 8 = i \<and> (8 * i + j) mod 8 = j" if "j < 8" for j
    using that by simp
  then show "le_bytes n (le_word bs :: 'a word) ! i = bs ! i"
    using assms i
    by (intro bit_word_eqI) (auto simp: nth_le_bytes bit_ucast_iff bit_drop_bit_eq bit_le_word)
qed

lemma word_xor_eq_0_iff: "a XOR b = 0 \<longleftrightarrow> a = b" for a b :: "'a::len word"
proof
  assume "a XOR b = 0"
  then have "bit (a XOR b) i = bit (0 :: 'a word) i" for i by simp
  then show "a = b" by (intro bit_word_eqI) (auto simp: bit_xor_iff)
qed simp

lemma word_xor_cancel [simp]:
  "a XOR c = b XOR c \<longleftrightarrow> a = b" "c XOR a = c XOR b \<longleftrightarrow> a = b" for a b c :: "'a::len word"
proof -
  show "a XOR c = b XOR c \<longleftrightarrow> a = b"
  proof
    assume "a XOR c = b XOR c"
    then have "(a XOR c) XOR c = (b XOR c) XOR c" by simp
    then show "a = b" by (simp only: xor.assoc xor_self_eq xor.right_neutral)
  qed simp
  then show "c XOR a = c XOR b \<longleftrightarrow> a = b" by (simp only: xor.commute [of c])
qed

lemma le_word_append:
  "(le_word (xs @ ys) :: 'a::len word) = le_word xs OR push_bit (8 * length xs) (le_word ys)"
  by (induction xs) (simp_all add: push_bit_or push_bit_push_bit or.assoc add.commute)

lemma unat_byte_less: "unat (b :: u8) < 256"
  using unsigned_less [of b, where ?'a = nat] by simp

lemma unat_ucast_up:
  "LENGTH('a) \<le> LENGTH('b) \<Longrightarrow> unat (ucast (w :: 'a::len word) :: 'b::len word) = unat w"
  by (simp add: unsigned_ucast_eq take_bit_nat_eq_self_iff
      order_less_le_trans [OF unsigned_less power_increasing])

section \<open>Buffers\<close>

text \<open>
  \<open>splice off bs buf\<close> is \<open>memcpy(buf + off, bs)\<close> and \<open>slice off n buf\<close> reads \<open>n\<close> bytes at
  \<open>off\<close>. Both are only meaningful within the buffer; the model checks the bounds where the code
  would write or read (\<open>Session_State.expect\<close>).
\<close>

definition splice :: "nat \<Rightarrow> 'a list \<Rightarrow> 'a list \<Rightarrow> 'a list" where
  "splice off bs buf = take off buf @ bs @ drop (off + length bs) buf"

definition slice :: "nat \<Rightarrow> nat \<Rightarrow> 'a list \<Rightarrow> 'a list" where
  "slice off n buf = take n (drop off buf)"

lemma length_splice [simp]:
  "off + length bs \<le> length buf \<Longrightarrow> length (splice off bs buf) = length buf"
  by (simp add: splice_def)

lemma length_slice [simp]: "off + n \<le> length buf \<Longrightarrow> length (slice off n buf) = n"
  by (simp add: slice_def)

lemma splice_Nil [simp]: "splice off [] buf = buf"
  by (simp add: splice_def)

lemma slice_splice_same [simp]:
  "off + length bs \<le> length buf \<Longrightarrow> n = length bs \<Longrightarrow> slice off n (splice off bs buf) = bs"
  by (simp add: splice_def slice_def)

lemma nth_splice:
  assumes "off + length bs \<le> length buf" and "i < length buf"
  shows "splice off bs buf ! i =
    (if off \<le> i \<and> i < off + length bs then bs ! (i - off) else buf ! i)"
  using assms by (auto simp: splice_def nth_append)

lemma nth_slice: "off + n \<le> length buf \<Longrightarrow> i < n \<Longrightarrow> slice off n buf ! i = buf ! (off + i)"
  by (simp add: slice_def)

lemma slice_splice_disjoint:
  assumes "off + length bs \<le> length buf" and "o' + n \<le> length buf"
    and "o' + n \<le> off \<or> off + length bs \<le> o'"
  shows "slice o' n (splice off bs buf) = slice o' n buf"
  using assms by (auto intro!: nth_equalityI simp: nth_slice nth_splice)

lemma slice_take: "off + n \<le> m \<Longrightarrow> slice off n (take m buf) = slice off n buf"
  by (simp add: slice_def drop_take)

lemma slice_decompose: "take i m @ slice i n m @ drop (i + n) m = m"
  by (metis append_take_drop_id drop_drop slice_def add.commute)

lemma slice_0: "slice 0 n buf = take n buf"
  by (simp add: slice_def)

section \<open>State monad\<close>

text \<open>
  Stateful code is written in \<open>HOL-Library.State_Monad\<close>'s \<open>do\<close> notation. The library's \<open>get\<close>,
  \<open>set\<close> and \<open>update\<close> are complemented by projections and by updates of a record field.
\<close>

type_synonym ('s, 'a) st = "('s, 'a) state"

abbreviation return :: "'a \<Rightarrow> ('s, 'a) st" where "return \<equiv> State_Monad.return"

definition gets :: "('s \<Rightarrow> 'a) \<Rightarrow> ('s, 'a) st" where
  "gets f = State (\<lambda>s. (f s, s))"

definition modify :: "('s \<Rightarrow> 's) \<Rightarrow> ('s, unit) st" where
  "modify f = State (\<lambda>s. ((), f s))"

definition exec_st :: "('s, 'a) st \<Rightarrow> 's \<Rightarrow> 's" where
  "exec_st m s = snd (run_state m s)"

definition result_st :: "('s, 'a) st \<Rightarrow> 's \<Rightarrow> 'a" where
  "result_st m s = fst (run_state m s)"

lemma run_gets [simp]: "run_state (gets f) s = (f s, s)"
  by (simp add: gets_def)

lemma run_modify [simp]: "run_state (modify f) s = ((), f s)"
  by (simp add: modify_def)

section \<open>Weakest preconditions\<close>

definition wp :: "('s, 'a) st \<Rightarrow> ('a \<Rightarrow> 's \<Rightarrow> bool) \<Rightarrow> 's \<Rightarrow> bool" where
  "wp m Q s \<longleftrightarrow> Q (result_st m s) (exec_st m s)"

named_theorems wps "backward rules, one per construct or operation"

lemma wp_return [wps]: "Q a s \<Longrightarrow> wp (State_Monad.return a) Q s"
  by (simp add: wp_def result_st_def exec_st_def)

lemma wp_bind [wps]: "wp m (\<lambda>a. wp (f a) Q) s \<Longrightarrow> wp (State_Monad.bind m f) Q s"
  by (simp add: wp_def result_st_def exec_st_def case_prod_beta)

lemma wp_gets [wps]: "Q (f s) s \<Longrightarrow> wp (gets f) Q s"
  by (simp add: wp_def result_st_def exec_st_def)

lemma wp_get [wps]: "Q s s \<Longrightarrow> wp State_Monad.get Q s"
  by (simp add: wp_def result_st_def exec_st_def)

lemma wp_modify [wps]: "Q () (f s) \<Longrightarrow> wp (modify f) Q s"
  by (simp add: wp_def result_st_def exec_st_def)

lemma wp_if [wps]:
  "(c \<Longrightarrow> wp m Q s) \<Longrightarrow> (\<not> c \<Longrightarrow> wp n Q s) \<Longrightarrow> wp (if c then m else n) Q s"
  by simp

lemma wp_let [wps]: "(\<And>x. x = t \<Longrightarrow> wp (f x) Q s) \<Longrightarrow> wp (let x = t in f x) Q s"
  by simp

lemma wp_case_prod [wps]:
  "(\<And>a b. p = (a, b) \<Longrightarrow> wp (f a b) Q s) \<Longrightarrow> wp (case p of (a, b) \<Rightarrow> f a b) Q s"
  by (cases p) simp

lemma wp_case_option [wps]:
  "(x = None \<Longrightarrow> wp m Q s) \<Longrightarrow> (\<And>a. x = Some a \<Longrightarrow> wp (f a) Q s) \<Longrightarrow>
   wp (case x of None \<Rightarrow> m | Some a \<Rightarrow> f a) Q s"
  by (cases x) simp_all

lemma wp_case_sum [wps]:
  "(\<And>a. x = Inl a \<Longrightarrow> wp (f a) Q s) \<Longrightarrow> (\<And>b. x = Inr b \<Longrightarrow> wp (g b) Q s) \<Longrightarrow>
   wp (case x of Inl a \<Rightarrow> f a | Inr b \<Rightarrow> g b) Q s"
  by (cases x) simp_all

lemma wp_mono: "wp m Q s \<Longrightarrow> (\<And>a t. Q a t \<Longrightarrow> R a t) \<Longrightarrow> wp m R s"
  by (simp add: wp_def)

lemma wp_bindD: "wp (State_Monad.bind m f) Q s \<Longrightarrow> wp m (\<lambda>a. wp (f a) Q) s"
  by (simp add: wp_def result_st_def exec_st_def case_prod_beta)

lemma wp_conj: "wp m Q s \<Longrightarrow> wp m R s \<Longrightarrow> wp m (\<lambda>a t. Q a t \<and> R a t) s"
  by (simp add: wp_def)

lemma wp_exec: "wp m (\<lambda>a t. t = exec_st m s \<longrightarrow> a = result_st m s \<longrightarrow> Q a t) s \<Longrightarrow> wp m Q s"
  by (simp add: wp_def)

lemma wpD: "wp m Q s \<Longrightarrow> run_state m s = (a, t) \<Longrightarrow> Q a t"
  by (simp add: wp_def result_st_def exec_st_def)

lemma exec_stD: "wp m (\<lambda>_. P) s \<Longrightarrow> P (exec_st m s)"
  by (simp add: wp_def)

end
