(* ===== verification/Sidp_Defs.thy ===== *)
theory Sidp_Defs
  imports Prelude
begin

text \<open>
  The wire format of \<open>include/sidp_defs.hpp\<close>: protocol constants, enumerations and packed
  structures. An enumeration whose values the firmware itself chooses (status, target state, stop
  reason, loss reason) is a datatype with its wire code; one whose values arrive from the peer or
  the backend is a word with named constants, since a C++ enumeration of fixed underlying type
  holds any bit pattern. Every packed structure is a record with an encoder or decoder at the
  offsets of the packed layout, and a round-trip lemma for the pair.
\<close>

section \<open>Constants\<close>

abbreviation (input) PROTOCOL_VERSION :: u8 where "PROTOCOL_VERSION \<equiv> 1"
abbreviation (input) MAX_FRAME_SIZE :: nat where "MAX_FRAME_SIZE \<equiv> 8192"

abbreviation (input) KIND_REQUEST :: u8 where "KIND_REQUEST \<equiv> 1"
abbreviation (input) KIND_RESPONSE :: u8 where "KIND_RESPONSE \<equiv> 2"
abbreviation (input) KIND_EVENT :: u8 where "KIND_EVENT \<equiv> 3"
abbreviation (input) KIND_LOG_STREAM :: u8 where "KIND_LOG_STREAM \<equiv> 4"

abbreviation (input) OP_ATTACH :: u16 where "OP_ATTACH \<equiv> 0x0001"
abbreviation (input) OP_DETACH :: u16 where "OP_DETACH \<equiv> 0x0002"
abbreviation (input) OP_GET_STATE :: u16 where "OP_GET_STATE \<equiv> 0x0003"
abbreviation (input) OP_READ_MEMORY :: u16 where "OP_READ_MEMORY \<equiv> 0x0010"
abbreviation (input) OP_WRITE_MEMORY :: u16 where "OP_WRITE_MEMORY \<equiv> 0x0012"
abbreviation (input) OP_READ_REGISTERS :: u16 where "OP_READ_REGISTERS \<equiv> 0x0013"
abbreviation (input) OP_WRITE_REGISTERS :: u16 where "OP_WRITE_REGISTERS \<equiv> 0x0014"
abbreviation (input) OP_RUN :: u16 where "OP_RUN \<equiv> 0x0020"
abbreviation (input) OP_HALT :: u16 where "OP_HALT \<equiv> 0x0021"
abbreviation (input) OP_RESET_HALT :: u16 where "OP_RESET_HALT \<equiv> 0x0022"
abbreviation (input) OP_RESET_RUN :: u16 where "OP_RESET_RUN \<equiv> 0x0023"
abbreviation (input) EVT_STOPPED :: u16 where "EVT_STOPPED \<equiv> 0x0080"
abbreviation (input) EVT_TARGET_LOST :: u16 where "EVT_TARGET_LOST \<equiv> 0x0081"

abbreviation (input) CAP_STOP_SNAPSHOT :: u32 where "CAP_STOP_SNAPSHOT \<equiv> 0x0001"
abbreviation (input) CAP_MEMORY_VECTOR :: u32 where "CAP_MEMORY_VECTOR \<equiv> 0x0002"
abbreviation (input) CAP_SOFTWARE_BP :: u32 where "CAP_SOFTWARE_BP \<equiv> 0x0004"
abbreviation (input) CAP_HARDWARE_BP :: u32 where "CAP_HARDWARE_BP \<equiv> 0x0008"
abbreviation (input) CAP_WATCHPOINT :: u32 where "CAP_WATCHPOINT \<equiv> 0x0010"
abbreviation (input) CAP_SINGLE_STEP :: u32 where "CAP_SINGLE_STEP \<equiv> 0x0020"
abbreviation (input) CAP_RESET_HALT :: u32 where "CAP_RESET_HALT \<equiv> 0x0040"
abbreviation (input) CAP_FPU :: u32 where "CAP_FPU \<equiv> 0x0200"
abbreviation (input) CAP_RESET_SYSTEM :: u32 where "CAP_RESET_SYSTEM \<equiv> 0x0400"
abbreviation (input) CAP_RESET_NRST :: u32 where "CAP_RESET_NRST \<equiv> 0x0800"
abbreviation (input) CAP_RESET_RUN :: u32 where "CAP_RESET_RUN \<equiv> 0x1000"

abbreviation (input) MEMORY_RAM :: u8 where "MEMORY_RAM \<equiv> 1"
abbreviation (input) MEMORY_FLASH :: u8 where "MEMORY_FLASH \<equiv> 2"
abbreviation (input) MEMORY_MMIO :: u8 where "MEMORY_MMIO \<equiv> 3"

abbreviation (input) MEM_READ :: u8 where "MEM_READ \<equiv> 1"
abbreviation (input) MEM_WRITE :: u8 where "MEM_WRITE \<equiv> 2"
abbreviation (input) MEM_EXECUTE :: u8 where "MEM_EXECUTE \<equiv> 4"

abbreviation (input) VECTOR_CATCH_NONE :: u32 where "VECTOR_CATCH_NONE \<equiv> 0"

abbreviation (input) REGISTER_VALUE_FLAG_NONE :: u8 where "REGISTER_VALUE_FLAG_NONE \<equiv> 0"
abbreviation (input) REGISTER_VALUE_FLAG_UNAVAILABLE :: u8 where "REGISTER_VALUE_FLAG_UNAVAILABLE \<equiv> 1"
abbreviation (input) ARM_REG_SP :: u16 where "ARM_REG_SP \<equiv> 0x000D"
abbreviation (input) ARM_REG_PC :: u16 where "ARM_REG_PC \<equiv> 0x000F"

abbreviation (input) MEM_ACCESS_REQUIRE_HALTED :: u16 where "MEM_ACCESS_REQUIRE_HALTED \<equiv> 1"
abbreviation (input) MEM_ACCESS_ALLOW_RUNNING :: u16 where "MEM_ACCESS_ALLOW_RUNNING \<equiv> 2"
abbreviation (input) MEM_ACCESS_ALLOW_MMIO :: u16 where "MEM_ACCESS_ALLOW_MMIO \<equiv> 4"

abbreviation (input) MEM_WIDTH_DEFAULT :: u8 where "MEM_WIDTH_DEFAULT \<equiv> 0"
abbreviation (input) MEM_WIDTH_8 :: u8 where "MEM_WIDTH_8 \<equiv> 1"
abbreviation (input) MEM_WIDTH_16 :: u8 where "MEM_WIDTH_16 \<equiv> 2"
abbreviation (input) MEM_WIDTH_32 :: u8 where "MEM_WIDTH_32 \<equiv> 4"

abbreviation (input) BREAKPOINT_HARDWARE :: u8 where "BREAKPOINT_HARDWARE \<equiv> 1"
abbreviation (input) BREAKPOINT_SOFTWARE :: u8 where "BREAKPOINT_SOFTWARE \<equiv> 2"

abbreviation (input) WATCH_READ :: u8 where "WATCH_READ \<equiv> 1"
abbreviation (input) WATCH_WRITE :: u8 where "WATCH_WRITE \<equiv> 2"
abbreviation (input) WATCH_READ_WRITE :: u8 where "WATCH_READ_WRITE \<equiv> 3"

abbreviation (input) RUN_CONTINUE :: u8 where "RUN_CONTINUE \<equiv> 1"
abbreviation (input) RUN_SINGLE_STEP :: u8 where "RUN_SINGLE_STEP \<equiv> 2"
abbreviation (input) RUN_TO_ADDRESS :: u8 where "RUN_TO_ADDRESS \<equiv> 3"

abbreviation (input) RESET_SYSTEM :: u8 where "RESET_SYSTEM \<equiv> 1"
abbreviation (input) RESET_NRST :: u8 where "RESET_NRST \<equiv> 2"

abbreviation (input) DETACH_KEEP_HALTED :: u8 where "DETACH_KEEP_HALTED \<equiv> 1"
abbreviation (input) DETACH_RESUME :: u8 where "DETACH_RESUME \<equiv> 2"

abbreviation (input) MANAGEMENT_OPCODE_BASE :: u16 where "MANAGEMENT_OPCODE_BASE \<equiv> 0x0100"

text \<open>Values of the protocol that this firmware neither sends nor tests.\<close>

abbreviation (input) OP_READ_MEMORY_VECTOR :: u16 where "OP_READ_MEMORY_VECTOR \<equiv> 0x0011"
abbreviation (input) OP_SET_LOG_STREAM :: u16 where "OP_SET_LOG_STREAM \<equiv> 0x0030"
abbreviation (input) OP_LOG_DATA :: u16 where "OP_LOG_DATA \<equiv> 0x0031"
abbreviation (input) OP_ATTACH_GDB_STUB :: u16 where "OP_ATTACH_GDB_STUB \<equiv> 0x0040"
abbreviation (input) OP_DEVICE_INFO :: u16 where "OP_DEVICE_INFO \<equiv> 0x0100"
abbreviation (input) OP_SET_TIME :: u16 where "OP_SET_TIME \<equiv> 0x0101"
abbreviation (input) OP_ASSET_BEGIN :: u16 where "OP_ASSET_BEGIN \<equiv> 0x0110"
abbreviation (input) OP_ASSET_WRITE :: u16 where "OP_ASSET_WRITE \<equiv> 0x0111"
abbreviation (input) OP_ASSET_COMMIT :: u16 where "OP_ASSET_COMMIT \<equiv> 0x0112"
abbreviation (input) OP_JOB_SET :: u16 where "OP_JOB_SET \<equiv> 0x0120"
abbreviation (input) OP_JOB_GET :: u16 where "OP_JOB_GET \<equiv> 0x0121"
abbreviation (input) OP_JOB_RUN_ONCE :: u16 where "OP_JOB_RUN_ONCE \<equiv> 0x0122"
abbreviation (input) OP_JOB_CANCEL :: u16 where "OP_JOB_CANCEL \<equiv> 0x0123"
abbreviation (input) OP_LOG_READ :: u16 where "OP_LOG_READ \<equiv> 0x0130"
abbreviation (input) OP_LOG_ACK :: u16 where "OP_LOG_ACK \<equiv> 0x0131"

abbreviation (input) ARCH_ARM_M :: u8 where "ARCH_ARM_M \<equiv> 1"
abbreviation (input) ARCH_RISCV :: u8 where "ARCH_RISCV \<equiv> 2"
abbreviation (input) ARCH_XTENSA :: u8 where "ARCH_XTENSA \<equiv> 3"

abbreviation (input) PROFILE_ARMV6M :: u8 where "PROFILE_ARMV6M \<equiv> 1"
abbreviation (input) PROFILE_ARMV7M :: u8 where "PROFILE_ARMV7M \<equiv> 2"
abbreviation (input) PROFILE_ARMV7EM :: u8 where "PROFILE_ARMV7EM \<equiv> 3"
abbreviation (input) PROFILE_ARMV8M_BASE :: u8 where "PROFILE_ARMV8M_BASE \<equiv> 4"
abbreviation (input) PROFILE_ARMV8M_MAIN :: u8 where "PROFILE_ARMV8M_MAIN \<equiv> 5"
abbreviation (input) PROFILE_ARMV81M_MAIN :: u8 where "PROFILE_ARMV81M_MAIN \<equiv> 6"
abbreviation (input) PROFILE_RV32 :: u8 where "PROFILE_RV32 \<equiv> 32"
abbreviation (input) PROFILE_RV64 :: u8 where "PROFILE_RV64 \<equiv> 33"
abbreviation (input) PROFILE_XTENSA_ESP32 :: u8 where "PROFILE_XTENSA_ESP32 \<equiv> 40"
abbreviation (input) PROFILE_XTENSA_ESP32S2 :: u8 where "PROFILE_XTENSA_ESP32S2 \<equiv> 41"
abbreviation (input) PROFILE_XTENSA_ESP32S3 :: u8 where "PROFILE_XTENSA_ESP32S3 \<equiv> 42"

abbreviation (input) CAP_UART_LOG_STREAM :: u32 where "CAP_UART_LOG_STREAM \<equiv> 0x0080"
abbreviation (input) CAP_RTT_LOG_STREAM :: u32 where "CAP_RTT_LOG_STREAM \<equiv> 0x0100"
abbreviation (input) CAP_POST_MORTEM :: u32 where "CAP_POST_MORTEM \<equiv> 0x2000"
abbreviation (input) CAP_TARGET_GDB_STUB :: u32 where "CAP_TARGET_GDB_STUB \<equiv> 0x4000"

abbreviation (input) MEM_CACHEABLE :: u8 where "MEM_CACHEABLE \<equiv> 8"
abbreviation (input) MEM_VOLATILE :: u8 where "MEM_VOLATILE \<equiv> 16"

abbreviation (input) VECTOR_CATCH_RESET :: u32 where "VECTOR_CATCH_RESET \<equiv> 0x0001"
abbreviation (input) VECTOR_CATCH_HARD_FAULT :: u32 where "VECTOR_CATCH_HARD_FAULT \<equiv> 0x0002"
abbreviation (input) VECTOR_CATCH_MEM_MANAGE :: u32 where "VECTOR_CATCH_MEM_MANAGE \<equiv> 0x0004"
abbreviation (input) VECTOR_CATCH_BUS_FAULT :: u32 where "VECTOR_CATCH_BUS_FAULT \<equiv> 0x0008"
abbreviation (input) VECTOR_CATCH_USAGE_FAULT :: u32 where "VECTOR_CATCH_USAGE_FAULT \<equiv> 0x0010"

abbreviation (input) ARM_REG_R0 :: u16 where "ARM_REG_R0 \<equiv> 0x0000"
abbreviation (input) ARM_REG_R1 :: u16 where "ARM_REG_R1 \<equiv> 0x0001"
abbreviation (input) ARM_REG_R2 :: u16 where "ARM_REG_R2 \<equiv> 0x0002"
abbreviation (input) ARM_REG_R3 :: u16 where "ARM_REG_R3 \<equiv> 0x0003"
abbreviation (input) ARM_REG_R4 :: u16 where "ARM_REG_R4 \<equiv> 0x0004"
abbreviation (input) ARM_REG_R5 :: u16 where "ARM_REG_R5 \<equiv> 0x0005"
abbreviation (input) ARM_REG_R6 :: u16 where "ARM_REG_R6 \<equiv> 0x0006"
abbreviation (input) ARM_REG_R7 :: u16 where "ARM_REG_R7 \<equiv> 0x0007"
abbreviation (input) ARM_REG_R8 :: u16 where "ARM_REG_R8 \<equiv> 0x0008"
abbreviation (input) ARM_REG_R9 :: u16 where "ARM_REG_R9 \<equiv> 0x0009"
abbreviation (input) ARM_REG_R10 :: u16 where "ARM_REG_R10 \<equiv> 0x000A"
abbreviation (input) ARM_REG_R11 :: u16 where "ARM_REG_R11 \<equiv> 0x000B"
abbreviation (input) ARM_REG_R12 :: u16 where "ARM_REG_R12 \<equiv> 0x000C"
abbreviation (input) ARM_REG_LR :: u16 where "ARM_REG_LR \<equiv> 0x000E"
abbreviation (input) ARM_REG_XPSR :: u16 where "ARM_REG_XPSR \<equiv> 0x0010"
abbreviation (input) ARM_REG_MSP :: u16 where "ARM_REG_MSP \<equiv> 0x0011"
abbreviation (input) ARM_REG_PSP :: u16 where "ARM_REG_PSP \<equiv> 0x0012"
abbreviation (input) ARM_REG_PRIMASK :: u16 where "ARM_REG_PRIMASK \<equiv> 0x0013"
abbreviation (input) ARM_REG_BASEPRI :: u16 where "ARM_REG_BASEPRI \<equiv> 0x0014"
abbreviation (input) ARM_REG_FAULTMASK :: u16 where "ARM_REG_FAULTMASK \<equiv> 0x0015"
abbreviation (input) ARM_REG_CONTROL :: u16 where "ARM_REG_CONTROL \<equiv> 0x0016"
abbreviation (input) ARM_REG_S0 :: u16 where "ARM_REG_S0 \<equiv> 0x0040"
abbreviation (input) ARM_REG_S1 :: u16 where "ARM_REG_S1 \<equiv> 0x0041"
abbreviation (input) ARM_REG_S2 :: u16 where "ARM_REG_S2 \<equiv> 0x0042"
abbreviation (input) ARM_REG_S3 :: u16 where "ARM_REG_S3 \<equiv> 0x0043"
abbreviation (input) ARM_REG_S4 :: u16 where "ARM_REG_S4 \<equiv> 0x0044"
abbreviation (input) ARM_REG_S5 :: u16 where "ARM_REG_S5 \<equiv> 0x0045"
abbreviation (input) ARM_REG_S6 :: u16 where "ARM_REG_S6 \<equiv> 0x0046"
abbreviation (input) ARM_REG_S7 :: u16 where "ARM_REG_S7 \<equiv> 0x0047"
abbreviation (input) ARM_REG_S8 :: u16 where "ARM_REG_S8 \<equiv> 0x0048"
abbreviation (input) ARM_REG_S9 :: u16 where "ARM_REG_S9 \<equiv> 0x0049"
abbreviation (input) ARM_REG_S10 :: u16 where "ARM_REG_S10 \<equiv> 0x004A"
abbreviation (input) ARM_REG_S11 :: u16 where "ARM_REG_S11 \<equiv> 0x004B"
abbreviation (input) ARM_REG_S12 :: u16 where "ARM_REG_S12 \<equiv> 0x004C"
abbreviation (input) ARM_REG_S13 :: u16 where "ARM_REG_S13 \<equiv> 0x004D"
abbreviation (input) ARM_REG_S14 :: u16 where "ARM_REG_S14 \<equiv> 0x004E"
abbreviation (input) ARM_REG_S15 :: u16 where "ARM_REG_S15 \<equiv> 0x004F"
abbreviation (input) ARM_REG_S16 :: u16 where "ARM_REG_S16 \<equiv> 0x0050"
abbreviation (input) ARM_REG_S17 :: u16 where "ARM_REG_S17 \<equiv> 0x0051"
abbreviation (input) ARM_REG_S18 :: u16 where "ARM_REG_S18 \<equiv> 0x0052"
abbreviation (input) ARM_REG_S19 :: u16 where "ARM_REG_S19 \<equiv> 0x0053"
abbreviation (input) ARM_REG_S20 :: u16 where "ARM_REG_S20 \<equiv> 0x0054"
abbreviation (input) ARM_REG_S21 :: u16 where "ARM_REG_S21 \<equiv> 0x0055"
abbreviation (input) ARM_REG_S22 :: u16 where "ARM_REG_S22 \<equiv> 0x0056"
abbreviation (input) ARM_REG_S23 :: u16 where "ARM_REG_S23 \<equiv> 0x0057"
abbreviation (input) ARM_REG_S24 :: u16 where "ARM_REG_S24 \<equiv> 0x0058"
abbreviation (input) ARM_REG_S25 :: u16 where "ARM_REG_S25 \<equiv> 0x0059"
abbreviation (input) ARM_REG_S26 :: u16 where "ARM_REG_S26 \<equiv> 0x005A"
abbreviation (input) ARM_REG_S27 :: u16 where "ARM_REG_S27 \<equiv> 0x005B"
abbreviation (input) ARM_REG_S28 :: u16 where "ARM_REG_S28 \<equiv> 0x005C"
abbreviation (input) ARM_REG_S29 :: u16 where "ARM_REG_S29 \<equiv> 0x005D"
abbreviation (input) ARM_REG_S30 :: u16 where "ARM_REG_S30 \<equiv> 0x005E"
abbreviation (input) ARM_REG_S31 :: u16 where "ARM_REG_S31 \<equiv> 0x005F"
abbreviation (input) ARM_REG_FPSCR :: u16 where "ARM_REG_FPSCR \<equiv> 0x0060"

abbreviation (input) BREAKPOINT_AUTO :: u8 where "BREAKPOINT_AUTO \<equiv> 0"

abbreviation (input) RUN_FLAG_NONE :: u8 where "RUN_FLAG_NONE \<equiv> 0"

abbreviation (input) STOPPED_FLAG_NONE :: u8 where "STOPPED_FLAG_NONE \<equiv> 0"

abbreviation (input) LOG_CHANNEL_TARGET_UART0 :: u16 where "LOG_CHANNEL_TARGET_UART0 \<equiv> 0x0001"
abbreviation (input) LOG_CHANNEL_TARGET_RTT_UP_0 :: u16 where "LOG_CHANNEL_TARGET_RTT_UP_0 \<equiv> 0x0100"
abbreviation (input) LOG_CHANNEL_TARGET_RTT_UP_1 :: u16 where "LOG_CHANNEL_TARGET_RTT_UP_1 \<equiv> 0x0101"
abbreviation (input) LOG_CHANNEL_TARGET_RTT_UP_2 :: u16 where "LOG_CHANNEL_TARGET_RTT_UP_2 \<equiv> 0x0102"
abbreviation (input) LOG_CHANNEL_TARGET_RTT_UP_3 :: u16 where "LOG_CHANNEL_TARGET_RTT_UP_3 \<equiv> 0x0103"

abbreviation (input) LOG_SOURCE_UART :: u8 where "LOG_SOURCE_UART \<equiv> 1"
abbreviation (input) LOG_SOURCE_RTT :: u8 where "LOG_SOURCE_RTT \<equiv> 2"

abbreviation (input) LOG_DISABLE :: u8 where "LOG_DISABLE \<equiv> 0"
abbreviation (input) LOG_ENABLE :: u8 where "LOG_ENABLE \<equiv> 1"

section \<open>Enumerations the firmware chooses\<close>

datatype status_t =
    STATUS_OK | STATUS_ERROR | STATUS_INVALID_ARGUMENT | STATUS_UNSUPPORTED | STATUS_BUSY
  | STATUS_TIMEOUT | STATUS_TARGET_RUNNING | STATUS_TARGET_HALTED | STATUS_TARGET_LOST
  | STATUS_STALE_STOP | STATUS_SWD_ERROR | STATUS_ADDRESS_ERROR | STATUS_NO_BREAKPOINT_SLOT
  | STATUS_NO_WATCHPOINT_SLOT | STATUS_ALIGNMENT_ERROR | STATUS_TARGET_MISMATCH | STATUS_LOG_FULL

fun status_code :: "status_t \<Rightarrow> u32" where
  "status_code STATUS_OK = 0"
| "status_code STATUS_ERROR = 1"
| "status_code STATUS_INVALID_ARGUMENT = 2"
| "status_code STATUS_UNSUPPORTED = 3"
| "status_code STATUS_BUSY = 4"
| "status_code STATUS_TIMEOUT = 5"
| "status_code STATUS_TARGET_RUNNING = 10"
| "status_code STATUS_TARGET_HALTED = 11"
| "status_code STATUS_TARGET_LOST = 12"
| "status_code STATUS_STALE_STOP = 13"
| "status_code STATUS_SWD_ERROR = 20"
| "status_code STATUS_ADDRESS_ERROR = 21"
| "status_code STATUS_NO_BREAKPOINT_SLOT = 22"
| "status_code STATUS_NO_WATCHPOINT_SLOT = 23"
| "status_code STATUS_ALIGNMENT_ERROR = 24"
| "status_code STATUS_TARGET_MISMATCH = 25"
| "status_code STATUS_LOG_FULL = 30"

lemma status_code_inject [simp]: "status_code a = status_code b \<longleftrightarrow> a = b"
  by (cases a; cases b; simp)

datatype target_state_t = TARGET_DETACHED | TARGET_HALTED | TARGET_RUNNING | TARGET_LOST

fun target_state_code :: "target_state_t \<Rightarrow> u8" where
  "target_state_code TARGET_DETACHED = 0"
| "target_state_code TARGET_HALTED = 1"
| "target_state_code TARGET_RUNNING = 2"
| "target_state_code TARGET_LOST = 3"

datatype stop_reason_t =
    STOP_UNKNOWN | STOP_BREAKPOINT | STOP_WATCHPOINT | STOP_SINGLE_STEP | STOP_USER_HALT
  | STOP_VECTOR_CATCH | STOP_FAULT | STOP_RESET | STOP_LOCKUP | STOP_RUN_TO_ADDRESS

fun stop_reason_code :: "stop_reason_t \<Rightarrow> u8" where
  "stop_reason_code STOP_UNKNOWN = 0"
| "stop_reason_code STOP_BREAKPOINT = 1"
| "stop_reason_code STOP_WATCHPOINT = 2"
| "stop_reason_code STOP_SINGLE_STEP = 3"
| "stop_reason_code STOP_USER_HALT = 4"
| "stop_reason_code STOP_VECTOR_CATCH = 5"
| "stop_reason_code STOP_FAULT = 6"
| "stop_reason_code STOP_RESET = 7"
| "stop_reason_code STOP_LOCKUP = 8"
| "stop_reason_code STOP_RUN_TO_ADDRESS = 9"

datatype target_lost_reason_t =
  TARGET_LOST_SWD_FAULT | TARGET_LOST_POWER | TARGET_LOST_DISCONNECT | TARGET_LOST_TIMEOUT

fun target_lost_reason_code :: "target_lost_reason_t \<Rightarrow> u8" where
  "target_lost_reason_code TARGET_LOST_SWD_FAULT = 1"
| "target_lost_reason_code TARGET_LOST_POWER = 2"
| "target_lost_reason_code TARGET_LOST_DISCONNECT = 3"
| "target_lost_reason_code TARGET_LOST_TIMEOUT = 4"

section \<open>Packed structures\<close>

text \<open>
  A field is read with \<open>le_word\<close> from the slice at its packed offset. A reserved field of three
  bytes is split into one byte and one halfword.
\<close>

named_theorems wire "round trips of the packed structures"

record msg_header =
  hdr_version :: u8
  hdr_kind :: u8
  hdr_opcode :: u16
  hdr_request_id :: u32
  hdr_crc32 :: u32

abbreviation (input) SIZEOF_msg_header :: nat where "SIZEOF_msg_header \<equiv> 12"

definition enc_msg_header :: "msg_header \<Rightarrow> bytes" where
  "enc_msg_header r =
     le_bytes 1 (hdr_version r) @ le_bytes 1 (hdr_kind r) @ le_bytes 2 (hdr_opcode r) @
     le_bytes 4 (hdr_request_id r) @ le_bytes 4 (hdr_crc32 r)"

definition dec_msg_header :: "bytes \<Rightarrow> msg_header" where
  "dec_msg_header bs = \<lparr>
     hdr_version = le_word (slice 0 1 bs),
     hdr_kind = le_word (slice 1 1 bs),
     hdr_opcode = le_word (slice 2 2 bs),
     hdr_request_id = le_word (slice 4 4 bs),
     hdr_crc32 = le_word (slice 8 4 bs)\<rparr>"

lemma length_enc_msg_header [simp]: "length (enc_msg_header r) = SIZEOF_msg_header"
  by (simp add: enc_msg_header_def)

lemma dec_enc_msg_header [wire]: "dec_msg_header (enc_msg_header r @ rest) = r"
  by (simp add: enc_msg_header_def dec_msg_header_def slice_def)

record memory_region =
  mr_start :: u64
  mr_length :: u64
  mr_type :: u8
  mr_flags :: u8
  mr_reserved :: u16

abbreviation (input) SIZEOF_memory_region :: nat where "SIZEOF_memory_region \<equiv> 20"

definition enc_memory_region :: "memory_region \<Rightarrow> bytes" where
  "enc_memory_region r =
     le_bytes 8 (mr_start r) @ le_bytes 8 (mr_length r) @ le_bytes 1 (mr_type r) @
     le_bytes 1 (mr_flags r) @ le_bytes 2 (mr_reserved r)"

definition dec_memory_region :: "bytes \<Rightarrow> memory_region" where
  "dec_memory_region bs = \<lparr>
     mr_start = le_word (slice 0 8 bs),
     mr_length = le_word (slice 8 8 bs),
     mr_type = le_word (slice 16 1 bs),
     mr_flags = le_word (slice 17 1 bs),
     mr_reserved = le_word (slice 18 2 bs)\<rparr>"

lemma length_enc_memory_region [simp]: "length (enc_memory_region r) = SIZEOF_memory_region"
  by (simp add: enc_memory_region_def)

lemma dec_enc_memory_region [wire]: "dec_memory_region (enc_memory_region r @ rest) = r"
  by (simp add: enc_memory_region_def dec_memory_region_def slice_def)

record attach_request =
  areq_initial_stack_before :: u16
  areq_initial_stack_after :: u16
  areq_connect_under_reset :: u8
  areq_halt_after_attach :: u8
  areq_reserved :: u16

abbreviation (input) SIZEOF_attach_request :: nat where "SIZEOF_attach_request \<equiv> 8"

definition enc_attach_request :: "attach_request \<Rightarrow> bytes" where
  "enc_attach_request r =
     le_bytes 2 (areq_initial_stack_before r) @ le_bytes 2 (areq_initial_stack_after r) @ le_bytes 1 (areq_connect_under_reset r) @
     le_bytes 1 (areq_halt_after_attach r) @ le_bytes 2 (areq_reserved r)"

definition dec_attach_request :: "bytes \<Rightarrow> attach_request" where
  "dec_attach_request bs = \<lparr>
     areq_initial_stack_before = le_word (slice 0 2 bs),
     areq_initial_stack_after = le_word (slice 2 2 bs),
     areq_connect_under_reset = le_word (slice 4 1 bs),
     areq_halt_after_attach = le_word (slice 5 1 bs),
     areq_reserved = le_word (slice 6 2 bs)\<rparr>"

lemma length_enc_attach_request [simp]: "length (enc_attach_request r) = SIZEOF_attach_request"
  by (simp add: enc_attach_request_def)

lemma dec_enc_attach_request [wire]: "dec_attach_request (enc_attach_request r @ rest) = r"
  by (simp add: enc_attach_request_def dec_attach_request_def slice_def)

record attach_response =
  ares_status :: u32
  ares_architecture :: u8
  ares_profile :: u8
  ares_address_width :: u8
  ares_reserved0 :: u8
  ares_capabilities :: u32
  ares_target_id :: u32
  ares_cpu_id :: u32
  ares_supported_vector_catch_mask :: u32
  ares_hardware_breakpoints :: u16
  ares_hardware_watchpoints :: u16
  ares_memory_region_count :: u16
  ares_max_memory_transfer :: u16

abbreviation (input) SIZEOF_attach_response :: nat where "SIZEOF_attach_response \<equiv> 32"

definition enc_attach_response :: "attach_response \<Rightarrow> bytes" where
  "enc_attach_response r =
     le_bytes 4 (ares_status r) @ le_bytes 1 (ares_architecture r) @ le_bytes 1 (ares_profile r) @
     le_bytes 1 (ares_address_width r) @ le_bytes 1 (ares_reserved0 r) @ le_bytes 4 (ares_capabilities r) @
     le_bytes 4 (ares_target_id r) @ le_bytes 4 (ares_cpu_id r) @ le_bytes 4 (ares_supported_vector_catch_mask r) @
     le_bytes 2 (ares_hardware_breakpoints r) @ le_bytes 2 (ares_hardware_watchpoints r) @ le_bytes 2 (ares_memory_region_count r) @
     le_bytes 2 (ares_max_memory_transfer r)"

definition dec_attach_response :: "bytes \<Rightarrow> attach_response" where
  "dec_attach_response bs = \<lparr>
     ares_status = le_word (slice 0 4 bs),
     ares_architecture = le_word (slice 4 1 bs),
     ares_profile = le_word (slice 5 1 bs),
     ares_address_width = le_word (slice 6 1 bs),
     ares_reserved0 = le_word (slice 7 1 bs),
     ares_capabilities = le_word (slice 8 4 bs),
     ares_target_id = le_word (slice 12 4 bs),
     ares_cpu_id = le_word (slice 16 4 bs),
     ares_supported_vector_catch_mask = le_word (slice 20 4 bs),
     ares_hardware_breakpoints = le_word (slice 24 2 bs),
     ares_hardware_watchpoints = le_word (slice 26 2 bs),
     ares_memory_region_count = le_word (slice 28 2 bs),
     ares_max_memory_transfer = le_word (slice 30 2 bs)\<rparr>"

lemma length_enc_attach_response [simp]: "length (enc_attach_response r) = SIZEOF_attach_response"
  by (simp add: enc_attach_response_def)

lemma dec_enc_attach_response [wire]: "dec_attach_response (enc_attach_response r @ rest) = r"
  by (simp add: enc_attach_response_def dec_attach_response_def slice_def)

record get_state_response =
  gsr_status :: u32
  gsr_target_state :: u8
  gsr_reserved_lo :: u8
  gsr_reserved_hi :: u16
  gsr_stop_id :: u32

abbreviation (input) SIZEOF_get_state_response :: nat where "SIZEOF_get_state_response \<equiv> 12"

definition enc_get_state_response :: "get_state_response \<Rightarrow> bytes" where
  "enc_get_state_response r =
     le_bytes 4 (gsr_status r) @ le_bytes 1 (gsr_target_state r) @ le_bytes 1 (gsr_reserved_lo r) @
     le_bytes 2 (gsr_reserved_hi r) @ le_bytes 4 (gsr_stop_id r)"

definition dec_get_state_response :: "bytes \<Rightarrow> get_state_response" where
  "dec_get_state_response bs = \<lparr>
     gsr_status = le_word (slice 0 4 bs),
     gsr_target_state = le_word (slice 4 1 bs),
     gsr_reserved_lo = le_word (slice 5 1 bs),
     gsr_reserved_hi = le_word (slice 6 2 bs),
     gsr_stop_id = le_word (slice 8 4 bs)\<rparr>"

lemma length_enc_get_state_response [simp]: "length (enc_get_state_response r) = SIZEOF_get_state_response"
  by (simp add: enc_get_state_response_def)

lemma dec_enc_get_state_response [wire]: "dec_get_state_response (enc_get_state_response r @ rest) = r"
  by (simp add: enc_get_state_response_def dec_get_state_response_def slice_def)

record register_value =
  rv_register_id :: u16
  rv_value_size :: u8
  rv_flags :: u8

abbreviation (input) SIZEOF_register_value :: nat where "SIZEOF_register_value \<equiv> 4"

definition enc_register_value :: "register_value \<Rightarrow> bytes" where
  "enc_register_value r =
     le_bytes 2 (rv_register_id r) @ le_bytes 1 (rv_value_size r) @ le_bytes 1 (rv_flags r)"

definition dec_register_value :: "bytes \<Rightarrow> register_value" where
  "dec_register_value bs = \<lparr>
     rv_register_id = le_word (slice 0 2 bs),
     rv_value_size = le_word (slice 2 1 bs),
     rv_flags = le_word (slice 3 1 bs)\<rparr>"

lemma length_enc_register_value [simp]: "length (enc_register_value r) = SIZEOF_register_value"
  by (simp add: enc_register_value_def)

lemma dec_enc_register_value [wire]: "dec_register_value (enc_register_value r @ rest) = r"
  by (simp add: enc_register_value_def dec_register_value_def slice_def)

record read_registers_request =
  rrq_stop_id :: u32
  rrq_core_id :: u16
  rrq_register_count :: u16

abbreviation (input) SIZEOF_read_registers_request :: nat where "SIZEOF_read_registers_request \<equiv> 8"

definition enc_read_registers_request :: "read_registers_request \<Rightarrow> bytes" where
  "enc_read_registers_request r =
     le_bytes 4 (rrq_stop_id r) @ le_bytes 2 (rrq_core_id r) @ le_bytes 2 (rrq_register_count r)"

definition dec_read_registers_request :: "bytes \<Rightarrow> read_registers_request" where
  "dec_read_registers_request bs = \<lparr>
     rrq_stop_id = le_word (slice 0 4 bs),
     rrq_core_id = le_word (slice 4 2 bs),
     rrq_register_count = le_word (slice 6 2 bs)\<rparr>"

lemma length_enc_read_registers_request [simp]: "length (enc_read_registers_request r) = SIZEOF_read_registers_request"
  by (simp add: enc_read_registers_request_def)

lemma dec_enc_read_registers_request [wire]: "dec_read_registers_request (enc_read_registers_request r @ rest) = r"
  by (simp add: enc_read_registers_request_def dec_read_registers_request_def slice_def)

record read_registers_response =
  rrs_status :: u32
  rrs_stop_id :: u32
  rrs_register_count :: u16
  rrs_reserved :: u16

abbreviation (input) SIZEOF_read_registers_response :: nat where "SIZEOF_read_registers_response \<equiv> 12"

definition enc_read_registers_response :: "read_registers_response \<Rightarrow> bytes" where
  "enc_read_registers_response r =
     le_bytes 4 (rrs_status r) @ le_bytes 4 (rrs_stop_id r) @ le_bytes 2 (rrs_register_count r) @
     le_bytes 2 (rrs_reserved r)"

definition dec_read_registers_response :: "bytes \<Rightarrow> read_registers_response" where
  "dec_read_registers_response bs = \<lparr>
     rrs_status = le_word (slice 0 4 bs),
     rrs_stop_id = le_word (slice 4 4 bs),
     rrs_register_count = le_word (slice 8 2 bs),
     rrs_reserved = le_word (slice 10 2 bs)\<rparr>"

lemma length_enc_read_registers_response [simp]: "length (enc_read_registers_response r) = SIZEOF_read_registers_response"
  by (simp add: enc_read_registers_response_def)

lemma dec_enc_read_registers_response [wire]: "dec_read_registers_response (enc_read_registers_response r @ rest) = r"
  by (simp add: enc_read_registers_response_def dec_read_registers_response_def slice_def)

record write_registers_request =
  wrq_stop_id :: u32
  wrq_core_id :: u16
  wrq_register_count :: u16

abbreviation (input) SIZEOF_write_registers_request :: nat where "SIZEOF_write_registers_request \<equiv> 8"

definition enc_write_registers_request :: "write_registers_request \<Rightarrow> bytes" where
  "enc_write_registers_request r =
     le_bytes 4 (wrq_stop_id r) @ le_bytes 2 (wrq_core_id r) @ le_bytes 2 (wrq_register_count r)"

definition dec_write_registers_request :: "bytes \<Rightarrow> write_registers_request" where
  "dec_write_registers_request bs = \<lparr>
     wrq_stop_id = le_word (slice 0 4 bs),
     wrq_core_id = le_word (slice 4 2 bs),
     wrq_register_count = le_word (slice 6 2 bs)\<rparr>"

lemma length_enc_write_registers_request [simp]: "length (enc_write_registers_request r) = SIZEOF_write_registers_request"
  by (simp add: enc_write_registers_request_def)

lemma dec_enc_write_registers_request [wire]: "dec_write_registers_request (enc_write_registers_request r @ rest) = r"
  by (simp add: enc_write_registers_request_def dec_write_registers_request_def slice_def)

record read_memory_request =
  rmq_stop_id :: u32
  rmq_address :: u64
  rmq_length :: u32
  rmq_flags :: u16
  rmq_access_width :: u8
  rmq_reserved :: u8

abbreviation (input) SIZEOF_read_memory_request :: nat where "SIZEOF_read_memory_request \<equiv> 20"

definition enc_read_memory_request :: "read_memory_request \<Rightarrow> bytes" where
  "enc_read_memory_request r =
     le_bytes 4 (rmq_stop_id r) @ le_bytes 8 (rmq_address r) @ le_bytes 4 (rmq_length r) @
     le_bytes 2 (rmq_flags r) @ le_bytes 1 (rmq_access_width r) @ le_bytes 1 (rmq_reserved r)"

definition dec_read_memory_request :: "bytes \<Rightarrow> read_memory_request" where
  "dec_read_memory_request bs = \<lparr>
     rmq_stop_id = le_word (slice 0 4 bs),
     rmq_address = le_word (slice 4 8 bs),
     rmq_length = le_word (slice 12 4 bs),
     rmq_flags = le_word (slice 16 2 bs),
     rmq_access_width = le_word (slice 18 1 bs),
     rmq_reserved = le_word (slice 19 1 bs)\<rparr>"

lemma length_enc_read_memory_request [simp]: "length (enc_read_memory_request r) = SIZEOF_read_memory_request"
  by (simp add: enc_read_memory_request_def)

lemma dec_enc_read_memory_request [wire]: "dec_read_memory_request (enc_read_memory_request r @ rest) = r"
  by (simp add: enc_read_memory_request_def dec_read_memory_request_def slice_def)

record read_memory_response =
  rms_status :: u32
  rms_address :: u64
  rms_completed_length :: u32

abbreviation (input) SIZEOF_read_memory_response :: nat where "SIZEOF_read_memory_response \<equiv> 16"

definition enc_read_memory_response :: "read_memory_response \<Rightarrow> bytes" where
  "enc_read_memory_response r =
     le_bytes 4 (rms_status r) @ le_bytes 8 (rms_address r) @ le_bytes 4 (rms_completed_length r)"

definition dec_read_memory_response :: "bytes \<Rightarrow> read_memory_response" where
  "dec_read_memory_response bs = \<lparr>
     rms_status = le_word (slice 0 4 bs),
     rms_address = le_word (slice 4 8 bs),
     rms_completed_length = le_word (slice 12 4 bs)\<rparr>"

lemma length_enc_read_memory_response [simp]: "length (enc_read_memory_response r) = SIZEOF_read_memory_response"
  by (simp add: enc_read_memory_response_def)

lemma dec_enc_read_memory_response [wire]: "dec_read_memory_response (enc_read_memory_response r @ rest) = r"
  by (simp add: enc_read_memory_response_def dec_read_memory_response_def slice_def)

record write_memory_request =
  wmq_stop_id :: u32
  wmq_address :: u64
  wmq_length :: u32
  wmq_flags :: u16
  wmq_access_width :: u8
  wmq_reserved :: u8

abbreviation (input) SIZEOF_write_memory_request :: nat where "SIZEOF_write_memory_request \<equiv> 20"

definition enc_write_memory_request :: "write_memory_request \<Rightarrow> bytes" where
  "enc_write_memory_request r =
     le_bytes 4 (wmq_stop_id r) @ le_bytes 8 (wmq_address r) @ le_bytes 4 (wmq_length r) @
     le_bytes 2 (wmq_flags r) @ le_bytes 1 (wmq_access_width r) @ le_bytes 1 (wmq_reserved r)"

definition dec_write_memory_request :: "bytes \<Rightarrow> write_memory_request" where
  "dec_write_memory_request bs = \<lparr>
     wmq_stop_id = le_word (slice 0 4 bs),
     wmq_address = le_word (slice 4 8 bs),
     wmq_length = le_word (slice 12 4 bs),
     wmq_flags = le_word (slice 16 2 bs),
     wmq_access_width = le_word (slice 18 1 bs),
     wmq_reserved = le_word (slice 19 1 bs)\<rparr>"

lemma length_enc_write_memory_request [simp]: "length (enc_write_memory_request r) = SIZEOF_write_memory_request"
  by (simp add: enc_write_memory_request_def)

lemma dec_enc_write_memory_request [wire]: "dec_write_memory_request (enc_write_memory_request r @ rest) = r"
  by (simp add: enc_write_memory_request_def dec_write_memory_request_def slice_def)

record breakpoint =
  bp_breakpoint_id :: u32
  bp_address :: u64
  bp_kind :: u8
  bp_instruction_size :: u8
  bp_enabled :: u8
  bp_temporary :: u8

abbreviation (input) SIZEOF_breakpoint :: nat where "SIZEOF_breakpoint \<equiv> 16"

definition enc_breakpoint :: "breakpoint \<Rightarrow> bytes" where
  "enc_breakpoint r =
     le_bytes 4 (bp_breakpoint_id r) @ le_bytes 8 (bp_address r) @ le_bytes 1 (bp_kind r) @
     le_bytes 1 (bp_instruction_size r) @ le_bytes 1 (bp_enabled r) @ le_bytes 1 (bp_temporary r)"

definition dec_breakpoint :: "bytes \<Rightarrow> breakpoint" where
  "dec_breakpoint bs = \<lparr>
     bp_breakpoint_id = le_word (slice 0 4 bs),
     bp_address = le_word (slice 4 8 bs),
     bp_kind = le_word (slice 12 1 bs),
     bp_instruction_size = le_word (slice 13 1 bs),
     bp_enabled = le_word (slice 14 1 bs),
     bp_temporary = le_word (slice 15 1 bs)\<rparr>"

lemma length_enc_breakpoint [simp]: "length (enc_breakpoint r) = SIZEOF_breakpoint"
  by (simp add: enc_breakpoint_def)

lemma dec_enc_breakpoint [wire]: "dec_breakpoint (enc_breakpoint r @ rest) = r"
  by (simp add: enc_breakpoint_def dec_breakpoint_def slice_def)

record watchpoint =
  wpt_watchpoint_id :: u32
  wpt_address :: u64
  wpt_access :: u8
  wpt_size :: u8
  wpt_enabled :: u8
  wpt_reserved :: u8

abbreviation (input) SIZEOF_watchpoint :: nat where "SIZEOF_watchpoint \<equiv> 16"

definition enc_watchpoint :: "watchpoint \<Rightarrow> bytes" where
  "enc_watchpoint r =
     le_bytes 4 (wpt_watchpoint_id r) @ le_bytes 8 (wpt_address r) @ le_bytes 1 (wpt_access r) @
     le_bytes 1 (wpt_size r) @ le_bytes 1 (wpt_enabled r) @ le_bytes 1 (wpt_reserved r)"

definition dec_watchpoint :: "bytes \<Rightarrow> watchpoint" where
  "dec_watchpoint bs = \<lparr>
     wpt_watchpoint_id = le_word (slice 0 4 bs),
     wpt_address = le_word (slice 4 8 bs),
     wpt_access = le_word (slice 12 1 bs),
     wpt_size = le_word (slice 13 1 bs),
     wpt_enabled = le_word (slice 14 1 bs),
     wpt_reserved = le_word (slice 15 1 bs)\<rparr>"

lemma length_enc_watchpoint [simp]: "length (enc_watchpoint r) = SIZEOF_watchpoint"
  by (simp add: enc_watchpoint_def)

lemma dec_enc_watchpoint [wire]: "dec_watchpoint (enc_watchpoint r @ rest) = r"
  by (simp add: enc_watchpoint_def dec_watchpoint_def slice_def)

record run_request =
  rq_stop_id :: u32
  rq_core_id :: u16
  rq_action :: u8
  rq_flags :: u8
  rq_vector_catch_mask :: u32
  rq_run_to_address :: u64
  rq_breakpoint_count :: u16
  rq_watchpoint_count :: u16

abbreviation (input) SIZEOF_run_request :: nat where "SIZEOF_run_request \<equiv> 24"

definition enc_run_request :: "run_request \<Rightarrow> bytes" where
  "enc_run_request r =
     le_bytes 4 (rq_stop_id r) @ le_bytes 2 (rq_core_id r) @ le_bytes 1 (rq_action r) @
     le_bytes 1 (rq_flags r) @ le_bytes 4 (rq_vector_catch_mask r) @ le_bytes 8 (rq_run_to_address r) @
     le_bytes 2 (rq_breakpoint_count r) @ le_bytes 2 (rq_watchpoint_count r)"

definition dec_run_request :: "bytes \<Rightarrow> run_request" where
  "dec_run_request bs = \<lparr>
     rq_stop_id = le_word (slice 0 4 bs),
     rq_core_id = le_word (slice 4 2 bs),
     rq_action = le_word (slice 6 1 bs),
     rq_flags = le_word (slice 7 1 bs),
     rq_vector_catch_mask = le_word (slice 8 4 bs),
     rq_run_to_address = le_word (slice 12 8 bs),
     rq_breakpoint_count = le_word (slice 20 2 bs),
     rq_watchpoint_count = le_word (slice 22 2 bs)\<rparr>"

lemma length_enc_run_request [simp]: "length (enc_run_request r) = SIZEOF_run_request"
  by (simp add: enc_run_request_def)

lemma dec_enc_run_request [wire]: "dec_run_request (enc_run_request r @ rest) = r"
  by (simp add: enc_run_request_def dec_run_request_def slice_def)

record reset_request =
  rsq_kind :: u8
  rsq_reserved_lo :: u8
  rsq_reserved_hi :: u16

abbreviation (input) SIZEOF_reset_request :: nat where "SIZEOF_reset_request \<equiv> 4"

definition enc_reset_request :: "reset_request \<Rightarrow> bytes" where
  "enc_reset_request r =
     le_bytes 1 (rsq_kind r) @ le_bytes 1 (rsq_reserved_lo r) @ le_bytes 2 (rsq_reserved_hi r)"

definition dec_reset_request :: "bytes \<Rightarrow> reset_request" where
  "dec_reset_request bs = \<lparr>
     rsq_kind = le_word (slice 0 1 bs),
     rsq_reserved_lo = le_word (slice 1 1 bs),
     rsq_reserved_hi = le_word (slice 2 2 bs)\<rparr>"

lemma length_enc_reset_request [simp]: "length (enc_reset_request r) = SIZEOF_reset_request"
  by (simp add: enc_reset_request_def)

lemma dec_enc_reset_request [wire]: "dec_reset_request (enc_reset_request r @ rest) = r"
  by (simp add: enc_reset_request_def dec_reset_request_def slice_def)

record detach_request =
  dq_action :: u8
  dq_reserved_lo :: u8
  dq_reserved_hi :: u16

abbreviation (input) SIZEOF_detach_request :: nat where "SIZEOF_detach_request \<equiv> 4"

definition enc_detach_request :: "detach_request \<Rightarrow> bytes" where
  "enc_detach_request r =
     le_bytes 1 (dq_action r) @ le_bytes 1 (dq_reserved_lo r) @ le_bytes 2 (dq_reserved_hi r)"

definition dec_detach_request :: "bytes \<Rightarrow> detach_request" where
  "dec_detach_request bs = \<lparr>
     dq_action = le_word (slice 0 1 bs),
     dq_reserved_lo = le_word (slice 1 1 bs),
     dq_reserved_hi = le_word (slice 2 2 bs)\<rparr>"

lemma length_enc_detach_request [simp]: "length (enc_detach_request r) = SIZEOF_detach_request"
  by (simp add: enc_detach_request_def)

lemma dec_enc_detach_request [wire]: "dec_detach_request (enc_detach_request r @ rest) = r"
  by (simp add: enc_detach_request_def dec_detach_request_def slice_def)

record stopped_event =
  sev_stop_id :: u32
  sev_core_id :: u16
  sev_reason :: u8
  sev_flags :: u8
  sev_reason_detail :: u32
  sev_breakpoint_id :: u32
  sev_watchpoint_address :: u64
  sev_register_count :: u16
  sev_stack_length :: u16
  sev_stack_address :: u64

abbreviation (input) SIZEOF_stopped_event :: nat where "SIZEOF_stopped_event \<equiv> 36"

definition enc_stopped_event :: "stopped_event \<Rightarrow> bytes" where
  "enc_stopped_event r =
     le_bytes 4 (sev_stop_id r) @ le_bytes 2 (sev_core_id r) @ le_bytes 1 (sev_reason r) @
     le_bytes 1 (sev_flags r) @ le_bytes 4 (sev_reason_detail r) @ le_bytes 4 (sev_breakpoint_id r) @
     le_bytes 8 (sev_watchpoint_address r) @ le_bytes 2 (sev_register_count r) @ le_bytes 2 (sev_stack_length r) @
     le_bytes 8 (sev_stack_address r)"

definition dec_stopped_event :: "bytes \<Rightarrow> stopped_event" where
  "dec_stopped_event bs = \<lparr>
     sev_stop_id = le_word (slice 0 4 bs),
     sev_core_id = le_word (slice 4 2 bs),
     sev_reason = le_word (slice 6 1 bs),
     sev_flags = le_word (slice 7 1 bs),
     sev_reason_detail = le_word (slice 8 4 bs),
     sev_breakpoint_id = le_word (slice 12 4 bs),
     sev_watchpoint_address = le_word (slice 16 8 bs),
     sev_register_count = le_word (slice 24 2 bs),
     sev_stack_length = le_word (slice 26 2 bs),
     sev_stack_address = le_word (slice 28 8 bs)\<rparr>"

lemma length_enc_stopped_event [simp]: "length (enc_stopped_event r) = SIZEOF_stopped_event"
  by (simp add: enc_stopped_event_def)

lemma dec_enc_stopped_event [wire]: "dec_stopped_event (enc_stopped_event r @ rest) = r"
  by (simp add: enc_stopped_event_def dec_stopped_event_def slice_def)

record asset_write_request =
  awq_offset :: u32

abbreviation (input) SIZEOF_asset_write_request :: nat where "SIZEOF_asset_write_request \<equiv> 4"

definition enc_asset_write_request :: "asset_write_request \<Rightarrow> bytes" where
  "enc_asset_write_request r =
     le_bytes 4 (awq_offset r)"

definition dec_asset_write_request :: "bytes \<Rightarrow> asset_write_request" where
  "dec_asset_write_request bs = \<lparr>
     awq_offset = le_word (slice 0 4 bs)\<rparr>"

lemma length_enc_asset_write_request [simp]: "length (enc_asset_write_request r) = SIZEOF_asset_write_request"
  by (simp add: enc_asset_write_request_def)

lemma dec_enc_asset_write_request [wire]: "dec_asset_write_request (enc_asset_write_request r @ rest) = r"
  by (simp add: enc_asset_write_request_def dec_asset_write_request_def slice_def)

record log_data =
  ld_log_channel :: u16
  ld_buf_len :: u16

abbreviation (input) SIZEOF_log_data :: nat where "SIZEOF_log_data \<equiv> 4"

definition enc_log_data :: "log_data \<Rightarrow> bytes" where
  "enc_log_data r =
     le_bytes 2 (ld_log_channel r) @ le_bytes 2 (ld_buf_len r)"

definition dec_log_data :: "bytes \<Rightarrow> log_data" where
  "dec_log_data bs = \<lparr>
     ld_log_channel = le_word (slice 0 2 bs),
     ld_buf_len = le_word (slice 2 2 bs)\<rparr>"

lemma length_enc_log_data [simp]: "length (enc_log_data r) = SIZEOF_log_data"
  by (simp add: enc_log_data_def)

lemma dec_enc_log_data [wire]: "dec_log_data (enc_log_data r @ rest) = r"
  by (simp add: enc_log_data_def dec_log_data_def slice_def)

record response_prefix =
  rp_status :: u32

abbreviation (input) SIZEOF_response_prefix :: nat where "SIZEOF_response_prefix \<equiv> 4"

definition enc_response_prefix :: "response_prefix \<Rightarrow> bytes" where
  "enc_response_prefix r =
     le_bytes 4 (rp_status r)"

definition dec_response_prefix :: "bytes \<Rightarrow> response_prefix" where
  "dec_response_prefix bs = \<lparr>
     rp_status = le_word (slice 0 4 bs)\<rparr>"

lemma length_enc_response_prefix [simp]: "length (enc_response_prefix r) = SIZEOF_response_prefix"
  by (simp add: enc_response_prefix_def)

lemma dec_enc_response_prefix [wire]: "dec_response_prefix (enc_response_prefix r @ rest) = r"
  by (simp add: enc_response_prefix_def dec_response_prefix_def slice_def)

record memory_range =
  mrg_address :: u64
  mrg_length :: u32
  mrg_flags :: u16
  mrg_access_width :: u8
  mrg_reserved :: u8

abbreviation (input) SIZEOF_memory_range :: nat where "SIZEOF_memory_range \<equiv> 16"

definition enc_memory_range :: "memory_range \<Rightarrow> bytes" where
  "enc_memory_range r =
     le_bytes 8 (mrg_address r) @ le_bytes 4 (mrg_length r) @ le_bytes 2 (mrg_flags r) @
     le_bytes 1 (mrg_access_width r) @ le_bytes 1 (mrg_reserved r)"

definition dec_memory_range :: "bytes \<Rightarrow> memory_range" where
  "dec_memory_range bs = \<lparr>
     mrg_address = le_word (slice 0 8 bs),
     mrg_length = le_word (slice 8 4 bs),
     mrg_flags = le_word (slice 12 2 bs),
     mrg_access_width = le_word (slice 14 1 bs),
     mrg_reserved = le_word (slice 15 1 bs)\<rparr>"

lemma length_enc_memory_range [simp]: "length (enc_memory_range r) = SIZEOF_memory_range"
  by (simp add: enc_memory_range_def)

lemma dec_enc_memory_range [wire]: "dec_memory_range (enc_memory_range r @ rest) = r"
  by (simp add: enc_memory_range_def dec_memory_range_def slice_def)

record read_memory_vector_request =
  rvq_stop_id :: u32
  rvq_range_count :: u16
  rvq_reserved :: u16

abbreviation (input) SIZEOF_read_memory_vector_request :: nat where "SIZEOF_read_memory_vector_request \<equiv> 8"

definition enc_read_memory_vector_request :: "read_memory_vector_request \<Rightarrow> bytes" where
  "enc_read_memory_vector_request r =
     le_bytes 4 (rvq_stop_id r) @ le_bytes 2 (rvq_range_count r) @ le_bytes 2 (rvq_reserved r)"

definition dec_read_memory_vector_request :: "bytes \<Rightarrow> read_memory_vector_request" where
  "dec_read_memory_vector_request bs = \<lparr>
     rvq_stop_id = le_word (slice 0 4 bs),
     rvq_range_count = le_word (slice 4 2 bs),
     rvq_reserved = le_word (slice 6 2 bs)\<rparr>"

lemma length_enc_read_memory_vector_request [simp]: "length (enc_read_memory_vector_request r) = SIZEOF_read_memory_vector_request"
  by (simp add: enc_read_memory_vector_request_def)

lemma dec_enc_read_memory_vector_request [wire]: "dec_read_memory_vector_request (enc_read_memory_vector_request r @ rest) = r"
  by (simp add: enc_read_memory_vector_request_def dec_read_memory_vector_request_def slice_def)

record memory_block =
  mbk_address :: u64
  mbk_completed_length :: u32

abbreviation (input) SIZEOF_memory_block :: nat where "SIZEOF_memory_block \<equiv> 12"

definition enc_memory_block :: "memory_block \<Rightarrow> bytes" where
  "enc_memory_block r =
     le_bytes 8 (mbk_address r) @ le_bytes 4 (mbk_completed_length r)"

definition dec_memory_block :: "bytes \<Rightarrow> memory_block" where
  "dec_memory_block bs = \<lparr>
     mbk_address = le_word (slice 0 8 bs),
     mbk_completed_length = le_word (slice 8 4 bs)\<rparr>"

lemma length_enc_memory_block [simp]: "length (enc_memory_block r) = SIZEOF_memory_block"
  by (simp add: enc_memory_block_def)

lemma dec_enc_memory_block [wire]: "dec_memory_block (enc_memory_block r @ rest) = r"
  by (simp add: enc_memory_block_def dec_memory_block_def slice_def)

record read_memory_vector_response =
  rvs_status :: u32
  rvs_stop_id :: u32
  rvs_range_count :: u16
  rvs_reserved :: u16

abbreviation (input) SIZEOF_read_memory_vector_response :: nat where "SIZEOF_read_memory_vector_response \<equiv> 12"

definition enc_read_memory_vector_response :: "read_memory_vector_response \<Rightarrow> bytes" where
  "enc_read_memory_vector_response r =
     le_bytes 4 (rvs_status r) @ le_bytes 4 (rvs_stop_id r) @ le_bytes 2 (rvs_range_count r) @
     le_bytes 2 (rvs_reserved r)"

definition dec_read_memory_vector_response :: "bytes \<Rightarrow> read_memory_vector_response" where
  "dec_read_memory_vector_response bs = \<lparr>
     rvs_status = le_word (slice 0 4 bs),
     rvs_stop_id = le_word (slice 4 4 bs),
     rvs_range_count = le_word (slice 8 2 bs),
     rvs_reserved = le_word (slice 10 2 bs)\<rparr>"

lemma length_enc_read_memory_vector_response [simp]: "length (enc_read_memory_vector_response r) = SIZEOF_read_memory_vector_response"
  by (simp add: enc_read_memory_vector_response_def)

lemma dec_enc_read_memory_vector_response [wire]: "dec_read_memory_vector_response (enc_read_memory_vector_response r @ rest) = r"
  by (simp add: enc_read_memory_vector_response_def dec_read_memory_vector_response_def slice_def)

record target_lost_event =
  tle_reason :: u8
  tle_reserved_lo :: u8
  tle_reserved_hi :: u16
  tle_detail :: u32

abbreviation (input) SIZEOF_target_lost_event :: nat where "SIZEOF_target_lost_event \<equiv> 8"

definition enc_target_lost_event :: "target_lost_event \<Rightarrow> bytes" where
  "enc_target_lost_event r =
     le_bytes 1 (tle_reason r) @ le_bytes 1 (tle_reserved_lo r) @ le_bytes 2 (tle_reserved_hi r) @
     le_bytes 4 (tle_detail r)"

definition dec_target_lost_event :: "bytes \<Rightarrow> target_lost_event" where
  "dec_target_lost_event bs = \<lparr>
     tle_reason = le_word (slice 0 1 bs),
     tle_reserved_lo = le_word (slice 1 1 bs),
     tle_reserved_hi = le_word (slice 2 2 bs),
     tle_detail = le_word (slice 4 4 bs)\<rparr>"

lemma length_enc_target_lost_event [simp]: "length (enc_target_lost_event r) = SIZEOF_target_lost_event"
  by (simp add: enc_target_lost_event_def)

lemma dec_enc_target_lost_event [wire]: "dec_target_lost_event (enc_target_lost_event r @ rest) = r"
  by (simp add: enc_target_lost_event_def dec_target_lost_event_def slice_def)

record set_log_stream_request =
  slq_log_channel :: u16
  slq_source :: u8
  slq_control :: u8
  slq_uart_baud :: u32
  slq_rtt_control_block_address :: u64
  slq_rtt_up_buffer_index :: u16
  slq_rtt_poll_interval_ms :: u16

abbreviation (input) SIZEOF_set_log_stream_request :: nat where "SIZEOF_set_log_stream_request \<equiv> 20"

definition enc_set_log_stream_request :: "set_log_stream_request \<Rightarrow> bytes" where
  "enc_set_log_stream_request r =
     le_bytes 2 (slq_log_channel r) @ le_bytes 1 (slq_source r) @ le_bytes 1 (slq_control r) @
     le_bytes 4 (slq_uart_baud r) @ le_bytes 8 (slq_rtt_control_block_address r) @ le_bytes 2 (slq_rtt_up_buffer_index r) @
     le_bytes 2 (slq_rtt_poll_interval_ms r)"

definition dec_set_log_stream_request :: "bytes \<Rightarrow> set_log_stream_request" where
  "dec_set_log_stream_request bs = \<lparr>
     slq_log_channel = le_word (slice 0 2 bs),
     slq_source = le_word (slice 2 1 bs),
     slq_control = le_word (slice 3 1 bs),
     slq_uart_baud = le_word (slice 4 4 bs),
     slq_rtt_control_block_address = le_word (slice 8 8 bs),
     slq_rtt_up_buffer_index = le_word (slice 16 2 bs),
     slq_rtt_poll_interval_ms = le_word (slice 18 2 bs)\<rparr>"

lemma length_enc_set_log_stream_request [simp]: "length (enc_set_log_stream_request r) = SIZEOF_set_log_stream_request"
  by (simp add: enc_set_log_stream_request_def)

lemma dec_enc_set_log_stream_request [wire]: "dec_set_log_stream_request (enc_set_log_stream_request r @ rest) = r"
  by (simp add: enc_set_log_stream_request_def dec_set_log_stream_request_def slice_def)

record attach_gdb_stub_request =
  agq_uart_channel :: u16
  agq_reserved :: u16
  agq_uart_baud :: u32
  agq_initial_stack_before :: u16
  agq_initial_stack_after :: u16

abbreviation (input) SIZEOF_attach_gdb_stub_request :: nat where "SIZEOF_attach_gdb_stub_request \<equiv> 12"

definition enc_attach_gdb_stub_request :: "attach_gdb_stub_request \<Rightarrow> bytes" where
  "enc_attach_gdb_stub_request r =
     le_bytes 2 (agq_uart_channel r) @ le_bytes 2 (agq_reserved r) @ le_bytes 4 (agq_uart_baud r) @
     le_bytes 2 (agq_initial_stack_before r) @ le_bytes 2 (agq_initial_stack_after r)"

definition dec_attach_gdb_stub_request :: "bytes \<Rightarrow> attach_gdb_stub_request" where
  "dec_attach_gdb_stub_request bs = \<lparr>
     agq_uart_channel = le_word (slice 0 2 bs),
     agq_reserved = le_word (slice 2 2 bs),
     agq_uart_baud = le_word (slice 4 4 bs),
     agq_initial_stack_before = le_word (slice 8 2 bs),
     agq_initial_stack_after = le_word (slice 10 2 bs)\<rparr>"

lemma length_enc_attach_gdb_stub_request [simp]: "length (enc_attach_gdb_stub_request r) = SIZEOF_attach_gdb_stub_request"
  by (simp add: enc_attach_gdb_stub_request_def)

lemma dec_enc_attach_gdb_stub_request [wire]: "dec_attach_gdb_stub_request (enc_attach_gdb_stub_request r @ rest) = r"
  by (simp add: enc_attach_gdb_stub_request_def dec_attach_gdb_stub_request_def slice_def)

end
