(* ===== verification/Backend.thy ===== *)
theory Backend
  imports Sidp_Defs
begin

text \<open>
  The hardware interface of \<open>include/sidp_backend.hpp\<close> (\<open>target_backend_t\<close> is an abstract class;
  its implementation is not part of the repository) together with the other code the session calls
  through a pointer: the transmit sink and the capability-aware allocator. All of it is one record
  of functions over an abstract world \<open>'w\<close>, an argument of every session operation. An out
  parameter of the C++ interface is part of the result; an in/out parameter is also an argument.

  \<open>act\<close> is the observable trace: every call that leaves the session, with its outcome. It is not
  part of the C++ state and no operation reads it.

  \<open>backend_memory\<close> states the documented memory contract of the interface as a locale: a read that
  succeeds returns the target bytes and changes nothing, a write that succeeds changes exactly its
  range, and a failed write changes nothing outside its range.
\<close>

section \<open>Result codes\<close>

type_synonym esp_err = int

abbreviation (input) ESP_OK :: esp_err where "ESP_OK \<equiv> 0"
abbreviation (input) ESP_FAIL :: esp_err where "ESP_FAIL \<equiv> - 1"
abbreviation (input) ESP_ERR_NO_MEM :: esp_err where "ESP_ERR_NO_MEM \<equiv> 0x101"
abbreviation (input) ESP_ERR_INVALID_ARG :: esp_err where "ESP_ERR_INVALID_ARG \<equiv> 0x102"
abbreviation (input) ESP_ERR_INVALID_STATE :: esp_err where "ESP_ERR_INVALID_STATE \<equiv> 0x103"
abbreviation (input) ESP_ERR_INVALID_SIZE :: esp_err where "ESP_ERR_INVALID_SIZE \<equiv> 0x104"
abbreviation (input) ESP_ERR_TIMEOUT :: esp_err where "ESP_ERR_TIMEOUT \<equiv> 0x107"
abbreviation (input) ESP_ERR_NOT_FINISHED :: esp_err where "ESP_ERR_NOT_FINISHED \<equiv> 0x10c"

section \<open>Structures of the interface\<close>

record attach_info =
  ai_architecture :: u8
  ai_profile :: u8
  ai_address_width :: u8
  ai_capabilities :: u32
  ai_target_id :: u32
  ai_cpu_id :: u32
  ai_supported_vector_catch_mask :: u32
  ai_hardware_breakpoints :: u16
  ai_hardware_watchpoints :: u16
  ai_max_memory_transfer :: u16
  ai_memory_regions :: bytes

record attach_params =
  ap_connect_under_reset :: bool
  ap_halt_after_attach :: bool

record stop_detect =
  sd_halted :: bool
  sd_dfsr :: u32
  sd_dhcsr :: u32
  sd_lockup :: bool
  sd_pc :: u32
  sd_comparator_match :: bool
  sd_comparator_index :: u8
  sd_watchpoint_match :: bool
  sd_watchpoint_address :: u64
  sd_fault :: bool

definition no_stop :: stop_detect where
  "no_stop = \<lparr>sd_halted = False, sd_dfsr = 0, sd_dhcsr = 0, sd_lockup = False, sd_pc = 0,
     sd_comparator_match = False, sd_comparator_index = 0, sd_watchpoint_match = False,
     sd_watchpoint_address = 0, sd_fault = False\<rparr>"

record bp_entry =
  be_breakpoint_id :: u32
  be_address :: u64
  be_kind :: u8
  be_instruction_size :: u8
  be_temporary :: u8

record wp_entry =
  we_watchpoint_id :: u32
  we_address :: u64
  we_access :: u8
  we_size :: u8

section \<open>The environment of a session\<close>

record 'w env =
  bk_attach :: "attach_params \<Rightarrow> 'w \<Rightarrow> (esp_err \<times> attach_info) \<times> 'w"
  bk_detach :: "u8 \<Rightarrow> 'w \<Rightarrow> esp_err \<times> 'w"
  bk_reset :: "u8 \<Rightarrow> bool \<Rightarrow> stop_detect \<Rightarrow> 'w \<Rightarrow> (esp_err \<times> stop_detect) \<times> 'w"
  bk_poll_halted :: "stop_detect \<Rightarrow> 'w \<Rightarrow> (esp_err \<times> stop_detect) \<times> 'w"
  bk_halt :: "u32 \<Rightarrow> stop_detect \<Rightarrow> 'w \<Rightarrow> (esp_err \<times> stop_detect) \<times> 'w"
  bk_resume :: "u8 \<Rightarrow> u64 \<Rightarrow> 'w \<Rightarrow> esp_err \<times> 'w"
  bk_read_regs :: "u16 list \<Rightarrow> nat \<Rightarrow> 'w \<Rightarrow> (esp_err \<times> bytes \<times> nat) \<times> 'w"
  bk_write_regs :: "bytes \<Rightarrow> 'w \<Rightarrow> esp_err \<times> 'w"
  bk_read_mem :: "u64 \<Rightarrow> nat \<Rightarrow> u8 \<Rightarrow> 'w \<Rightarrow> (esp_err \<times> bytes) \<times> 'w"
  bk_write_mem :: "u64 \<Rightarrow> bytes \<Rightarrow> u8 \<Rightarrow> 'w \<Rightarrow> esp_err \<times> 'w"
  bk_apply_breakpoints :: "bp_entry list \<Rightarrow> 'w \<Rightarrow> esp_err \<times> 'w"
  bk_apply_watchpoints :: "wp_entry list \<Rightarrow> 'w \<Rightarrow> esp_err \<times> 'w"
  bk_set_vector_catch :: "u32 \<Rightarrow> 'w \<Rightarrow> esp_err \<times> 'w"
  env_tx_sink :: "(bytes \<Rightarrow> 'w \<Rightarrow> bool \<times> 'w) option"
  env_calloc :: "nat \<Rightarrow> 'w \<Rightarrow> bool \<times> 'w"

text \<open>
  \<open>bk_read_mem\<close> and \<open>bk_read_regs\<close> return the bytes they store through their output pointer,
  from its start; the documented contract is that they never store past the extent they were
  given, so a caller overlays at most that many.
\<close>

datatype act =
    Tx bytes bool
  | BkAttach attach_params esp_err
  | BkDetach u8 esp_err
  | BkReset u8 bool esp_err
  | BkPoll esp_err bool
  | BkHalt esp_err bool
  | BkResume u8 u64 esp_err
  | BkReadRegs "u16 list" esp_err
  | BkWriteRegs bytes esp_err
  | BkReadMem u64 nat u8 esp_err
  | BkWriteMem u64 bytes u8 esp_err
  | BkApplyBreakpoints "bp_entry list" esp_err
  | BkApplyWatchpoints "wp_entry list" esp_err
  | BkSetVectorCatch u32 esp_err

fun is_tx :: "act \<Rightarrow> bool" where
  "is_tx (Tx _ _) = True"
| "is_tx _ = False"

section \<open>The memory contract\<close>

definition mem_write :: "u64 \<Rightarrow> bytes \<Rightarrow> (u64 \<Rightarrow> u8) \<Rightarrow> u64 \<Rightarrow> u8" where
  "mem_write a data m = (\<lambda>x. if unat (x - a) < length data then data ! unat (x - a) else m x)"

definition mem_read :: "u64 \<Rightarrow> nat \<Rightarrow> (u64 \<Rightarrow> u8) \<Rightarrow> bytes" where
  "mem_read a n m = map (\<lambda>i. m (a + word_of_nat i)) [0..<n]"

lemma length_mem_read [simp]: "length (mem_read a n m) = n"
  by (simp add: mem_read_def)

locale backend_memory =
  fixes e :: "'w env" and world_ok :: "'w \<Rightarrow> bool" and tmem :: "'w \<Rightarrow> u64 \<Rightarrow> u8"
  assumes read_mem_world: "world_ok w \<Longrightarrow> bk_read_mem e a n k w = (r, w') \<Longrightarrow>
      world_ok w' \<and> tmem w' = tmem w"
    and read_mem_data: "world_ok w \<Longrightarrow> n \<le> MAX_FRAME_SIZE \<Longrightarrow>
      bk_read_mem e a n k w = ((ESP_OK, bs), w') \<Longrightarrow> bs = mem_read a n (tmem w)"
    and write_mem_world: "world_ok w \<Longrightarrow> length data \<le> MAX_FRAME_SIZE \<Longrightarrow>
      bk_write_mem e a data k w = (err, w') \<Longrightarrow> world_ok w'"
    and write_mem_data: "world_ok w \<Longrightarrow> length data \<le> MAX_FRAME_SIZE \<Longrightarrow>
      bk_write_mem e a data k w = (ESP_OK, w') \<Longrightarrow> tmem w' = mem_write a data (tmem w)"
    and write_mem_fail: "world_ok w \<Longrightarrow> length data \<le> MAX_FRAME_SIZE \<Longrightarrow>
      bk_write_mem e a data k w = (err, w') \<Longrightarrow> unat (x - a) \<ge> length data \<Longrightarrow>
      tmem w' x = tmem w x"

end
