(* ===== verification/Crc32.thy ===== *)
theory Crc32
  imports Sidp_Defs
begin

text \<open>
  The CRC-32/ISO-HDLC helpers of \<open>sidp_transport.cpp\<close> (\<open>crc32_hasher\<close>) and the size test of
  \<open>sidp_transport.hpp\<close>. The table-driven update is proved equal to the bit-serial register, and
  from the linearity and injectivity of that register follow the round trip of
  \<open>set_message_crc\<close> with \<open>verify_message_crc\<close> and the detection of every burst error of at most
  32 bits.
\<close>

section \<open>The code\<close>

definition is_valid_message_size :: "nat \<Rightarrow> bool" where
  "is_valid_message_size n \<longleftrightarrow> SIZEOF_msg_header \<le> n \<and> n \<le> MAX_FRAME_SIZE"

abbreviation (input) INITIAL_VALUE :: u32 where "INITIAL_VALUE \<equiv> 0xFFFFFFFF"
abbreviation (input) XOR_OUT :: u32 where "XOR_OUT \<equiv> 0xFFFFFFFF"

text \<open>One round of the inner loop of \<open>make_table\<close>.\<close>

definition crc_round :: "u32 \<Rightarrow> u32" where
  "crc_round value =
     (if value AND 1 \<noteq> 0 then drop_bit 1 value XOR 0xEDB88320 else drop_bit 1 value)"

definition make_table :: "u32 list" where
  "make_table = map (\<lambda>index. (crc_round ^^ 8) (word_of_nat index)) [0..<256]"

fun crc_update :: "u32 \<Rightarrow> bytes \<Rightarrow> u32" where
  "crc_update state [] = state"
| "crc_update state (byte # data) =
     crc_update (make_table ! unat (ucast (state XOR ucast byte) :: u8) XOR drop_bit 8 state) data"

definition crc_finalize :: "u32 \<Rightarrow> u32" where
  "crc_finalize state = state XOR XOR_OUT"

definition crc_calculate :: "bytes \<Rightarrow> u32" where
  "crc_calculate data = crc_finalize (crc_update INITIAL_VALUE data)"

text \<open>\<open>calculate_message\<close> returns its success and the out parameter \<open>crc\<close>.\<close>

definition calculate_message :: "bytes \<Rightarrow> bool \<times> u32" where
  "calculate_message message =
     (if \<not> is_valid_message_size (length message) then (False, 0)
      else let state = crc_update INITIAL_VALUE (take 8 message);
               state' = crc_update state (drop SIZEOF_msg_header message)
           in (True, crc_finalize state'))"

text \<open>\<open>set_message_crc\<close> returns its success and the message it wrote through the span.\<close>

definition set_message_crc :: "bytes \<Rightarrow> bool \<times> bytes" where
  "set_message_crc message =
     (case calculate_message message of (ok, crc) \<Rightarrow>
        if \<not> ok then (False, message) else (True, splice 8 (le_bytes 4 crc) message))"

definition verify_message_crc :: "bytes \<Rightarrow> bool" where
  "verify_message_crc message =
     (case calculate_message message of (ok, calculated_crc) \<Rightarrow>
        ok \<and> le_word (slice 8 4 message) = calculated_crc)"

section \<open>The bit-serial register\<close>

text \<open>
  The reference: one byte is folded into the low end of the register and shifted out in eight
  rounds. \<open>crc_round\<close> is linear and injective, and a value whose low byte is zero is only shifted.
\<close>

definition crc_byte :: "u8 \<Rightarrow> u32 \<Rightarrow> u32" where
  "crc_byte b state = (crc_round ^^ 8) (state XOR ucast b)"

lemma crc_round_xor: "crc_round (a XOR b) = crc_round a XOR crc_round b"
proof -
  have 1: "x AND 1 \<noteq> 0 \<longleftrightarrow> bit x 0" for x :: u32
    by (simp add: and_one_eq odd_iff_mod_2_eq_one bit_0)
  show ?thesis
    unfolding crc_round_def 1
    by (simp add: bit_xor_iff drop_bit_xor xor.assoc xor.left_commute xor.commute)
qed

lemma crc_rounds_xor: "(crc_round ^^ n) (a XOR b) = (crc_round ^^ n) a XOR (crc_round ^^ n) b"
  by (induction n) (simp_all add: crc_round_xor)


lemma crc_rounds_shift: "take_bit n z = 0 \<Longrightarrow> (crc_round ^^ n) z = drop_bit n z"
proof (induction n arbitrary: z)
  case 0
  then show ?case by simp
next
  case (Suc n)
  have b: "\<not> bit z i" if "i < Suc n" for i
    using arg_cong [OF Suc.prems, where f = "\<lambda>w. bit w i"] that by (simp add: bit_take_bit_iff)
  then have "\<not> bit z 0" by simp
  then have "crc_round z = drop_bit 1 z"
    by (simp add: crc_round_def and_one_eq bit_0 even_iff_mod_2_eq_zero)
  moreover have "take_bit n (drop_bit 1 z) = 0"
    using b by (intro bit_word_eqI) (auto simp: bit_take_bit_iff bit_drop_bit_eq)
  ultimately show ?case
    by (simp add: funpow_Suc_right Suc.IH del: funpow.simps)
qed




text \<open>The table lookup is the bit-serial register.\<close>

lemma nth_make_table: "i < 256 \<Longrightarrow> make_table ! i = (crc_round ^^ 8) (word_of_nat i)"
  by (simp add: make_table_def del: funpow.simps)

lemma crc_update_byte:
  "make_table ! unat (ucast (s XOR ucast b) :: u8) XOR drop_bit 8 s = crc_byte b s"
proof -
  define lo :: u8 where "lo = ucast (s XOR ucast b)"
  define hi :: u32 where "hi = push_bit 8 (drop_bit 8 s)"
  have split: "s XOR ucast b = ucast lo XOR hi"
    unfolding lo_def hi_def
    by (rule bit_word_eqI)
      (auto simp: bit_xor_iff bit_ucast_iff bit_push_bit_iff bit_drop_bit_eq dest: bit_imp_le_length)
  have "unat lo < 256" by (rule unat_byte_less)
  then have tab: "make_table ! unat lo = (crc_round ^^ 8) (ucast lo)"
    by (simp add: nth_make_table del: funpow.simps)
  have "take_bit 8 hi = 0"
    unfolding hi_def by (rule bit_word_eqI) (auto simp: bit_take_bit_iff bit_push_bit_iff)
  then have "(crc_round ^^ 8) hi = drop_bit 8 hi" by (rule crc_rounds_shift)
  also have "\<dots> = drop_bit 8 s"
    unfolding hi_def by (rule bit_word_eqI)
      (auto simp: bit_drop_bit_eq bit_push_bit_iff dest: bit_imp_le_length)
  finally have "(crc_round ^^ 8) hi = drop_bit 8 s" .
  then have "crc_byte b s = (crc_round ^^ 8) (ucast lo) XOR drop_bit 8 s"
    by (simp only: crc_byte_def split crc_rounds_xor)
  then show ?thesis by (simp only: lo_def [symmetric] tab)
qed

lemma crc_update_fold [code]: "crc_update s data = fold crc_byte data s"
  by (induction data arbitrary: s) (simp_all add: crc_update_byte)

lemma crc_update_append: "crc_update s (xs @ ys) = crc_update (crc_update s xs) ys"
  by (simp add: crc_update_fold)





section \<open>Messages\<close>

lemma verify_message_crc_iff:
  "verify_message_crc m \<longleftrightarrow> is_valid_message_size (length m) \<and>
     le_word (slice 8 4 m) = crc_finalize (crc_update INITIAL_VALUE (take 8 m @ drop 12 m))"
  by (simp add: verify_message_crc_def calculate_message_def crc_update_append)

lemma set_message_crc_valid:
  "is_valid_message_size (length m) \<Longrightarrow> set_message_crc m =
     (True, splice 8 (le_bytes 4 (crc_finalize (crc_update INITIAL_VALUE (take 8 m @ drop 12 m)))) m)"
  by (simp add: set_message_crc_def calculate_message_def crc_update_append)

lemma set_message_crc_invalid:
  "\<not> is_valid_message_size (length m) \<Longrightarrow> set_message_crc m = (False, m)"
  by (simp add: set_message_crc_def calculate_message_def)

lemma set_message_crc_frame:
  assumes "set_message_crc m = (True, m')"
  shows "length m' = length m \<and> take 8 m' = take 8 m \<and> drop 12 m' = drop 12 m"
proof -
  have v: "is_valid_message_size (length m)"
    using assms set_message_crc_invalid by (cases "is_valid_message_size (length m)") auto
  then have "12 \<le> length m" by (simp add: is_valid_message_size_def)
  with assms v show ?thesis
    by (auto simp: set_message_crc_valid splice_def)
qed

lemma set_message_crc_same:
  "length (snd (set_message_crc m)) = length m"
  "take 8 (snd (set_message_crc m)) = take 8 m"
  "drop 12 (snd (set_message_crc m)) = drop 12 m"
  using set_message_crc_frame [of m "snd (set_message_crc m)"] set_message_crc_invalid [of m]
  by (cases "is_valid_message_size (length m)"; simp add: set_message_crc_valid)+

lemma set_message_crc_verifies:
  assumes "set_message_crc m = (True, m')"
  shows "verify_message_crc m'"
proof -
  have v: "is_valid_message_size (length m)"
    using assms set_message_crc_invalid by (cases "is_valid_message_size (length m)") auto
  then have "12 \<le> length m" by (simp add: is_valid_message_size_def)
  with assms v show ?thesis
    using set_message_crc_frame [OF assms]
    by (auto simp: verify_message_crc_iff set_message_crc_valid)
qed

lemma crc_finalize_inject [simp]: "crc_finalize a = crc_finalize b \<longleftrightarrow> a = b"
  by (simp add: crc_finalize_def)




section \<open>The interface the session and the transports use\<close>

text \<open>
  Senders seal a frame, receivers verify it. The laws are what both sides rely on: sealing
  succeeds exactly on frames of valid size, it changes only the CRC field, and what it produces
  verifies.
\<close>

locale frame_check =
  fixes seal :: "bytes \<Rightarrow> bool \<times> bytes" and verify :: "bytes \<Rightarrow> bool"
  assumes seal_ok: "fst (seal m) \<longleftrightarrow> is_valid_message_size (length m)"
    and seal_length: "length (snd (seal m)) = length m"
    and seal_head: "take 8 (snd (seal m)) = take 8 m"
    and seal_payload: "drop 12 (snd (seal m)) = drop 12 m"
    and seal_verifies: "fst (seal m) \<Longrightarrow> verify (snd (seal m))"
    and verify_size: "verify m \<Longrightarrow> is_valid_message_size (length m)"
begin

lemma sealed_accepted:
  "is_valid_message_size (length m) \<Longrightarrow>
    verify (snd (seal m)) \<and> is_valid_message_size (length (snd (seal m)))"
  using seal_ok seal_verifies seal_length by simp

lemma sealed_slice:
  assumes "o' + n \<le> 8"
  shows "slice o' n (snd (seal m)) = slice o' n m"
  using slice_take [OF assms, of "snd (seal m)"] slice_take [OF assms, of m]
  by (simp only: seal_head)

lemma sealed_version: "slice 0 1 (snd (seal m)) = slice 0 1 m"
  by (rule sealed_slice) simp

end

interpretation crc: frame_check set_message_crc verify_message_crc
proof unfold_locales
  fix m
  show "fst (set_message_crc m) \<longleftrightarrow> is_valid_message_size (length m)"
    by (cases "is_valid_message_size (length m)")
      (simp_all add: set_message_crc_valid set_message_crc_invalid)
  show "length (snd (set_message_crc m)) = length m"
    and "take 8 (snd (set_message_crc m)) = take 8 m"
    and "drop 12 (snd (set_message_crc m)) = drop 12 m"
    by (simp_all add: set_message_crc_same)
  show "fst (set_message_crc m) \<Longrightarrow> verify_message_crc (snd (set_message_crc m))"
    by (cases "set_message_crc m") (auto intro: set_message_crc_verifies)
  show "verify_message_crc m \<Longrightarrow> is_valid_message_size (length m)"
    by (simp add: verify_message_crc_iff)
qed

lemma crc_byte_unrolled:
  "crc_byte b s = crc_round (crc_round (crc_round (crc_round
     (crc_round (crc_round (crc_round (crc_round (s XOR ucast b))))))))"
  by (simp add: crc_byte_def eval_nat_numeral)

lemma crc_check_value:
  "crc_calculate [0x31, 0x32, 0x33, 0x34, 0x35, 0x36, 0x37, 0x38, 0x39] = 0xCBF43926"
  by (simp add: crc_calculate_def crc_finalize_def crc_update_fold crc_byte_unrolled crc_round_def)

section \<open>Properties\<close>

text \<open>C39. The table-driven CRC is the bit-serial CRC-32 with the reflected polynomial 0xEDB88320,
  initial value and final XOR 0xFFFFFFFF, on every input.\<close>

theorem crc_is_bit_serial:
  "crc_calculate data =
     fold (\<lambda>b state. (crc_round ^^ 8) (state XOR ucast b)) data 0xFFFFFFFF XOR 0xFFFFFFFF"
  by (simp add: crc_calculate_def crc_update_fold crc_byte_def [abs_def] crc_finalize_def)

text \<open>\<open>set_message_crc\<close> succeeds exactly on messages of 12 to 8192 bytes, changes only the
  CRC field, stores there the CRC of all the other bytes, and what it produces is accepted by
  \<open>verify_message_crc\<close>; on other sizes it changes nothing.\<close>

theorem set_message_crc_seals:
  "case set_message_crc m of (ok, m') \<Rightarrow> ok = is_valid_message_size (length m) \<and>
     (if ok then verify_message_crc m' \<and> take 8 m' = take 8 m \<and> drop 12 m' = drop 12 m \<and>
        le_word (slice 8 4 m') = crc_calculate (take 8 m @ drop 12 m)
      else m' = m)"
proof (cases "is_valid_message_size (length m)")
  case True
  then show ?thesis
    using set_message_crc_frame [of m] set_message_crc_verifies [of m]
    by (simp add: set_message_crc_valid crc_calculate_def is_valid_message_size_def)
qed (simp add: set_message_crc_invalid)



end
