(* ===== verification/Session_State.thy ===== *)
theory Session_State
  imports Backend Crc32
begin

text \<open>
  The object state of \<open>sidp_session\<close> (\<open>include/sidp_session.hpp\<close>, private members) and its frame
  assembly (\<open>begin_frame\<close>, \<open>finish_frame\<close>, \<open>send_response\<close>, \<open>send_stopped\<close>, \<open>send_target_lost\<close> of
  \<open>sidp_session.cpp\<close>). A pointer to an \<open>init()\<close>-allocated buffer is an option: \<open>None\<close> is
  \<open>nullptr\<close>. Three fields are not C++ members: \<open>world\<close> is the state of the environment, \<open>trace\<close> the
  calls that left the session, and \<open>ub\<close> records that an access left its buffer or followed a null
  pointer; proving that it is never set is proving those accesses safe.
\<close>

section \<open>State\<close>

abbreviation (input) MAX_SOFTWARE_BREAKPOINTS :: nat where "MAX_SOFTWARE_BREAKPOINTS \<equiv> 32"
abbreviation (input) MAX_HARDWARE_BREAKPOINTS :: nat where "MAX_HARDWARE_BREAKPOINTS \<equiv> 16"
abbreviation (input) MAX_HARDWARE_WATCHPOINTS :: nat where "MAX_HARDWARE_WATCHPOINTS \<equiv> 16"
abbreviation (input) DEFAULT_MAX_MEMORY_TRANSFER :: u32 where "DEFAULT_MAX_MEMORY_TRANSFER \<equiv> 4096"
abbreviation (input) MAX_MEMORY_TRANSFER :: u32 where "MAX_MEMORY_TRANSFER \<equiv> 8160"
abbreviation (input) MAX_MEMORY_REGIONS :: nat where "MAX_MEMORY_REGIONS \<equiv> 64"
abbreviation (input) STACK_SNAPSHOT_BELOW :: u32 where "STACK_SNAPSHOT_BELOW \<equiv> 64"
abbreviation (input) STACK_SNAPSHOT_ABOVE :: u32 where "STACK_SNAPSHOT_ABOVE \<equiv> 512"
abbreviation (input) HALT_TIMEOUT_MS :: u32 where "HALT_TIMEOUT_MS \<equiv> 3000"
abbreviation (input) FRAME_PAYLOAD_MAX :: nat where "FRAME_PAYLOAD_MAX \<equiv> 8180"
abbreviation (input) SNAPSHOT_BLOB_CAPACITY :: nat where "SNAPSHOT_BLOB_CAPACITY \<equiv> 8144"

record sw_bp =
  sb_id :: u32
  sb_address :: u64
  sb_instruction_size :: u8
  sb_installed :: bool
  sb_original :: bytes

definition sw_bp_zero :: sw_bp where
  "sw_bp_zero = \<lparr>sb_id = 0, sb_address = 0, sb_instruction_size = 0, sb_installed = False,
     sb_original = [0, 0, 0, 0]\<rparr>"

definition memory_region_zero :: memory_region where
  "memory_region_zero = \<lparr>mr_start = 0, mr_length = 0, mr_type = 0, mr_flags = 0, mr_reserved = 0\<rparr>"

record 'w session =
  state :: target_state_t
  stop_id :: u32
  stop_reported :: bool
  attached :: bool
  transport_dead :: bool
  capabilities :: u32
  supported_vector_catch :: u32
  hardware_breakpoint_limit :: u16
  hardware_watchpoint_limit :: u16
  max_memory_transfer :: u32
  running_action :: u8
  run_to_active :: bool
  active_run_to_address :: u64
  hw_breakpoint_ids :: "u32 list"
  hw_count :: nat
  sw_step_over_pending :: bool
  sw_step_over_address :: u64
  scratch :: "bytes option"
  tx_frame_size :: nat
  pending_reason :: stop_reason_t
  pending_detail :: u32
  pending_breakpoint_id :: u32
  pending_watchpoint_address :: u64
  pending_registers :: "bytes option"
  pending_registers_size :: nat
  pending_stack_address :: u64
  pending_stack_size :: nat
  regions :: "memory_region list option"
  region_count :: nat
  sw_table :: "sw_bp list option"
  sw_count :: nat
  world :: 'w
  trace :: "act list"
  ub :: bool

text \<open>The constructor: every member at its default initializer.\<close>

definition new_session :: "'w \<Rightarrow> 'w session" where
  "new_session w = \<lparr>state = TARGET_DETACHED, stop_id = 0, stop_reported = False, attached = False,
     transport_dead = False, capabilities = 0, supported_vector_catch = VECTOR_CATCH_NONE,
     hardware_breakpoint_limit = 0, hardware_watchpoint_limit = 0,
     max_memory_transfer = DEFAULT_MAX_MEMORY_TRANSFER, running_action = RUN_CONTINUE,
     run_to_active = False, active_run_to_address = 0, hw_breakpoint_ids = replicate 16 0,
     hw_count = 0, sw_step_over_pending = False, sw_step_over_address = 0, scratch = None,
     tx_frame_size = 0, pending_reason = STOP_UNKNOWN, pending_detail = 0,
     pending_breakpoint_id = 0, pending_watchpoint_address = 0, pending_registers = None,
     pending_registers_size = 0, pending_stack_address = 0, pending_stack_size = 0,
     regions = None, region_count = 0, sw_table = None, sw_count = 0,
     world = w, trace = [], ub = False\<rparr>"

section \<open>Calls that leave the session\<close>

definition call :: "('w \<Rightarrow> 'a \<times> 'w) \<Rightarrow> ('a \<Rightarrow> act) \<Rightarrow> ('w session, 'a) st" where
  "call f g = State (\<lambda>s. case f (world s) of
     (a, w) \<Rightarrow> (a, s\<lparr>world := w, trace := trace s @ [g a]\<rparr>))"

definition b_attach :: "'w env \<Rightarrow> attach_params \<Rightarrow> ('w session, esp_err \<times> attach_info) st" where
  "b_attach e p = call (bk_attach e p) (\<lambda>(r, _). BkAttach p r)"

definition b_detach :: "'w env \<Rightarrow> u8 \<Rightarrow> ('w session, esp_err) st" where
  "b_detach e a = call (bk_detach e a) (BkDetach a)"

definition b_reset ::
  "'w env \<Rightarrow> u8 \<Rightarrow> bool \<Rightarrow> stop_detect \<Rightarrow> ('w session, esp_err \<times> stop_detect) st" where
  "b_reset e k h d = call (bk_reset e k h d) (\<lambda>(r, _). BkReset k h r)"

definition b_poll_halted ::
  "'w env \<Rightarrow> stop_detect \<Rightarrow> ('w session, esp_err \<times> stop_detect) st" where
  "b_poll_halted e d = call (bk_poll_halted e d) (\<lambda>(r, d). BkPoll r (sd_halted d))"

definition b_halt ::
  "'w env \<Rightarrow> u32 \<Rightarrow> stop_detect \<Rightarrow> ('w session, esp_err \<times> stop_detect) st" where
  "b_halt e ms d = call (bk_halt e ms d) (\<lambda>(r, d). BkHalt r (sd_halted d))"

definition b_resume :: "'w env \<Rightarrow> u8 \<Rightarrow> u64 \<Rightarrow> ('w session, esp_err) st" where
  "b_resume e a x = call (bk_resume e a x) (BkResume a x)"

definition b_read_regs ::
  "'w env \<Rightarrow> u16 list \<Rightarrow> nat \<Rightarrow> ('w session, esp_err \<times> bytes \<times> nat) st" where
  "b_read_regs e ids cap = call (bk_read_regs e ids cap) (\<lambda>(r, _). BkReadRegs ids r)"

definition b_write_regs :: "'w env \<Rightarrow> bytes \<Rightarrow> ('w session, esp_err) st" where
  "b_write_regs e data = call (bk_write_regs e data) (BkWriteRegs data)"

definition b_read_mem ::
  "'w env \<Rightarrow> u64 \<Rightarrow> nat \<Rightarrow> u8 \<Rightarrow> ('w session, esp_err \<times> bytes) st" where
  "b_read_mem e a n k = call (bk_read_mem e a n k) (\<lambda>(r, _). BkReadMem a n k r)"

definition b_write_mem :: "'w env \<Rightarrow> u64 \<Rightarrow> bytes \<Rightarrow> u8 \<Rightarrow> ('w session, esp_err) st" where
  "b_write_mem e a data k = call (bk_write_mem e a data k) (BkWriteMem a data k)"

definition b_apply_breakpoints :: "'w env \<Rightarrow> bp_entry list \<Rightarrow> ('w session, esp_err) st" where
  "b_apply_breakpoints e bs = call (bk_apply_breakpoints e bs) (BkApplyBreakpoints bs)"

definition b_apply_watchpoints :: "'w env \<Rightarrow> wp_entry list \<Rightarrow> ('w session, esp_err) st" where
  "b_apply_watchpoints e ws = call (bk_apply_watchpoints e ws) (BkApplyWatchpoints ws)"

definition b_set_vector_catch :: "'w env \<Rightarrow> u32 \<Rightarrow> ('w session, esp_err) st" where
  "b_set_vector_catch e m = call (bk_set_vector_catch e m) (BkSetVectorCatch m)"

lemmas b_defs = b_attach_def b_detach_def b_reset_def b_poll_halted_def b_halt_def b_resume_def
  b_read_regs_def b_write_regs_def b_read_mem_def b_write_mem_def b_apply_breakpoints_def
  b_apply_watchpoints_def b_set_vector_catch_def

lemma wp_call:
  "(\<And>a w. f (world s) = (a, w) \<Longrightarrow> Q a (s\<lparr>world := w, trace := trace s @ [g a]\<rparr>)) \<Longrightarrow>
   wp (call f g) Q s"
  by (simp add: wp_def result_st_def exec_st_def call_def split: prod.splits)

section \<open>Buffers\<close>

definition expect :: "bool \<Rightarrow> ('w session, unit) st" where
  "expect c = modify (\<lambda>s. s\<lparr>ub := ub s \<or> \<not> c\<rparr>)"

text \<open>\<open>memcpy\<close> into the frame buffer and into the snapshot buffer.\<close>

definition poke_scratch :: "nat \<Rightarrow> bytes \<Rightarrow> ('w session, unit) st" where
  "poke_scratch off bs = modify (\<lambda>s. case scratch s of
     Some buf \<Rightarrow> if off + length bs \<le> length buf
       then s\<lparr>scratch := Some (splice off bs buf)\<rparr> else s\<lparr>ub := True\<rparr>
   | None \<Rightarrow> s\<lparr>ub := True\<rparr>)"

definition poke_pending :: "nat \<Rightarrow> bytes \<Rightarrow> ('w session, unit) st" where
  "poke_pending off bs = modify (\<lambda>s. case pending_registers s of
     Some buf \<Rightarrow> if off + length bs \<le> length buf
       then s\<lparr>pending_registers := Some (splice off bs buf)\<rparr> else s\<lparr>ub := True\<rparr>
   | None \<Rightarrow> s\<lparr>ub := True\<rparr>)"

definition peek_scratch :: "nat \<Rightarrow> nat \<Rightarrow> ('w session, bytes) st" where
  "peek_scratch off n = State (\<lambda>s. case scratch s of
     Some buf \<Rightarrow> if off + n \<le> length buf then (slice off n buf, s) else ([], s\<lparr>ub := True\<rparr>)
   | None \<Rightarrow> ([], s\<lparr>ub := True\<rparr>))"

definition peek_pending :: "nat \<Rightarrow> nat \<Rightarrow> ('w session, bytes) st" where
  "peek_pending off n = State (\<lambda>s. case pending_registers s of
     Some buf \<Rightarrow> if off + n \<le> length buf then (slice off n buf, s) else ([], s\<lparr>ub := True\<rparr>)
   | None \<Rightarrow> ([], s\<lparr>ub := True\<rparr>))"

text \<open>The first \<open>region_count\<close> regions and the first \<open>sw_count\<close> table entries, as loops see them.\<close>

definition active_regions :: "'w session \<Rightarrow> memory_region list" where
  "active_regions s = (case regions s of None \<Rightarrow> [] | Some rs \<Rightarrow> take (region_count s) rs)"

definition active_sw :: "'w session \<Rightarrow> sw_bp list" where
  "active_sw s = (case sw_table s of None \<Rightarrow> [] | Some t \<Rightarrow> take (sw_count s) t)"

definition regions_readable :: "'w session \<Rightarrow> bool" where
  "regions_readable s \<longleftrightarrow> region_count s \<le> (case regions s of None \<Rightarrow> 0 | Some rs \<Rightarrow> length rs)"

definition sw_readable :: "'w session \<Rightarrow> bool" where
  "sw_readable s \<longleftrightarrow> sw_count s \<le> (case sw_table s of None \<Rightarrow> 0 | Some t \<Rightarrow> length t)"

text \<open>Every \<open>original\<close> array is as long as the instruction it remembers.\<close>

definition sw_bounded :: "'w session \<Rightarrow> bool" where
  "sw_bounded s \<longleftrightarrow> list_all (\<lambda>b. unat (sb_instruction_size b) \<le> length (sb_original b)) (active_sw s)"

definition storage_ready :: "'w env \<Rightarrow> 'w session \<Rightarrow> bool" where
  "storage_ready e s \<longleftrightarrow> scratch s \<noteq> None \<and> pending_registers s \<noteq> None \<and> regions s \<noteq> None \<and>
     sw_table s \<noteq> None \<and> env_tx_sink e \<noteq> None"

end
