(* ===== verification/Session_Frame.thy ===== *)
theory Session_Frame
  imports Session_State
begin

text \<open>
  Frame assembly of \<open>sidp_session.cpp\<close> (section "Frame assembly") and the walk over a register
  blob that several of its loops share.
\<close>

section \<open>Register blobs\<close>

text \<open>
  The loops over register entries (\<open>send_stopped\<close>, \<open>op_read_registers\<close>,
  \<open>capture_stack_snapshot\<close>, \<open>normalize_pc_in_register_blob\<close>,
  \<open>update_step_over_after_register_write\<close>) visit the same entries: from \<open>offset\<close>, while a header
  fits in \<open>sz\<close>, stopping at an entry whose value does not fit. \<open>walk_entries\<close> is that visit:
  the offset and header of every entry visited.
\<close>

function walk_entries :: "bytes \<Rightarrow> nat \<Rightarrow> nat \<Rightarrow> (nat \<times> register_value) list" where
  "walk_entries bs sz offset =
     (if offset + SIZEOF_register_value \<le> sz then
        let entry = dec_register_value (slice offset SIZEOF_register_value bs);
            entry_size = SIZEOF_register_value + unat (rv_value_size entry)
        in if offset + entry_size > sz then []
           else (offset, entry) # walk_entries bs sz (offset + entry_size)
      else [])"
  by pat_completeness auto
termination by (relation "measure (\<lambda>(bs, sz, offset). sz - offset)") (auto simp: Let_def)

declare walk_entries.simps [simp del]

definition count_entries :: "bytes \<Rightarrow> nat \<Rightarrow> nat" where
  "count_entries bs sz = length (walk_entries bs sz 0)"

definition entry_value32 :: "bytes \<Rightarrow> nat \<Rightarrow> u32" where
  "entry_value32 bs offset = le_word (slice (offset + SIZEOF_register_value) 4 bs)"

section \<open>Frames\<close>

definition begin_frame :: "u8 \<Rightarrow> u16 \<Rightarrow> u32 \<Rightarrow> nat \<Rightarrow> ('w session, bool) st" where
  "begin_frame kind opcode request_id payload_size = do {
     s \<leftarrow> State_Monad.get;
     if scratch s = None \<or> payload_size > FRAME_PAYLOAD_MAX then return False
     else do {
       modify (\<lambda>s. s\<lparr>tx_frame_size := SIZEOF_msg_header + payload_size\<rparr>);
       poke_scratch 0 (le_bytes 1 PROTOCOL_VERSION @ le_bytes 1 kind @ le_bytes 2 opcode @
         le_bytes 4 request_id);
       return True
     }
   }"

definition kill_transport :: "('w session, unit) st" where
  "kill_transport = modify (\<lambda>s. s\<lparr>transport_dead := True\<rparr>)"

definition finish_frame :: "'w env \<Rightarrow> ('w session, bool) st" where
  "finish_frame e = do {
     s \<leftarrow> State_Monad.get;
     if transport_dead s then return False
     else do {
       frame \<leftarrow> peek_scratch 0 (tx_frame_size s);
       case env_tx_sink e of
         None \<Rightarrow> do { kill_transport; return False }
       | Some sink \<Rightarrow>
           (case set_message_crc frame of (crc_ok, sealed) \<Rightarrow>
              if \<not> crc_ok then do { kill_transport; return False }
              else do {
                poke_scratch 0 sealed;
                accepted \<leftarrow> call (sink sealed) (Tx sealed);
                if \<not> accepted then do { kill_transport; return False }
                else return True
              })
     }
   }"

definition send_response ::
  "'w env \<Rightarrow> u16 \<Rightarrow> u32 \<Rightarrow> status_t \<Rightarrow> bytes \<Rightarrow> ('w session, bool) st" where
  "send_response e opcode request_id status payload = do {
     ok \<leftarrow> begin_frame KIND_RESPONSE opcode request_id (4 + length payload);
     if \<not> ok then return False
     else do {
       poke_scratch 12 (le_bytes 4 (status_code status));
       (if payload \<noteq> [] then poke_scratch 16 payload else return ());
       finish_frame e
     }
   }"

text \<open>The session's own calls pass no payload and ignore the result.\<close>

definition respond :: "'w env \<Rightarrow> u16 \<Rightarrow> u32 \<Rightarrow> status_t \<Rightarrow> ('w session, unit) st" where
  "respond e opcode request_id status = do {
     _ \<leftarrow> send_response e opcode request_id status [];
     return ()
   }"

definition send_stopped :: "'w env \<Rightarrow> ('w session, bool) st" where
  "send_stopped e = do {
     s \<leftarrow> State_Monad.get;
     ok \<leftarrow> begin_frame KIND_EVENT EVT_STOPPED 0
       (SIZEOF_stopped_event + pending_registers_size s + pending_stack_size s);
     if \<not> ok then return False
     else do {
       regs \<leftarrow> peek_pending 0 (pending_registers_size s);
       poke_scratch 12 (enc_stopped_event \<lparr>
         sev_stop_id = stop_id s,
         sev_core_id = 0,
         sev_reason = stop_reason_code (pending_reason s),
         sev_flags = 0,
         sev_reason_detail = pending_detail s,
         sev_breakpoint_id = pending_breakpoint_id s,
         sev_watchpoint_address = pending_watchpoint_address s,
         sev_register_count = word_of_nat (count_entries regs (pending_registers_size s)),
         sev_stack_length = word_of_nat (pending_stack_size s),
         sev_stack_address = pending_stack_address s\<rparr>);
       poke_scratch 48 regs;
       stack \<leftarrow> peek_pending (pending_registers_size s) (pending_stack_size s);
       poke_scratch (48 + pending_registers_size s) stack;
       sent \<leftarrow> finish_frame e;
       modify (\<lambda>s. s\<lparr>stop_reported := sent\<rparr>);
       return sent
     }
   }"

text \<open>
  \<open>send_target_lost\<close> writes \<open>reason\<close> (offset 12) and \<open>detail\<close> (offset 16) and leaves the three
  reserved bytes between them as the previous use of the buffer left them.
\<close>

definition send_target_lost :: "'w env \<Rightarrow> target_lost_reason_t \<Rightarrow> ('w session, bool) st" where
  "send_target_lost e reason = do {
     ok \<leftarrow> begin_frame KIND_EVENT EVT_TARGET_LOST 0 8;
     if \<not> ok then return False
     else do {
       poke_scratch 12 (le_bytes 1 (target_lost_reason_code reason));
       poke_scratch 16 (le_bytes 4 (0 :: u32));
       finish_frame e
     }
   }"

text \<open>\<open>enter_lost\<close>: the one transition into LOST. \<open>send_backend_failure\<close> maps a backend result.\<close>

definition enter_lost :: "'w env \<Rightarrow> target_lost_reason_t \<Rightarrow> ('w session, unit) st" where
  "enter_lost e reason = do {
     s \<leftarrow> State_Monad.get;
     if state s = TARGET_LOST then return ()
     else do {
       modify (\<lambda>s. s\<lparr>state := TARGET_LOST\<rparr>);
       _ \<leftarrow> send_target_lost e reason;
       return ()
     }
   }"

definition send_backend_failure ::
  "'w env \<Rightarrow> u16 \<Rightarrow> u32 \<Rightarrow> esp_err \<Rightarrow> status_t \<Rightarrow> ('w session, unit) st" where
  "send_backend_failure e opcode request_id result fallback =
     (if result = ESP_FAIL then do {
        respond e opcode request_id STATUS_TARGET_LOST;
        enter_lost e TARGET_LOST_SWD_FAULT
      }
      else respond e opcode request_id
        (if result = ESP_ERR_TIMEOUT then STATUS_TIMEOUT else fallback))"

end
