(* ===== verification/Session_Memory.thy ===== *)
theory Session_Memory
  imports Session_Frame
begin

text \<open>
  Memory access validation of \<open>sidp_session.cpp\<close> (\<open>validate_memory_access\<close>,
  \<open>is_executable_range\<close>): pure functions of the memory map copied at attach. Address arithmetic is
  on 64-bit words, as in the code, with its overflow tests.
\<close>

section \<open>The code\<close>

definition region_wraps :: "memory_region \<Rightarrow> bool" where
  "region_wraps c \<longleftrightarrow> mr_start c > u64_max - mr_length c"

definition region_holds :: "u64 \<Rightarrow> u64 \<Rightarrow> memory_region \<Rightarrow> bool" where
  "region_holds address len c \<longleftrightarrow>
     mr_start c \<le> address \<and> address + len \<le> mr_start c + mr_length c"

text \<open>The checks of \<open>validate_memory_access\<close> on the region that holds the access.\<close>

definition region_status :: "memory_region \<Rightarrow> u64 \<Rightarrow> u32 \<Rightarrow> u16 \<Rightarrow> u8 \<Rightarrow> bool \<Rightarrow> status_t" where
  "region_status region address len flags width is_write =
     (let allow_mmio = (flags AND MEM_ACCESS_ALLOW_MMIO \<noteq> 0) in
      if mr_type region = MEMORY_FLASH \<and> is_write then STATUS_UNSUPPORTED
      else if mr_flags region AND (if is_write then MEM_WRITE else MEM_READ) = 0
        then STATUS_ADDRESS_ERROR
      else if mr_type region = MEMORY_MMIO then
        (if \<not> allow_mmio then STATUS_ADDRESS_ERROR
         else if width \<noteq> MEM_WIDTH_8 \<and> width \<noteq> MEM_WIDTH_16 \<and> width \<noteq> MEM_WIDTH_32
           then STATUS_INVALID_ARGUMENT
         else if len \<noteq> ucast width then STATUS_INVALID_ARGUMENT
         else if address mod ucast width \<noteq> 0 then STATUS_ALIGNMENT_ERROR
         else STATUS_OK)
      else if width \<noteq> MEM_WIDTH_DEFAULT then
        (if width \<noteq> MEM_WIDTH_8 \<and> width \<noteq> MEM_WIDTH_16 \<and> width \<noteq> MEM_WIDTH_32
           then STATUS_INVALID_ARGUMENT
         else if address mod ucast width \<noteq> 0 \<or> len mod ucast width \<noteq> 0
           then STATUS_ALIGNMENT_ERROR
         else STATUS_OK)
      else STATUS_OK)"

definition validate_memory_access ::
  "memory_region list \<Rightarrow> u64 \<Rightarrow> u32 \<Rightarrow> u16 \<Rightarrow> u8 \<Rightarrow> bool \<Rightarrow> status_t" where
  "validate_memory_access rs address len flags width is_write =
     (if len = 0 \<or> address > u64_max - ucast len then STATUS_ADDRESS_ERROR
      else case List.find (\<lambda>c. \<not> region_wraps c \<and> region_holds address (ucast len) c) rs of
          None \<Rightarrow> STATUS_ADDRESS_ERROR
        | Some region \<Rightarrow> region_status region address len flags width is_write)"

definition is_executable_range :: "memory_region list \<Rightarrow> u64 \<Rightarrow> u64 \<Rightarrow> bool \<Rightarrow> bool" where
  "is_executable_range rs address len require_writable \<longleftrightarrow>
     \<not> (len = 0 \<or> address > u64_max - len) \<and>
     list_ex (\<lambda>region. \<not> region_wraps region \<and> region_holds address len region \<and>
        mr_flags region AND MEM_EXECUTE \<noteq> 0 \<and>
        (\<not> require_writable \<or>
          (mr_type region = MEMORY_RAM \<and> mr_flags region AND MEM_READ \<noteq> 0 \<and>
           mr_flags region AND MEM_WRITE \<noteq> 0))) rs"

section \<open>Properties\<close>

text \<open>The extent of an access in a region, in unbounded arithmetic.\<close>

definition in_region :: "nat \<Rightarrow> nat \<Rightarrow> memory_region \<Rightarrow> bool" where
  "in_region a n r \<longleftrightarrow> unat (mr_start r) \<le> a \<and> a + n \<le> unat (mr_start r) + unat (mr_length r) \<and>
     unat (mr_start r) + unat (mr_length r) < 2 ^ 64"

lemma unat_sum_fits: "unat a + unat b < 2 ^ 64 \<Longrightarrow> unat (a + b) = unat a + unat b" for a b :: u64
  by (simp add: unat_word_ariths)

lemma unat_max_minus: "unat (u64_max - n) = 2 ^ 64 - 1 - unat n"
proof -
  have "unat u64_max = 2 ^ 64 - 1" by (simp add: unsigned_minus_1_eq_mask mask_eq_exp_minus_1)
  moreover have "n \<le> u64_max" by simp
  ultimately show ?thesis by (simp only: unat_sub)
qed

lemma region_wraps_iff: "region_wraps r \<longleftrightarrow> 2 ^ 64 \<le> unat (mr_start r) + unat (mr_length r)"
proof -
  have "unat (u64_max - mr_length r) = 2 ^ 64 - 1 - unat (mr_length r)"
    by (rule unat_max_minus)
  moreover have "unat (mr_length r) < 2 ^ 64" "unat (mr_start r) < 2 ^ 64"
    using unsigned_less [of "mr_length r"] unsigned_less [of "mr_start r"] by simp_all
  ultimately show ?thesis
    unfolding region_wraps_def word_less_nat_alt by linarith
qed

lemma no_wrap_iff: "\<not> address > u64_max - len \<longleftrightarrow> unat address + unat len < 2 ^ 64" for address len :: u64
proof -
  have "unat (u64_max - len) = 2 ^ 64 - 1 - unat len"
    by (rule unat_max_minus)
  moreover have "unat len < 2 ^ 64"
    using unsigned_less [of len] by simp
  ultimately show ?thesis
    unfolding word_less_nat_alt by linarith
qed

lemma region_holds_iff:
  assumes "\<not> address > u64_max - len"
  shows "\<not> region_wraps r \<and> region_holds address len r \<longleftrightarrow> in_region (unat address) (unat len) r"
proof (cases "region_wraps r")
  case True
  then show ?thesis by (simp add: region_wraps_iff in_region_def)
next
  case False
  then have "unat (mr_start r) + unat (mr_length r) < 2 ^ 64" by (simp add: region_wraps_iff)
  moreover have "unat address + unat len < 2 ^ 64" using assms by (simp only: no_wrap_iff)
  ultimately show ?thesis
    using False by (simp add: region_holds_def in_region_def word_le_nat_alt unat_sum_fits)
qed

text \<open>What a region permits: \<open>None\<close>, or the error of the first check that fails.\<close>

definition natural_width :: "u8 \<Rightarrow> bool" where
  "natural_width width \<longleftrightarrow> width = MEM_WIDTH_8 \<or> width = MEM_WIDTH_16 \<or> width = MEM_WIDTH_32"

definition permits :: "memory_region \<Rightarrow> u64 \<Rightarrow> u32 \<Rightarrow> u16 \<Rightarrow> u8 \<Rightarrow> bool \<Rightarrow> bool" where
  "permits r address len flags width is_write \<longleftrightarrow>
     \<not> (mr_type r = MEMORY_FLASH \<and> is_write) \<and>
     mr_flags r AND (if is_write then MEM_WRITE else MEM_READ) \<noteq> 0 \<and>
     (if mr_type r = MEMORY_MMIO
      then flags AND MEM_ACCESS_ALLOW_MMIO \<noteq> 0 \<and> natural_width width \<and>
        unat len = unat width \<and> unat address mod unat width = 0
      else width = MEM_WIDTH_DEFAULT \<or> natural_width width \<and>
        unat address mod unat width = 0 \<and> unat len mod unat width = 0)"

lemma find_first:
  "List.find P xs = Some x \<longleftrightarrow>
     (\<exists>pre post. xs = pre @ x # post \<and> P x \<and> (\<forall>y \<in> set pre. \<not> P y))"
proof (induction xs)
  case (Cons a xs)
  show ?case
  proof
    assume "List.find P (a # xs) = Some x"
    then show "\<exists>pre post. a # xs = pre @ x # post \<and> P x \<and> (\<forall>y \<in> set pre. \<not> P y)"
    proof (cases "P a")
      case False
      with \<open>List.find P (a # xs) = Some x\<close> Cons.IH obtain pre post where
        "xs = pre @ x # post" "P x" "\<forall>y \<in> set pre. \<not> P y" by auto
      with False show ?thesis by (intro exI [of _ "a # pre"] exI [of _ post]) simp
    qed force
  qed (force simp: Cons_eq_append_conv Cons.IH)
qed simp

lemma unat_mod_ucast: "address mod ucast w = 0 \<longleftrightarrow> unat address mod unat w = 0" for address :: u64 and w :: u8
  by (simp add: word_unat_eq_iff unat_mod unat_ucast_up)

lemma unat_mod_ucast32: "n mod ucast w = 0 \<longleftrightarrow> unat n mod unat w = 0" for n :: u32 and w :: u8
  by (simp add: word_unat_eq_iff unat_mod unat_ucast_up)

lemma unat_eq_ucast: "n = ucast w \<longleftrightarrow> unat n = unat w" for n :: u32 and w :: u8
  by (simp add: word_unat_eq_iff unat_ucast_up)

lemma validate_ok_spec:
  "validate_memory_access rs address len flags width is_write = STATUS_OK \<longleftrightarrow>
     0 < unat len \<and> unat address + unat len < 2 ^ 64 \<and>
     (\<exists>pre r post. rs = pre @ r # post \<and> in_region (unat address) (unat len) r \<and>
        (\<forall>p \<in> set pre. \<not> in_region (unat address) (unat len) p) \<and>
        permits r address len flags width is_write)"
proof (cases "len = 0 \<or> address > u64_max - ucast len")
  case True
  then show ?thesis
    using no_wrap_iff [of "ucast len" address]
    by (auto simp: validate_memory_access_def unat_ucast_up)
next
  case False
  then have nw: "\<not> address > u64_max - ucast len" and pos: "0 < unat len"
    by (simp_all add: unat_gt_0)
  have u: "unat (ucast len :: u64) = unat len" by (simp add: unat_ucast_up)
  have fits: "unat address + unat len < 2 ^ 64" using nw by (simp only: no_wrap_iff u)
  have found: "List.find (\<lambda>c. \<not> region_wraps c \<and> region_holds address (ucast len) c) rs =
      List.find (in_region (unat address) (unat len)) rs"
    by (simp only: region_holds_iff [OF nw] u)
  have ok: "region_status r address len flags width is_write = STATUS_OK \<longleftrightarrow>
      permits r address len flags width is_write" for r
    unfolding region_status_def Let_def permits_def natural_width_def unat_mod_ucast
      unat_mod_ucast32 unat_eq_ucast by auto
  show ?thesis
  proof (cases "List.find (in_region (unat address) (unat len)) rs")
    case None
    then have "\<not> (\<exists>r \<in> set rs. in_region (unat address) (unat len) r)"
      by (simp add: find_None_iff)
    with None False found show ?thesis
      by (auto simp: validate_memory_access_def)
  next
    case (Some r)
    have first: "List.find (in_region (unat address) (unat len)) rs = Some r' \<longleftrightarrow> r' = r" for r'
      using Some by auto
    have ex: "(\<exists>pre r post. rs = pre @ r # post \<and> in_region (unat address) (unat len) r \<and>
        (\<forall>p \<in> set pre. \<not> in_region (unat address) (unat len) p) \<and>
        permits r address len flags width is_write) \<longleftrightarrow> permits r address len flags width is_write"
      (is "?L \<longleftrightarrow> ?R")
    proof
      assume ?L
      then obtain pre r' post where A: "rs = pre @ r' # post" "in_region (unat address) (unat len) r'"
        "\<forall>p \<in> set pre. \<not> in_region (unat address) (unat len) p"
        "permits r' address len flags width is_write" by blast
      have "List.find (in_region (unat address) (unat len)) rs = Some r'"
        by (rule find_first [THEN iffD2], intro exI conjI, rule A(1), rule A(2), rule A(3))
      with A(4) show ?R by (simp add: first)
    next
      assume R: ?R
      obtain pre post where "rs = pre @ r # post" "in_region (unat address) (unat len) r"
        "\<forall>p \<in> set pre. \<not> in_region (unat address) (unat len) p"
        using find_first [THEN iffD1, OF Some] by blast
      with R show ?L by blast
    qed
    show ?thesis
      unfolding validate_memory_access_def if_not_P [OF False] found Some
      using pos fits by (simp only: option.case ok ex simp_thms)
  qed
qed

text \<open>C36. READ_MEMORY and WRITE_MEMORY are admitted exactly when the access, as an interval of
  unbounded integers, is non-empty, ends below 2^64 and lies inside a region of the memory map
  that does not itself wrap, and the first such region permits it: never a write to flash, the
  read or write permission, for MMIO the explicit flag and one naturally aligned element, and for
  other memory an aligned whole number of elements of the requested width.\<close>

theorem validate_memory_access_iff:
  "validate_memory_access rs address len flags width is_write = STATUS_OK \<longleftrightarrow>
     0 < unat len \<and> unat address + unat len < 2 ^ 64 \<and>
     (\<exists>pre r post. rs = pre @ r # post \<and> in_region (unat address) (unat len) r \<and>
        \<not> list_ex (in_region (unat address) (unat len)) pre \<and>
        permits r address len flags width is_write)"
  by (simp add: validate_ok_spec list_ex_iff)

text \<open>A breakpoint or run-to address is accepted as executable exactly when its bytes lie,
  as an interval of unbounded integers below 2^64, inside an executable region that does not wrap;
  a software breakpoint needs that region to be readable and writable RAM.\<close>

theorem is_executable_range_iff:
  "is_executable_range rs address len require_writable \<longleftrightarrow>
     0 < unat len \<and> unat address + unat len < 2 ^ 64 \<and>
     (\<exists>r. r \<in> set rs \<and> in_region (unat address) (unat len) r \<and> mr_flags r AND MEM_EXECUTE \<noteq> 0 \<and>
        (if require_writable then mr_type r = MEMORY_RAM \<and> mr_flags r AND MEM_READ \<noteq> 0 \<and>
           mr_flags r AND MEM_WRITE \<noteq> 0 else True))"
proof (cases "len = 0 \<or> address > u64_max - len")
  case True
  then show ?thesis
    using no_wrap_iff [of len address] by (auto simp: is_executable_range_def)
next
  case False
  then have nw: "\<not> address > u64_max - len" and pos: "0 < unat len"
    by (simp_all add: unat_gt_0)
  then have fits: "unat address + unat len < 2 ^ 64" by (simp only: no_wrap_iff)
  show ?thesis
    using False pos fits
    by (auto simp: is_executable_range_def list_ex_iff region_holds_iff [OF nw, symmetric])
qed

end
