(* ===== verification/Session_Breakpoints.thy ===== *)
theory Session_Breakpoints
  imports Session_Memory
begin

text \<open>
  The software-breakpoint shadow table of \<open>sidp_session.cpp\<close> (section "Software breakpoint shadow
  table") and the run-configuration rollback. \<open>sw_table\<close> is the fixed array of 32 entries; an
  entry is addressed by its index, which stands for the C++ pointer or reference to it.
\<close>

section \<open>The code\<close>

definition BKPT_PATCH :: bytes where "BKPT_PATCH = [0x00, 0xBE]"

definition sw_get :: "nat \<Rightarrow> ('w session, sw_bp) st" where
  "sw_get i = State (\<lambda>s. case sw_table s of
     Some t \<Rightarrow> if i < length t then (t ! i, s) else (sw_bp_zero, s\<lparr>ub := True\<rparr>)
   | None \<Rightarrow> (sw_bp_zero, s\<lparr>ub := True\<rparr>))"

definition sw_put :: "nat \<Rightarrow> sw_bp \<Rightarrow> ('w session, unit) st" where
  "sw_put i b = modify (\<lambda>s. case sw_table s of
     Some t \<Rightarrow> if i < length t then s\<lparr>sw_table := Some (t[i := b])\<rparr> else s\<lparr>ub := True\<rparr>
   | None \<Rightarrow> s\<lparr>ub := True\<rparr>)"

definition sw_bp_install_one :: "'w env \<Rightarrow> nat \<Rightarrow> ('w session, bool) st" where
  "sw_bp_install_one e i = do {
     entry \<leftarrow> sw_get i;
     sw_put i (entry\<lparr>sb_installed := True\<rparr>);
     r \<leftarrow> b_write_mem e (sb_address entry) BKPT_PATCH MEM_WIDTH_DEFAULT;
     return (r = ESP_OK)
   }"

definition sw_bp_restore_one :: "'w env \<Rightarrow> nat \<Rightarrow> ('w session, bool) st" where
  "sw_bp_restore_one e i = do {
     entry \<leftarrow> sw_get i;
     if \<not> sb_installed entry then return True
     else do {
       expect (unat (sb_instruction_size entry) \<le> length (sb_original entry));
       r \<leftarrow> b_write_mem e (sb_address entry)
         (take (unat (sb_instruction_size entry)) (sb_original entry)) MEM_WIDTH_DEFAULT;
       if r = ESP_OK then do { sw_put i (entry\<lparr>sb_installed := False\<rparr>); return True }
       else return False
     }
   }"

text \<open>The loop of \<open>sw_bp_restore_all\<close>: the indices still to visit, \<open>remaining\<close>, \<open>all_restored\<close>.\<close>

primrec sw_bp_restore_loop ::
  "'w env \<Rightarrow> nat list \<Rightarrow> nat \<Rightarrow> bool \<Rightarrow> ('w session, nat \<times> bool) st" where
  "sw_bp_restore_loop e [] remaining all_restored = return (remaining, all_restored)"
| "sw_bp_restore_loop e (index # rest) remaining all_restored = do {
     ok \<leftarrow> sw_bp_restore_one e index;
     if \<not> ok then do {
       (if remaining \<noteq> index then do { entry \<leftarrow> sw_get index; sw_put remaining entry }
        else return ());
       sw_bp_restore_loop e rest (Suc remaining) False
     }
     else sw_bp_restore_loop e rest remaining all_restored
   }"

definition sw_bp_restore_all :: "'w env \<Rightarrow> ('w session, bool) st" where
  "sw_bp_restore_all e = do {
     n \<leftarrow> gets sw_count;
     (remaining, all_restored) \<leftarrow> sw_bp_restore_loop e [0..<n] 0 True;
     modify (\<lambda>s. s\<lparr>sw_count := remaining\<rparr>);
     return all_restored
   }"

definition sw_overlaps :: "bp_entry \<Rightarrow> sw_bp \<Rightarrow> bool" where
  "sw_overlaps entry prior \<longleftrightarrow>
     be_address entry < sb_address prior + ucast (sb_instruction_size prior) \<and>
     sb_address prior < be_address entry + ucast (be_instruction_size entry)"

text \<open>Stage 1 of \<open>sw_bp_apply\<close>: read and remember every original instruction.\<close>

primrec sw_bp_remember :: "'w env \<Rightarrow> bp_entry list \<Rightarrow> ('w session, status_t) st" where
  "sw_bp_remember e [] = return STATUS_OK"
| "sw_bp_remember e (entry # rest) = do {
     s \<leftarrow> State_Monad.get;
     if sw_count s = MAX_SOFTWARE_BREAKPOINTS then do {
       _ \<leftarrow> sw_bp_restore_all e;
       return STATUS_INVALID_ARGUMENT
     }
     else do {
       expect (sw_readable s);
       if list_ex (sw_overlaps entry) (active_sw s) then do {
         _ \<leftarrow> sw_bp_restore_all e;
         return STATUS_INVALID_ARGUMENT
       }
       else do {
         old \<leftarrow> sw_get (sw_count s);
         let slot = \<lparr>sb_id = be_breakpoint_id entry, sb_address = be_address entry,
           sb_instruction_size = be_instruction_size entry, sb_installed = False,
           sb_original = sb_original old\<rparr>;
         sw_put (sw_count s) slot;
         expect (unat (be_instruction_size entry) \<le> 4);
         (r, bs) \<leftarrow> b_read_mem e (be_address entry) (unat (be_instruction_size entry))
           MEM_WIDTH_DEFAULT;
         let original = splice 0 (take (unat (be_instruction_size entry)) bs) [0, 0, 0, 0];
         if r \<noteq> ESP_OK then do {
           _ \<leftarrow> sw_bp_restore_all e;
           return STATUS_SWD_ERROR
         }
         else if 2 \<le> be_instruction_size entry \<and> original ! 0 = 0x00 \<and> original ! 1 = 0xBE
         then do {
           _ \<leftarrow> sw_bp_restore_all e;
           return STATUS_INVALID_ARGUMENT
         }
         else do {
           sw_put (sw_count s) (slot\<lparr>sb_original := original\<rparr>);
           modify (\<lambda>s. s\<lparr>sw_count := Suc (sw_count s)\<rparr>);
           sw_bp_remember e rest
         }
       }
     }
   }"

text \<open>Stage 2: write the halfword patches.\<close>

primrec sw_bp_patch :: "'w env \<Rightarrow> nat list \<Rightarrow> ('w session, status_t) st" where
  "sw_bp_patch e [] = return STATUS_OK"
| "sw_bp_patch e (index # rest) = do {
     ok \<leftarrow> sw_bp_install_one e index;
     if \<not> ok then do {
       _ \<leftarrow> sw_bp_restore_all e;
       return STATUS_SWD_ERROR
     }
     else sw_bp_patch e rest
   }"

definition sw_bp_apply :: "'w env \<Rightarrow> bp_entry list \<Rightarrow> ('w session, status_t) st" where
  "sw_bp_apply e entries = do {
     ok \<leftarrow> sw_bp_restore_all e;
     if \<not> ok then return STATUS_SWD_ERROR
     else do {
       st \<leftarrow> sw_bp_remember e entries;
       if st \<noteq> STATUS_OK then return st
       else do {
         n \<leftarrow> gets sw_count;
         sw_bp_patch e [0..<n]
       }
     }
   }"

text \<open>
  \<open>sw_bp_substitute_read\<close> and \<open>sw_bp_write_overlap\<close>: for every installed entry that meets the
  range, byte by byte. The loops over \<open>offset\<close> touch each byte once, so a pass is a map over the
  bytes it may change.
\<close>

definition bp_misses :: "sw_bp \<Rightarrow> u64 \<Rightarrow> nat \<Rightarrow> bool" where
  "bp_misses entry address len \<longleftrightarrow>
     sb_address entry + ucast (sb_instruction_size entry) \<le> address \<or>
     address + word_of_nat len \<le> sb_address entry"

definition bp_covers :: "sw_bp \<Rightarrow> u64 \<Rightarrow> bool" where
  "bp_covers entry absolute \<longleftrightarrow> sb_address entry \<le> absolute \<and>
     absolute < sb_address entry + ucast (sb_instruction_size entry)"

definition substitute_one :: "u64 \<Rightarrow> sw_bp \<Rightarrow> bytes \<Rightarrow> bytes" where
  "substitute_one address entry data =
     (if \<not> sb_installed entry \<or> bp_misses entry address (length data) then data
      else map (\<lambda>offset. let absolute = address + word_of_nat offset in
          if bp_covers entry absolute
          then sb_original entry ! unat (absolute - sb_address entry) else data ! offset)
        [0..<length data])"

definition sw_bp_substitute_read :: "sw_bp list \<Rightarrow> u64 \<Rightarrow> bytes \<Rightarrow> bytes" where
  "sw_bp_substitute_read table address data = fold (substitute_one address) table data"

definition overlap_one :: "u64 \<Rightarrow> bytes \<Rightarrow> sw_bp \<Rightarrow> sw_bp" where
  "overlap_one address data entry =
     (if \<not> sb_installed entry \<or> bp_misses entry address (length data) then entry
      else entry\<lparr>sb_original := fold (\<lambda>offset original.
          let absolute = address + word_of_nat offset in
          if bp_covers entry absolute
          then original[unat (absolute - sb_address entry) := data ! offset] else original)
        [0..<length data] (sb_original entry)\<rparr>)"

definition sw_bp_write_overlap :: "u64 \<Rightarrow> bytes \<Rightarrow> ('w session, unit) st" where
  "sw_bp_write_overlap address data = modify (\<lambda>s.
     s\<lparr>sw_table := map_option
        (\<lambda>t. map (overlap_one address data) (take (sw_count s) t) @ drop (sw_count s) t)
        (sw_table s)\<rparr>)"

text \<open>The write image of \<open>op_write_memory\<close>: every installed patch stays armed.\<close>

definition keep_patch :: "u64 \<Rightarrow> sw_bp \<Rightarrow> bytes \<Rightarrow> bytes" where
  "keep_patch address entry img =
     (if \<not> sb_installed entry then img
      else if sb_address entry + 2 \<le> address \<or>
        address + word_of_nat (length img) \<le> sb_address entry then img
      else map (\<lambda>offset. let absolute = address + word_of_nat offset in
          if sb_address entry \<le> absolute \<and> absolute < sb_address entry + 2
          then BKPT_PATCH ! unat (absolute - sb_address entry) else img ! offset)
        [0..<length img])"

definition write_image :: "sw_bp list \<Rightarrow> u64 \<Rightarrow> bytes \<Rightarrow> bytes" where
  "write_image table address data = fold (keep_patch address) table data"

definition sw_bp_find_by_address :: "sw_bp list \<Rightarrow> u64 \<Rightarrow> nat option" where
  "sw_bp_find_by_address table address =
     List.find (\<lambda>i. sb_address (table ! i) = address) [0..<length table]"

definition find_installed :: "sw_bp list \<Rightarrow> u64 \<Rightarrow> nat option" where
  "find_installed table address =
     (case sw_bp_find_by_address table address of
        None \<Rightarrow> None
      | Some i \<Rightarrow> if sb_installed (table ! i) then Some i else None)"

definition sw_bp_find_by_halt_pc :: "sw_bp list \<Rightarrow> u64 \<Rightarrow> nat option" where
  "sw_bp_find_by_halt_pc table pc =
     (case (if 2 \<le> pc then find_installed table (pc - 2) else None) of
        Some i \<Rightarrow> Some i
      | None \<Rightarrow> find_installed table pc)"

section \<open>Run configuration\<close>

definition clear_run_tracking :: "('w session, unit) st" where
  "clear_run_tracking = modify (\<lambda>s. s\<lparr>running_action := RUN_CONTINUE, run_to_active := False,
     active_run_to_address := 0, hw_count := 0\<rparr>)"

definition rollback_run_config :: "'w env \<Rightarrow> ('w session, bool) st" where
  "rollback_run_config e = do {
     ok0 \<leftarrow> sw_bp_restore_all e;
     r1 \<leftarrow> b_apply_breakpoints e [];
     r2 \<leftarrow> b_apply_watchpoints e [];
     r3 \<leftarrow> b_set_vector_catch e VECTOR_CATCH_NONE;
     clear_run_tracking;
     return (r3 = ESP_OK \<and> r2 = ESP_OK \<and> r1 = ESP_OK \<and> ok0)
   }"

definition fail_run :: "'w env \<Rightarrow> u32 \<Rightarrow> status_t \<Rightarrow> ('w session, unit) st" where
  "fail_run e request_id status = do {
     restored \<leftarrow> rollback_run_config e;
     respond e OP_RUN request_id (if restored then status else STATUS_SWD_ERROR);
     if \<not> restored then enter_lost e TARGET_LOST_SWD_FAULT else return ()
   }"

end
