(* ===== verification/Session_Stop.thy ===== *)
theory Session_Stop
  imports Session_Breakpoints
begin

text \<open>
  The stop pipeline of \<open>sidp_session.cpp\<close> (section "Stop pipeline"): classification of a halt,
  the stop generation, the register and stack snapshot, and the step over a software breakpoint.
\<close>

section \<open>The code\<close>

definition clear_debug_state :: "('w session, unit) st" where
  "clear_debug_state = modify (\<lambda>s. s\<lparr>stop_reported := False, pending_reason := STOP_UNKNOWN,
     pending_detail := 0, pending_breakpoint_id := 0, pending_watchpoint_address := 0,
     pending_registers_size := 0, pending_stack_size := 0, pending_stack_address := 0,
     sw_step_over_pending := False, sw_step_over_address := 0\<rparr>)"

text \<open>
  \<open>normalize_pc_in_register_blob\<close> as a function of the blob: the first available 32-bit PC entry
  gets the address of the breakpoint that is to be stepped over.
\<close>

definition is_pc_entry :: "register_value \<Rightarrow> bool" where
  "is_pc_entry entry \<longleftrightarrow> rv_register_id entry = ARM_REG_PC \<and> rv_value_size entry = 4 \<and>
     rv_flags entry AND REGISTER_VALUE_FLAG_UNAVAILABLE = 0"

definition normalize_pc_in_register_blob :: "bool \<Rightarrow> u64 \<Rightarrow> bytes \<Rightarrow> nat \<Rightarrow> bytes" where
  "normalize_pc_in_register_blob pending address data sz =
     (if \<not> pending then data
      else case List.find (\<lambda>(_, entry). is_pc_entry entry) (walk_entries data sz 0) of
        None \<Rightarrow> data
      | Some (offset, _) \<Rightarrow>
          splice (offset + SIZEOF_register_value) (le_bytes 4 (ucast address :: u32)) data)"

definition is_sp_entry :: "register_value \<Rightarrow> bool" where
  "is_sp_entry entry \<longleftrightarrow> rv_register_id entry = ARM_REG_SP \<and> rv_value_size entry = 4 \<and>
     rv_flags entry AND REGISTER_VALUE_FLAG_UNAVAILABLE = 0"

definition find_sp :: "bytes \<Rightarrow> nat \<Rightarrow> u32 option" where
  "find_sp data sz = map_option (\<lambda>(offset, _). entry_value32 data offset)
     (List.find (\<lambda>(_, entry). is_sp_entry entry) (walk_entries data sz 0))"

definition stack_region :: "memory_region list \<Rightarrow> u64 \<Rightarrow> memory_region option" where
  "stack_region rs sp = List.find (\<lambda>c. \<not> (mr_type c \<noteq> MEMORY_RAM \<or> mr_flags c AND MEM_READ = 0 \<or>
     region_wraps c) \<and> mr_start c \<le> sp \<and> sp < mr_start c + mr_length c) rs"

text \<open>The clipped window \<open>[start, end)\<close>; \<open>None\<close> is the early return on an empty one.\<close>

definition stack_window :: "memory_region \<Rightarrow> u64 \<Rightarrow> (u64 \<times> u64) option" where
  "stack_window region sp =
     (let limit = mr_start region + mr_length region;
          start = (if sp > ucast STACK_SNAPSHOT_BELOW then sp - ucast STACK_SNAPSHOT_BELOW else 0);
          finish = sp + ucast STACK_SNAPSHOT_ABOVE;
          start = (if start < mr_start region then mr_start region else start);
          finish = (if finish > limit then limit else finish)
      in if finish \<le> start then None else Some (start, finish))"

definition capture_stack_snapshot :: "'w env \<Rightarrow> ('w session, unit) st" where
  "capture_stack_snapshot e = do {
     s \<leftarrow> State_Monad.get;
     blob \<leftarrow> peek_pending 0 (pending_registers_size s);
     case find_sp blob (pending_registers_size s) of
       None \<Rightarrow> return ()
     | Some sp \<Rightarrow> do {
         expect (regions_readable s);
         case stack_region (active_regions s) (ucast sp) of
           None \<Rightarrow> return ()
         | Some region \<Rightarrow>
             (case stack_window region (ucast sp) of
                None \<Rightarrow> return ()
              | Some (start, finish) \<Rightarrow> do {
                  expect (pending_registers_size s \<le> SNAPSHOT_BLOB_CAPACITY);
                  let n = min (unat (finish - start))
                    (SNAPSHOT_BLOB_CAPACITY - pending_registers_size s);
                  (r, bs) \<leftarrow> b_read_mem e start n MEM_WIDTH_DEFAULT;
                  poke_pending (pending_registers_size s) (take n bs);
                  if r \<noteq> ESP_OK then return ()
                  else modify (\<lambda>s. s\<lparr>pending_stack_address := start, pending_stack_size := n\<rparr>)
                })
       }
   }"

definition DFSR_HALTED :: u32 where "DFSR_HALTED = 1"
definition DFSR_BKPT :: u32 where "DFSR_BKPT = 2"
definition DFSR_DWTTRAP :: u32 where "DFSR_DWTTRAP = 4"
definition DFSR_VCATCH :: u32 where "DFSR_VCATCH = 8"

text \<open>
  The classification at the head of \<open>enter_halted\<close>: reason, breakpoint id, watchpoint address, and
  the address of a software breakpoint to step over.
\<close>

definition classify_stop ::
  "'w session \<Rightarrow> stop_detect \<Rightarrow> stop_reason_t \<times> u32 \<times> u64 \<times> u64 option" where
  "classify_stop s stop =
     (if sd_lockup stop then (STOP_LOCKUP, 0, 0, None)
      else if sd_watchpoint_match stop \<or> sd_dfsr stop AND DFSR_DWTTRAP \<noteq> 0
        then (STOP_WATCHPOINT, 0, sd_watchpoint_address stop, None)
      else if run_to_active s \<and> sd_comparator_match stop \<and>
        ucast (sd_pc stop) = active_run_to_address s then (STOP_RUN_TO_ADDRESS, 0, 0, None)
      else if \<not> sd_comparator_match stop \<and> sd_dfsr stop AND DFSR_BKPT \<noteq> 0 then
        (case sw_bp_find_by_halt_pc (active_sw s) (ucast (sd_pc stop)) of
           None \<Rightarrow> (STOP_BREAKPOINT, 0, 0, None)
         | Some i \<Rightarrow> (STOP_BREAKPOINT, sb_id (active_sw s ! i), 0,
             Some (sb_address (active_sw s ! i))))
      else if sd_comparator_match stop \<or> sd_dfsr stop AND DFSR_BKPT \<noteq> 0 then
        (STOP_BREAKPOINT,
         if sd_comparator_match stop \<and> unat (sd_comparator_index stop) < hw_count s
         then hw_breakpoint_ids s ! unat (sd_comparator_index stop) else 0, 0, None)
      else if sd_fault stop then (STOP_FAULT, 0, 0, None)
      else if sd_dfsr stop AND DFSR_VCATCH \<noteq> 0 then (STOP_VECTOR_CATCH, 0, 0, None)
      else if sd_dfsr stop AND DFSR_HALTED \<noteq> 0 \<and> running_action s = RUN_SINGLE_STEP
        then (STOP_SINGLE_STEP, 0, 0, None)
      else (STOP_USER_HALT, 0, 0, None))"

text \<open>The full snapshot at the end of \<open>enter_halted\<close>.\<close>

definition capture_snapshot :: "'w env \<Rightarrow> ('w session, unit) st" where
  "capture_snapshot e = do {
     s \<leftarrow> State_Monad.get;
     if capabilities s AND CAP_STOP_SNAPSHOT = 0 then return ()
     else do {
       (r, bs, out_size) \<leftarrow> b_read_regs e [] SNAPSHOT_BLOB_CAPACITY;
       poke_pending 0 (take SNAPSHOT_BLOB_CAPACITY bs);
       if r = ESP_OK \<and> out_size \<le> SNAPSHOT_BLOB_CAPACITY then do {
         modify (\<lambda>s. s\<lparr>pending_registers_size := out_size\<rparr>);
         blob \<leftarrow> peek_pending 0 out_size;
         poke_pending 0 (normalize_pc_in_register_blob (sw_step_over_pending s)
           (sw_step_over_address s) blob out_size);
         capture_stack_snapshot e
       }
       else return ()
     }
   }"

definition enter_halted :: "'w env \<Rightarrow> stop_detect \<Rightarrow> ('w session, unit) st" where
  "enter_halted e stop = do {
     s \<leftarrow> State_Monad.get;
     if state s = TARGET_LOST then return ()
     else do {
       expect (sw_readable s \<and> hw_count s \<le> length (hw_breakpoint_ids s));
       let (reason, breakpoint_id, watchpoint_address, step_over) = classify_stop s stop;
       modify (\<lambda>s. s\<lparr>sw_step_over_pending := step_over \<noteq> None,
         sw_step_over_address := (case step_over of None \<Rightarrow> 0 | Some a \<Rightarrow> a)\<rparr>);
       modify (\<lambda>s. s\<lparr>stop_id := stop_id s + 1\<rparr>);
       s \<leftarrow> State_Monad.get;
       if stop_id s = 0 then enter_lost e TARGET_LOST_TIMEOUT
       else do {
         modify (\<lambda>s. s\<lparr>state := TARGET_HALTED, stop_reported := False, pending_reason := reason,
           pending_detail := sd_dfsr stop, pending_breakpoint_id := breakpoint_id,
           pending_watchpoint_address := watchpoint_address, pending_registers_size := 0,
           pending_stack_size := 0, pending_stack_address := 0, running_action := RUN_CONTINUE,
           run_to_active := False, active_run_to_address := 0\<rparr>);
         capture_snapshot e
       }
     }
   }"

definition emit_pending_stopped :: "'w env \<Rightarrow> ('w session, unit) st" where
  "emit_pending_stopped e = do {
     s \<leftarrow> State_Monad.get;
     if stop_reported s \<or> state s \<noteq> TARGET_HALTED then return ()
     else do { _ \<leftarrow> send_stopped e; return () }
   }"

section \<open>Step over a software breakpoint\<close>

definition write_current_pc :: "'w env \<Rightarrow> u32 \<Rightarrow> ('w session, bool) st" where
  "write_current_pc e pc = do {
     r \<leftarrow> b_write_regs e (enc_register_value \<lparr>rv_register_id = ARM_REG_PC, rv_value_size = 4,
       rv_flags = REGISTER_VALUE_FLAG_NONE\<rparr> @ le_bytes 4 pc);
     return (r = ESP_OK)
   }"

text \<open>
  \<open>update_step_over_after_register_write\<close>: the first 32-bit PC entry among the first
  \<open>register_count\<close> ones decides. The list is validated by the caller, and the walk stops where the
  loop returns.
\<close>

definition update_step_over_after_register_write :: "bytes \<Rightarrow> nat \<Rightarrow> ('w session, unit) st" where
  "update_step_over_after_register_write data register_count = do {
     s \<leftarrow> State_Monad.get;
     if \<not> sw_step_over_pending s then return ()
     else case List.find (\<lambda>(_, entry). rv_register_id entry = ARM_REG_PC \<and> rv_value_size entry = 4)
         (take register_count (walk_entries data (length data) 0)) of
       None \<Rightarrow> return ()
     | Some (offset, _) \<Rightarrow>
         if ucast (entry_value32 data offset) \<noteq> sw_step_over_address s
         then modify (\<lambda>s. s\<lparr>sw_step_over_pending := False, sw_step_over_address := 0\<rparr>)
         else return ()
   }"

datatype step_over_t =
    NOT_NEEDED | STEPPED | STOPPED_STEP | STOPPED_REAL | STEP_FAILED | STEP_FAILED_LOST

text \<open>
  The polling loop: \<open>fuel\<close> is the number of attempts left (the code starts it at 100). The result
  is the failure reason, or the last detection record when the halt was seen or not.
\<close>

primrec poll_step ::
  "'w env \<Rightarrow> nat \<Rightarrow> stop_detect \<Rightarrow> ('w session, target_lost_reason_t + bool \<times> stop_detect) st" where
  "poll_step e 0 stop = return (Inr (False, stop))"
| "poll_step e (Suc fuel) stop = do {
     (r, stop) \<leftarrow> b_poll_halted e stop;
     if r \<noteq> ESP_OK
     then return (Inl (if r = ESP_ERR_TIMEOUT then TARGET_LOST_TIMEOUT else TARGET_LOST_SWD_FAULT))
     else if sd_halted stop then return (Inr (True, stop))
     else poll_step e fuel stop
   }"

definition real_stop :: "stop_detect \<Rightarrow> bool" where
  "real_stop stop \<longleftrightarrow> sd_lockup stop \<or> sd_fault stop \<or> sd_watchpoint_match stop \<or>
     sd_comparator_match stop \<or> sd_dfsr stop AND 0x0000000E \<noteq> 0"

text \<open>The two uses of the entry pointer \<open>bp\<close>; with \<open>bp == nullptr\<close> neither is made.\<close>

definition restore_at :: "'w env \<Rightarrow> nat option \<Rightarrow> ('w session, bool) st" where
  "restore_at e bp = (case bp of None \<Rightarrow> return True | Some i \<Rightarrow> sw_bp_restore_one e i)"

definition install_at :: "'w env \<Rightarrow> nat option \<Rightarrow> ('w session, bool) st" where
  "install_at e bp = (case bp of None \<Rightarrow> return True | Some i \<Rightarrow> sw_bp_install_one e i)"

text \<open>
  The result of \<open>execute_step_over\<close> carries its two out parameters: \<open>step_stop\<close>, and \<open>lost_reason\<close>,
  which the caller initialises to \<open>TARGET_LOST_SWD_FAULT\<close>. \<open>finish_step_over\<close> is the part after
  the polling loop.
\<close>

definition finish_step_over :: "'w env \<Rightarrow> u8 \<Rightarrow> nat option \<Rightarrow>
    target_lost_reason_t + bool \<times> stop_detect \<Rightarrow>
    ('w session, step_over_t \<times> stop_detect \<times> target_lost_reason_t) st" where
  "finish_step_over e action bp polled =
     (case polled of
        Inl reason \<Rightarrow> return (STEP_FAILED_LOST, no_stop, reason)
      | Inr (halted, stop) \<Rightarrow>
          if \<not> halted then return (STEP_FAILED_LOST, no_stop, TARGET_LOST_TIMEOUT)
          else do {
            modify (\<lambda>s. s\<lparr>sw_step_over_pending := False, sw_step_over_address := 0\<rparr>);
            armed \<leftarrow> install_at e bp;
            if \<not> armed then return (STEP_FAILED_LOST, no_stop, TARGET_LOST_SWD_FAULT)
            else if real_stop stop then return (STOPPED_REAL, stop, TARGET_LOST_SWD_FAULT)
            else if action = RUN_SINGLE_STEP
              then return (STOPPED_STEP, stop, TARGET_LOST_SWD_FAULT)
            else return (STEPPED, no_stop, TARGET_LOST_SWD_FAULT)
          })"

definition execute_step_over ::
  "'w env \<Rightarrow> u8 \<Rightarrow> ('w session, step_over_t \<times> stop_detect \<times> target_lost_reason_t) st" where
  "execute_step_over e action = do {
     s \<leftarrow> State_Monad.get;
     if \<not> sw_step_over_pending s then return (NOT_NEEDED, no_stop, TARGET_LOST_SWD_FAULT)
     else do {
       expect (sw_readable s);
       let pc = (ucast (sw_step_over_address s) :: u32);
       let bp = sw_bp_find_by_address (active_sw s) (sw_step_over_address s);
       restored \<leftarrow> restore_at e bp;
       if \<not> restored then return (STEP_FAILED, no_stop, TARGET_LOST_SWD_FAULT)
       else do {
         pc_ok \<leftarrow> write_current_pc e pc;
         if \<not> pc_ok then do {
           _ \<leftarrow> install_at e bp;
           return (STEP_FAILED, no_stop, TARGET_LOST_SWD_FAULT)
         }
         else do {
           r \<leftarrow> b_resume e RUN_SINGLE_STEP 0;
           if r \<noteq> ESP_OK then return (STEP_FAILED_LOST, no_stop,
             if r = ESP_ERR_TIMEOUT then TARGET_LOST_TIMEOUT else TARGET_LOST_SWD_FAULT)
           else do {
             polled \<leftarrow> poll_step e 100 no_stop;
             finish_step_over e action bp polled
           }
         }
       }
     }
   }"

end
