(* ===== verification/Session_Ops.thy ===== *)
theory Session_Ops
  imports Session_Stop
begin

text \<open>
  Session life cycle and the target-access requests of \<open>sidp_session.cpp\<close>: \<open>init\<close>,
  \<open>release_storage\<close>, \<open>handle_disconnect\<close>, ATTACH, DETACH, GET_STATE, READ/WRITE_MEMORY and
  READ/WRITE_REGISTERS.
\<close>

section \<open>Storage\<close>

text \<open>
  \<open>heap_caps_calloc\<close> is the environment's; a granted block is zeroed. \<open>heap_caps_free\<close> returns
  nothing the session observes.
\<close>

definition calloc :: "'w env \<Rightarrow> nat \<Rightarrow> ('w session, bool) st" where
  "calloc e n = State (\<lambda>s. case env_calloc e n (world s) of (ok, w) \<Rightarrow> (ok, s\<lparr>world := w\<rparr>))"

definition release_storage :: "('w session, unit) st" where
  "release_storage = modify (\<lambda>s. s\<lparr>sw_table := None, regions := None, pending_registers := None,
     scratch := None, tx_frame_size := 0\<rparr>)"

definition no_memory :: "('w session, esp_err) st" where
  "no_memory = do { release_storage; return ESP_ERR_NO_MEM }"

definition init :: "'w env \<Rightarrow> ('w session, esp_err) st" where
  "init e = do {
     s \<leftarrow> State_Monad.get;
     if env_tx_sink e = None then return ESP_ERR_INVALID_ARG
     else if storage_ready e s then return ESP_ERR_INVALID_STATE
     else do {
       ok \<leftarrow> calloc e MAX_FRAME_SIZE;
       modify (\<lambda>s. s\<lparr>scratch := if ok then Some (replicate MAX_FRAME_SIZE 0) else None\<rparr>);
       if \<not> ok then no_memory
       else do {
         ok \<leftarrow> calloc e MAX_FRAME_SIZE;
         modify (\<lambda>s. s\<lparr>pending_registers :=
           if ok then Some (replicate MAX_FRAME_SIZE 0) else None\<rparr>);
         if \<not> ok then no_memory
         else do {
           ok \<leftarrow> calloc e (SIZEOF_memory_region * MAX_MEMORY_REGIONS);
           modify (\<lambda>s. s\<lparr>regions :=
             if ok then Some (replicate MAX_MEMORY_REGIONS memory_region_zero) else None\<rparr>);
           if \<not> ok then no_memory
           else do {
             ok \<leftarrow> calloc e (24 * MAX_SOFTWARE_BREAKPOINTS);
             modify (\<lambda>s. s\<lparr>sw_table :=
               if ok then Some (replicate MAX_SOFTWARE_BREAKPOINTS sw_bp_zero) else None\<rparr>);
             if \<not> ok then no_memory else return ESP_OK
           }
         }
       }
     }
   }"

section \<open>Disconnect\<close>

definition detach_cleanup :: "('w session, unit) st" where
  "detach_cleanup = do {
     modify (\<lambda>s. s\<lparr>attached := False, state := TARGET_DETACHED, stop_id := 0\<rparr>);
     clear_debug_state;
     clear_run_tracking
   }"

definition handle_disconnect :: "'w env \<Rightarrow> ('w session, bool) st" where
  "handle_disconnect e = do {
     modify (\<lambda>s. s\<lparr>transport_dead := True\<rparr>);
     s \<leftarrow> State_Monad.get;
     if \<not> attached s then return True
     else do {
       (r, stop) \<leftarrow> b_halt e HALT_TIMEOUT_MS no_stop;
       restored \<leftarrow> (if r \<noteq> ESP_OK \<or> \<not> sd_halted stop then return False else sw_bp_restore_all e);
       if \<not> restored then do {
         modify (\<lambda>s. s\<lparr>state := TARGET_LOST\<rparr>);
         return False
       }
       else do {
         r \<leftarrow> b_detach e DETACH_KEEP_HALTED;
         if r \<noteq> ESP_OK then do {
           modify (\<lambda>s. s\<lparr>state := TARGET_LOST\<rparr>);
           return False
         }
         else do { detach_cleanup; return True }
       }
     }
   }"

section \<open>ATTACH\<close>

definition has_capability :: "'w session \<Rightarrow> u32 \<Rightarrow> bool" where
  "has_capability s cap \<longleftrightarrow> capabilities s AND cap \<noteq> 0"

definition HANDLED_CAPABILITIES :: u32 where
  "HANDLED_CAPABILITIES = CAP_STOP_SNAPSHOT OR CAP_SOFTWARE_BP OR CAP_HARDWARE_BP OR
     CAP_WATCHPOINT OR CAP_SINGLE_STEP OR CAP_RESET_HALT OR CAP_RESET_SYSTEM OR CAP_RESET_NRST OR
     CAP_RESET_RUN OR CAP_FPU"

definition strip_if :: "bool \<Rightarrow> u32 \<Rightarrow> u32 \<Rightarrow> u32" where
  "strip_if unusable cap caps = (if caps AND cap \<noteq> 0 \<and> unusable then caps AND NOT cap else caps)"

definition normalize_attach_info :: "attach_info \<Rightarrow> attach_info" where
  "normalize_attach_info info =
     (let caps = ai_capabilities info AND HANDLED_CAPABILITIES;
          hw_bp = min (ai_hardware_breakpoints info) 16;
          hw_wp = min (ai_hardware_watchpoints info) 16;
          caps = strip_if (hw_bp = 0) CAP_HARDWARE_BP caps;
          caps = strip_if (hw_wp = 0) CAP_WATCHPOINT caps;
          hw_bp = (if caps AND CAP_HARDWARE_BP = 0 then 0 else hw_bp);
          hw_wp = (if caps AND CAP_WATCHPOINT = 0 then 0 else hw_wp);
          caps = strip_if (caps AND CAP_SINGLE_STEP = 0) CAP_SOFTWARE_BP caps;
          reset_methods = CAP_RESET_SYSTEM OR CAP_RESET_NRST;
          caps = strip_if (caps AND reset_methods = 0) CAP_RESET_HALT caps;
          caps = strip_if (caps AND reset_methods = 0) CAP_RESET_RUN caps;
          max_xfer = (ucast (ai_max_memory_transfer info) :: u32);
          max_xfer = (if max_xfer = 0 then DEFAULT_MAX_MEMORY_TRANSFER else max_xfer);
          max_xfer = (if max_xfer > MAX_MEMORY_TRANSFER then MAX_MEMORY_TRANSFER else max_xfer)
      in info\<lparr>ai_capabilities := caps, ai_hardware_breakpoints := hw_bp,
           ai_hardware_watchpoints := hw_wp, ai_max_memory_transfer := ucast max_xfer\<rparr>)"

definition decode_regions :: "bytes \<Rightarrow> memory_region list" where
  "decode_regions bs = map (\<lambda>i. dec_memory_region (slice (i * SIZEOF_memory_region)
     SIZEOF_memory_region bs)) [0..<length bs div SIZEOF_memory_region]"

definition store_regions :: "memory_region list \<Rightarrow> ('w session, unit) st" where
  "store_regions new = modify (\<lambda>s. case regions s of
     Some rs \<Rightarrow> if length new \<le> length rs
       then s\<lparr>regions := Some (splice 0 new rs), region_count := length new\<rparr>
       else s\<lparr>ub := True\<rparr>
   | None \<Rightarrow> if new = [] then s\<lparr>region_count := 0\<rparr> else s\<lparr>ub := True\<rparr>)"

definition attach_response_of :: "attach_info \<Rightarrow> attach_response" where
  "attach_response_of info = \<lparr>
     ares_status = status_code STATUS_OK,
     ares_architecture = ai_architecture info,
     ares_profile = ai_profile info,
     ares_address_width = ai_address_width info,
     ares_reserved0 = 0,
     ares_capabilities = ai_capabilities info,
     ares_target_id = ai_target_id info,
     ares_cpu_id = ai_cpu_id info,
     ares_supported_vector_catch_mask = ai_supported_vector_catch_mask info,
     ares_hardware_breakpoints = ai_hardware_breakpoints info,
     ares_hardware_watchpoints = ai_hardware_watchpoints info,
     ares_memory_region_count =
       word_of_nat (length (ai_memory_regions info) div SIZEOF_memory_region),
     ares_max_memory_transfer = ai_max_memory_transfer info\<rparr>"

text \<open>The end of \<open>op_attach\<close>, after its response: the halt requested with the attach.\<close>

definition attach_halt :: "'w env \<Rightarrow> bool \<Rightarrow> ('w session, unit) st" where
  "attach_halt e halt_after_attach =
     (if \<not> halt_after_attach then modify (\<lambda>s. s\<lparr>state := TARGET_RUNNING\<rparr>)
      else do {
        (r, stop) \<leftarrow> b_poll_halted e no_stop;
        if r \<noteq> ESP_OK then
          enter_lost e (if r = ESP_ERR_TIMEOUT then TARGET_LOST_TIMEOUT else TARGET_LOST_SWD_FAULT)
        else if sd_halted stop then do { enter_halted e stop; emit_pending_stopped e }
        else do {
          (r, stop) \<leftarrow> b_halt e HALT_TIMEOUT_MS stop;
          if r = ESP_OK then do { enter_halted e stop; emit_pending_stopped e }
          else if r = ESP_FAIL then enter_lost e TARGET_LOST_SWD_FAULT
          else modify (\<lambda>s. s\<lparr>state := TARGET_RUNNING\<rparr>)
        }
      })"

definition adopt_attach_info :: "attach_info \<Rightarrow> ('w session, unit) st" where
  "adopt_attach_info info = do {
     modify (\<lambda>s. s\<lparr>attached := True, capabilities := ai_capabilities info,
       hardware_breakpoint_limit := ai_hardware_breakpoints info,
       hardware_watchpoint_limit := ai_hardware_watchpoints info,
       max_memory_transfer := ucast (ai_max_memory_transfer info),
       supported_vector_catch := ai_supported_vector_catch_mask info, stop_id := 0\<rparr>);
     clear_debug_state;
     clear_run_tracking;
     modify (\<lambda>s. s\<lparr>sw_count := 0, region_count := 0\<rparr>)
   }"

definition op_attach :: "'w env \<Rightarrow> u32 \<Rightarrow> bytes \<Rightarrow> ('w session, unit) st" where
  "op_attach e request_id payload = do {
     s \<leftarrow> State_Monad.get;
     if attached s then respond e OP_ATTACH request_id STATUS_BUSY
     else if length payload \<noteq> SIZEOF_attach_request
       then respond e OP_ATTACH request_id STATUS_INVALID_ARGUMENT
     else if \<not> storage_ready e s then respond e OP_ATTACH request_id STATUS_ERROR
     else do {
       let req = dec_attach_request payload;
       let params = \<lparr>ap_connect_under_reset = (areq_connect_under_reset req \<noteq> 0),
         ap_halt_after_attach = (areq_halt_after_attach req \<noteq> 0)\<rparr>;
       (r, raw) \<leftarrow> b_attach e params;
       if r \<noteq> ESP_OK then send_backend_failure e OP_ATTACH request_id r STATUS_SWD_ERROR
       else do {
         let info = normalize_attach_info raw;
         let blob = ai_memory_regions info;
         adopt_attach_info info;
         if length blob mod SIZEOF_memory_region \<noteq> 0 \<or>
           length blob div SIZEOF_memory_region > MAX_MEMORY_REGIONS then do {
           respond e OP_ATTACH request_id STATUS_ERROR;
           _ \<leftarrow> handle_disconnect e;
           return ()
         }
         else do {
           store_regions (decode_regions blob);
           ok \<leftarrow> begin_frame KIND_RESPONSE OP_ATTACH request_id
             (SIZEOF_attach_response + length blob);
           if \<not> ok then do {
             respond e OP_ATTACH request_id STATUS_ERROR;
             _ \<leftarrow> handle_disconnect e;
             return ()
           }
           else do {
             poke_scratch 12 (enc_attach_response (attach_response_of info));
             (if blob \<noteq> [] then poke_scratch 44 blob else return ());
             sent \<leftarrow> finish_frame e;
             if \<not> sent then return () else attach_halt e (ap_halt_after_attach params)
           }
         }
       }
     }
   }"

section \<open>DETACH and GET_STATE\<close>

text \<open>The internal halt of \<open>op_detach\<close> from RUNNING; \<open>False\<close> when it answered the request itself.\<close>

definition detach_halt :: "'w env \<Rightarrow> u32 \<Rightarrow> ('w session, bool) st" where
  "detach_halt e request_id = do {
     s \<leftarrow> State_Monad.get;
     if state s \<noteq> TARGET_RUNNING then return True
     else do {
       (r, stop) \<leftarrow> b_halt e HALT_TIMEOUT_MS no_stop;
       if r \<noteq> ESP_OK then do {
         send_backend_failure e OP_DETACH request_id r STATUS_TIMEOUT;
         return False
       }
       else if \<not> sd_comparator_match stop \<and> sd_dfsr stop AND DFSR_BKPT \<noteq> 0 then do {
         expect (sw_readable s);
         (case sw_bp_find_by_halt_pc (active_sw s) (ucast (sd_pc stop)) of
            None \<Rightarrow> return ()
          | Some i \<Rightarrow> modify (\<lambda>s. s\<lparr>sw_step_over_pending := True,
              sw_step_over_address := sb_address (active_sw s ! i)\<rparr>));
         return True
       }
       else return True
     }
   }"

text \<open>The cleanup of \<open>op_detach\<close>: restore the PC and the patches, then release the target.\<close>

definition detach_target :: "'w env \<Rightarrow> u32 \<Rightarrow> u8 \<Rightarrow> ('w session, unit) st" where
  "detach_target e request_id action = do {
     restored \<leftarrow> sw_bp_restore_all e;
     if \<not> restored then respond e OP_DETACH request_id STATUS_SWD_ERROR
     else do {
       r \<leftarrow> b_detach e action;
       if r \<noteq> ESP_OK then respond e OP_DETACH request_id STATUS_SWD_ERROR
       else do {
         respond e OP_DETACH request_id STATUS_OK;
         detach_cleanup
       }
     }
   }"

definition op_detach :: "'w env \<Rightarrow> u32 \<Rightarrow> bytes \<Rightarrow> ('w session, unit) st" where
  "op_detach e request_id payload =
     (if length payload \<noteq> SIZEOF_detach_request
      then respond e OP_DETACH request_id STATUS_INVALID_ARGUMENT
      else let action = dq_action (dec_detach_request payload) in
        if action \<noteq> DETACH_KEEP_HALTED \<and> action \<noteq> DETACH_RESUME
        then respond e OP_DETACH request_id STATUS_INVALID_ARGUMENT
        else do {
          go \<leftarrow> detach_halt e request_id;
          if \<not> go then return ()
          else do {
            s \<leftarrow> State_Monad.get;
            if sw_step_over_pending s then do {
              pc_ok \<leftarrow> write_current_pc e (ucast (sw_step_over_address s));
              if \<not> pc_ok then respond e OP_DETACH request_id STATUS_SWD_ERROR
              else detach_target e request_id action
            }
            else detach_target e request_id action
          }
        })"

definition op_get_state :: "'w env \<Rightarrow> u32 \<Rightarrow> bytes \<Rightarrow> ('w session, unit) st" where
  "op_get_state e request_id payload =
     (if payload \<noteq> [] then respond e OP_GET_STATE request_id STATUS_INVALID_ARGUMENT
      else do {
        ok \<leftarrow> begin_frame KIND_RESPONSE OP_GET_STATE request_id SIZEOF_get_state_response;
        if \<not> ok then return ()
        else do {
          s \<leftarrow> State_Monad.get;
          poke_scratch 12 (enc_get_state_response \<lparr>
            gsr_status = status_code STATUS_OK,
            gsr_target_state = target_state_code (state s),
            gsr_reserved_lo = 0,
            gsr_reserved_hi = 0,
            gsr_stop_id = (if state s = TARGET_HALTED then stop_id s else 0)\<rparr>);
          _ \<leftarrow> finish_frame e;
          return ()
        }
      })"

end
