(* ===== verification/Session_Access.thy ===== *)
theory Session_Access
  imports Session_Ops
begin

text \<open>
  READ_MEMORY, WRITE_MEMORY, READ_REGISTERS and WRITE_REGISTERS of \<open>sidp_session.cpp\<close>. The checks
  that precede the backend call are pure functions of the session and of the request
  (\<open>read_memory_error\<close>, \<open>write_memory_error\<close>, \<open>read_registers_error\<close>, \<open>write_list_ok\<close>), in the
  order of the code: \<open>Some status\<close> is the early return with that response.
\<close>

section \<open>Memory\<close>

text \<open>The halt and generation gate common to READ_MEMORY and WRITE_MEMORY.\<close>

definition stop_gate :: "'w session \<Rightarrow> u16 \<Rightarrow> u32 \<Rightarrow> status_t option" where
  "stop_gate s flags req_stop_id =
     (if flags AND MEM_ACCESS_REQUIRE_HALTED \<noteq> 0 then
        (if state s \<noteq> TARGET_HALTED then
           Some (if state s = TARGET_RUNNING then STATUS_TARGET_RUNNING else STATUS_TARGET_LOST)
         else if req_stop_id \<noteq> stop_id s then Some STATUS_STALE_STOP
         else None)
      else if req_stop_id \<noteq> 0 then Some STATUS_INVALID_ARGUMENT
      else None)"

definition flags_contradict :: "u16 \<Rightarrow> bool" where
  "flags_contradict flags \<longleftrightarrow>
     (flags AND MEM_ACCESS_REQUIRE_HALTED \<noteq> 0) = (flags AND MEM_ACCESS_ALLOW_RUNNING \<noteq> 0)"

definition status_error :: "status_t \<Rightarrow> status_t option" where
  "status_error st = (if st = STATUS_OK then None else Some st)"

definition read_memory_error :: "'w session \<Rightarrow> bytes \<Rightarrow> status_t option" where
  "read_memory_error s payload =
     (if length payload \<noteq> SIZEOF_read_memory_request then Some STATUS_INVALID_ARGUMENT
      else let req = dec_read_memory_request payload in
        if flags_contradict (rmq_flags req) then Some STATUS_INVALID_ARGUMENT
        else case stop_gate s (rmq_flags req) (rmq_stop_id req) of
          Some st \<Rightarrow> Some st
        | None \<Rightarrow>
            if rmq_length req = 0 \<or> rmq_length req > max_memory_transfer s \<or>
              unat (rmq_length req) >
                MAX_FRAME_SIZE - SIZEOF_msg_header - SIZEOF_read_memory_response
            then Some STATUS_INVALID_ARGUMENT
            else status_error (validate_memory_access (active_regions s) (rmq_address req)
              (rmq_length req) (rmq_flags req) (rmq_access_width req) False))"

definition op_read_memory :: "'w env \<Rightarrow> u32 \<Rightarrow> bytes \<Rightarrow> ('w session, unit) st" where
  "op_read_memory e request_id payload = do {
     s \<leftarrow> State_Monad.get;
     expect (regions_readable s \<and> sw_readable s \<and> sw_bounded s);
     case read_memory_error s payload of
       Some st \<Rightarrow> respond e OP_READ_MEMORY request_id st
     | None \<Rightarrow> do {
         let req = dec_read_memory_request payload;
         let n = unat (rmq_length req);
         ok \<leftarrow> begin_frame KIND_RESPONSE OP_READ_MEMORY request_id
           (SIZEOF_read_memory_response + n);
         if \<not> ok then return ()
         else do {
           (r, bs) \<leftarrow> b_read_mem e (rmq_address req) n (rmq_access_width req);
           poke_scratch 28 (take n bs);
           if r \<noteq> ESP_OK
           then send_backend_failure e OP_READ_MEMORY request_id r STATUS_ADDRESS_ERROR
           else do {
             data \<leftarrow> peek_scratch 28 n;
             poke_scratch 28 (sw_bp_substitute_read (active_sw s) (rmq_address req) data);
             poke_scratch 12 (enc_read_memory_response \<lparr>
               rms_status = status_code STATUS_OK,
               rms_address = rmq_address req,
               rms_completed_length = rmq_length req\<rparr>);
             _ \<leftarrow> finish_frame e;
             return ()
           }
         }
       }
   }"

definition write_memory_error :: "'w session \<Rightarrow> bytes \<Rightarrow> status_t option" where
  "write_memory_error s payload =
     (if length payload < SIZEOF_write_memory_request then Some STATUS_INVALID_ARGUMENT
      else let req = dec_write_memory_request payload in
        if flags_contradict (wmq_flags req) \<or>
          length payload - SIZEOF_write_memory_request \<noteq> unat (wmq_length req)
        then Some STATUS_INVALID_ARGUMENT
        else case stop_gate s (wmq_flags req) (wmq_stop_id req) of
          Some st \<Rightarrow> Some st
        | None \<Rightarrow>
            if wmq_length req = 0 \<or> wmq_length req > max_memory_transfer s
            then Some STATUS_INVALID_ARGUMENT
            else status_error (validate_memory_access (active_regions s) (wmq_address req)
              (wmq_length req) (wmq_flags req) (wmq_access_width req) True))"

definition op_write_memory :: "'w env \<Rightarrow> u32 \<Rightarrow> bytes \<Rightarrow> ('w session, unit) st" where
  "op_write_memory e request_id payload = do {
     s \<leftarrow> State_Monad.get;
     expect (regions_readable s \<and> sw_readable s \<and> sw_bounded s);
     case write_memory_error s payload of
       Some st \<Rightarrow> respond e OP_WRITE_MEMORY request_id st
     | None \<Rightarrow> do {
         let req = dec_write_memory_request payload;
         let data = drop SIZEOF_write_memory_request payload;
         poke_scratch 0 (write_image (active_sw s) (wmq_address req) data);
         img \<leftarrow> peek_scratch 0 (length data);
         r \<leftarrow> b_write_mem e (wmq_address req) img (wmq_access_width req);
         if r \<noteq> ESP_OK
         then send_backend_failure e OP_WRITE_MEMORY request_id r STATUS_ADDRESS_ERROR
         else do {
           sw_bp_write_overlap (wmq_address req) data;
           respond e OP_WRITE_MEMORY request_id STATUS_OK
         }
       }
   }"

section \<open>Registers\<close>

abbreviation (input) MAX_REGISTER_IDS :: nat where "MAX_REGISTER_IDS \<equiv> 64"
abbreviation (input) BLOB_CAPACITY :: nat where "BLOB_CAPACITY \<equiv> 8168"

definition read_registers_error :: "'w session \<Rightarrow> bytes \<Rightarrow> status_t option" where
  "read_registers_error s payload =
     (if length payload < SIZEOF_read_registers_request then Some STATUS_INVALID_ARGUMENT
      else let req = dec_read_registers_request payload in
        if rrq_core_id req \<noteq> 0 then Some STATUS_INVALID_ARGUMENT
        else if length payload \<noteq> SIZEOF_read_registers_request + unat (rrq_register_count req) * 2
          then Some STATUS_INVALID_ARGUMENT
        else if rrq_stop_id req \<noteq> stop_id s then Some STATUS_STALE_STOP
        else if unat (rrq_register_count req) > MAX_REGISTER_IDS then Some STATUS_INVALID_ARGUMENT
        else None)"

definition register_ids :: "bytes \<Rightarrow> nat \<Rightarrow> u16 list" where
  "register_ids payload n =
     map (\<lambda>i. le_word (slice (SIZEOF_read_registers_request + i * 2) 2 payload)) [0..<n]"

definition op_read_registers :: "'w env \<Rightarrow> u32 \<Rightarrow> bytes \<Rightarrow> ('w session, unit) st" where
  "op_read_registers e request_id payload = do {
     s \<leftarrow> State_Monad.get;
     case read_registers_error s payload of
       Some st \<Rightarrow> respond e OP_READ_REGISTERS request_id st
     | None \<Rightarrow> do {
         let req = dec_read_registers_request payload;
         ok \<leftarrow> begin_frame KIND_RESPONSE OP_READ_REGISTERS request_id FRAME_PAYLOAD_MAX;
         if \<not> ok then respond e OP_READ_REGISTERS request_id STATUS_SWD_ERROR
         else do {
           (r, bs, out_size) \<leftarrow>
             b_read_regs e (register_ids payload (unat (rrq_register_count req))) BLOB_CAPACITY;
           poke_scratch 24 (take BLOB_CAPACITY bs);
           if r \<noteq> ESP_OK
           then send_backend_failure e OP_READ_REGISTERS request_id r STATUS_SWD_ERROR
           else if out_size > BLOB_CAPACITY
           then respond e OP_READ_REGISTERS request_id STATUS_SWD_ERROR
           else do {
             raw \<leftarrow> peek_scratch 24 out_size;
             let blob = normalize_pc_in_register_blob (sw_step_over_pending s)
               (sw_step_over_address s) raw out_size;
             poke_scratch 24 blob;
             modify (\<lambda>s. s\<lparr>tx_frame_size :=
               SIZEOF_msg_header + SIZEOF_read_registers_response + out_size\<rparr>);
             poke_scratch 12 (enc_read_registers_response \<lparr>
               rrs_status = status_code STATUS_OK,
               rrs_stop_id = stop_id s,
               rrs_register_count = word_of_nat (count_entries blob out_size),
               rrs_reserved = 0\<rparr>);
             _ \<leftarrow> finish_frame e;
             return ()
           }
         }
       }
   }"

text \<open>
  The validation loop of \<open>op_write_registers\<close>: the entries left, the offset reached; \<open>None\<close> is
  \<open>valid = false\<close>, otherwise the final offset.
\<close>

primrec write_list_end :: "bytes \<Rightarrow> nat \<Rightarrow> nat \<Rightarrow> nat option" where
  "write_list_end blob 0 offset = Some offset"
| "write_list_end blob (Suc left) offset =
     (if length blob - offset < SIZEOF_register_value then None
      else let entry = dec_register_value (slice offset SIZEOF_register_value blob);
               offset' = offset + SIZEOF_register_value
        in if rv_value_size entry = 0 \<or> rv_flags entry \<noteq> REGISTER_VALUE_FLAG_NONE \<or>
             unat (rv_value_size entry) > length blob - offset' then None
           else write_list_end blob left (offset' + unat (rv_value_size entry)))"

definition write_list_ok :: "write_registers_request \<Rightarrow> bytes \<Rightarrow> bool" where
  "write_list_ok req blob \<longleftrightarrow> wrq_core_id req = 0 \<and> wrq_register_count req \<noteq> 0 \<and>
     write_list_end blob (unat (wrq_register_count req)) 0 = Some (length blob)"

definition op_write_registers :: "'w env \<Rightarrow> u32 \<Rightarrow> bytes \<Rightarrow> ('w session, unit) st" where
  "op_write_registers e request_id payload = do {
     s \<leftarrow> State_Monad.get;
     if length payload < SIZEOF_write_registers_request
     then respond e OP_WRITE_REGISTERS request_id STATUS_INVALID_ARGUMENT
     else do {
       let req = dec_write_registers_request payload;
       let blob = drop SIZEOF_write_registers_request payload;
       if wrq_stop_id req \<noteq> stop_id s
       then respond e OP_WRITE_REGISTERS request_id STATUS_STALE_STOP
       else if \<not> write_list_ok req blob
       then respond e OP_WRITE_REGISTERS request_id STATUS_INVALID_ARGUMENT
       else do {
         r \<leftarrow> b_write_regs e blob;
         if r \<noteq> ESP_OK
         then send_backend_failure e OP_WRITE_REGISTERS request_id r STATUS_SWD_ERROR
         else do {
           update_step_over_after_register_write blob (unat (wrq_register_count req));
           respond e OP_WRITE_REGISTERS request_id STATUS_OK
         }
       }
     }
   }"

end
