(* ===== verification/Session_Run.thy ===== *)
theory Session_Run
  imports Session_Access
begin

text \<open>
  Run control and dispatch of \<open>sidp_session.cpp\<close>: RUN, HALT, RESET_HALT, RESET_RUN, the gating
  table, \<open>handle_request\<close> and \<open>handle_poll\<close>. The validation of a RUN request is a pure function of
  the session and the payload (\<open>validate_run\<close>): \<open>Inl\<close> is the early return with that status, \<open>Inr\<close>
  the configuration to install.
\<close>

section \<open>RUN: validation\<close>

definition run_header_error :: "'w session \<Rightarrow> run_request \<Rightarrow> nat \<Rightarrow> status_t option" where
  "run_header_error s req msg_size =
     (if rq_core_id req \<noteq> 0 then Some STATUS_INVALID_ARGUMENT
      else if rq_stop_id req \<noteq> stop_id s then Some STATUS_STALE_STOP
      else if (rq_action req \<noteq> RUN_CONTINUE \<and> rq_action req \<noteq> RUN_SINGLE_STEP \<and>
          rq_action req \<noteq> RUN_TO_ADDRESS) \<or>
        (rq_action req \<noteq> RUN_TO_ADDRESS \<and> rq_run_to_address req \<noteq> 0) \<or>
        (rq_action req = RUN_TO_ADDRESS \<and> rq_run_to_address req = 0)
        then Some STATUS_INVALID_ARGUMENT
      else if rq_action req = RUN_TO_ADDRESS \<and> (rq_run_to_address req AND 1 \<noteq> 0 \<or>
          \<not> is_executable_range (active_regions s) (rq_run_to_address req) 2 False)
        then Some STATUS_ADDRESS_ERROR
      else if rq_action req = RUN_SINGLE_STEP \<and> \<not> has_capability s CAP_SINGLE_STEP
        then Some STATUS_UNSUPPORTED
      else if rq_vector_catch_mask req AND NOT (supported_vector_catch s) \<noteq> 0
        then Some STATUS_UNSUPPORTED
      else if msg_size \<noteq> SIZEOF_run_request + unat (rq_breakpoint_count req) * SIZEOF_breakpoint +
          unat (rq_watchpoint_count req) * SIZEOF_watchpoint
        then Some STATUS_INVALID_ARGUMENT
      else if unat (rq_breakpoint_count req) > MAX_HARDWARE_BREAKPOINTS + MAX_SOFTWARE_BREAKPOINTS
        then Some STATUS_NO_BREAKPOINT_SLOT
      else if unat (rq_watchpoint_count req) > MAX_HARDWARE_WATCHPOINTS
        then Some STATUS_NO_WATCHPOINT_SLOT
      else None)"

definition bp_entry_of :: "breakpoint \<Rightarrow> u8 \<Rightarrow> bp_entry" where
  "bp_entry_of entry n = \<lparr>be_breakpoint_id = bp_breakpoint_id entry, be_address = bp_address entry,
     be_kind = bp_kind entry, be_instruction_size = n, be_temporary = bp_temporary entry\<rparr>"

text \<open>The loop over the breakpoint table, with the two arrays it fills.\<close>

fun check_breakpoints :: "'w session \<Rightarrow> breakpoint list \<Rightarrow> bp_entry list \<Rightarrow> bp_entry list \<Rightarrow>
    status_t + bp_entry list \<times> bp_entry list" where
  "check_breakpoints s [] hw sw = Inr (hw, sw)"
| "check_breakpoints s (entry # rest) hw sw =
     (if bp_breakpoint_id entry = 0 \<or> bp_enabled entry \<noteq> 1 \<or>
        (bp_kind entry \<noteq> BREAKPOINT_HARDWARE \<and> bp_kind entry \<noteq> BREAKPOINT_SOFTWARE)
      then Inl STATUS_INVALID_ARGUMENT
      else if bp_kind entry = BREAKPOINT_SOFTWARE then
        (if \<not> has_capability s CAP_SOFTWARE_BP then Inl STATUS_NO_BREAKPOINT_SLOT
         else if (bp_instruction_size entry \<noteq> 2 \<and> bp_instruction_size entry \<noteq> 4) \<or>
           bp_address entry AND 1 \<noteq> 0 \<or>
           \<not> is_executable_range (active_regions s) (bp_address entry)
               (ucast (bp_instruction_size entry)) True
         then Inl STATUS_INVALID_ARGUMENT
         else if length sw = MAX_SOFTWARE_BREAKPOINTS then Inl STATUS_NO_BREAKPOINT_SLOT
         else check_breakpoints s rest hw (sw @ [bp_entry_of entry (bp_instruction_size entry)]))
      else
        (if \<not> has_capability s CAP_HARDWARE_BP \<or> hardware_breakpoint_limit s = 0
         then Inl STATUS_NO_BREAKPOINT_SLOT
         else if bp_instruction_size entry \<noteq> 0 \<or> bp_address entry AND 1 \<noteq> 0 \<or>
           \<not> is_executable_range (active_regions s) (bp_address entry) 2 False
         then Inl STATUS_INVALID_ARGUMENT
         else if length hw \<ge> unat (hardware_breakpoint_limit s)
         then Inl STATUS_NO_BREAKPOINT_SLOT
         else check_breakpoints s rest (hw @ [bp_entry_of entry 0]) sw))"

definition run_to_error :: "'w session \<Rightarrow> run_request \<Rightarrow> bp_entry list \<Rightarrow> status_t option" where
  "run_to_error s req hw =
     (if rq_action req \<noteq> RUN_TO_ADDRESS then None
      else if \<not> has_capability s CAP_HARDWARE_BP then Some STATUS_NO_BREAKPOINT_SLOT
      else if \<not> list_ex (\<lambda>entry. be_address entry = rq_run_to_address req) hw \<and>
        length hw \<ge> unat (hardware_breakpoint_limit s) then Some STATUS_NO_BREAKPOINT_SLOT
      else None)"

fun check_watchpoints :: "watchpoint list \<Rightarrow> status_t + wp_entry list" where
  "check_watchpoints [] = Inr []"
| "check_watchpoints (entry # rest) =
     (if wpt_watchpoint_id entry = 0 \<or> wpt_enabled entry \<noteq> 1 \<or>
        (wpt_access entry \<noteq> WATCH_READ \<and> wpt_access entry \<noteq> WATCH_WRITE \<and>
         wpt_access entry \<noteq> WATCH_READ_WRITE) \<or>
        (wpt_size entry \<noteq> 1 \<and> wpt_size entry \<noteq> 2 \<and> wpt_size entry \<noteq> 4)
      then Inl STATUS_INVALID_ARGUMENT
      else if wpt_address entry mod ucast (wpt_size entry) \<noteq> 0 then Inl STATUS_ALIGNMENT_ERROR
      else case check_watchpoints rest of
        Inl st \<Rightarrow> Inl st
      | Inr ws \<Rightarrow> Inr (\<lparr>we_watchpoint_id = wpt_watchpoint_id entry, we_address = wpt_address entry,
          we_access = wpt_access entry, we_size = wpt_size entry\<rparr> # ws))"

definition watchpoint_slots_error :: "'w session \<Rightarrow> run_request \<Rightarrow> status_t option" where
  "watchpoint_slots_error s req =
     (if rq_watchpoint_count req \<noteq> 0 \<and> \<not> has_capability s CAP_WATCHPOINT
      then Some STATUS_NO_WATCHPOINT_SLOT
      else if rq_watchpoint_count req > hardware_watchpoint_limit s
      then Some STATUS_NO_WATCHPOINT_SLOT
      else None)"

definition run_breakpoints :: "run_request \<Rightarrow> bytes \<Rightarrow> breakpoint list" where
  "run_breakpoints req payload =
     map (\<lambda>i. dec_breakpoint (slice (SIZEOF_run_request + i * SIZEOF_breakpoint)
       SIZEOF_breakpoint payload)) [0..<unat (rq_breakpoint_count req)]"

definition run_watchpoints :: "run_request \<Rightarrow> bytes \<Rightarrow> watchpoint list" where
  "run_watchpoints req payload =
     map (\<lambda>i. dec_watchpoint (slice (SIZEOF_run_request +
       unat (rq_breakpoint_count req) * SIZEOF_breakpoint + i * SIZEOF_watchpoint)
       SIZEOF_watchpoint payload)) [0..<unat (rq_watchpoint_count req)]"

definition validate_run :: "'w session \<Rightarrow> bytes \<Rightarrow>
    status_t + run_request \<times> bp_entry list \<times> bp_entry list \<times> wp_entry list" where
  "validate_run s payload =
     (if length payload < SIZEOF_run_request then Inl STATUS_INVALID_ARGUMENT
      else let req = dec_run_request payload in
        case run_header_error s req (length payload) of
          Some st \<Rightarrow> Inl st
        | None \<Rightarrow>
            (case check_breakpoints s (run_breakpoints req payload) [] [] of
               Inl st \<Rightarrow> Inl st
             | Inr (hw, sw) \<Rightarrow>
                 (case run_to_error s req hw of
                    Some st \<Rightarrow> Inl st
                  | None \<Rightarrow>
                      (case watchpoint_slots_error s req of
                         Some st \<Rightarrow> Inl st
                       | None \<Rightarrow>
                           (case check_watchpoints (run_watchpoints req payload) of
                              Inl st \<Rightarrow> Inl st
                            | Inr ws \<Rightarrow> Inr (req, hw, sw, ws))))))"

section \<open>RUN: installation and resume\<close>

text \<open>The all-or-nothing installation: \<open>Some status\<close> is the failure handed to \<open>fail_run\<close>.\<close>

definition install_run_config :: "'w env \<Rightarrow> run_request \<Rightarrow> bp_entry list \<Rightarrow> bp_entry list \<Rightarrow>
    wp_entry list \<Rightarrow> ('w session, status_t option) st" where
  "install_run_config e req hw sw ws = do {
     sw_result \<leftarrow> sw_bp_apply e sw;
     if sw_result \<noteq> STATUS_OK then return (Some sw_result)
     else do {
       r \<leftarrow> b_apply_breakpoints e hw;
       if r \<noteq> ESP_OK then return (Some STATUS_NO_BREAKPOINT_SLOT)
       else do {
         s \<leftarrow> State_Monad.get;
         expect (length hw \<le> length (hw_breakpoint_ids s));
         modify (\<lambda>s. s\<lparr>hw_count := length hw,
           hw_breakpoint_ids := splice 0 (map be_breakpoint_id hw) (hw_breakpoint_ids s)\<rparr>);
         r \<leftarrow> b_apply_watchpoints e ws;
         if r \<noteq> ESP_OK then return (Some STATUS_NO_WATCHPOINT_SLOT)
         else do {
           r \<leftarrow> b_set_vector_catch e (rq_vector_catch_mask req);
           if r \<noteq> ESP_OK then return (Some STATUS_UNSUPPORTED) else return None
         }
       }
     }
   }"

definition resume_run :: "'w env \<Rightarrow> u32 \<Rightarrow> run_request \<Rightarrow> ('w session, unit) st" where
  "resume_run e request_id req = do {
     r \<leftarrow> b_resume e (rq_action req) (rq_run_to_address req);
     if r \<noteq> ESP_OK then do {
       respond e OP_RUN request_id STATUS_TARGET_LOST;
       enter_lost e (if r = ESP_ERR_TIMEOUT then TARGET_LOST_TIMEOUT else TARGET_LOST_SWD_FAULT)
     }
     else do {
       modify (\<lambda>s. s\<lparr>running_action := rq_action req,
         run_to_active := (rq_action req = RUN_TO_ADDRESS),
         active_run_to_address :=
           (if rq_action req = RUN_TO_ADDRESS then rq_run_to_address req else 0),
         state := TARGET_RUNNING\<rparr>);
       respond e OP_RUN request_id STATUS_OK;
       (r, stop) \<leftarrow> b_poll_halted e no_stop;
       if r \<noteq> ESP_OK then
         enter_lost e (if r = ESP_ERR_TIMEOUT then TARGET_LOST_TIMEOUT else TARGET_LOST_SWD_FAULT)
       else if sd_halted stop then do { enter_halted e stop; emit_pending_stopped e }
       else return ()
     }
   }"

definition finish_run ::
  "'w env \<Rightarrow> u32 \<Rightarrow> run_request \<Rightarrow> step_over_t \<Rightarrow> stop_detect \<Rightarrow> target_lost_reason_t \<Rightarrow>
    ('w session, unit) st" where
  "finish_run e request_id req step step_stop lost_reason =
     (if step = STEP_FAILED_LOST then do {
        respond e OP_RUN request_id STATUS_TARGET_LOST;
        enter_lost e lost_reason
      }
      else if step = STEP_FAILED then do {
        rolled_back \<leftarrow> rollback_run_config e;
        respond e OP_RUN request_id STATUS_SWD_ERROR;
        if \<not> rolled_back then enter_lost e TARGET_LOST_SWD_FAULT else return ()
      }
      else if step = STOPPED_STEP \<or> step = STOPPED_REAL then do {
        respond e OP_RUN request_id STATUS_OK;
        enter_halted e step_stop;
        (if step = STOPPED_STEP then modify (\<lambda>s. s\<lparr>pending_reason := STOP_SINGLE_STEP\<rparr>)
         else return ());
        emit_pending_stopped e
      }
      else resume_run e request_id req)"

definition op_run :: "'w env \<Rightarrow> u32 \<Rightarrow> bytes \<Rightarrow> ('w session, unit) st" where
  "op_run e request_id payload = do {
     s \<leftarrow> State_Monad.get;
     expect (regions_readable s);
     case validate_run s payload of
       Inl st \<Rightarrow> respond e OP_RUN request_id st
     | Inr (req, hw, sw, ws) \<Rightarrow> do {
         expect (length hw \<le> MAX_HARDWARE_BREAKPOINTS \<and> length sw \<le> MAX_SOFTWARE_BREAKPOINTS \<and>
           length ws \<le> MAX_HARDWARE_WATCHPOINTS);
         failed \<leftarrow> install_run_config e req hw sw ws;
         case failed of
           Some st \<Rightarrow> fail_run e request_id st
         | None \<Rightarrow> do {
             (step, step_stop, lost_reason) \<leftarrow> execute_step_over e (rq_action req);
             finish_run e request_id req step step_stop lost_reason
           }
       }
   }"

section \<open>HALT and RESET\<close>

definition op_halt :: "'w env \<Rightarrow> u32 \<Rightarrow> bytes \<Rightarrow> ('w session, unit) st" where
  "op_halt e request_id payload = do {
     s \<leftarrow> State_Monad.get;
     if payload \<noteq> [] then respond e OP_HALT request_id STATUS_INVALID_ARGUMENT
     else if state s = TARGET_HALTED \<and> stop_reported s
       then respond e OP_HALT request_id STATUS_TARGET_HALTED
     else if state s = TARGET_HALTED \<and> \<not> stop_reported s then do {
       respond e OP_HALT request_id STATUS_OK;
       emit_pending_stopped e
     }
     else do {
       (r, stop) \<leftarrow> b_halt e HALT_TIMEOUT_MS no_stop;
       if r \<noteq> ESP_OK then send_backend_failure e OP_HALT request_id r STATUS_TIMEOUT
       else do {
         enter_halted e stop;
         respond e OP_HALT request_id STATUS_OK;
         emit_pending_stopped e
       }
     }
   }"

definition prepare_rollback :: "'w env \<Rightarrow> u16 \<Rightarrow> u32 \<Rightarrow> ('w session, bool) st" where
  "prepare_rollback e opcode request_id = do {
     ok \<leftarrow> rollback_run_config e;
     if \<not> ok then do {
       respond e opcode request_id STATUS_SWD_ERROR;
       enter_lost e TARGET_LOST_SWD_FAULT;
       return False
     }
     else return True
   }"

definition prepare_reset :: "'w env \<Rightarrow> u16 \<Rightarrow> u32 \<Rightarrow> ('w session, bool) st" where
  "prepare_reset e opcode request_id = do {
     s \<leftarrow> State_Monad.get;
     if state s \<noteq> TARGET_HALTED then do {
       (r, stop) \<leftarrow> b_halt e HALT_TIMEOUT_MS no_stop;
       if r \<noteq> ESP_OK \<or> \<not> sd_halted stop then do {
         send_backend_failure e opcode request_id
           (if r = ESP_OK then ESP_ERR_TIMEOUT else r) STATUS_TIMEOUT;
         return False
       }
       else do {
         enter_halted e stop;
         prepare_rollback e opcode request_id
       }
     }
     else prepare_rollback e opcode request_id
   }"

text \<open>The checks common to RESET_HALT (\<open>cap = CAP_RESET_HALT\<close>) and RESET_RUN.\<close>

definition reset_error :: "'w session \<Rightarrow> u32 \<Rightarrow> bytes \<Rightarrow> status_t option" where
  "reset_error s cap payload =
     (if length payload \<noteq> SIZEOF_reset_request then Some STATUS_INVALID_ARGUMENT
      else let kind = rsq_kind (dec_reset_request payload) in
        if kind \<noteq> RESET_SYSTEM \<and> kind \<noteq> RESET_NRST then Some STATUS_INVALID_ARGUMENT
        else if capabilities s AND cap = 0 \<or>
          (kind = RESET_SYSTEM \<and> capabilities s AND CAP_RESET_SYSTEM = 0) \<or>
          (kind = RESET_NRST \<and> capabilities s AND CAP_RESET_NRST = 0)
        then Some STATUS_UNSUPPORTED
        else None)"

definition reset_failed :: "'w env \<Rightarrow> u16 \<Rightarrow> u32 \<Rightarrow> esp_err \<Rightarrow> ('w session, unit) st" where
  "reset_failed e opcode request_id r = do {
     respond e opcode request_id (if r = ESP_ERR_TIMEOUT then STATUS_TIMEOUT else STATUS_SWD_ERROR);
     enter_lost e (if r = ESP_ERR_TIMEOUT then TARGET_LOST_TIMEOUT else TARGET_LOST_SWD_FAULT)
   }"

definition op_reset_halt :: "'w env \<Rightarrow> u32 \<Rightarrow> bytes \<Rightarrow> ('w session, unit) st" where
  "op_reset_halt e request_id payload = do {
     s \<leftarrow> State_Monad.get;
     case reset_error s CAP_RESET_HALT payload of
       Some st \<Rightarrow> respond e OP_RESET_HALT request_id st
     | None \<Rightarrow> do {
         ok \<leftarrow> prepare_reset e OP_RESET_HALT request_id;
         if \<not> ok then return ()
         else do {
           (r, stop) \<leftarrow> b_reset e (rsq_kind (dec_reset_request payload)) True no_stop;
           if r \<noteq> ESP_OK then reset_failed e OP_RESET_HALT request_id r
           else do {
             clear_debug_state;
             clear_run_tracking;
             enter_halted e stop;
             modify (\<lambda>s. s\<lparr>pending_reason := STOP_RESET\<rparr>);
             respond e OP_RESET_HALT request_id STATUS_OK;
             emit_pending_stopped e
           }
         }
       }
   }"

definition op_reset_run :: "'w env \<Rightarrow> u32 \<Rightarrow> bytes \<Rightarrow> ('w session, unit) st" where
  "op_reset_run e request_id payload = do {
     s \<leftarrow> State_Monad.get;
     case reset_error s CAP_RESET_RUN payload of
       Some st \<Rightarrow> respond e OP_RESET_RUN request_id st
     | None \<Rightarrow> do {
         ok \<leftarrow> prepare_reset e OP_RESET_RUN request_id;
         if \<not> ok then return ()
         else do {
           (r, unused) \<leftarrow> b_reset e (rsq_kind (dec_reset_request payload)) False no_stop;
           if r \<noteq> ESP_OK then reset_failed e OP_RESET_RUN request_id r
           else do {
             clear_debug_state;
             clear_run_tracking;
             modify (\<lambda>s. s\<lparr>state := TARGET_RUNNING\<rparr>);
             respond e OP_RESET_RUN request_id STATUS_OK
           }
         }
       }
   }"

section \<open>Dispatch\<close>

datatype gate_type = ALLOW | ATTACH_BUSY | DETACHED_ERROR | RUNNING_DENY | LOST

datatype gate_column_index =
    GATE_ATTACH | GATE_DETACH | GATE_GET_STATE | GATE_READ_MEM | GATE_WRITE_MEM
  | GATE_READ_REGS | GATE_WRITE_REGS | GATE_RUN | GATE_HALT | GATE_RESET

definition gate_column :: "u16 \<Rightarrow> gate_column_index option" where
  "gate_column opcode =
     (if opcode = OP_ATTACH then Some GATE_ATTACH
      else if opcode = OP_DETACH then Some GATE_DETACH
      else if opcode = OP_GET_STATE then Some GATE_GET_STATE
      else if opcode = OP_READ_MEMORY then Some GATE_READ_MEM
      else if opcode = OP_WRITE_MEMORY then Some GATE_WRITE_MEM
      else if opcode = OP_READ_REGISTERS then Some GATE_READ_REGS
      else if opcode = OP_WRITE_REGISTERS then Some GATE_WRITE_REGS
      else if opcode = OP_RUN then Some GATE_RUN
      else if opcode = OP_HALT then Some GATE_HALT
      else if opcode = OP_RESET_HALT then Some GATE_RESET
      else if opcode = OP_RESET_RUN then Some GATE_RESET
      else None)"

fun GATE_TABLE :: "target_state_t \<Rightarrow> gate_column_index \<Rightarrow> gate_type" where
  "GATE_TABLE TARGET_DETACHED GATE_ATTACH = ALLOW"
| "GATE_TABLE TARGET_DETACHED GATE_GET_STATE = ALLOW"
| "GATE_TABLE TARGET_DETACHED _ = DETACHED_ERROR"
| "GATE_TABLE TARGET_HALTED GATE_ATTACH = ATTACH_BUSY"
| "GATE_TABLE TARGET_HALTED _ = ALLOW"
| "GATE_TABLE TARGET_RUNNING GATE_ATTACH = ATTACH_BUSY"
| "GATE_TABLE TARGET_RUNNING GATE_READ_REGS = RUNNING_DENY"
| "GATE_TABLE TARGET_RUNNING GATE_WRITE_REGS = RUNNING_DENY"
| "GATE_TABLE TARGET_RUNNING GATE_RUN = RUNNING_DENY"
| "GATE_TABLE TARGET_RUNNING _ = ALLOW"
| "GATE_TABLE TARGET_LOST GATE_GET_STATE = ALLOW"
| "GATE_TABLE TARGET_LOST _ = LOST"

fun gate_status :: "gate_type \<Rightarrow> status_t option" where
  "gate_status ALLOW = None"
| "gate_status ATTACH_BUSY = Some STATUS_BUSY"
| "gate_status DETACHED_ERROR = Some STATUS_ERROR"
| "gate_status RUNNING_DENY = Some STATUS_TARGET_RUNNING"
| "gate_status LOST = Some STATUS_TARGET_LOST"

definition dispatch :: "'w env \<Rightarrow> u16 \<Rightarrow> u32 \<Rightarrow> bytes \<Rightarrow> ('w session, unit) st" where
  "dispatch e opcode request_id payload =
     (if opcode = OP_ATTACH then op_attach e request_id payload
      else if opcode = OP_DETACH then op_detach e request_id payload
      else if opcode = OP_GET_STATE then op_get_state e request_id payload
      else if opcode = OP_READ_MEMORY then op_read_memory e request_id payload
      else if opcode = OP_WRITE_MEMORY then op_write_memory e request_id payload
      else if opcode = OP_READ_REGISTERS then op_read_registers e request_id payload
      else if opcode = OP_WRITE_REGISTERS then op_write_registers e request_id payload
      else if opcode = OP_RUN then op_run e request_id payload
      else if opcode = OP_HALT then op_halt e request_id payload
      else if opcode = OP_RESET_HALT then op_reset_halt e request_id payload
      else if opcode = OP_RESET_RUN then op_reset_run e request_id payload
      else return ())"

definition handle_request :: "'w env \<Rightarrow> bytes \<Rightarrow> ('w session, unit) st" where
  "handle_request e message = do {
     s \<leftarrow> State_Monad.get;
     if transport_dead s \<or> \<not> is_valid_message_size (length message) then return ()
     else do {
       let header = dec_msg_header message;
       if hdr_version header \<noteq> PROTOCOL_VERSION then return ()
       else if hdr_kind header \<noteq> KIND_REQUEST \<or> hdr_request_id header = 0 then return ()
       else do {
         let payload = drop SIZEOF_msg_header message;
         let request_id = hdr_request_id header;
         case gate_column (hdr_opcode header) of
           None \<Rightarrow> respond e (hdr_opcode header) request_id
             (if state s = TARGET_LOST then STATUS_TARGET_LOST else STATUS_UNSUPPORTED)
         | Some column \<Rightarrow>
             (case gate_status (GATE_TABLE (state s) column) of
                Some st \<Rightarrow> respond e (hdr_opcode header) request_id st
              | None \<Rightarrow> dispatch e (hdr_opcode header) request_id payload)
       }
     }
   }"

definition handle_poll :: "'w env \<Rightarrow> ('w session, unit) st" where
  "handle_poll e = do {
     s \<leftarrow> State_Monad.get;
     if transport_dead s \<or> state s \<noteq> TARGET_RUNNING \<or> \<not> attached s then return ()
     else do {
       (r, stop) \<leftarrow> b_poll_halted e no_stop;
       if r \<noteq> ESP_OK then
         enter_lost e (if r = ESP_ERR_TIMEOUT then TARGET_LOST_TIMEOUT else TARGET_LOST_SWD_FAULT)
       else if sd_halted stop then do { enter_halted e stop; emit_pending_stopped e }
       else return ()
     }
   }"

end
