(* ===== verification/Session_Inv.thy ===== *)
theory Session_Inv
  imports Session_Run
begin

text \<open>
  The well-formedness invariant \<open>wf\<close> of a session, the messages a trace shows on the wire
  (\<open>outs\<close>), and the backward rules of the frame-sending operations. A rule of this and the next
  theories reads: from a well-formed state, whatever the environment does, the operation ends in a
  well-formed state, related to the first by the frame equations (\<open>same\<close>) and by the messages
  it sent.
\<close>

section \<open>Messages on the wire\<close>

datatype msg =
    Response u16 u32 u32
  | Stopped u32
  | TargetLost u8

definition msg_of :: "bytes \<Rightarrow> msg" where
  "msg_of f = (let h = dec_msg_header f in
     if hdr_kind h = KIND_RESPONSE
     then Response (hdr_opcode h) (hdr_request_id h) (le_word (slice 12 4 f))
     else if hdr_opcode h = EVT_STOPPED then Stopped (le_word (slice 12 4 f))
     else TargetLost (le_word (slice 12 1 f)))"

fun out_of :: "act \<Rightarrow> msg list" where
  "out_of (Tx f _) = [msg_of f]"
| "out_of _ = []"

definition outs :: "act list \<Rightarrow> msg list" where
  "outs tr = concat (map out_of tr)"

lemma outs_simps [simp]:
  "outs [] = []" "outs (a # tr) = out_of a @ outs tr" "outs (tr @ tr') = outs tr @ outs tr'"
  by (simp_all add: outs_def)

text \<open>
  The type of a frame: what the bytes after the header hold, by kind and opcode. A response is a
  status alone, or \<open>STATUS_OK\<close> with the data of its opcode, whose counts and lengths agree with the
  bytes that follow.
\<close>

definition response_data :: "u16 \<Rightarrow> bytes \<Rightarrow> bool" where
  "response_data opc body \<longleftrightarrow>
     opc = OP_ATTACH \<and> length body = 32 + 20 * unat (ares_memory_region_count (dec_attach_response body)) \<or>
     opc = OP_GET_STATE \<and> length body = 12 \<and>
       (\<exists>t. gsr_target_state (dec_get_state_response body) = target_state_code t) \<or>
     opc = OP_READ_MEMORY \<and> length body = 16 + unat (rms_completed_length (dec_read_memory_response body)) \<or>
     opc = OP_READ_REGISTERS \<and> 12 \<le> length body \<and>
       unat (rrs_register_count (dec_read_registers_response body)) = count_entries (drop 12 body) (length body - 12)"

definition response_body :: "u16 \<Rightarrow> bytes \<Rightarrow> bool" where
  "response_body opc body \<longleftrightarrow> 4 \<le> length body \<and>
     (\<exists>st. le_word (take 4 body) = status_code st \<and> (length body = 4 \<or> st = STATUS_OK \<and> response_data opc body))"

definition stopped_body :: "bytes \<Rightarrow> bool" where
  "stopped_body body \<longleftrightarrow> 36 \<le> length body \<and>
     (\<exists>r. sev_reason (dec_stopped_event body) = stop_reason_code r) \<and>
     (\<exists>regs stack. drop 36 body = regs @ stack \<and>
        unat (sev_register_count (dec_stopped_event body)) = count_entries regs (length regs) \<and>
        unat (sev_stack_length (dec_stopped_event body)) = length stack)"

definition event_body :: "u16 \<Rightarrow> bytes \<Rightarrow> bool" where
  "event_body opc body \<longleftrightarrow> opc = EVT_STOPPED \<and> stopped_body body \<or>
     opc = EVT_TARGET_LOST \<and> length body = 8 \<and> (\<exists>r. le_word (take 1 body) = target_lost_reason_code r)"

definition typed_body :: "u8 \<Rightarrow> u16 \<Rightarrow> bytes \<Rightarrow> bool" where
  "typed_body k opc body \<longleftrightarrow> (if k = KIND_RESPONSE then response_body opc body else event_body opc body)"

definition frame_ok :: "bytes \<Rightarrow> bool" where
  "frame_ok f \<longleftrightarrow> is_valid_message_size (length f) \<and> verify_message_crc f \<and>
     hdr_version (dec_msg_header f) = PROTOCOL_VERSION \<and>
     (hdr_kind (dec_msg_header f) = KIND_RESPONSE \<or>
      hdr_kind (dec_msg_header f) = KIND_EVENT \<and> hdr_request_id (dec_msg_header f) = 0) \<and>
     typed_body (hdr_kind (dec_msg_header f)) (hdr_opcode (dec_msg_header f)) (drop 12 f)"

fun act_ok :: "act \<Rightarrow> bool" where
  "act_ok (Tx f _) = frame_ok f"
| "act_ok _ = True"

section \<open>Well-formed sessions\<close>

definition entry_ok :: "sw_bp \<Rightarrow> bool" where
  "entry_ok b \<longleftrightarrow> sb_instruction_size b \<in> {2, 4} \<and>
     sb_address b \<le> u64_max - ucast (sb_instruction_size b)"

definition table_ok :: "sw_bp list option \<Rightarrow> nat \<Rightarrow> bool" where
  "table_ok t n \<longleftrightarrow> n \<le> 32 \<and> (case t of None \<Rightarrow> n = 0 | Some t \<Rightarrow> length t = 32 \<and>
     (\<forall>b \<in> set t. length (sb_original b) = 4) \<and> (\<forall>b \<in> set (take n t). entry_ok b))"

definition len_ok :: "'a list option \<Rightarrow> nat \<Rightarrow> bool" where
  "len_ok x n \<longleftrightarrow> (\<forall>xs. x = Some xs \<longrightarrow> length xs = n)"

lemma len_ok_simps [simp]: "len_ok None n" "len_ok (Some xs) n \<longleftrightarrow> length xs = n"
  by (simp_all add: len_ok_def)

definition idle :: "'w session \<Rightarrow> bool" where
  "idle s \<longleftrightarrow> \<not> attached s \<and> state s = TARGET_DETACHED \<and> region_count s = 0 \<and> sw_count s = 0 \<and>
     pending_registers_size s = 0 \<and> pending_stack_size s = 0"

definition wf :: "'w env \<Rightarrow> 'w session \<Rightarrow> bool" where
  "wf e s \<longleftrightarrow> \<not> ub s \<and>
     len_ok (scratch s) 8192 \<and> len_ok (pending_registers s) 8192 \<and> len_ok (regions s) 64 \<and>
     table_ok (sw_table s) (sw_count s) \<and>
     length (hw_breakpoint_ids s) = 16 \<and> hw_count s \<le> 16 \<and>
     hardware_breakpoint_limit s \<le> 16 \<and> hardware_watchpoint_limit s \<le> 16 \<and>
     max_memory_transfer s \<le> MAX_MEMORY_TRANSFER \<and> tx_frame_size s \<le> 8192 \<and>
     region_count s \<le> 64 \<and>
     pending_registers_size s + pending_stack_size s \<le> SNAPSHOT_BLOB_CAPACITY \<and>
     (storage_ready e s \<or> scratch s = None \<and> idle s) \<and>
     (state s = TARGET_HALTED \<or> state s = TARGET_RUNNING \<longrightarrow> attached s) \<and>
     (state s = TARGET_HALTED \<longrightarrow> stop_id s \<noteq> 0) \<and>
     list_all act_ok (trace s)"

lemma wf_new_session: "wf e (new_session w)"
  by (simp add: wf_def new_session_def table_ok_def idle_def)

lemma wfD:
  assumes "wf e s"
  shows "\<not> ub s" and "regions_readable s" and "sw_readable s" and "sw_bounded s"
proof -
  have "storage_ready e s \<or> idle s" "len_ok (regions s) 64" "region_count s \<le> 64"
    "table_ok (sw_table s) (sw_count s)"
    using assms by (auto simp: wf_def)
  then show "regions_readable s" "sw_readable s"
    by (auto simp: regions_readable_def sw_readable_def storage_ready_def idle_def table_ok_def
        split: option.splits)
  have "unat (sb_instruction_size b) \<le> 4" if "entry_ok b" for b
    using that by (auto simp: entry_ok_def)
  with \<open>table_ok (sw_table s) (sw_count s)\<close> show "sw_bounded s"
    by (fastforce simp: sw_bounded_def active_sw_def table_ok_def list_all_iff
        split: option.splits dest: in_set_takeD)
  show "\<not> ub s" using assms by (simp add: wf_def)
qed

lemma wf_live: "wf e s \<Longrightarrow> attached s \<or> state s \<noteq> TARGET_DETACHED \<Longrightarrow> scratch s \<noteq> None"
  by (auto simp: wf_def idle_def storage_ready_def)

lemma wf_attached: "wf e s \<Longrightarrow> attached s \<Longrightarrow> storage_ready e s"
  by (auto simp: wf_def idle_def)


section \<open>Views\<close>

text \<open>
  Groups of fields that an operation changes together or not at all: an equation between two
  states' views is the frame condition of a rule.
\<close>

definition "cfg s = (attached s, capabilities s, supported_vector_catch s,
  hardware_breakpoint_limit s, hardware_watchpoint_limit s, max_memory_transfer s,
  regions s, region_count s)"

definition "runv s = (running_action s, run_to_active s, active_run_to_address s,
  hw_breakpoint_ids s, hw_count s)"

definition "stepv s = (sw_step_over_pending s, sw_step_over_address s)"

definition "swv s = (sw_table s, sw_count s)"

definition "stopv s = (stop_id s, stop_reported s, pending_reason s, pending_detail s,
  pending_breakpoint_id s, pending_watchpoint_address s, pending_registers s,
  pending_registers_size s, pending_stack_address s, pending_stack_size s)"

lemmas views = cfg_def runv_def stepv_def swv_def stopv_def

definition same :: "'w session \<Rightarrow> 'w session \<Rightarrow> bool" where
  "same s s' \<longleftrightarrow> cfg s' = cfg s \<and> runv s' = runv s \<and> stepv s' = stepv s \<and> swv s' = swv s \<and>
     stopv s' = stopv s"

lemma same_trans: "same s s1 \<Longrightarrow> same s1 s2 \<Longrightarrow> same s s2"
  by (simp add: same_def)

lemma same_refl: "same s s"
  by (simp add: same_def)

text \<open>
  \<open>ext s s' tr\<close>: the operation appended \<open>tr\<close> to the trace, kept the buffers allocated, and a
  transport that was dead stayed dead and was sent nothing.
\<close>

definition ext :: "'w session \<Rightarrow> 'w session \<Rightarrow> act list \<Rightarrow> bool" where
  "ext s s' tr \<longleftrightarrow> trace s' = trace s @ tr \<and> (scratch s' = None \<longleftrightarrow> scratch s = None) \<and>
     (transport_dead s \<longrightarrow> transport_dead s' \<and> outs tr = [])"

lemma ext_trans: "ext s s1 tr1 \<Longrightarrow> ext s1 s2 tr2 \<Longrightarrow> ext s s2 (tr1 @ tr2)"
  by (auto simp: ext_def)

lemma ext_refl: "ext s s []"
  by (simp add: ext_def)

fun is_event :: "msg \<Rightarrow> bool" where
  "is_event (Response _ _ _) = False"
| "is_event _ = True"

definition answered :: "u16 \<Rightarrow> u32 \<Rightarrow> msg list \<Rightarrow> bool" where
  "answered opc rid ms \<longleftrightarrow> (\<exists>st evs. ms = Response opc rid st # evs \<and> list_all is_event evs)"

lemma answered_append: "answered opc rid ms \<Longrightarrow> list_all is_event evs \<Longrightarrow> answered opc rid (ms @ evs)"
  by (auto simp: answered_def)

lemma answered_one: "answered opc rid [Response opc rid st]"
  by (simp add: answered_def)

section \<open>Rules of the state accessors\<close>

lemma wp_expect [wps]: "c \<Longrightarrow> Q () s \<Longrightarrow> wp (expect c) Q s"
  by (simp add: wp_def expect_def exec_st_def result_st_def)

lemma wp_poke_scratch:
  "scratch s = Some buf \<Longrightarrow> off + length bs \<le> length buf \<Longrightarrow>
   Q () (s\<lparr>scratch := Some (splice off bs buf)\<rparr>) \<Longrightarrow> wp (poke_scratch off bs) Q s"
  by (simp add: wp_def poke_scratch_def exec_st_def result_st_def)

lemma wp_poke_frame:
  "off + length bs \<le> length buf \<Longrightarrow> Q () (s\<lparr>scratch := Some (splice off bs buf)\<rparr>) \<Longrightarrow>
   wp (poke_scratch off bs) Q (s\<lparr>scratch := Some buf\<rparr>)"
  using wp_poke_scratch [of "s\<lparr>scratch := Some buf\<rparr>" buf] by simp

lemma wp_poke_pending:
  "pending_registers s = Some buf \<Longrightarrow> off + length bs \<le> length buf \<Longrightarrow>
   Q () (s\<lparr>pending_registers := Some (splice off bs buf)\<rparr>) \<Longrightarrow> wp (poke_pending off bs) Q s"
  by (simp add: wp_def poke_pending_def exec_st_def result_st_def)

lemma wp_peek_scratch:
  "scratch s = Some buf \<Longrightarrow> off + n \<le> length buf \<Longrightarrow> Q (slice off n buf) s \<Longrightarrow>
   wp (peek_scratch off n) Q s"
  by (simp add: wp_def peek_scratch_def exec_st_def result_st_def)

lemma wp_peek_pending:
  "pending_registers s = Some buf \<Longrightarrow> off + n \<le> length buf \<Longrightarrow> Q (slice off n buf) s \<Longrightarrow>
   wp (peek_pending off n) Q s"
  by (simp add: wp_def peek_pending_def exec_st_def result_st_def)

section \<open>Frame assembly\<close>

definition head_of :: "u8 \<Rightarrow> u16 \<Rightarrow> u32 \<Rightarrow> bytes" where
  "head_of kind opcode request_id = le_bytes 1 PROTOCOL_VERSION @ le_bytes 1 kind @
     le_bytes 2 opcode @ le_bytes 4 request_id"

lemma length_head_of [simp]: "length (head_of k opc r) = 8"
  by (simp add: head_of_def)

lemma head_of_fields:
  assumes "take 8 f = head_of k opc r"
  shows "hdr_version (dec_msg_header f) = PROTOCOL_VERSION" and "hdr_kind (dec_msg_header f) = k"
    and "hdr_opcode (dec_msg_header f) = opc" and "hdr_request_id (dec_msg_header f) = r"
proof -
  have s: "slice o' n f = slice o' n (head_of k opc r)" if "o' + n \<le> 8" for o' n
    using slice_take [OF that, of f] by (simp add: assms)
  show "hdr_version (dec_msg_header f) = PROTOCOL_VERSION" "hdr_kind (dec_msg_header f) = k"
    "hdr_opcode (dec_msg_header f) = opc" "hdr_request_id (dec_msg_header f) = r"
    by (simp_all add: dec_msg_header_def s) (simp_all add: head_of_def slice_def)
qed

lemma take_splice_same: "length bs \<le> length buf \<Longrightarrow> take (length bs) (splice 0 bs buf) = bs"
  by (simp add: splice_def)

lemma take_splice_after: "n \<le> off \<Longrightarrow> off \<le> length buf \<Longrightarrow> take n (splice off bs buf) = take n buf"
  by (simp add: splice_def min_def)

text \<open>The frame that \<open>finish_frame\<close> hands to the sink when \<open>n\<close> bytes are assembled in \<open>buf\<close>.\<close>

definition sealed :: "nat \<Rightarrow> bytes \<Rightarrow> bytes" where
  "sealed n buf = snd (set_message_crc (take n buf))"

lemma length_sealed [simp]: "n \<le> length buf \<Longrightarrow> length (sealed n buf) = n"
  by (simp add: sealed_def set_message_crc_same)

lemma sealed_head: "8 \<le> n \<Longrightarrow> take 8 (sealed n buf) = take 8 buf"
  by (simp add: sealed_def set_message_crc_same min_def)

lemma sealed_payload: "drop 12 (sealed n buf) = drop 12 (take n buf)"
  by (simp add: sealed_def set_message_crc_same)

lemma slice_sealed:
  assumes "12 \<le> off" and "off + k \<le> n"
  shows "slice off k (sealed n buf) = slice off k buf"
proof -
  have *: "drop off xs = drop (off - 12) (drop 12 xs)" for xs :: bytes
    using assms by simp
  have "slice off k (sealed n buf) = slice off k (take n buf)"
    unfolding slice_def by (subst (1 2) *) (simp only: sealed_payload)
  then show ?thesis using assms by (simp add: slice_take)
qed

text \<open>The bodies the senders assemble.\<close>

lemma body_splice:
  "12 + length bs \<le> length b \<Longrightarrow> n = 12 + length bs \<Longrightarrow> drop 12 (take n (splice 12 bs b)) = bs"
  "length b = 8192 \<Longrightarrow> off = 12 + length h \<Longrightarrow> off + length d \<le> 8192 \<Longrightarrow> n = off + length d \<Longrightarrow>
   drop 12 (take n (splice 12 h (splice off d b))) = h @ d"
  "length b = 8192 \<Longrightarrow> off = 12 + length h \<Longrightarrow> off + length d \<le> 8192 \<Longrightarrow> n = off + length d \<Longrightarrow>
   drop 12 (take n (splice off d (splice 12 h b))) = h @ d"
  by (simp_all add: splice_def min_def) (cases bs; simp)

lemma typed_status: "typed_body KIND_RESPONSE opc (le_bytes 4 (status_code st))"
  by (auto simp: typed_body_def response_body_def)

lemma typed_ok:
  "4 \<le> length body \<Longrightarrow> le_word (take 4 body) = status_code STATUS_OK \<Longrightarrow> response_data opc body \<Longrightarrow>
   typed_body KIND_RESPONSE opc body"
  by (auto simp: typed_body_def response_body_def intro!: exI [of _ STATUS_OK])

lemma walk_entries_few: "4 * length (walk_entries bs sz off) \<le> sz - off"
proof (induction bs sz off rule: walk_entries.induct)
  case (1 bs sz off)
  show ?case using 1 [OF _ refl refl] by (subst walk_entries.simps) (auto simp: Let_def)
qed

lemma count_entries_word: "n \<le> 8192 \<Longrightarrow> unat (word_of_nat (count_entries bs n) :: u16) = count_entries bs n"
  using walk_entries_few [of bs n 0] by (simp add: count_entries_def unat_of_nat)

lemma typed_lost:
  assumes "length b = 8192"
  shows "typed_body KIND_EVENT EVT_TARGET_LOST (drop 12 (take 20 (splice 16 (le_bytes 4 (0 :: u32))
    (splice 12 (le_bytes 1 (target_lost_reason_code r)) b))))"
proof -
  have "take 1 (drop 12 (take 20 (splice 16 z (splice 12 x b)))) = x" if "length x = 1" "length z = 4" for x z
    using assms that by (simp add: splice_def min_def take_drop)
  then show ?thesis using assms by (auto simp: typed_body_def event_body_def intro!: exI [of _ r])
qed

lemma typed_stopped:
  assumes "sev_reason ev = stop_reason_code r" "length regs + length stack \<le> 8144"
    and "sev_register_count ev = word_of_nat (count_entries regs (length regs))"
    and "sev_stack_length ev = word_of_nat (length stack)"
  shows "typed_body KIND_EVENT EVT_STOPPED (enc_stopped_event ev @ regs @ stack)"
proof -
  have "unat (sev_stack_length ev) = length stack" using assms(2,4) by (simp add: unat_of_nat)
  then show ?thesis
    using assms count_entries_word [of "length regs" regs]
    by (fastforce simp: typed_body_def event_body_def stopped_body_def wire)
qed

lemma sealed_frame_ok:
  assumes "12 \<le> n" "n \<le> 8192" "n \<le> length buf" "take 8 buf = head_of k opc r"
    and "k = KIND_RESPONSE \<or> k = KIND_EVENT \<and> r = 0" and "typed_body k opc (drop 12 (take n buf))"
  shows "frame_ok (sealed n buf)"
proof -
  have v: "is_valid_message_size (length (take n buf))"
    using assms by (simp add: is_valid_message_size_def)
  moreover have "take 8 (sealed n buf) = head_of k opc r"
    using assms by (simp add: sealed_head)
  ultimately show ?thesis
    using assms(5,6) crc.sealed_accepted [OF v]
    by (auto simp: frame_ok_def head_of_fields sealed_payload sealed_def [symmetric])
qed

lemma sealed_msg:
  assumes "take 8 buf = head_of k opc r" "12 \<le> n"
  shows "msg_of (sealed n buf) = (if k = KIND_RESPONSE then Response opc r (le_word (slice 12 4 (sealed n buf)))
    else if opc = EVT_STOPPED then Stopped (le_word (slice 12 4 (sealed n buf)))
    else TargetLost (le_word (slice 12 1 (sealed n buf))))"
proof -
  have "take 8 (sealed n buf) = head_of k opc r" using assms by (simp add: sealed_head)
  then show ?thesis by (simp add: msg_of_def Let_def head_of_fields)
qed

lemma wp_begin_frame:
  assumes "scratch s = None \<Longrightarrow> Q False s"
    and "\<And>buf. scratch s = Some buf \<Longrightarrow> n > FRAME_PAYLOAD_MAX \<Longrightarrow> Q False s"
    and "\<And>buf. scratch s = Some buf \<Longrightarrow> n \<le> FRAME_PAYLOAD_MAX \<Longrightarrow> 8 \<le> length buf \<and>
      Q True (s\<lparr>tx_frame_size := 12 + n, scratch := Some (splice 0 (head_of kind opcode rid) buf)\<rparr>)"
  shows "wp (begin_frame kind opcode rid n) Q s"
  unfolding begin_frame_def head_of_def [symmetric]
  using assms by (cases "scratch s") (auto intro!: wps wp_poke_scratch)

text \<open>\<open>finish_frame\<close>: the frame on the wire and the effect of its acceptance.\<close>

definition sent_acts :: "'w session \<Rightarrow> bytes \<Rightarrow> bool \<Rightarrow> act list" where
  "sent_acts s f ok = (if transport_dead s then [] else [Tx f ok])"

lemma wp_finish_frame_sink:
  assumes "scratch s = Some buf" "length buf = 8192" "env_tx_sink e = Some sink"
    and "12 \<le> tx_frame_size s" "tx_frame_size s \<le> 8192"
    and dead: "transport_dead s \<Longrightarrow> Q False s"
    and sent: "\<And>ok w. \<not> transport_dead s \<Longrightarrow> sink (sealed (tx_frame_size s) buf) (world s) = (ok, w) \<Longrightarrow> Q ok (s\<lparr>
      scratch := Some (splice 0 (sealed (tx_frame_size s) buf) buf), world := w,
      trace := trace s @ [Tx (sealed (tx_frame_size s) buf) ok], transport_dead := \<not> ok\<rparr>)"
  shows "wp (finish_frame e) Q s"
proof -
  have v: "is_valid_message_size (length (take (tx_frame_size s) buf))"
    using assms by (simp add: is_valid_message_size_def)
  have q: "set_message_crc (take (tx_frame_size s) buf) = (True, sealed (tx_frame_size s) buf)"
    using set_message_crc_valid [OF v] by (simp add: sealed_def)
  have len: "length (sealed (tx_frame_size s) buf) = tx_frame_size s"
    using assms by simp
  have alive: "s\<lparr>scratch := x, world := w, trace := t\<rparr> =
      s\<lparr>scratch := x, world := w, trace := t, transport_dead := False\<rparr>"
    if "\<not> transport_dead s" for x w t using that by (cases s) simp
  show ?thesis
    unfolding finish_frame_def kill_transport_def
    apply (intro wps wp_peek_scratch [OF assms(1)])
        apply (use dead in simp)
       apply (use assms in simp)
      apply (simp add: assms(3))
     apply (simp add: slice_0 q)
    apply (clarsimp simp: slice_0 q assms(3))
    apply (intro wps wp_poke_scratch [OF assms(1)] wp_call)
      apply (use len assms in simp)
     apply (use sent [of False] in simp)
    apply (use sent [of True] alive in simp)
    done
qed

lemma wp_finish_frame:
  assumes "scratch s = Some buf" "length buf = 8192" "env_tx_sink e \<noteq> None"
    and "12 \<le> tx_frame_size s" "tx_frame_size s \<le> 8192"
    and dead: "transport_dead s \<Longrightarrow> Q False s"
    and sent: "\<And>ok w. \<not> transport_dead s \<Longrightarrow> Q ok (s\<lparr>
      scratch := Some (splice 0 (sealed (tx_frame_size s) buf) buf), world := w,
      trace := trace s @ [Tx (sealed (tx_frame_size s) buf) ok], transport_dead := \<not> ok\<rparr>)"
  shows "wp (finish_frame e) Q s"
proof -
  obtain sink where "env_tx_sink e = Some sink" using assms(3) by blast
  then show ?thesis by (rule wp_finish_frame_sink [OF assms(1,2) _ assms(4,5)]) (use dead sent in simp_all)
qed


section \<open>Sending a message\<close>

definition replies :: "'w session \<Rightarrow> bool \<Rightarrow> act list \<Rightarrow> msg \<Rightarrow> bool" where
  "replies s td tr m \<longleftrightarrow>
     (if transport_dead s \<or> scratch s = None then tr = [] \<and> td = transport_dead s
      else \<exists>f ok. tr = [Tx f ok] \<and> frame_ok f \<and> msg_of f = m \<and> td = (\<not> ok))"

lemma wf_tx:
  assumes "wf e s" "len_ok sc 8192" "sc = None \<longleftrightarrow> scratch s = None" "n \<le> 8192" "list_all act_ok tr"
  shows "wf e (s\<lparr>scratch := sc, tx_frame_size := n, transport_dead := td, world := w,
    trace := trace s @ tr\<rparr>)"
  using assms by (auto simp: wf_def storage_ready_def idle_def)

lemma wp_finish:
  assumes wf: "wf e s" and sc: "scratch s = Some buf0" and b: "length b = 8192"
    and head: "take 8 b = head_of k opc r" and k: "k = KIND_RESPONSE \<or> k = KIND_EVENT \<and> r = 0"
    and n: "12 \<le> n" "n \<le> 8192" and typed: "typed_body k opc (drop 12 (take n b))"
    and Q: "\<And>sc td w tr ok. \<lbrakk>wf e (s\<lparr>scratch := Some sc, tx_frame_size := n, transport_dead := td,
        world := w, trace := trace s @ tr\<rparr>);
        frame_ok (sealed n b);
        if transport_dead s then td \<and> tr = [] \<and> \<not> ok else tr = [Tx (sealed n b) ok] \<and> td = (\<not> ok)\<rbrakk> \<Longrightarrow>
      Q ok (s\<lparr>scratch := Some sc, tx_frame_size := n, transport_dead := td,
        world := w, trace := trace s @ tr\<rparr>)"
  shows "wp (finish_frame e) Q (s\<lparr>tx_frame_size := n, scratch := Some b\<rparr>)"
proof -
  have sink: "env_tx_sink e \<noteq> None"
    using wf sc by (auto simp: wf_def storage_ready_def)
  have ok: "frame_ok (sealed n b)"
    using sealed_frame_ok [OF n _ head k typed] b n by simp
  have len: "length (splice 0 (sealed n b) b) = 8192"
    using b n by simp
  have W: "wf e (s\<lparr>scratch := Some x, tx_frame_size := n, transport_dead := td, world := w,
      trace := trace s @ tr\<rparr>)" if "length x = 8192" "list_all act_ok tr" for x td w tr
    by (rule wf_tx [OF wf]) (use that sc n in simp_all)
  show ?thesis
  proof (rule wp_finish_frame [where buf = b])
    assume "transport_dead (s\<lparr>tx_frame_size := n, scratch := Some b\<rparr>)"
    then have d: "transport_dead s" by simp
    have e: "s\<lparr>scratch := Some b, tx_frame_size := n, transport_dead := True, world := world s,
        trace := trace s @ []\<rparr> = s\<lparr>tx_frame_size := n, scratch := Some b\<rparr>"
      using d by (cases s) simp
    show "Q False (s\<lparr>tx_frame_size := n, scratch := Some b\<rparr>)"
      using Q [where sc = b and td = True and w = "world s" and tr = "[]" and ok = False]
        W [where x = b and tr = "[]" and td = True and w = "world s"] ok d b
      unfolding e by simp
  next
    fix acc w
    assume "\<not> transport_dead (s\<lparr>tx_frame_size := n, scratch := Some b\<rparr>)"
    then have d: "\<not> transport_dead s" by simp
    have order: "s\<lparr>tx_frame_size := n, scratch := x, world := w, trace := t, transport_dead := d\<rparr> =
        s\<lparr>scratch := x, tx_frame_size := n, transport_dead := d, world := w, trace := t\<rparr>" for x t d
      by (cases s) simp
    show "Q acc (s\<lparr>tx_frame_size := n, scratch := Some b,
        scratch := Some (splice 0 (sealed (tx_frame_size (s\<lparr>tx_frame_size := n, scratch := Some b\<rparr>)) b) b),
        world := w, trace := trace (s\<lparr>tx_frame_size := n, scratch := Some b\<rparr>) @
          [Tx (sealed (tx_frame_size (s\<lparr>tx_frame_size := n, scratch := Some b\<rparr>)) b) acc],
        transport_dead := \<not> acc\<rparr>)"
      using Q [where sc = "splice 0 (sealed n b) b" and td = "\<not> acc" and w = w and
          tr = "[Tx (sealed n b) acc]" and ok = acc]
        W [where x = "splice 0 (sealed n b) b" and tr = "[Tx (sealed n b) acc]" and td = "\<not> acc" and w = w] ok d len
      by (simp add: order)
  qed (use b n sink in simp_all)
qed

lemma sealed_word: "12 \<le> off \<Longrightarrow> off + k \<le> n \<Longrightarrow> slice off k b = bs \<Longrightarrow> slice off k (sealed n b) = bs"
  by (simp add: slice_sealed)

lemma wf_scratch: "wf e s \<Longrightarrow> scratch s = Some buf \<Longrightarrow> length buf = 8192"
  by (simp add: wf_def)

lemma wp_begin_some:
  "scratch s = Some buf \<Longrightarrow> length buf = 8192 \<Longrightarrow> n \<le> FRAME_PAYLOAD_MAX \<Longrightarrow>
   Q True (s\<lparr>tx_frame_size := 12 + n, scratch := Some (splice 0 (head_of k opc r) buf)\<rparr>) \<Longrightarrow>
   wp (begin_frame k opc r n) Q s"
  by (rule wp_begin_frame) simp_all

lemma take_head_of [simp]:
  "length buf = 8192 \<Longrightarrow> take 8 (splice 0 (head_of k opc r) buf) = head_of k opc r"
  using take_splice_same [of "head_of k opc r" buf] by simp

lemma wf_ready: "wf e s \<Longrightarrow> scratch s \<noteq> None \<Longrightarrow> storage_ready e s"
  by (auto simp: wf_def)

lemma wf_pending: "wf e s \<Longrightarrow> pending_registers s = Some buf \<Longrightarrow> length buf = 8192"
  by (simp add: wf_def)

lemma wp_respond_raw:
  assumes wf: "wf e s"
    and Q: "\<And>sc n td w tr. \<lbrakk>wf e (s\<lparr>scratch := sc, tx_frame_size := n, transport_dead := td,
        world := w, trace := trace s @ tr\<rparr>); sc = None \<longleftrightarrow> scratch s = None;
        replies s td tr (Response opc rid (status_code st))\<rbrakk> \<Longrightarrow>
      Q () (s\<lparr>scratch := sc, tx_frame_size := n, transport_dead := td, world := w,
        trace := trace s @ tr\<rparr>)"
  shows "wp (respond e opc rid st) Q s"
proof (cases "scratch s")
  case None
  then have same: "s\<lparr>scratch := None, tx_frame_size := tx_frame_size s,
    transport_dead := transport_dead s, world := world s, trace := trace s @ []\<rparr> = s"
    by (cases s) simp
  show ?thesis
    using None wf Q [where sc = None and n = "tx_frame_size s" and td = "transport_dead s" and
        w = "world s" and tr = "[]", unfolded same]
    unfolding respond_def send_response_def
    by (intro wps wp_begin_frame) (simp_all add: replies_def)
next
  case (Some buf)
  have len: "length buf = 8192" using wf Some by (rule wf_scratch)
  define b where "b = splice 12 (le_bytes 4 (status_code st)) (splice 0 (head_of KIND_RESPONSE opc rid) buf)"
  have b: "length b = 8192" "take 8 b = head_of KIND_RESPONSE opc rid"
    "slice 12 4 b = le_bytes 4 (status_code st)"
    using len take_splice_same [of "head_of KIND_RESPONSE opc rid" buf]
    by (simp_all add: b_def take_splice_after)
  have m: "msg_of (sealed 16 b) = Response opc rid (status_code st)"
    using b sealed_msg [of b, OF b(2)] by (simp add: sealed_word)
  show ?thesis
    unfolding respond_def send_response_def
    apply (intro wps wp_begin_some [OF Some len], simp, simp)
    apply (intro wps wp_poke_frame, simp add: len, simp, simp, fold b_def)
    apply (rule wp_finish [OF wf Some b(1,2)])
        apply simp
       apply simp
      apply simp
     apply (use len typed_status [of opc st] in \<open>simp add: b_def body_splice(1)\<close>)
    apply (intro wps Q)
    apply (auto simp: replies_def Some m split: if_splits)
    done
qed


text \<open>
  A send that only touches the frame buffer, the transport and the environment: the rule's
  premise describes every way it can end.
\<close>

lemma wp_send_target_lost:
  assumes wf: "wf e s"
    and Q: "\<And>sc n td w tr ok. \<lbrakk>wf e (s\<lparr>scratch := sc, tx_frame_size := n, transport_dead := td,
        world := w, trace := trace s @ tr\<rparr>); sc = None \<longleftrightarrow> scratch s = None;
        replies s td tr (TargetLost (target_lost_reason_code reason))\<rbrakk> \<Longrightarrow>
      Q ok (s\<lparr>scratch := sc, tx_frame_size := n, transport_dead := td, world := w,
        trace := trace s @ tr\<rparr>)"
  shows "wp (send_target_lost e reason) Q s"
proof (cases "scratch s")
  case None
  then have same: "s\<lparr>scratch := None, tx_frame_size := tx_frame_size s,
    transport_dead := transport_dead s, world := world s, trace := trace s @ []\<rparr> = s"
    by (cases s) simp
  show ?thesis
    using None wf Q [where sc = None and n = "tx_frame_size s" and td = "transport_dead s" and
        w = "world s" and tr = "[]", unfolded same]
    unfolding send_target_lost_def
    by (intro wps wp_begin_frame) (simp_all add: replies_def)
next
  case (Some buf)
  have len: "length buf = 8192" using wf Some by (rule wf_scratch)
  define b where "b = splice 16 (le_bytes 4 (0 :: u32))
    (splice 12 (le_bytes 1 (target_lost_reason_code reason))
      (splice 0 (head_of KIND_EVENT EVT_TARGET_LOST 0) buf))"
  have b: "length b = 8192" "take 8 b = head_of KIND_EVENT EVT_TARGET_LOST 0"
    "slice 12 1 b = le_bytes 1 (target_lost_reason_code reason)"
    using len by (simp_all add: b_def take_splice_after slice_splice_disjoint)
  have typed: "typed_body KIND_EVENT EVT_TARGET_LOST (drop 12 (take 20 b))"
    unfolding b_def using len by (intro typed_lost) simp
  have m: "msg_of (sealed 20 b) = TargetLost (target_lost_reason_code reason)"
    using b sealed_msg [of b, OF b(2)] by (simp add: sealed_word)
  show ?thesis
    unfolding send_target_lost_def
    apply (intro wps wp_begin_some [OF Some len], simp, simp)
    apply (intro wps wp_poke_frame, simp add: len, simp add: len, fold b_def)
    apply (rule wp_finish [OF wf Some b(1,2)])
        apply simp
       apply simp
      apply simp
     apply (use typed in simp)
    apply (rule Q)
      apply (auto simp: replies_def Some m split: if_splits)
    done
qed

lemma wp_enter_lost_raw:
  assumes wf: "wf e s"
    and stay: "state s = TARGET_LOST \<Longrightarrow> Q () s"
    and Q: "\<And>sc n td w tr. \<lbrakk>state s \<noteq> TARGET_LOST; wf e (s\<lparr>scratch := sc, tx_frame_size := n,
        transport_dead := td, world := w, trace := trace s @ tr, state := TARGET_LOST\<rparr>);
        sc = None \<longleftrightarrow> scratch s = None;
        replies s td tr (TargetLost (target_lost_reason_code reason))\<rbrakk> \<Longrightarrow>
      Q () (s\<lparr>scratch := sc, tx_frame_size := n, transport_dead := td, world := w,
        trace := trace s @ tr, state := TARGET_LOST\<rparr>)"
    and live: "scratch s \<noteq> None"
  shows "wp (enter_lost e reason) Q s"
proof -
  have wf': "wf e (s\<lparr>state := TARGET_LOST\<rparr>)"
    using wf live by (auto simp: wf_def storage_ready_def)
  have order: "s\<lparr>state := TARGET_LOST, scratch := x, tx_frame_size := n, transport_dead := d, world := w,
        trace := t\<rparr> =
      s\<lparr>scratch := x, tx_frame_size := n, transport_dead := d, world := w, trace := t,
        state := TARGET_LOST\<rparr>" for x n d w t
    by (cases s) simp
  show ?thesis
    unfolding enter_lost_def
    apply (intro wps stay, assumption)
    apply (rule wp_send_target_lost [OF wf'])
    apply (intro wps)
    apply (simp only: order)
    apply simp
    apply (rule Q)
       apply (simp_all add: replies_def)
    done
qed


lemma wf_stop_reported [simp]: "wf e (s\<lparr>stop_reported := r\<rparr>) = wf e s"
  by (simp add: wf_def storage_ready_def idle_def)

lemma wp_send_stopped:
  assumes wf: "wf e s" and live: "scratch s \<noteq> None"
    and Q: "\<And>sc n td w tr. \<lbrakk>wf e (s\<lparr>scratch := Some sc, tx_frame_size := n, transport_dead := td,
        world := w, trace := trace s @ tr, stop_reported := \<not> td\<rparr>);
        replies s td tr (Stopped (stop_id s))\<rbrakk> \<Longrightarrow>
      Q (\<not> td) (s\<lparr>scratch := Some sc, tx_frame_size := n, transport_dead := td, world := w,
        trace := trace s @ tr, stop_reported := \<not> td\<rparr>)"
  shows "wp (send_stopped e) Q s"
proof -
  obtain buf where Some: "scratch s = Some buf" using live by blast
  have len: "length buf = 8192" using wf Some by (rule wf_scratch)
  obtain pend where pend: "pending_registers s = Some pend"
    using wf_ready [OF wf live] by (auto simp: storage_ready_def)
  have plen: "length pend = 8192" using wf pend by (rule wf_pending)
  define k where "k = pending_registers_size s + pending_stack_size s"
  have k: "k \<le> 8144" using wf by (simp add: wf_def k_def)
  define ev where "ev = \<lparr>
         sev_stop_id = stop_id s,
         sev_core_id = 0,
         sev_reason = stop_reason_code (pending_reason s),
         sev_flags = 0,
         sev_reason_detail = pending_detail s,
         sev_breakpoint_id = pending_breakpoint_id s,
         sev_watchpoint_address = pending_watchpoint_address s,
         sev_register_count = word_of_nat (count_entries (slice 0 (pending_registers_size s) pend)
           (pending_registers_size s)),
         sev_stack_length = word_of_nat (pending_stack_size s),
         sev_stack_address = pending_stack_address s\<rparr>"
  define b where "b = splice (48 + pending_registers_size s)
      (slice (pending_registers_size s) (pending_stack_size s) pend)
    (splice 48 (slice 0 (pending_registers_size s) pend)
      (splice 12 (enc_stopped_event ev)
        (splice 0 (head_of KIND_EVENT EVT_STOPPED 0) buf)))"
  have sizes: "pending_registers_size s + pending_stack_size s \<le> 8144" using k by (simp add: k_def)
  have b: "length b = 8192" "take 8 b = head_of KIND_EVENT EVT_STOPPED 0"
    "slice 12 36 b = enc_stopped_event ev"
    using len plen sizes by (simp_all add: b_def take_splice_after slice_splice_disjoint)
  have "slice 12 4 b = take 4 (slice 12 36 b)" by (simp add: slice_def)
  then have id4: "slice 12 4 b = le_bytes 4 (stop_id s)"
    by (simp only: b(3)) (simp add: enc_stopped_event_def ev_def)
  have body: "drop 12 (take (48 + k) b) = enc_stopped_event ev @
      slice 0 (pending_registers_size s) pend @ slice (pending_registers_size s) (pending_stack_size s) pend"
    using len plen sizes by (simp add: b_def k_def splice_def min_def)
  have typed: "typed_body KIND_EVENT EVT_STOPPED (drop 12 (take (48 + k) b))"
    unfolding body using plen sizes by (intro typed_stopped [where r = "pending_reason s"]) (simp_all add: ev_def)
  have m: "msg_of (sealed (48 + k) b) = Stopped (stop_id s)"
    using b sealed_msg [of b, OF b(2)] by (simp add: sealed_word id4)
  have n: "12 + (SIZEOF_stopped_event + pending_registers_size s + pending_stack_size s) = 48 + k"
    by (simp add: k_def)
  show ?thesis
    unfolding send_stopped_def
    apply (intro wps wp_begin_some [OF Some len])
      apply (use sizes in simp)
     apply simp
    apply (simp only: n)
    apply (intro wps wp_peek_pending [where buf = pend])
      apply (simp add: pend)
     apply (use sizes plen in simp)
    apply (fold ev_def)
    apply (intro wps wp_poke_frame)
      apply (use len in simp)
     apply (use len plen sizes in simp)
    apply (intro wps wp_peek_pending [where buf = pend])
      apply (simp add: pend)
     apply (use sizes plen in simp)
    apply (intro wps wp_poke_frame)
     apply (use len plen sizes in simp)
    apply (simp, fold b_def)
    apply (rule wp_finish [OF wf Some b(1,2)])
        apply simp
       apply simp
      apply (use k in simp)
     apply (rule typed)
    subgoal for sc td w tr ok
      apply (intro wps)
      apply (cases "transport_dead s")
      using Q [where sc = sc and n = "48 + k" and td = td and w = w and tr = tr]
      by (auto simp: replies_def Some m)
    done
qed

lemma wp_emit_pending_stopped_raw:
  assumes wf: "wf e s"
    and skip: "stop_reported s \<or> state s \<noteq> TARGET_HALTED \<Longrightarrow> Q () s"
    and Q: "\<And>sc n td w tr. \<lbrakk>\<not> stop_reported s; state s = TARGET_HALTED;
        wf e (s\<lparr>scratch := Some sc, tx_frame_size := n, transport_dead := td,
        world := w, trace := trace s @ tr, stop_reported := \<not> td\<rparr>);
        replies s td tr (Stopped (stop_id s))\<rbrakk> \<Longrightarrow>
      Q () (s\<lparr>scratch := Some sc, tx_frame_size := n, transport_dead := td, world := w,
        trace := trace s @ tr, stop_reported := \<not> td\<rparr>)"
  shows "wp (emit_pending_stopped e) Q s"
proof -
  have "scratch s \<noteq> None" if "state s = TARGET_HALTED"
    using wf_attached [OF wf] wf that by (auto simp: wf_def storage_ready_def)
  then show ?thesis
    unfolding emit_pending_stopped_def
    by (intro wps wp_send_stopped [OF wf] skip Q) simp_all
qed



section \<open>Rules of the sending operations\<close>

lemma wp_respond:
  assumes wf: "wf e s"
    and Q: "\<And>s' tr. \<lbrakk>wf e s'; ext s s' tr; same s s'; state s' = state s;
        outs tr = (if transport_dead s \<or> scratch s = None then []
          else [Response opc rid (status_code st)])\<rbrakk> \<Longrightarrow> Q () s'"
  shows "wp (respond e opc rid st) Q s"
  by (rule wp_respond_raw [OF wf], rule Q, assumption)
    (auto simp: replies_def ext_def same_def views split: if_splits)

lemma wp_enter_lost:
  assumes wf: "wf e s" and live: "scratch s \<noteq> None"
    and Q: "\<And>s' tr. \<lbrakk>wf e s'; ext s s' tr; same s s'; state s' = TARGET_LOST;
        outs tr = (if transport_dead s \<or> state s = TARGET_LOST then []
          else [TargetLost (target_lost_reason_code reason)])\<rbrakk> \<Longrightarrow> Q () s'"
  shows "wp (enter_lost e reason) Q s"
  apply (rule wp_enter_lost_raw [OF wf])
    apply (rule Q [OF wf ext_refl same_refl]; simp)
   apply (rule Q, assumption)
      apply (use live in \<open>auto simp: replies_def ext_def same_def views split: if_splits\<close>)
  done

lemma wp_send_backend_failure:
  assumes wf: "wf e s" and live: "scratch s \<noteq> None"
    and Q: "\<And>s' tr. \<lbrakk>wf e s'; ext s s' tr; same s s';
        state s' = (if r = ESP_FAIL then TARGET_LOST else state s);
        \<not> transport_dead s \<Longrightarrow> answered opc rid (outs tr)\<rbrakk> \<Longrightarrow> Q () s'"
  shows "wp (send_backend_failure e opc rid r fallback) Q s"
  unfolding send_backend_failure_def
proof (intro wps)
  assume r: "r = ESP_FAIL"
  show "wp (respond e opc rid STATUS_TARGET_LOST) (\<lambda>_. wp (enter_lost e TARGET_LOST_SWD_FAULT) Q) s"
  proof (rule wp_respond [OF wf], rule wp_enter_lost)
    fix s1 tr1 s2 tr2
    assume 1: "ext s s1 tr1" "same s s1" "outs tr1 = (if transport_dead s \<or> scratch s = None then []
          else [Response opc rid (status_code STATUS_TARGET_LOST)])"
      and 2: "wf e s2" "ext s1 s2 tr2" "same s1 s2" "state s2 = TARGET_LOST"
        "outs tr2 = (if transport_dead s1 \<or> state s1 = TARGET_LOST then []
          else [TargetLost (target_lost_reason_code TARGET_LOST_SWD_FAULT)])"
    show "Q () s2"
      by (rule Q [OF 2(1) ext_trans [OF 1(1) 2(2)] same_trans [OF 1(2) 2(3)]])
        (use 1(3) 2(4,5) live r in \<open>simp_all add: answered_def\<close>)
  qed (use live in \<open>auto simp: ext_def\<close>)
next
  assume r: "r \<noteq> ESP_FAIL"
  show "wp (respond e opc rid (if r = ESP_ERR_TIMEOUT then STATUS_TIMEOUT else fallback)) Q s"
    by (rule wp_respond [OF wf], rule Q) (use r live in \<open>auto simp: answered_def\<close>)
qed

lemma wp_emit_pending_stopped:
  assumes wf: "wf e s"
    and Q: "\<And>s' tr. \<lbrakk>wf e s'; ext s s' tr; same (s\<lparr>stop_reported := stop_reported s'\<rparr>) s';
        state s' = state s;
        outs tr = (if transport_dead s \<or> stop_reported s \<or> state s \<noteq> TARGET_HALTED then []
          else [Stopped (stop_id s)]);
        stop_reported s' = (if stop_reported s \<or> state s \<noteq> TARGET_HALTED then stop_reported s
          else \<not> transport_dead s')\<rbrakk> \<Longrightarrow> Q () s'"
  shows "wp (emit_pending_stopped e) Q s"
  apply (rule wp_emit_pending_stopped_raw [OF wf])
   apply (rule Q [OF wf ext_refl])
      apply (auto simp: same_def views)[4]
  apply (rule Q, assumption)
      apply (use wf_live [OF wf] in \<open>auto simp: replies_def ext_def same_def views split: if_splits\<close>)
  done

end
