(* ===== verification/Session_Safe.thy ===== *)
theory Session_Safe
  imports Session_Inv
begin

text \<open>
  Backward rules for the calls of the backend and for the breakpoint table and run configuration:
  every operation keeps \<open>wf\<close> and sends nothing (\<open>quiet\<close>), whatever the backend answers.
\<close>

section \<open>Calls of the backend\<close>

definition quiet :: "'w session \<Rightarrow> 'w session \<Rightarrow> bool" where
  "quiet s s' \<longleftrightarrow> (\<exists>tr. ext s s' tr \<and> outs tr = [] \<and> transport_dead s' = transport_dead s)"

lemma quiet_refl: "quiet s s"
  unfolding quiet_def by (rule exI [of _ "[]"]) (simp add: ext_refl)

lemma quiet_trans: "quiet s s1 \<Longrightarrow> quiet s1 s2 \<Longrightarrow> quiet s s2"
  unfolding quiet_def by clarify (rule exI, rule conjI, erule (1) ext_trans, simp)

text \<open>\<open>kept s s'\<close>: everything but the breakpoint table is unchanged and nothing was sent.\<close>

definition kept :: "'w session \<Rightarrow> 'w session \<Rightarrow> bool" where
  "kept s s' \<longleftrightarrow> quiet s s' \<and> cfg s' = cfg s \<and> runv s' = runv s \<and> stepv s' = stepv s \<and>
     stopv s' = stopv s \<and> state s' = state s"

lemma kept_refl: "kept s s"
  by (simp add: kept_def quiet_refl)

lemma kept_trans: "kept s s1 \<Longrightarrow> kept s1 s2 \<Longrightarrow> kept s s2"
  by (auto simp: kept_def elim: quiet_trans)

lemma kept_swI: "sw_table s = None \<longleftrightarrow> t = None \<Longrightarrow> kept s (s\<lparr>sw_table := t\<rparr>)"
  "kept s (s\<lparr>sw_count := n\<rparr>)"
  by (auto simp: kept_def quiet_def ext_def views intro!: exI [of _ "[]"])

lemma wp_backend:
  assumes wf: "wf e s" and g: "\<And>a. out_of (g a) = []" "\<And>a. act_ok (g a)"
    and Q: "\<And>a s'. wf e s' \<Longrightarrow> kept s s' \<Longrightarrow> swv s' = swv s \<Longrightarrow> Q a s'"
  shows "wp (call f g) Q s"
proof (rule wp_call)
  fix a w
  have "wf e (s\<lparr>world := w, trace := trace s @ [g a]\<rparr>)"
    using wf g by (auto simp: wf_def storage_ready_def idle_def)
  moreover have "kept s (s\<lparr>world := w, trace := trace s @ [g a]\<rparr>)"
    using g by (auto simp: kept_def quiet_def ext_def views intro!: exI [of _ "[g a]"])
  ultimately show "Q a (s\<lparr>world := w, trace := trace s @ [g a]\<rparr>)"
    by (rule Q) (simp add: views)
qed

lemma wp_backend_calls:
  assumes wf: "wf e s"
    and Q: "\<And>a s'. wf e s' \<Longrightarrow> kept s s' \<Longrightarrow> swv s' = swv s \<Longrightarrow> Q a s'"
  shows "wp (b_detach e x) Q s" and "wp (b_resume e x y) Q s" and "wp (b_write_regs e data) Q s"
    and "wp (b_write_mem e addr data k) Q s" and "wp (b_apply_breakpoints e bs) Q s"
    and "wp (b_apply_watchpoints e ws) Q s" and "wp (b_set_vector_catch e m) Q s"
  unfolding b_defs by (rule wp_backend [OF wf]; simp add: Q)+

lemma wp_backend_queries:
  assumes wf: "wf e s"
  shows "(\<And>a s'. wf e s' \<Longrightarrow> kept s s' \<Longrightarrow> swv s' = swv s \<Longrightarrow> Q a s') \<Longrightarrow> wp (b_attach e p) Q s"
    and "(\<And>a s'. wf e s' \<Longrightarrow> kept s s' \<Longrightarrow> swv s' = swv s \<Longrightarrow> R a s') \<Longrightarrow> wp (b_reset e k h d) R s"
    and "(\<And>a s'. wf e s' \<Longrightarrow> kept s s' \<Longrightarrow> swv s' = swv s \<Longrightarrow> R a s') \<Longrightarrow> wp (b_poll_halted e d) R s"
    and "(\<And>a s'. wf e s' \<Longrightarrow> kept s s' \<Longrightarrow> swv s' = swv s \<Longrightarrow> R a s') \<Longrightarrow> wp (b_halt e ms d) R s"
    and "(\<And>a s'. wf e s' \<Longrightarrow> kept s s' \<Longrightarrow> swv s' = swv s \<Longrightarrow> S a s') \<Longrightarrow> wp (b_read_regs e ids cap) S s"
    and "(\<And>a s'. wf e s' \<Longrightarrow> kept s s' \<Longrightarrow> swv s' = swv s \<Longrightarrow> T a s') \<Longrightarrow> wp (b_read_mem e addr n k) T s"
  unfolding b_defs by (rule wp_backend [OF wf]; simp split: prod.splits)+

lemmas wp_calls = wp_backend_calls wp_backend_queries

section \<open>The breakpoint table\<close>

lemma wp_sw_get:
  "sw_table s = Some t \<Longrightarrow> i < length t \<Longrightarrow> Q (t ! i) s \<Longrightarrow> wp (sw_get i) Q s"
  by (simp add: wp_def sw_get_def exec_st_def result_st_def)

lemma wp_sw_put:
  "sw_table s = Some t \<Longrightarrow> i < length t \<Longrightarrow> Q () (s\<lparr>sw_table := Some (t[i := b])\<rparr>) \<Longrightarrow>
   wp (sw_put i b) Q s"
  by (simp add: wp_def sw_put_def exec_st_def result_st_def)

lemma wf_table: "wf e s \<Longrightarrow> table_ok (sw_table s) (sw_count s)"
  by (simp add: wf_def)

lemma wf_sw_table:
  "wf e s \<Longrightarrow> sw_table s \<noteq> None \<Longrightarrow> table_ok (Some t) (sw_count s) \<Longrightarrow>
   wf e (s\<lparr>sw_table := Some t\<rparr>)"
  by (auto simp: wf_def storage_ready_def idle_def)

lemma wf_sw_count:
  "wf e s \<Longrightarrow> storage_ready e s \<or> n = 0 \<Longrightarrow> table_ok (sw_table s) n \<Longrightarrow> wf e (s\<lparr>sw_count := n\<rparr>)"
  by (auto simp: wf_def storage_ready_def idle_def)

lemma table_ok_mono: "table_ok t n \<Longrightarrow> m \<le> n \<Longrightarrow> table_ok t m"
  using set_take_subset_set_take [of m n] by (fastforce simp: table_ok_def split: option.splits)

lemma table_of_wf:
  assumes "wf e s" and i: "i < sw_count s"
  obtains t where "sw_table s = Some t" "length t = 32" "i < length t" "entry_ok (t ! i)"
    "length (sb_original (t ! i)) = 4"
proof -
  obtain t where t: "sw_table s = Some t" "length t = 32" "sw_count s \<le> 32"
    "\<forall>b \<in> set t. length (sb_original b) = 4" "\<forall>b \<in> set (take (sw_count s) t). entry_ok b"
    using wf_table [OF assms(1)] i by (auto simp: table_ok_def split: option.splits)
  moreover have "t ! i \<in> set (take (sw_count s) t)"
    using i t by (auto simp: in_set_conv_nth intro!: exI [of _ i])
  ultimately show ?thesis using that [of t] i by simp
qed

lemma table_ok_update:
  assumes "table_ok (Some t) n" "length (sb_original b) = 4" "i < n \<Longrightarrow> entry_ok b"
  shows "table_ok (Some (t[i := b])) n"
proof -
  have "set (take n (t[i := b])) \<subseteq> (if i < n then insert b (set (take n t)) else set (take n t))"
    by (auto simp: take_update_swap list_update_beyond
        dest: subsetD [OF set_update_subset_insert])
  then have "\<forall>x \<in> set (take n (t[i := b])). entry_ok x"
    using assms by (cases "i < n") (auto simp: table_ok_def)
  moreover have "\<forall>x \<in> set (t[i := b]). length (sb_original x) = 4"
    using assms by (auto simp: table_ok_def dest: subsetD [OF set_update_subset_insert])
  ultimately show ?thesis using assms by (auto simp: table_ok_def)
qed

lemma wf_sw_put:
  assumes wf: "wf e s" and t: "sw_table s = Some t"
    and b: "length (sb_original b) = 4" "i < sw_count s \<Longrightarrow> entry_ok b"
  shows "wf e (s\<lparr>sw_table := Some (t[i := b])\<rparr>)"
  using wf_table [OF wf] t by (intro wf_sw_table [OF wf] table_ok_update b) simp_all

lemma wp_sw_bp_install_one:
  assumes wf: "wf e s" and i: "i < sw_count s"
    and Q: "\<And>ok s'. wf e s' \<Longrightarrow> kept s s' \<Longrightarrow> sw_count s' = sw_count s \<Longrightarrow> Q ok s'"
  shows "wp (sw_bp_install_one e i) Q s"
proof -
  obtain t where t: "sw_table s = Some t" "i < length t" "entry_ok (t ! i)"
    "length (sb_original (t ! i)) = 4"
    by (rule table_of_wf [OF wf i])
  have wf': "wf e (s\<lparr>sw_table := Some (t[i := (t ! i)\<lparr>sb_installed := True\<rparr>])\<rparr>)"
    by (rule wf_sw_put [OF wf t(1)]) (use t in \<open>simp_all add: entry_ok_def\<close>)
  show ?thesis
    unfolding sw_bp_install_one_def
    by (intro wps wp_sw_get [OF t(1,2)] wp_sw_put [OF t(1,2)] wp_calls(4) [OF wf'] Q)
      (assumption, rule kept_trans [OF kept_swI(1)], simp_all add: t views)
qed

lemma wp_sw_bp_restore_one:
  assumes wf: "wf e s" and i: "i < sw_count s"
    and Q: "\<And>ok s'. wf e s' \<Longrightarrow> kept s s' \<Longrightarrow> sw_count s' = sw_count s \<Longrightarrow> Q ok s'"
  shows "wp (sw_bp_restore_one e i) Q s"
proof -
  obtain t where t: "sw_table s = Some t" "i < length t" "entry_ok (t ! i)"
    "length (sb_original (t ! i)) = 4"
    by (rule table_of_wf [OF wf i])
  have size: "unat (sb_instruction_size (t ! i)) \<le> length (sb_original (t ! i))"
    using t by (auto simp: entry_ok_def)
  show ?thesis
    unfolding sw_bp_restore_one_def
    apply (intro wps wp_sw_get [OF t(1,2)])
      apply (rule Q [OF wf kept_refl], simp)
     apply (rule size)
    apply (rule wp_calls(4) [OF wf], intro wps)
     apply (rule wp_sw_put [where t = t])
       apply (simp add: swv_def t)
      apply (rule t)
     apply (intro wps Q)
       apply (erule wf_sw_put)
          apply (use t in \<open>simp_all add: swv_def entry_ok_def\<close>)
     apply (erule kept_trans, rule kept_swI, simp)
    apply (rule Q; simp)
    done
qed


lemma wp_sw_bp_restore_loop:
  assumes "wf e s" "\<forall>i \<in> set xs. i < sw_count s" "remaining + length xs \<le> sw_count s"
    and "\<And>n ok s'. wf e s' \<Longrightarrow> kept s s' \<Longrightarrow> sw_count s' = sw_count s \<Longrightarrow>
      remaining \<le> n \<Longrightarrow> n \<le> remaining + length xs \<Longrightarrow>
      (ok \<Longrightarrow> all_restored \<and> n = remaining) \<Longrightarrow> Q (n, ok) s'"
  shows "wp (sw_bp_restore_loop e xs remaining all_restored) Q s"
  using assms
proof (induction xs arbitrary: remaining all_restored s)
  case Nil
  then show ?case by (auto intro!: wps kept_refl)
next
  case (Cons i xs)
  have i: "i < sw_count s" using Cons.prems(2) by simp
  show ?case
    unfolding sw_bp_restore_loop.simps
  proof (intro wps, rule wp_sw_bp_restore_one [OF Cons.prems(1) i], intro wps)
    fix ok s1
    assume s1: "wf e s1" "kept s s1" "sw_count s1 = sw_count s"
    have i1: "i < sw_count s1" and r1: "remaining < sw_count s1"
      using s1 i Cons.prems(3) by simp_all
    note fin = Cons.prems(4)
    {
      assume ok: "\<not> \<not> ok"
      show "wp (sw_bp_restore_loop e xs remaining all_restored) Q s1"
        by (rule Cons.IH [OF s1(1)])
          (use Cons.prems(2,3) s1 in \<open>auto intro!: fin elim: kept_trans\<close>)
    next
      obtain t where t: "sw_table s1 = Some t" "length t = 32" "i < length t" "entry_ok (t ! i)"
        "length (sb_original (t ! i)) = 4"
        by (rule table_of_wf [OF s1(1) i1])
      have r32: "remaining < length t"
        using r1 t wf_table [OF s1(1)] by (simp add: table_ok_def)
      assume moved: "remaining \<noteq> i"
      let ?s2 = "s1\<lparr>sw_table := Some (t[remaining := t ! i])\<rparr>"
      have "wf e ?s2" by (rule wf_sw_put [OF s1(1) t(1)]) (use t in simp_all)
      moreover have "kept s ?s2"
        by (rule kept_trans [OF s1(2)], rule kept_swI) (simp add: t)
      ultimately have "wp (sw_bp_restore_loop e xs (Suc remaining) False) Q ?s2"
        by (intro Cons.IH) (use Cons.prems(2,3) s1 in \<open>auto intro!: fin elim: kept_trans\<close>)
      then show "wp (sw_get i) (\<lambda>entry. wp (sw_put remaining entry)
          (\<lambda>_. wp (sw_bp_restore_loop e xs (Suc remaining) False) Q)) s1"
        by (intro wp_sw_get [OF t(1,3)] wp_sw_put [OF t(1) r32])
    next
      show "wp (sw_bp_restore_loop e xs (Suc remaining) False) Q s1"
        by (rule Cons.IH [OF s1(1)])
          (use Cons.prems(2,3) s1 in \<open>auto intro!: fin elim: kept_trans\<close>)
    }
  qed
qed

lemma wp_sw_bp_restore_all:
  assumes wf: "wf e s"
    and Q: "\<And>ok s'. wf e s' \<Longrightarrow> kept s s' \<Longrightarrow> sw_count s' \<le> sw_count s \<Longrightarrow>
      (ok \<Longrightarrow> sw_count s' = 0) \<Longrightarrow> Q ok s'"
  shows "wp (sw_bp_restore_all e) Q s"
  unfolding sw_bp_restore_all_def
proof (intro wps, rule wp_sw_bp_restore_loop [OF wf])
  fix n ok s'
  assume s': "wf e s'" "kept s s'" "sw_count s' = sw_count s"
    and n: "n \<le> 0 + length [0..<sw_count s]" "ok \<Longrightarrow> True \<and> n = 0"
  have t: "table_ok (sw_table s') (sw_count s')" by (rule wf_table [OF s'(1)])
  then have "table_ok (sw_table s') n"
    by (rule table_ok_mono) (use n s' in simp)
  moreover have "storage_ready e s' \<or> n = 0"
    using s' n by (auto simp: wf_def idle_def)
  ultimately have "wf e (s'\<lparr>sw_count := n\<rparr>)"
    by (intro wf_sw_count [OF s'(1)])
  then show "wp (case (n, ok) of (remaining, all_restored) \<Rightarrow>
      modify (\<lambda>s. s\<lparr>sw_count := remaining\<rparr>) \<bind> (\<lambda>_. return all_restored)) Q s'"
    using n s' by (auto intro!: wps Q kept_trans [OF s'(2)] kept_swI)
qed simp_all


definition be_ok :: "bp_entry \<Rightarrow> bool" where
  "be_ok entry \<longleftrightarrow> be_instruction_size entry \<in> {2, 4} \<and>
     be_address entry \<le> u64_max - ucast (be_instruction_size entry)"

lemma storage_ready_kept: "kept s s' \<Longrightarrow> wf e s' \<Longrightarrow> storage_ready e s \<Longrightarrow> storage_ready e s'"
  by (auto simp: kept_def quiet_def ext_def wf_def storage_ready_def)

lemma wp_restore_then:
  "wf e s \<Longrightarrow> (\<And>s'. wf e s' \<Longrightarrow> kept s s' \<Longrightarrow> Q st s') \<Longrightarrow>
   wp (sw_bp_restore_all e \<bind> (\<lambda>_. return st)) Q s"
  by (intro wps, erule wp_sw_bp_restore_all) (auto intro!: wps)

lemma wp_sw_bp_remember:
  assumes "wf e s" "storage_ready e s" "\<forall>b \<in> set entries. be_ok b"
    and "\<And>st s'. wf e s' \<Longrightarrow> kept s s' \<Longrightarrow> Q st s'"
  shows "wp (sw_bp_remember e entries) Q s"
  using assms
proof (induction entries arbitrary: s)
  case Nil
  then show ?case by (auto intro!: wps kept_refl)
next
  case (Cons b entries)
  note wf = Cons.prems(1) and fin = Cons.prems(4)
  obtain t where t: "sw_table s = Some t" "length t = 32" "sw_count s \<le> 32"
    "\<forall>b \<in> set t. length (sb_original b) = 4"
    using wf_table [OF wf] Cons.prems(2) by (auto simp: storage_ready_def table_ok_def)
  have size: "unat (be_instruction_size b) \<le> 4" "be_ok b"
    using Cons.prems(3) by (auto simp: be_ok_def)
  let ?slot = "\<lparr>sb_id = be_breakpoint_id b, sb_address = be_address b,
     sb_instruction_size = be_instruction_size b, sb_installed = False,
     sb_original = sb_original (t ! sw_count s)\<rparr>"
  have steps: "wp (sw_bp_remember e entries) Q s3"
    if "wf e s2" "kept s s2" "sw_table s2 = Some tt" "sw_count s2 < 32" "length (sb_original nb) = 4"
      "entry_ok nb" "s3 = s2\<lparr>sw_table := Some (tt[sw_count s2 := nb]), sw_count := Suc (sw_count s2)\<rparr>"
    for s2 s3 tt nb
  proof (rule Cons.IH)
    have r2: "storage_ready e s2" by (rule storage_ready_kept [OF that(2,1) Cons.prems(2)])
    have "table_ok (Some (tt[sw_count s2 := nb])) (sw_count s2)"
      using wf_table [OF that(1)] that by (intro table_ok_update) simp_all
    then have "table_ok (Some (tt[sw_count s2 := nb])) (Suc (sw_count s2))"
      using that by (auto simp: table_ok_def take_Suc_conv_app_nth)
    then show wf3: "wf e s3"
      using that r2
      by (auto intro!: wf_sw_count wf_sw_table elim: table_ok_mono simp: storage_ready_def)
    have k3: "kept s s3"
      unfolding that(7)
      by (rule kept_trans [OF that(2) kept_trans [OF kept_swI(1) kept_swI(2)]]) (simp add: that(3))
    show "storage_ready e s3" by (rule storage_ready_kept [OF k3 wf3 Cons.prems(2)])
    show "\<forall>b \<in> set entries. be_ok b" using Cons.prems(3) by simp
    show "Q st s'" if "wf e s'" "kept s3 s'" for st s'
      by (rule fin [OF that(1) kept_trans [OF k3 that(2)]])
  qed
  show ?case
    unfolding sw_bp_remember.simps
    apply (intro wps)
      apply (rule wp_sw_bp_restore_all [OF wf], intro wps, rule fin; assumption)
     apply (rule wfD [OF wf])
     apply (rule wp_sw_bp_restore_all [OF wf], intro wps, rule fin; assumption)
    apply (rule wp_sw_get [OF t(1)], use t in simp)
    apply (intro wps)
    apply (rule wp_sw_put [OF t(1)], use t in simp)
    apply (intro wps, use size in simp)
    apply (rule wp_calls(13))
     apply (rule wf_sw_put [OF wf t(1)])
      apply (use t in simp)
     apply simp
    subgoal premises p for slot a s2
    proof -
      have n: "sw_count s < length t" "sw_count s < 32" using t p by auto
      have s2: "sw_table s2 = Some (t[sw_count s := slot])" "sw_count s2 = sw_count s" "wf e s2"
        using p by (simp_all add: swv_def)
      have k2: "kept s s2"
        by (rule kept_trans [OF kept_swI(1)]) (use p t in auto)
      have lens: "length (splice 0 (take (unat (be_instruction_size b)) bs) [0, 0, 0, 0]) = 4"
        for bs :: bytes using size by (intro length_splice [THEN trans]) simp_all
      show ?thesis
        apply (intro wps)
          apply (rule wp_sw_bp_restore_all [OF s2(3)], intro wps fin, assumption)
          apply (erule kept_trans [OF k2])
         apply (rule wp_sw_bp_restore_all [OF s2(3)], intro wps fin, assumption)
         apply (erule kept_trans [OF k2])
        apply (rule wp_sw_put [OF s2(1)], use n in simp)
        apply (intro wps)
        subgoal for r bs original
          by (rule steps [OF s2(3) k2 s2(1), where nb = "slot\<lparr>sb_original := original\<rparr>"])
            (use s2 n lens size p in \<open>simp_all add: entry_ok_def be_ok_def\<close>)
        done
    qed
    done
qed

lemma wp_sw_bp_patch:
  assumes "wf e s" "\<forall>i \<in> set xs. i < sw_count s"
    and "\<And>st s'. wf e s' \<Longrightarrow> kept s s' \<Longrightarrow> Q st s'"
  shows "wp (sw_bp_patch e xs) Q s"
  using assms
proof (induction xs arbitrary: s)
  case Nil
  then show ?case by (auto intro!: wps kept_refl)
next
  case (Cons i xs)
  show ?case
    unfolding sw_bp_patch.simps
    apply (intro wps, rule wp_sw_bp_install_one [OF Cons.prems(1)], use Cons.prems in simp)
    apply (intro wps)
     apply (erule wp_sw_bp_restore_all, intro wps Cons.prems(3), assumption)
     apply (erule (1) kept_trans)
    apply (erule Cons.IH, use Cons.prems(2) in simp)
    apply (rule Cons.prems(3), assumption, erule (1) kept_trans)
    done
qed

lemma wp_sw_bp_apply:
  assumes wf: "wf e s" "storage_ready e s" "\<forall>b \<in> set entries. be_ok b"
    and Q: "\<And>st s'. wf e s' \<Longrightarrow> kept s s' \<Longrightarrow> Q st s'"
  shows "wp (sw_bp_apply e entries) Q s"
  unfolding sw_bp_apply_def
  apply (intro wps, rule wp_sw_bp_restore_all [OF wf(1)], intro wps)
   apply (erule (1) Q)
  subgoal for ok s1
    apply (rule wp_sw_bp_remember, assumption, erule (1) storage_ready_kept [OF _ _ wf(2)], rule wf)
    apply (intro wps)
     apply (rule Q, assumption, erule (1) kept_trans)
    apply (rule wp_sw_bp_patch, assumption, simp)
    apply (rule Q, assumption, erule kept_trans, erule (1) kept_trans)
    done
  done

section \<open>Run configuration\<close>

lemma wf_clear_run: "wf e s \<Longrightarrow> wf e (s\<lparr>running_action := a, run_to_active := b,
    active_run_to_address := c, hw_count := 0\<rparr>)"
  by (auto simp: wf_def storage_ready_def idle_def)

text \<open>\<open>unrun s s'\<close>: the run configuration and the table may differ, nothing was sent.\<close>

definition unrun :: "'w session \<Rightarrow> 'w session \<Rightarrow> bool" where
  "unrun s s' \<longleftrightarrow> quiet s s' \<and> cfg s' = cfg s \<and> stepv s' = stepv s \<and> stopv s' = stopv s \<and>
     state s' = state s"

lemma kept_unrun: "kept s s' \<Longrightarrow> unrun s s'"
  by (simp add: kept_def unrun_def)

lemma unrun_trans: "unrun s s1 \<Longrightarrow> unrun s1 s2 \<Longrightarrow> unrun s s2"
  by (auto simp: unrun_def elim: quiet_trans)

lemma unrun_clear: "unrun s (s\<lparr>running_action := a, run_to_active := b,
    active_run_to_address := c, hw_count := d\<rparr>)"
  by (auto simp: unrun_def quiet_def ext_def views intro!: exI [of _ "[]"])

lemma wp_rollback_run_config:
  assumes wf: "wf e s"
    and Q: "\<And>ok s'. wf e s' \<Longrightarrow> unrun s s' \<Longrightarrow> (ok \<Longrightarrow> sw_count s' = 0) \<Longrightarrow> hw_count s' = 0 \<Longrightarrow> Q ok s'"
  shows "wp (rollback_run_config e) Q s"
  unfolding rollback_run_config_def clear_run_tracking_def
  apply (intro wps, rule wp_sw_bp_restore_all [OF wf], intro wps)
  apply (rule wp_calls(5), assumption, intro wps)
  apply (rule wp_calls(6), assumption, intro wps)
  apply (rule wp_calls(7), assumption, intro wps)
  apply (rule Q)
     apply (erule wf_clear_run)
    apply (rule unrun_trans [OF _ unrun_clear], rule kept_unrun)
    apply (erule kept_trans, erule kept_trans, erule (1) kept_trans)
   apply (simp_all add: swv_def)
  done

end
