(* ===== verification/Session_Stop_Safe.thy ===== *)
theory Session_Stop_Safe
  imports Session_Safe
begin

text \<open>Backward rules of the stop pipeline and of the step over a software breakpoint.\<close>

section \<open>Register blobs\<close>

lemma walk_entries_bound:
  "(off, entry) \<in> set (walk_entries bs sz k) \<Longrightarrow> off + 4 + unat (rv_value_size entry) \<le> sz"
proof (induction bs sz k rule: walk_entries.induct)
  case (1 bs sz k)
  from "1.prems" "1.IH" show ?case
    by (subst (asm) walk_entries.simps [of bs sz k]) (auto simp: Let_def split: if_splits)
qed

lemma find_Some_in: "List.find P xs = Some x \<Longrightarrow> x \<in> set xs \<and> P x"
  by (auto simp: find_Some_iff)

lemma length_normalize_pc [simp]:
  assumes "sz \<le> length data"
  shows "length (normalize_pc_in_register_blob p a data sz) = length data"
proof -
  have "off + 8 \<le> length data"
    if "List.find (\<lambda>(_, entry). is_pc_entry entry) (walk_entries data sz 0) = Some (off, entry)"
    for off entry
    using find_Some_in [OF that] walk_entries_bound [of off entry data sz 0] assms
    by (auto simp: is_pc_entry_def)
  then show ?thesis
    by (auto simp: normalize_pc_in_register_blob_def split: option.splits)
qed

section \<open>The snapshot\<close>

text \<open>\<open>snapped s s'\<close>: only the snapshot buffer and its stack extent differ.\<close>

definition snapped :: "'w session \<Rightarrow> 'w session \<Rightarrow> bool" where
  "snapped s s' \<longleftrightarrow> quiet s s' \<and> cfg s' = cfg s \<and> runv s' = runv s \<and> stepv s' = stepv s \<and>
     swv s' = swv s \<and> state s' = state s \<and> stop_id s' = stop_id s \<and>
     stop_reported s' = stop_reported s \<and> pending_reason s' = pending_reason s"

lemma snapped_refl: "snapped s s"
  by (simp add: snapped_def quiet_refl)

lemma snapped_trans: "snapped s s1 \<Longrightarrow> snapped s1 s2 \<Longrightarrow> snapped s s2"
  by (auto simp: snapped_def elim: quiet_trans)

lemma kept_snapped: "kept s s' \<Longrightarrow> swv s' = swv s \<Longrightarrow> snapped s s'"
  by (simp add: snapped_def kept_def stopv_def)

lemma snapped_pending:
  "snapped s (s\<lparr>pending_registers := b\<rparr>)" "snapped s (s\<lparr>pending_registers_size := n\<rparr>)"
  "snapped s (s\<lparr>pending_stack_address := a, pending_stack_size := n\<rparr>)"
  by (auto simp: snapped_def quiet_def ext_def views intro!: exI [of _ "[]"])

lemma wf_pending_buffer: "wf e s \<Longrightarrow> pending_registers s \<noteq> None \<Longrightarrow> length b = 8192 \<Longrightarrow>
    wf e (s\<lparr>pending_registers := Some b\<rparr>)"
  by (auto simp: wf_def storage_ready_def idle_def)

lemma wf_pending_sizes: "wf e s \<Longrightarrow> storage_ready e s \<Longrightarrow>
    n + pending_stack_size s \<le> SNAPSHOT_BLOB_CAPACITY \<Longrightarrow> wf e (s\<lparr>pending_registers_size := n\<rparr>)"
  "wf e s \<Longrightarrow> storage_ready e s \<Longrightarrow> pending_registers_size s + n \<le> SNAPSHOT_BLOB_CAPACITY \<Longrightarrow>
    wf e (s\<lparr>pending_stack_address := a, pending_stack_size := n\<rparr>)"
  by (auto simp: wf_def storage_ready_def)

lemma pending_kept: "kept s s' \<Longrightarrow> pending_registers s' = pending_registers s \<and>
    pending_registers_size s' = pending_registers_size s \<and>
    pending_stack_size s' = pending_stack_size s"
  by (simp add: kept_def stopv_def)

lemma wp_capture_stack_snapshot:
  assumes wf: "wf e s" and ready: "storage_ready e s" and no_stack: "pending_stack_size s = 0"
    and Q: "\<And>s'. wf e s' \<Longrightarrow> snapped s s' \<Longrightarrow> Q () s'"
  shows "wp (capture_stack_snapshot e) Q s"
proof -
  obtain pend where pend: "pending_registers s = Some pend" and len: "length pend = 8192"
    using ready wf by (auto simp: storage_ready_def wf_def)
  have size: "pending_registers_size s \<le> SNAPSHOT_BLOB_CAPACITY" using wf by (simp add: wf_def)
  have fin: "wp (poke_pending (pending_registers_size s) (take n bs) \<bind> (\<lambda>_.
      if r \<noteq> ESP_OK then return ()
      else modify (\<lambda>s. s\<lparr>pending_stack_address := a, pending_stack_size := n\<rparr>))) Q s1"
    if s1: "wf e s1" "kept s s1" "swv s1 = swv s"
      and n: "n \<le> SNAPSHOT_BLOB_CAPACITY - pending_registers_size s" for s1 n bs r a
  proof -
    let ?p = "splice (pending_registers_size s) (take n bs) pend"
    have p1: "pending_registers s1 = Some pend" "pending_registers_size s1 = pending_registers_size s"
      "pending_stack_size s1 = 0" "storage_ready e s1"
      using pending_kept [OF s1(2)] pend no_stack storage_ready_kept [OF s1(2,1) ready] by simp_all
    have lp: "length ?p = 8192" using len n size by (intro length_splice [THEN trans]) simp_all
    have wf2: "wf e (s1\<lparr>pending_registers := Some ?p\<rparr>)"
      by (rule wf_pending_buffer [OF s1(1)]) (use p1 lp in simp_all)
    have sn: "snapped s (s1\<lparr>pending_registers := Some ?p\<rparr>)"
      by (rule snapped_trans [OF kept_snapped [OF s1(2,3)] snapped_pending(1)])
    show ?thesis
      apply (intro wps wp_poke_pending [OF p1(1)])
        apply (use len n size in simp)
       apply (rule Q [OF wf2 sn])
      apply (rule Q)
       apply (rule wf_pending_sizes(2) [OF wf2])
        apply (use p1 n size in \<open>simp_all add: storage_ready_def\<close>)
      apply (rule snapped_trans [OF sn snapped_pending(3)])
      done
  qed
  show ?thesis
    unfolding capture_stack_snapshot_def
    apply (intro wps wp_peek_pending [OF pend])
         apply (use len size in simp)
        apply (rule Q [OF wf snapped_refl])
       apply (rule wfD [OF wf])
      apply (rule Q [OF wf snapped_refl])+
     apply (rule size)
    apply (rule wp_calls(13) [OF wf])
    apply (intro wps)
    apply (rule fin [THEN wp_bindD]; simp)
    done
qed

lemma wp_capture_snapshot:
  assumes wf: "wf e s" and ready: "storage_ready e s" and no_stack: "pending_stack_size s = 0"
    and Q: "\<And>s'. wf e s' \<Longrightarrow> snapped s s' \<Longrightarrow> Q () s'"
  shows "wp (capture_snapshot e) Q s"
proof -
  obtain pend where pend: "pending_registers s = Some pend" and len: "length pend = 8192"
    using ready wf by (auto simp: storage_ready_def wf_def)
  have fin: "wp (poke_pending 0 (take SNAPSHOT_BLOB_CAPACITY bs) \<bind> (\<lambda>_.
      if r = ESP_OK \<and> out_size \<le> SNAPSHOT_BLOB_CAPACITY then do {
         modify (\<lambda>s. s\<lparr>pending_registers_size := out_size\<rparr>);
         blob \<leftarrow> peek_pending 0 out_size;
         poke_pending 0 (normalize_pc_in_register_blob p a blob out_size);
         capture_stack_snapshot e
       }
       else return ())) Q s1"
    if s1: "wf e s1" "kept s s1" "swv s1 = swv s" for s1 bs r p a and out_size :: nat
  proof -
    let ?p = "splice 0 (take SNAPSHOT_BLOB_CAPACITY bs) pend"
    have p1: "pending_registers s1 = Some pend" "pending_stack_size s1 = 0" "storage_ready e s1"
      using pending_kept [OF s1(2)] pend no_stack storage_ready_kept [OF s1(2,1) ready] by simp_all
    have lp: "length ?p = 8192" using len by (intro length_splice [THEN trans]) simp_all
    have wf2: "wf e (s1\<lparr>pending_registers := Some ?p\<rparr>)"
      by (rule wf_pending_buffer [OF s1(1)]) (use p1 lp in simp_all)
    have sn: "snapped s (s1\<lparr>pending_registers := Some ?p\<rparr>)"
      by (rule snapped_trans [OF kept_snapped [OF s1(2,3)] snapped_pending(1)])
    let ?s3 = "s1\<lparr>pending_registers := Some ?p, pending_registers_size := out_size\<rparr>"
    have wf3: "wf e ?s3" "snapped s ?s3" if "out_size \<le> SNAPSHOT_BLOB_CAPACITY"
      using that p1 by (auto intro!: wf_pending_sizes(1) [OF wf2] snapped_trans [OF sn snapped_pending(2)]
          simp: storage_ready_def)
    have fin3: "wp (capture_stack_snapshot e) Q (?s3\<lparr>pending_registers := Some q\<rparr>)"
      if "out_size \<le> SNAPSHOT_BLOB_CAPACITY" "length q = 8192" for q
      apply (rule wp_capture_stack_snapshot)
         apply (rule wf_pending_buffer [OF wf3(1) [OF that(1)]])
          apply (use that p1 in \<open>simp_all add: storage_ready_def\<close>)
      apply (rule Q, assumption)
      apply (rule snapped_trans [OF snapped_trans [OF wf3(2) [OF that(1)] snapped_pending(1)]])
      apply simp
      done
    show ?thesis
      apply (intro wps wp_poke_pending [OF p1(1)])
        apply (use len in simp)
       apply (intro wps wp_peek_pending [where buf = ?p])
         apply simp
        apply (use lp in simp)
       apply (intro wps wp_poke_pending [where buf = ?p])
         apply simp
        apply (use lp in simp)
       apply (rule fin3, simp)
       apply (use lp in simp)
      apply (rule Q [OF wf2 sn])
      done
  qed
  show ?thesis
    unfolding capture_snapshot_def
    apply (intro wps)
     apply (rule Q [OF wf snapped_refl])
    apply (rule wp_calls(12) [OF wf])
    apply (intro wps)
    apply (rule fin [THEN wp_bindD]; assumption)
    done
qed

section \<open>Entering HALTED\<close>

lemma wp_enter_lost_into:
  assumes wf: "wf e (s\<lparr>state := TARGET_LOST\<rparr>)" and "state s \<noteq> TARGET_LOST"
    and live: "scratch s \<noteq> None"
    and Q: "\<And>s' tr. \<lbrakk>wf e s'; ext s s' tr; same s s'; state s' = TARGET_LOST;
        outs tr = (if transport_dead s then []
          else [TargetLost (target_lost_reason_code reason)])\<rbrakk> \<Longrightarrow> Q () s'"
  shows "wp (enter_lost e reason) Q s"
  unfolding enter_lost_def
  apply (intro wps)
   apply (use assms(2) in simp)
  apply (rule wp_send_target_lost [OF wf], intro wps, rule Q, assumption)
     apply (use live in \<open>auto simp: replies_def ext_def same_def views split: if_splits\<close>)
  done

lemma wf_stop_fields:
  assumes "wf e s" "attached s" "stop_id s \<noteq> 0"
  shows "wf e (s\<lparr>state := TARGET_HALTED, stop_reported := False, pending_reason := r,
     pending_detail := d, pending_breakpoint_id := b, pending_watchpoint_address := w,
     pending_registers_size := 0, pending_stack_size := 0, pending_stack_address := 0,
     running_action := RUN_CONTINUE, run_to_active := False, active_run_to_address := 0\<rparr>)"
  using assms by (auto simp: wf_def storage_ready_def idle_def)

lemma wf_step_fields: "wf e s \<Longrightarrow> wf e (s\<lparr>sw_step_over_pending := p, sw_step_over_address := a\<rparr>)"
  by (auto simp: wf_def storage_ready_def idle_def)

lemma wf_stop_id: "wf e s \<Longrightarrow> state s \<noteq> TARGET_HALTED \<or> i \<noteq> 0 \<Longrightarrow> wf e (s\<lparr>stop_id := i\<rparr>)"
  by (auto simp: wf_def storage_ready_def idle_def)

definition halting :: "'w session \<Rightarrow> 'w session \<Rightarrow> bool" where
  "halting s s' \<longleftrightarrow> cfg s' = cfg s \<and> swv s' = swv s \<and> hw_count s' = hw_count s"

lemma wp_enter_halted:
  assumes wf: "wf e s" and att: "attached s"
    and lost: "state s = TARGET_LOST \<Longrightarrow> Q () s"
    and wrap: "\<And>s' tr. \<lbrakk>state s \<noteq> TARGET_LOST; stop_id s = - 1; wf e s'; ext s s' tr; halting s s';
        state s' = TARGET_LOST; stop_id s' = 0;
        outs tr = (if transport_dead s then [] else [TargetLost 4])\<rbrakk> \<Longrightarrow> Q () s'"
    and halt: "\<And>s'. \<lbrakk>state s \<noteq> TARGET_LOST; stop_id s \<noteq> - 1; wf e s'; quiet s s'; halting s s';
        state s' = TARGET_HALTED; stop_id s' = stop_id s + 1; \<not> stop_reported s'\<rbrakk> \<Longrightarrow> Q () s'"
  shows "wp (enter_halted e stop) Q s"
proof -
  have readable: "sw_readable s \<and> hw_count s \<le> length (hw_breakpoint_ids s)"
    using wfD(3) [OF wf] wf by (simp add: wf_def)
  obtain reason bp wa step where cl: "classify_stop s stop = (reason, bp, wa, step)"
    by (cases "classify_stop s stop")
  define adr where "adr = (case step of None \<Rightarrow> 0 | Some a \<Rightarrow> a)"
  let ?s1 = "s\<lparr>sw_step_over_pending := step \<noteq> None, sw_step_over_address := adr,
    stop_id := stop_id s + 1\<rparr>"
  have live: "scratch ?s1 \<noteq> None" using wf_live [OF wf] att by simp
  have wraps: "wp (enter_lost e TARGET_LOST_TIMEOUT) Q ?s1"
    if "state s \<noteq> TARGET_LOST" "stop_id s + 1 = 0"
  proof (rule wp_enter_lost_into)
    show "wf e (?s1\<lparr>state := TARGET_LOST\<rparr>)"
      using wf att by (auto simp: wf_def storage_ready_def idle_def)
    fix s' tr
    assume s': "wf e s'" "ext ?s1 s' tr" "same ?s1 s'" "state s' = TARGET_LOST"
      "outs tr = (if transport_dead ?s1 then []
          else [TargetLost (target_lost_reason_code TARGET_LOST_TIMEOUT)])"
    show "Q () s'"
      by (rule wrap [where tr = tr, OF that(1) _ s'(1)])
        (use s' that in \<open>simp_all add: ext_def same_def views halting_def eq_neg_iff_add_eq_0\<close>)
  qed (use live that in simp_all)
  have normal: "wp (capture_snapshot e) Q (f ?s1)"
    if st: "state s \<noteq> TARGET_LOST" "stop_id s + 1 \<noteq> 0" and
      f: "f = (\<lambda>s. s\<lparr>state := TARGET_HALTED, stop_reported := False, pending_reason := reason,
           pending_detail := sd_dfsr stop, pending_breakpoint_id := bp,
           pending_watchpoint_address := wa, pending_registers_size := 0,
           pending_stack_size := 0, pending_stack_address := 0, running_action := RUN_CONTINUE,
           run_to_active := False, active_run_to_address := 0\<rparr>)" for f
  proof -
    have wf1: "wf e (f ?s1)"
      unfolding f by (rule wf_stop_fields)
        (use st att in \<open>simp_all add: wf_stop_id [OF wf_step_fields [OF wf]]\<close>)
    show ?thesis
    proof (rule wp_capture_snapshot [OF wf1])
      show "storage_ready e (f ?s1)" using wf_attached [OF wf att] by (simp add: f storage_ready_def)
      show "pending_stack_size (f ?s1) = 0" by (simp add: f)
      fix s' assume s': "wf e s'" "snapped (f ?s1) s'"
      show "Q () s'"
        by (rule halt [OF st(1) _ s'(1)])
          (use s'(2) st in \<open>auto simp: f snapped_def quiet_def ext_def views halting_def\<close>)
    qed
  qed
  show ?thesis
    unfolding enter_halted_def
    apply (intro wps)
     apply (erule lost)
    apply (rule readable)
     apply (use wraps cl in \<open>simp add: adr_def\<close>)
    apply (use normal [OF _ _ refl] cl in \<open>simp add: adr_def\<close>)
    done
qed

section \<open>Step over\<close>

text \<open>\<open>moved s s'\<close>: the step-over fields and the table may differ, nothing was sent.\<close>

definition moved :: "'w session \<Rightarrow> 'w session \<Rightarrow> bool" where
  "moved s s' \<longleftrightarrow> quiet s s' \<and> cfg s' = cfg s \<and> runv s' = runv s \<and> stopv s' = stopv s \<and>
     state s' = state s"

lemma moved_refl: "moved s s"
  by (simp add: moved_def quiet_refl)

lemma moved_trans: "moved s s1 \<Longrightarrow> moved s1 s2 \<Longrightarrow> moved s s2"
  by (auto simp: moved_def elim: quiet_trans)

lemma kept_moved: "kept s s' \<Longrightarrow> moved s s'"
  by (simp add: kept_def moved_def)

lemma moved_step: "moved s (s\<lparr>sw_step_over_pending := p, sw_step_over_address := a\<rparr>)"
  by (auto simp: moved_def quiet_def ext_def views intro!: exI [of _ "[]"])

lemma wp_write_current_pc:
  "wf e s \<Longrightarrow> (\<And>ok s'. wf e s' \<Longrightarrow> kept s s' \<Longrightarrow> swv s' = swv s \<Longrightarrow> Q ok s') \<Longrightarrow>
   wp (write_current_pc e pc) Q s"
  unfolding write_current_pc_def by (intro wps, erule wp_calls(3), intro wps)

lemma wp_update_step_over:
  "wf e s \<Longrightarrow> (\<And>s'. wf e s' \<Longrightarrow> moved s s' \<Longrightarrow> Q () s') \<Longrightarrow>
   wp (update_step_over_after_register_write data n) Q s"
  unfolding update_step_over_after_register_write_def
  by (intro wps) (auto intro: moved_refl wf_step_fields moved_step)

lemma wp_poll_step:
  assumes "wf e s" and "\<And>r s'. wf e s' \<Longrightarrow> kept s s' \<Longrightarrow> swv s' = swv s \<Longrightarrow> Q r s'"
  shows "wp (poll_step e fuel stop) Q s"
  using assms
proof (induction fuel arbitrary: s stop)
  case 0
  then show ?case by (auto intro!: wps kept_refl)
next
  case (Suc fuel)
  show ?case
    unfolding poll_step.simps
    apply (intro wps, rule wp_calls(10) [OF Suc.prems(1)], intro wps)
      apply (erule (2) Suc.prems(2))+
    apply (erule Suc.IH)
    apply (rule Suc.prems(2), assumption, erule (1) kept_trans, simp)
    done
qed

lemma find_by_address_less: "sw_bp_find_by_address table a = Some i \<Longrightarrow> i < length table"
  by (auto simp: sw_bp_find_by_address_def dest!: find_Some_in)

lemma length_active_sw: "wf e s \<Longrightarrow> length (active_sw s) = sw_count s"
  using wf_table [of e s] by (auto simp: active_sw_def table_ok_def split: option.splits)

lemma wp_execute_step_over:
  assumes wf: "wf e s"
    and Q: "\<And>r s'. wf e s' \<Longrightarrow> moved s s' \<Longrightarrow> Q r s'"
  shows "wp (execute_step_over e action) Q s"
proof -
  have idx: "i < sw_count s" if "sw_bp_find_by_address (active_sw s) a = Some i" for i a
    using find_by_address_less [OF that] length_active_sw [OF wf] by simp
  have install: "wp (install_at e bp) R s1"
    if "wf e s1" "sw_count s1 = sw_count s"
      "bp = sw_bp_find_by_address (active_sw s) (sw_step_over_address s)"
      "\<And>ok s'. wf e s' \<Longrightarrow> kept s1 s' \<Longrightarrow> R ok s'" for R s1 bp
    using that idx unfolding install_at_def
    by (auto intro!: wps wp_sw_bp_install_one kept_refl split: option.splits)
  have restore: "wp (restore_at e bp) R s"
    if "bp = sw_bp_find_by_address (active_sw s) (sw_step_over_address s)"
      "\<And>ok s'. wf e s' \<Longrightarrow> moved s s' \<Longrightarrow> sw_count s' = sw_count s \<Longrightarrow> R ok s'" for R bp
    using that idx wf unfolding restore_at_def
    by (auto intro!: wps wp_sw_bp_restore_one kept_moved moved_refl split: option.splits)
  have finish: "wp (finish_step_over e action bp polled) Q s1"
    if s1: "wf e s1" "moved s s1" "sw_count s1 = sw_count s"
      "bp = sw_bp_find_by_address (active_sw s) (sw_step_over_address s)" for s1 bp polled
    unfolding finish_step_over_def
    apply (intro wps)
      apply (rule Q [OF s1(1,2)])+
    apply (rule install [OF wf_step_fields [OF s1(1)] _ s1(4)], use s1 in simp)
    apply (intro wps; rule Q, assumption, rule moved_trans [OF s1(2)],
        rule moved_trans [OF moved_step], erule kept_moved)
    done
  note compose = moved_trans [OF _ kept_moved]
  show ?thesis
    unfolding execute_step_over_def
    apply (intro wps)
      apply (rule Q [OF wf moved_refl])
     apply (rule wfD [OF wf])
    apply (rule restore, assumption, intro wps)
      apply (erule (1) Q)
     apply (erule wp_write_current_pc, intro wps)
       apply (rule install, assumption, simp add: swv_def, assumption, intro wps Q, assumption)
       apply (erule compose [OF compose], assumption+)
      apply (rule wp_calls(2), assumption, intro wps)
       apply (rule Q, assumption, erule compose [OF compose], assumption+)
      apply (rule wp_poll_step, assumption)
      apply (rule finish, assumption)
        apply (erule compose [OF compose [OF compose]], assumption+)
      apply (simp add: swv_def, assumption)
    done
qed

end
