(* ===== verification/Session_Serve.thy ===== *)
theory Session_Serve
  imports Session_Stop_Safe
begin

text \<open>
  What a request shows on the wire. \<open>served opc rid s s'\<close>: the operation answered request \<open>rid\<close>
  with one response, before any event it caused, and the stop generations of its STOPPED events
  rise. The rules here establish it for the memory and register requests.
\<close>

section \<open>What a request shows on the wire\<close>

fun stop_of :: "msg \<Rightarrow> nat list" where
  "stop_of (Stopped i) = [unat i]"
| "stop_of _ = []"

definition stops :: "msg list \<Rightarrow> nat list" where
  "stops ms = concat (map stop_of ms)"

lemma stops_simps [simp]:
  "stops [] = []" "stops (m # ms) = stop_of m @ stops ms" "stops (ms @ ms') = stops ms @ stops ms'"
  by (simp_all add: stops_def)

text \<open>The largest stop generation a STOPPED event may already have carried.\<close>

definition mark :: "'w session \<Rightarrow> nat" where
  "mark s = (if state s = TARGET_HALTED \<and> \<not> stop_reported s \<and> \<not> transport_dead s
     then unat (stop_id s) - 1 else unat (stop_id s))"

definition rising :: "'w session \<Rightarrow> 'w session \<Rightarrow> nat list \<Rightarrow> bool" where
  "rising s s' ids \<longleftrightarrow> mark s \<le> mark s' \<and> sorted_wrt (<) (mark s # ids) \<and>
     (\<forall>i \<in> set ids. i \<le> mark s')"

lemma rising_trans: "rising s s1 xs \<Longrightarrow> rising s1 s2 ys \<Longrightarrow> rising s s2 (xs @ ys)"
  by (fastforce simp: rising_def sorted_wrt_append)

lemma rising_after: "mark s \<le> mark s1 \<Longrightarrow> rising s1 s2 ys \<Longrightarrow> rising s s2 ys"
  by (fastforce simp: rising_def)

lemma rising_silent: "mark s \<le> mark s' \<Longrightarrow> rising s s' []"
  by (simp add: rising_def)

definition silent :: "'w session \<Rightarrow> 'w session \<Rightarrow> bool" where
  "silent s s' \<longleftrightarrow> quiet s s' \<and> mark s \<le> mark s'"

definition follows :: "'w session \<Rightarrow> 'w session \<Rightarrow> bool" where
  "follows s s' \<longleftrightarrow> (\<exists>tr. ext s s' tr \<and> list_all is_event (outs tr) \<and> rising s s' (stops (outs tr)))"

definition served :: "u16 \<Rightarrow> u32 \<Rightarrow> 'w session \<Rightarrow> 'w session \<Rightarrow> bool" where
  "served opc rid s s' \<longleftrightarrow> (\<exists>tr. ext s s' tr \<and> (\<not> transport_dead s \<longrightarrow> answered opc rid (outs tr)) \<and>
     rising s s' (stops (outs tr)))"

lemma silent_follows: "silent s s' \<Longrightarrow> follows s s'"
  unfolding silent_def quiet_def follows_def
  by clarify (rule exI, rule conjI, assumption, simp add: rising_silent)

lemma silent_trans: "silent s s1 \<Longrightarrow> silent s1 s2 \<Longrightarrow> silent s s2"
  by (auto simp: silent_def elim: quiet_trans)

lemma follows_trans: "follows s s1 \<Longrightarrow> follows s1 s2 \<Longrightarrow> follows s s2"
  unfolding follows_def by clarify (rule exI, rule conjI, erule (1) ext_trans, auto elim: rising_trans)

lemma served_silent: "silent s s1 \<Longrightarrow> served opc rid s1 s2 \<Longrightarrow> served opc rid s s2"
  unfolding served_def silent_def quiet_def
  by clarify (rule exI, rule conjI, erule (1) ext_trans, auto intro: rising_after)

lemma served_follows: "served opc rid s s1 \<Longrightarrow> follows s1 s2 \<Longrightarrow> served opc rid s s2"
  unfolding served_def follows_def
  by clarify (rule exI, rule conjI, erule (1) ext_trans, auto intro: answered_append elim: rising_trans)

definition calm :: "'w session \<Rightarrow> 'w session \<Rightarrow> bool" where
  "calm s s' \<longleftrightarrow> quiet s s' \<and> cfg s' = cfg s \<and> state s' = state s \<and> stop_id s' = stop_id s \<and>
     stop_reported s' = stop_reported s"

lemma calmI:
  "kept s s' \<Longrightarrow> calm s s'" "unrun s s' \<Longrightarrow> calm s s'" "moved s s' \<Longrightarrow> calm s s'"
  by (auto simp: calm_def kept_def unrun_def moved_def stopv_def)

lemma calm_refl: "calm s s"
  by (simp add: calm_def quiet_refl)

lemma calm_trans: "calm s s1 \<Longrightarrow> calm s1 s2 \<Longrightarrow> calm s s2"
  by (auto simp: calm_def elim: quiet_trans)

lemma calm_silent: "calm s s' \<Longrightarrow> silent s s'"
  by (auto simp: calm_def silent_def mark_def quiet_def)

lemma calmD: "calm s s' \<Longrightarrow> attached s' = attached s \<and> state s' = state s \<and> stop_id s' = stop_id s \<and>
    (scratch s' = None \<longleftrightarrow> scratch s = None) \<and> transport_dead s' = transport_dead s \<and>
    stop_reported s' = stop_reported s"
  by (auto simp: calm_def quiet_def ext_def cfg_def)

text \<open>Rules of the sending operations in these terms.\<close>

lemma serve_respond:
  assumes wf: "wf e s" and live: "scratch s \<noteq> None"
    and Q: "\<And>s'. \<lbrakk>wf e s'; served opc rid s s'; same s s'; state s' = state s;
      scratch s' \<noteq> None; transport_dead s \<longrightarrow> transport_dead s'\<rbrakk> \<Longrightarrow> Q () s'"
  shows "wp (respond e opc rid st) Q s"
  apply (rule wp_respond [OF wf], rule Q, assumption)
      apply (use live in \<open>auto simp: served_def answered_def ext_def same_def stopv_def mark_def
        intro!: exI rising_silent\<close>)
  done


lemma serve_lost:
  assumes wf: "wf e s" and live: "scratch s \<noteq> None"
    and Q: "\<And>s'. \<lbrakk>wf e s'; follows s s'; same s s'; state s' = TARGET_LOST\<rbrakk> \<Longrightarrow> Q () s'"
  shows "wp (enter_lost e reason) Q s"
  apply (rule wp_enter_lost [OF wf live], rule Q, assumption)
    apply (auto simp: follows_def same_def stopv_def mark_def intro!: exI rising_silent)
  done

lemma serve_failure:
  assumes wf: "wf e s" and live: "scratch s \<noteq> None"
    and Q: "\<And>s'. \<lbrakk>wf e s'; served opc rid s s'; same s s';
      state s' = (if r = ESP_FAIL then TARGET_LOST else state s)\<rbrakk> \<Longrightarrow> Q () s'"
  shows "wp (send_backend_failure e opc rid r fallback) Q s"
  unfolding send_backend_failure_def
  apply (intro wps serve_respond [OF wf live])
   apply (erule (1) serve_lost, rule Q, assumption, erule (1) served_follows, erule (1) same_trans, simp)
  apply (rule Q; simp)
  done

lemma serve_emit:
  assumes wf: "wf e s"
    and Q: "\<And>s'. \<lbrakk>wf e s'; follows s s'; same (s\<lparr>stop_reported := stop_reported s'\<rparr>) s';
        state s' = state s\<rbrakk> \<Longrightarrow> Q () s'"
  shows "wp (emit_pending_stopped e) Q s"
proof (rule wp_emit_pending_stopped [OF wf])
  fix s' tr
  assume s': "wf e s'" "ext s s' tr" "same (s\<lparr>stop_reported := stop_reported s'\<rparr>) s'"
    "state s' = state s"
    "outs tr = (if transport_dead s \<or> stop_reported s \<or> state s \<noteq> TARGET_HALTED then []
       else [Stopped (stop_id s)])"
    "stop_reported s' = (if stop_reported s \<or> state s \<noteq> TARGET_HALTED then stop_reported s
       else \<not> transport_dead s')"
  have "stop_id s \<noteq> 0" if "state s = TARGET_HALTED" using wf that by (simp add: wf_def)
  then have "state s = TARGET_HALTED \<Longrightarrow> 0 < unat (stop_id s)"
    by (simp add: unat_gt_0)
  then have "follows s s'"
    using s' by (auto simp: follows_def ext_def same_def stopv_def mark_def rising_def intro!: exI [of _ tr])
  with s' show "Q () s'" by (intro Q)
qed

text \<open>
  \<open>enter_halted\<close> on a session whose generation does not wrap only changes the session; when it
  wraps, the session is lost.
\<close>

lemma serve_halted:
  assumes wf: "wf e s" and att: "attached s" and "state s \<noteq> TARGET_LOST"
    and wrap: "\<And>s'. \<lbrakk>stop_id s = - 1; wf e s'; \<exists>tr. ext s s' tr; cfg s' = cfg s;
        state s' = TARGET_LOST\<rbrakk> \<Longrightarrow> Q () s'"
    and halt: "\<And>s'. \<lbrakk>stop_id s \<noteq> - 1; wf e s'; quiet s s'; cfg s' = cfg s;
        state s' = TARGET_HALTED; stop_id s' = stop_id s + 1; \<not> stop_reported s'\<rbrakk> \<Longrightarrow> Q () s'"
  shows "wp (enter_halted e stop) Q s"
  apply (rule wp_enter_halted [OF wf att])
    apply (use assms(3) in simp)
   apply (rule wrap; auto simp: halting_def)
  apply (rule halt; auto simp: halting_def)
  done

lemma halted_silent:
  assumes "stop_id s \<noteq> - 1" "quiet s s'" "state s' = TARGET_HALTED" "stop_id s' = stop_id s + 1"
  shows "silent s s'"
proof -
  have "unat (stop_id s + 1) = unat (stop_id s) + 1"
    using assms(1) unatSuc [of "stop_id s"] by (simp add: add.commute eq_neg_iff_add_eq_0)
  then show ?thesis using assms by (auto simp: silent_def mark_def)
qed


section \<open>What an operation promises\<close>

definition nowrap :: "'w session \<Rightarrow> bool" where
  "nowrap s \<longleftrightarrow> stop_id s < 0xFFFFFFFE"

definition op_post :: "'w env \<Rightarrow> u16 \<Rightarrow> u32 \<Rightarrow> 'w session \<Rightarrow> 'w session \<Rightarrow> bool" where
  "op_post e opc rid s s' \<longleftrightarrow> wf e s' \<and> (\<exists>tr. ext s s' tr) \<and> (nowrap s \<longrightarrow> served opc rid s s')"

lemma op_postI: "wf e s' \<Longrightarrow> served opc rid s s' \<Longrightarrow> op_post e opc rid s s'"
  by (auto simp: op_post_def served_def)

lemma op_post_silent:
  assumes "silent s s1" "stop_id s1 = stop_id s" "op_post e opc rid s1 s'"
  shows "op_post e opc rid s s'"
proof -
  have "\<exists>tr. ext s s' tr"
    using assms(1,3) unfolding op_post_def silent_def quiet_def by (blast intro: ext_trans)
  then show ?thesis
    using assms served_silent [OF assms(1)] by (auto simp: op_post_def nowrap_def)
qed

lemma op_post_follows: "op_post e opc rid s s1 \<Longrightarrow> follows s1 s2 \<Longrightarrow> wf e s2 \<Longrightarrow> op_post e opc rid s s2"
  unfolding op_post_def
  by (auto intro: served_follows) (auto simp: follows_def intro: ext_trans)

lemma op_post_wrapped: "wf e s' \<Longrightarrow> ext s s' tr \<Longrightarrow> \<not> nowrap s \<Longrightarrow> op_post e opc rid s s'"
  by (auto simp: op_post_def)

lemma wf_world: "wf e s \<Longrightarrow> act_ok a \<Longrightarrow> wf e (s\<lparr>world := w, trace := trace s @ [a]\<rparr>)"
  by (auto simp: wf_def storage_ready_def idle_def)

lemma wf_frame: "wf e s \<Longrightarrow> scratch s = Some buf \<Longrightarrow> length b = 8192 \<Longrightarrow>
    wf e (s\<lparr>scratch := Some b\<rparr>)"
  "wf e s \<Longrightarrow> n \<le> 8192 \<Longrightarrow> wf e (s\<lparr>tx_frame_size := n\<rparr>)"
  by (auto simp: wf_def storage_ready_def idle_def)

lemma silent_frame: "scratch s \<noteq> None \<Longrightarrow> silent s (s\<lparr>tx_frame_size := n, scratch := Some b\<rparr>)"
  by (auto simp: silent_def quiet_def ext_def mark_def intro!: exI [of _ "[]"])

lemma serve_frame:
  assumes wf: "wf e s" and b: "scratch s = Some b" "take 8 b = head_of KIND_RESPONSE opc rid"
    and n: "12 \<le> tx_frame_size s" and typed: "typed_body KIND_RESPONSE opc (drop 12 (take (tx_frame_size s) b))"
    and Q: "\<And>ok s'. \<lbrakk>wf e s'; served opc rid s s'; same s s'; state s' = state s\<rbrakk> \<Longrightarrow> Q ok s'"
  shows "wp (finish_frame e) Q s"
proof -
  have eq: "s\<lparr>tx_frame_size := tx_frame_size s, scratch := Some b\<rparr> = s"
    using b by (cases s) simp
  have m: "msg_of (sealed (tx_frame_size s) b) =
      Response opc rid (le_word (slice 12 4 (sealed (tx_frame_size s) b)))"
    by (simp add: sealed_msg [OF b(2) n])
  have "wp (finish_frame e) Q (s\<lparr>tx_frame_size := tx_frame_size s, scratch := Some b\<rparr>)"
    apply (rule wp_finish [OF wf b(1) wf_scratch [OF wf b(1)] b(2) _ n _ typed])
      apply simp
     apply (use wf in \<open>simp add: wf_def\<close>)
    apply (rule Q, assumption)
      apply (use b m in \<open>auto simp: served_def answered_def ext_def same_def views mark_def
        intro!: rising_silent split: if_splits\<close>)
    done
  then show ?thesis by (simp only: eq)
qed

section \<open>A response under assembly\<close>

text \<open>
  \<open>asm e opc rid s m t b\<close>: since \<open>s\<close> only the frame buffer and the environment changed, and \<open>b\<close>
  holds the header of a response frame of \<open>m\<close> bytes.
\<close>

definition asm ::
  "'w env \<Rightarrow> u16 \<Rightarrow> u32 \<Rightarrow> 'w session \<Rightarrow> nat \<Rightarrow> 'w session \<Rightarrow> bytes \<Rightarrow> bool" where
  "asm e opc rid s m t b \<longleftrightarrow> wf e t \<and> silent s t \<and> same s t \<and> state t = state s \<and>
     scratch t = Some b \<and> length b = 8192 \<and> tx_frame_size t = m \<and> 12 \<le> m \<and>
     take 8 b = head_of KIND_RESPONSE opc rid"

lemma asm_stop_id: "asm e opc rid s m t b \<Longrightarrow> stop_id t = stop_id s"
  by (simp add: asm_def same_def stopv_def)

lemma asm_silent: "asm e opc rid s m t b \<Longrightarrow> silent s t"
  by (simp add: asm_def)

lemma asm_begin:
  assumes wf: "wf e s" and live: "scratch s \<noteq> None" and n: "n \<le> FRAME_PAYLOAD_MAX"
    and Q: "\<And>t b. asm e opc rid s (12 + n) t b \<Longrightarrow> Q True t"
  shows "wp (begin_frame KIND_RESPONSE opc rid n) Q s"
proof -
  obtain buf where buf: "scratch s = Some buf" "length buf = 8192"
    using live wf wf_scratch by blast
  show ?thesis
    by (rule wp_begin_some [OF buf n], rule Q)
      (use buf n wf in \<open>auto simp: asm_def silent_def quiet_def ext_def mark_def same_def views
        intro!: wf_frame(1) [OF wf_frame(2)] exI [of _ "[]"]\<close>)
qed

lemma asm_poke:
  assumes t: "asm e opc rid s m t b" and bs: "8 \<le> off" "off + length bs \<le> 8192"
    and Q: "\<And>t'. asm e opc rid s m t' (splice off bs b) \<Longrightarrow> Q () t'"
  shows "wp (poke_scratch off bs) Q t"
proof -
  have b: "scratch t = Some b" "length b = 8192" using t by (simp_all add: asm_def)
  have "silent t (t\<lparr>scratch := Some (splice off bs b)\<rparr>)"
    using b by (auto simp: silent_def quiet_def ext_def mark_def intro!: exI [of _ "[]"])
  then have "asm e opc rid s m (t\<lparr>scratch := Some (splice off bs b)\<rparr>) (splice off bs b)"
    using t b bs by (auto simp: asm_def same_def views take_splice_after intro!: wf_frame
        elim: silent_trans)
  then show ?thesis
    by (intro wp_poke_scratch [OF b(1)] Q) (use b bs in simp_all)
qed

lemma asm_peek:
  "asm e opc rid s m t b \<Longrightarrow> off + n \<le> 8192 \<Longrightarrow> Q (slice off n b) t \<Longrightarrow> wp (peek_scratch off n) Q t"
  by (rule wp_peek_scratch) (simp_all add: asm_def)

lemma asm_call:
  assumes t: "asm e opc rid s m t b" and g: "\<And>a. out_of (g a) = []" "\<And>a. act_ok (g a)"
    and Q: "\<And>a t'. asm e opc rid s m t' b \<Longrightarrow> Q a t'"
  shows "wp (call f g) Q t"
proof (rule wp_call)
  fix a w
  have "silent t (t\<lparr>world := w, trace := trace t @ [g a]\<rparr>)"
    using g by (auto simp: silent_def quiet_def ext_def mark_def intro!: exI [of _ "[g a]"])
  then show "Q a (t\<lparr>world := w, trace := trace t @ [g a]\<rparr>)"
    using t g by (intro Q) (auto simp: asm_def same_def views intro: wf_world silent_trans)
qed

lemma asm_size:
  assumes t: "asm e opc rid s m t b" and n: "12 \<le> n" "n \<le> 8192"
    and Q: "\<And>t'. asm e opc rid s n t' b \<Longrightarrow> Q () t'"
  shows "wp (modify (\<lambda>s. s\<lparr>tx_frame_size := n\<rparr>)) Q t"
proof (intro wps Q)
  have "silent t (t\<lparr>tx_frame_size := n\<rparr>)"
    by (auto simp: silent_def quiet_def ext_def mark_def intro!: exI [of _ "[]"])
  then show "asm e opc rid s n (t\<lparr>tx_frame_size := n\<rparr>) b"
    using t n by (auto simp: asm_def same_def views intro: wf_frame(2) silent_trans)
qed

lemma asm_finish:
  assumes t: "asm e opc rid s m t b" and typed: "typed_body KIND_RESPONSE opc (drop 12 (take m b))"
    and Q: "\<And>ok s'. \<lbrakk>op_post e opc rid s s'; wf e s'; same s s'; state s' = state s\<rbrakk> \<Longrightarrow> Q ok s'"
  shows "wp (finish_frame e) Q t"
  by (rule serve_frame [where b = b and opc = opc and rid = rid])
    (use t typed in \<open>auto simp: asm_def intro!: Q op_postI elim: served_silent same_trans\<close>)

lemma asm_respond:
  assumes t: "asm e opc rid s m t b"
  shows "wp (respond e opc rid st) (\<lambda>_. op_post e opc rid s) t"
  by (rule serve_respond) (use t in \<open>auto simp: asm_def intro!: op_postI elim: served_silent\<close>)

lemma asm_failure:
  assumes t: "asm e opc rid s m t b"
  shows "wp (send_backend_failure e opc rid r fallback) (\<lambda>_. op_post e opc rid s) t"
  by (rule serve_failure) (use t in \<open>auto simp: asm_def intro!: op_postI elim: served_silent\<close>)

lemma asm_read_mem: "asm e opc rid s m t b \<Longrightarrow> (\<And>a t'. asm e opc rid s m t' b \<Longrightarrow> Q a t') \<Longrightarrow>
    wp (b_read_mem e addr n k) Q t"
  unfolding b_defs by (rule asm_call; auto split: prod.splits)

lemma asm_read_regs: "asm e opc rid s m t b \<Longrightarrow> (\<And>a t'. asm e opc rid s m t' b \<Longrightarrow> Q a t') \<Longrightarrow>
    wp (b_read_regs e ids cap) Q t"
  unfolding b_defs by (rule asm_call; auto split: prod.splits)

section \<open>The requests\<close>

text \<open>What the responses with data hold.\<close>

lemma asm_len: "asm e opc rid s m t b \<Longrightarrow> length b = 8192"
  by (simp add: asm_def)

lemma typed_get_state:
  "typed_body KIND_RESPONSE OP_GET_STATE (enc_get_state_response \<lparr>gsr_status = status_code STATUS_OK,
     gsr_target_state = target_state_code t, gsr_reserved_lo = a, gsr_reserved_hi = b, gsr_stop_id = c\<rparr>)"
  using dec_enc_get_state_response [where rest = "[]"]
  by (intro typed_ok) (auto simp: response_data_def, simp add: enc_get_state_response_def)

lemma typed_read_memory:
  "length data = unat n \<Longrightarrow> typed_body KIND_RESPONSE OP_READ_MEMORY (enc_read_memory_response
     \<lparr>rms_status = status_code STATUS_OK, rms_address = a, rms_completed_length = n\<rparr> @ data)"
  by (intro typed_ok) (auto simp: response_data_def wire, simp_all add: enc_read_memory_response_def)

lemma typed_read_registers:
  "n = length blob \<Longrightarrow> n \<le> 8192 \<Longrightarrow> typed_body KIND_RESPONSE OP_READ_REGISTERS (enc_read_registers_response
     \<lparr>rrs_status = status_code STATUS_OK, rrs_stop_id = a,
       rrs_register_count = word_of_nat (count_entries blob n), rrs_reserved = r\<rparr> @ blob)"
  by (intro typed_ok) (auto simp: response_data_def wire count_entries_word, simp_all add: enc_read_registers_response_def)

lemma typed_attach:
  "length blob = length (ai_memory_regions info) \<Longrightarrow> length blob mod 20 = 0 \<Longrightarrow> length blob \<le> 1280 \<Longrightarrow>
   typed_body KIND_RESPONSE OP_ATTACH (enc_attach_response (attach_response_of info) @ blob)"
  by (intro typed_ok) (auto simp: response_data_def wire attach_response_of_def unat_of_nat,
    simp_all add: enc_attach_response_def)

lemma serve_get_state:
  assumes wf: "wf e s" and live: "scratch s \<noteq> None"
  shows "wp (op_get_state e rid payload) (\<lambda>_. op_post e OP_GET_STATE rid s) s"
  unfolding op_get_state_def
  apply (intro wps)
   apply (rule serve_respond [OF wf live], erule (1) op_postI)
  apply (rule asm_begin [OF wf live], simp)
  apply (intro wps, simp)
  apply (frule asm_len)
  apply (erule asm_poke, simp, simp, intro wps, erule asm_finish)
   apply (subst body_splice(1), simp, simp, rule typed_get_state)
  apply (intro wps, assumption)
  done

lemma length_substitute_one [simp]: "length (substitute_one a b d) = length d"
  by (simp add: substitute_one_def)

lemma length_substitute_read [simp]: "length (sw_bp_substitute_read t a d) = length d"
  unfolding sw_bp_substitute_read_def by (induction t arbitrary: d) simp_all

lemma read_memory_length:
  assumes "wf e s" "read_memory_error s payload = None"
  shows "unat (rmq_length (dec_read_memory_request payload)) \<le> 8160"
proof -
  have "rmq_length (dec_read_memory_request payload) \<le> max_memory_transfer s"
    using assms(2) by (auto simp: read_memory_error_def Let_def split: if_splits option.splits)
  also have "max_memory_transfer s \<le> 8160" using assms(1) by (simp add: wf_def)
  finally show ?thesis by (simp add: word_le_nat_alt)
qed

lemma serve_read_memory:
  assumes wf: "wf e s" and live: "scratch s \<noteq> None"
  shows "wp (op_read_memory e rid payload) (\<lambda>_. op_post e OP_READ_MEMORY rid s) s"
proof -
  have ok: "regions_readable s \<and> sw_readable s \<and> sw_bounded s" using wfD [OF wf] by simp
  show ?thesis
    unfolding op_read_memory_def
    apply (intro wps, rule ok)
     apply (frule read_memory_length [OF wf])
     apply (rule asm_begin [OF wf live], simp)
     apply (frule asm_len)
     apply (intro wps, simp)
     apply (erule asm_read_mem)
      apply (intro wps, erule asm_poke, simp, simp)
      apply (intro wps)
       apply (erule asm_failure)
      apply (rule asm_peek, assumption, simp)
      apply (intro wps, erule asm_poke, simp, simp add: slice_def)
      apply (intro wps, erule asm_poke, simp, simp)
     apply (intro wps, erule asm_finish)
      apply (subst body_splice(2), simp, simp, simp, simp, rule typed_read_memory, simp)
     apply (intro wps, assumption)
    apply (rule serve_respond [OF wf live], erule (1) op_postI)
    done
qed


lemma length_keep_patch [simp]: "length (keep_patch a b d) = length d"
  by (simp add: keep_patch_def)

lemma length_write_image [simp]: "length (write_image t a d) = length d"
  unfolding write_image_def by (induction t arbitrary: d) simp_all

lemma write_memory_length:
  assumes "wf e s" "write_memory_error s payload = None"
  shows "length (drop 20 payload) \<le> 8160"
proof -
  let ?n = "wmq_length (dec_write_memory_request payload)"
  have "?n \<le> max_memory_transfer s" "length payload - 20 = unat ?n"
    using assms(2) by (auto simp: write_memory_error_def Let_def split: if_splits option.splits)
  moreover have "max_memory_transfer s \<le> 8160" using assms(1) by (simp add: wf_def)
  ultimately show ?thesis by (simp add: word_le_nat_alt)
qed

lemma length_overlap_fold:
  "length (fold (\<lambda>offset original. if P offset then original[f offset := g offset] else original)
     xs orig) = length orig"
  by (induction xs arbitrary: orig) simp_all

lemma overlap_one_keeps [simp]:
  "length (sb_original (overlap_one a d b)) = length (sb_original b)"
  "entry_ok (overlap_one a d b) = entry_ok b"
  "sb_id (overlap_one a d b) = sb_id b" "sb_address (overlap_one a d b) = sb_address b"
  "sb_instruction_size (overlap_one a d b) = sb_instruction_size b"
  "sb_installed (overlap_one a d b) = sb_installed b"
  by (simp_all add: overlap_one_def entry_ok_def Let_def length_overlap_fold)

lemma table_ok_overlap:
  assumes "table_ok (Some t) n"
  shows "table_ok (Some (map (overlap_one a d) (take n t) @ drop n t)) n"
proof -
  have n: "n \<le> length t" using assms by (simp add: table_ok_def)
  have "\<forall>b \<in> set (drop n t). length (sb_original b) = 4"
    using assms by (auto simp: table_ok_def dest: in_set_dropD)
  moreover have "\<forall>b \<in> set (take n t). length (sb_original b) = 4"
    using assms by (auto simp: table_ok_def dest: in_set_takeD)
  ultimately show ?thesis using assms n by (auto simp: table_ok_def)
qed

lemma wp_write_overlap:
  assumes wf: "wf e s" and Q: "\<And>s'. wf e s' \<Longrightarrow> calm s s' \<Longrightarrow> Q () s'"
  shows "wp (sw_bp_write_overlap a d) Q s"
proof (cases "sw_table s")
  case None
  then have eq: "s\<lparr>sw_table := None\<rparr> = s" by (cases s) simp
  show ?thesis
    using Q [OF wf calm_refl] unfolding sw_bp_write_overlap_def by (intro wps) (simp add: None eq)
next
  case (Some t)
  show ?thesis
    unfolding sw_bp_write_overlap_def
  proof (intro wps Q)
    show "wf e (s\<lparr>sw_table := map_option (\<lambda>t. map (overlap_one a d) (take (sw_count s) t) @
        drop (sw_count s) t) (sw_table s)\<rparr>)"
      using wf_table [OF wf] Some by (auto intro!: wf_sw_table [OF wf] table_ok_overlap)
    show "calm s (s\<lparr>sw_table := map_option (\<lambda>t. map (overlap_one a d) (take (sw_count s) t) @
        drop (sw_count s) t) (sw_table s)\<rparr>)"
      by (rule calmI(1), rule kept_swI) simp
  qed
qed

lemma calm_frame: "scratch s \<noteq> None \<Longrightarrow> calm s (s\<lparr>scratch := Some b\<rparr>)"
  by (auto simp: calm_def quiet_def ext_def views intro!: exI [of _ "[]"])

text \<open>After a calm prefix, an answer completes the operation.\<close>

lemma calm_respond:
  assumes "calm s t" "wf e t" "scratch s \<noteq> None"
  shows "wp (respond e opc rid st) (\<lambda>_. op_post e opc rid s) t"
  using assms calmD [OF assms(1)]
  by (intro serve_respond) (auto intro: op_post_silent [OF calm_silent] op_postI)

lemma calm_failure:
  assumes "calm s t" "wf e t" "scratch s \<noteq> None"
  shows "wp (send_backend_failure e opc rid r fallback) (\<lambda>_. op_post e opc rid s) t"
  using assms calmD [OF assms(1)]
  by (intro serve_failure) (auto intro: op_post_silent [OF calm_silent] op_postI)

lemma serve_write_memory:
  assumes wf: "wf e s" and live: "scratch s \<noteq> None"
  shows "wp (op_write_memory e rid payload) (\<lambda>_. op_post e OP_WRITE_MEMORY rid s) s"
proof -
  have ok: "regions_readable s \<and> sw_readable s \<and> sw_bounded s" using wfD [OF wf] by simp
  obtain buf where buf: "scratch s = Some buf" "length buf = 8192"
    using live wf wf_scratch by blast
  show ?thesis
    unfolding op_write_memory_def
    apply (intro wps, rule ok)
     apply (frule write_memory_length [OF wf])
     apply (intro wp_poke_scratch [OF buf(1)], simp add: buf)
     apply (intro wps wp_peek_scratch)
       apply simp
      apply (simp add: buf)
     apply (rule wp_calls(4), rule wf_frame(1) [OF wf buf(1)], simp add: buf)
     apply (intro wps)
      apply (rule calm_failure [OF calm_trans [OF calm_frame calmI(1)]]; (assumption | rule live)?)
     apply (rule wp_write_overlap, assumption)
     apply (rule calm_respond [OF calm_trans [OF calm_trans [OF calm_frame calmI(1)]]];
        (assumption | rule live)?)
    apply (rule serve_respond [OF wf live], erule (1) op_postI)
    done
qed

end
