(* ===== verification/Session_Serve_Link.thy ===== *)
theory Session_Serve_Link
  imports Session_Serve
begin

text \<open>Serving the requests that change the connection: registers, DETACH, ATTACH and disconnect.\<close>

lemma serve_read_registers:
  assumes wf: "wf e s" and live: "scratch s \<noteq> None"
  shows "wp (op_read_registers e rid payload) (\<lambda>_. op_post e OP_READ_REGISTERS rid s) s"
  unfolding op_read_registers_def
  apply (intro wps)
   apply (rule asm_begin [OF wf live], simp)
   apply (intro wps, simp)
   apply (erule asm_read_regs)
   apply (intro wps, erule asm_poke, simp, simp)
   apply (intro wps)
     apply (erule asm_failure)
    apply (erule asm_respond)
   apply (rule asm_peek, assumption, simp)
   apply (frule asm_len)
   apply (intro wps, erule asm_poke, simp, simp)
   apply (intro wp_bind)
   apply (rule asm_size, assumption, simp, simp)
   apply (intro wps, erule asm_poke, simp, simp)
   apply (intro wps, erule asm_finish)
    apply (subst body_splice(2), simp, simp, simp, simp)
    apply (rule typed_read_registers, simp, simp)
   apply (intro wps, assumption)
  apply (rule serve_respond [OF wf live], erule (1) op_postI)
  done

lemma serve_write_registers:
  assumes wf: "wf e s" and live: "scratch s \<noteq> None"
  shows "wp (op_write_registers e rid payload) (\<lambda>_. op_post e OP_WRITE_REGISTERS rid s) s"
  unfolding op_write_registers_def
  apply (intro wps)
     apply (rule serve_respond [OF wf live], erule (1) op_postI)+
  apply (rule wp_calls(3) [OF wf], intro wps)
   apply (rule calm_failure [OF calmI(1)]; (assumption | rule live)?)
  apply (erule wp_update_step_over)
  apply (rule calm_respond [OF calm_trans [OF calmI(1) calmI(3)]]; (assumption | rule live)?)
  done

section \<open>Ending a connection\<close>

definition replied :: "'w env \<Rightarrow> u16 \<Rightarrow> u32 \<Rightarrow> 'w session \<Rightarrow> 'w session \<Rightarrow> bool" where
  "replied e opc rid s s' \<longleftrightarrow> wf e s' \<and>
     (\<exists>tr. ext s s' tr \<and> (\<not> transport_dead s \<longrightarrow> answered opc rid (outs tr)))"

definition mute :: "'w session \<Rightarrow> 'w session \<Rightarrow> bool" where
  "mute s s' \<longleftrightarrow> (\<exists>tr. ext s s' tr \<and> outs tr = [])"

lemma mute_trans: "mute s s1 \<Longrightarrow> mute s1 s2 \<Longrightarrow> mute s s2"
  unfolding mute_def by clarify (rule exI, rule conjI, erule (1) ext_trans, simp)

lemma quiet_mute: "quiet s s' \<Longrightarrow> mute s s'"
  by (auto simp: quiet_def mute_def)

lemma kept_mute: "kept s s' \<Longrightarrow> mute s s'"
  by (simp add: kept_def quiet_mute)

lemma served_replied: "served opc rid s s' \<Longrightarrow> wf e s' \<Longrightarrow> replied e opc rid s s'"
  by (auto simp: served_def replied_def)

lemma replied_quiet: "quiet s s1 \<Longrightarrow> replied e opc rid s1 s' \<Longrightarrow> replied e opc rid s s'"
  unfolding replied_def quiet_def
  by clarify (rule exI, rule conjI, erule (1) ext_trans, simp)

lemma replied_mute: "replied e opc rid s s1 \<Longrightarrow> mute s1 s2 \<Longrightarrow> wf e s2 \<Longrightarrow> replied e opc rid s s2"
  unfolding replied_def mute_def
  by clarify (rule exI, rule conjI, erule (1) ext_trans, simp)

lemma replied_follows: "replied e opc rid s s1 \<Longrightarrow> follows s1 s2 \<Longrightarrow> wf e s2 \<Longrightarrow> replied e opc rid s s2"
  unfolding replied_def follows_def
  by clarify (rule exI, rule conjI, erule (1) ext_trans,
      simp add: answered_append)

lemma wf_state:
  "wf e s \<Longrightarrow> attached s \<Longrightarrow> wf e (s\<lparr>state := TARGET_LOST\<rparr>)"
  "wf e s \<Longrightarrow> attached s \<Longrightarrow> wf e (s\<lparr>state := TARGET_RUNNING\<rparr>)"
  by (auto simp: wf_def storage_ready_def idle_def)

lemma wf_dead: "wf e (s\<lparr>transport_dead := d\<rparr>) = wf e s"
  by (auto simp: wf_def storage_ready_def idle_def)

lemma mute_fields: "mute s (s\<lparr>state := x\<rparr>)" "mute s (s\<lparr>transport_dead := True\<rparr>)"
  by (auto simp: mute_def ext_def intro!: exI [of _ "[]"])

lemma wp_detach_cleanup:
  assumes wf: "wf e s"
    and Q: "\<And>s'. \<lbrakk>wf e s'; mute s s'; \<not> attached s'; state s' = TARGET_DETACHED;
      transport_dead s' = transport_dead s; stop_id s' = 0; swv s' = swv s\<rbrakk> \<Longrightarrow> Q () s'"
  shows "wp detach_cleanup Q s"
  unfolding detach_cleanup_def clear_debug_state_def clear_run_tracking_def
  by (intro wps Q) (use wf in \<open>auto simp: wf_def storage_ready_def idle_def mute_def ext_def views
    intro!: exI [of _ "[]"]\<close>)

lemma wp_handle_disconnect:
  assumes wf: "wf e s"
    and ok: "\<And>s'. \<lbrakk>wf e s'; mute s s'; transport_dead s'; \<not> attached s';
      attached s \<Longrightarrow> state s' = TARGET_DETACHED \<and> stop_id s' = 0 \<and> sw_count s' = 0\<rbrakk> \<Longrightarrow> Q True s'"
    and retry: "\<And>s'. \<lbrakk>wf e s'; mute s s'; transport_dead s'; attached s';
      state s' = TARGET_LOST\<rbrakk> \<Longrightarrow> Q False s'"
  shows "wp (handle_disconnect e) Q s"
proof -
  let ?s = "s\<lparr>transport_dead := True\<rparr>"
  have wf0: "wf e ?s" using wf by (simp add: wf_dead)
  have lost: "wp (modify (\<lambda>s. s\<lparr>state := TARGET_LOST\<rparr>) \<bind> (\<lambda>_. return False)) Q t"
    if "kept ?s t" "wf e t" "attached ?s" for t
  proof (intro wps retry)
    have att: "attached t" using that by (simp add: kept_def cfg_def)
    show "wf e (t\<lparr>state := TARGET_LOST\<rparr>)" by (rule wf_state [OF that(2) att])
    show "mute s (t\<lparr>state := TARGET_LOST\<rparr>)"
      using that(1) by (intro mute_trans [OF mute_fields(2) mute_trans [OF quiet_mute mute_fields(1)]])
        (simp add: kept_def)
    show "transport_dead (t\<lparr>state := TARGET_LOST\<rparr>)"
      using that(1) by (auto simp: kept_def quiet_def)
  qed (use that in \<open>simp_all add: kept_def cfg_def\<close>)
  have fin: "wp (if \<not> restored then modify (\<lambda>s. s\<lparr>state := TARGET_LOST\<rparr>) \<bind> (\<lambda>_. return False)
      else do {
        r \<leftarrow> b_detach e DETACH_KEEP_HALTED;
        if r \<noteq> ESP_OK then modify (\<lambda>s. s\<lparr>state := TARGET_LOST\<rparr>) \<bind> (\<lambda>_. return False)
        else detach_cleanup \<bind> (\<lambda>_. return True)
      }) Q t"
    if "kept ?s t" "wf e t" "attached ?s" "restored \<Longrightarrow> sw_count t = 0" for t restored
    apply (intro wp_if lost that)
    apply (intro wp_bind wp_calls(1) [OF that(2)] wp_if)
     apply (rule lost [THEN wp_bindD], erule kept_trans [OF that(1)], assumption, rule that)
    apply (erule wp_detach_cleanup, intro wps ok)
        apply assumption
       apply (rule mute_trans [OF mute_fields(2)], rule mute_trans [OF kept_mute [OF that(1)]])
       apply (erule mute_trans [OF kept_mute], assumption)
      apply (use that in \<open>auto simp: kept_def quiet_def swv_def\<close>)
    done
  show ?thesis
    unfolding handle_disconnect_def
    apply (intro wps)
     apply (rule ok [OF wf0 mute_fields(2)]; simp)
    apply (rule wp_calls(11) [OF wf0])
    apply (intro wp_case_prod wp_bind wp_if)
     apply (rule wp_return, rule fin, assumption, assumption, simp, simp)
    apply (erule wp_sw_bp_restore_all)
    apply (rule fin, erule (1) kept_trans, assumption, simp, simp)
    done
qed


section \<open>DETACH and ATTACH\<close>

lemma op_post_replied: "op_post e opc rid s s' \<Longrightarrow> nowrap s \<Longrightarrow> replied e opc rid s s'"
  by (auto simp: op_post_def served_def replied_def)

lemma quiet_live: "quiet s t \<Longrightarrow> scratch s \<noteq> None \<Longrightarrow> scratch t \<noteq> None"
  by (auto simp: quiet_def ext_def)

lemma quiet_respond:
  assumes "quiet s t" "wf e t" "scratch s \<noteq> None"
    and "\<And>s'. \<lbrakk>replied e opc rid s s'; wf e s'; same t s'; state s' = state t\<rbrakk> \<Longrightarrow> Q () s'"
  shows "wp (respond e opc rid st) Q t"
  by (rule serve_respond [OF assms(2) quiet_live [OF assms(1,3)]])
    (rule assms(4), rule replied_quiet [OF assms(1) served_replied])

lemma quiet_failure:
  assumes "quiet s t" "wf e t" "scratch s \<noteq> None"
    and "\<And>s'. replied e opc rid s s' \<Longrightarrow> Q () s'"
  shows "wp (send_backend_failure e opc rid r fallback) Q t"
  by (rule serve_failure [OF assms(2) quiet_live [OF assms(1,3)]])
    (rule assms(4), rule replied_quiet [OF assms(1) served_replied])

lemma kept_quiet: "kept s s' \<Longrightarrow> quiet s s'"
  by (simp add: kept_def)

lemma moved_quiet: "moved s s' \<Longrightarrow> quiet s s'"
  by (simp add: moved_def)

lemma wp_detach_halt:
  assumes wf: "wf e s" and live: "scratch s \<noteq> None"
    and no: "\<And>s'. replied e OP_DETACH rid s s' \<Longrightarrow> Q False s'"
    and yes: "\<And>s'. wf e s' \<Longrightarrow> moved s s' \<Longrightarrow> swv s' = swv s \<Longrightarrow> Q True s'"
  shows "wp (detach_halt e rid) Q s"
  unfolding detach_halt_def
  apply (intro wps)
      apply (rule yes [OF wf moved_refl], simp)
     apply (rule wp_calls(11) [OF wf], intro wps)
      apply (rule quiet_failure [OF kept_quiet _ live], assumption+, intro wps no, assumption)
     apply (rule wfD [OF wf])
    apply (rule yes, assumption, erule kept_moved, assumption)
    apply (rule yes, erule wf_step_fields, erule moved_trans [OF kept_moved moved_step],
        simp add: swv_def)
  apply (rule yes, assumption, erule kept_moved, assumption)
  done

lemma serve_detach_target:
  assumes wf: "wf e t" "moved s t" and live: "scratch s \<noteq> None"
  shows "wp (detach_target e rid action) (\<lambda>_. replied e OP_DETACH rid s) t"
proof -
  note compose = moved_quiet [OF moved_trans [OF wf(2) kept_moved]]
  show ?thesis
    unfolding detach_target_def
    apply (intro wps, rule wp_sw_bp_restore_all [OF wf(1)], intro wps)
     apply (rule quiet_respond [OF compose _ live]; assumption)
    apply (rule wp_calls(1), assumption, intro wps)
     apply (rule quiet_respond [OF compose _ live], erule (1) kept_trans, assumption+)
    apply (rule quiet_respond [OF compose _ live], erule (1) kept_trans, assumption)
    apply (erule wp_detach_cleanup)
    apply (erule (2) replied_mute)
    done
qed

lemma serve_detach:
  assumes wf: "wf e s" and live: "scratch s \<noteq> None"
  shows "wp (op_detach e rid payload) (\<lambda>_. replied e OP_DETACH rid s) s"
  unfolding op_detach_def
  apply (intro wps)
    apply (rule quiet_respond [OF quiet_refl wf live]; assumption)+
  apply (rule wp_detach_halt [OF wf live])
   apply (intro wps; simp)
  apply (intro wps; (simp; fail)?)
   apply (erule wp_write_current_pc, intro wps)
    apply (rule quiet_respond [OF moved_quiet _ live], erule moved_trans [OF _ kept_moved], assumption+)
   apply (rule serve_detach_target [OF _ _ live], assumption, erule moved_trans [OF _ kept_moved], assumption)
  apply (rule serve_detach_target [OF _ _ live]; assumption)
  done

lemma normalize_limits:
  defines "n \<equiv> normalize_attach_info"
  shows "ai_hardware_breakpoints (n i) \<le> 16" and "ai_hardware_watchpoints (n i) \<le> 16"
    and "(ucast (ai_max_memory_transfer (n i)) :: u32) \<le> MAX_MEMORY_TRANSFER"
    and "ai_memory_regions (n i) = ai_memory_regions i"
proof -
  have m: "(min x 16 :: u16) \<le> 16" for x by simp
  show "ai_hardware_breakpoints (n i) \<le> 16" "ai_hardware_watchpoints (n i) \<le> 16"
    "ai_memory_regions (n i) = ai_memory_regions i"
    by (simp_all add: n_def normalize_attach_info_def Let_def)
  have *: "ucast (ucast x :: u16) = x" if "x \<le> 8160" for x :: u32
  proof -
    have "unat x < 2 ^ 16" using that by (simp add: word_le_nat_alt)
    then have "unat (ucast (ucast x :: u16) :: u32) = unat x"
      by (simp add: unsigned_ucast_eq unsigned_take_bit_eq take_bit_nat_eq_self)
    then show ?thesis by (simp only: word_unat_eq_iff)
  qed
  show "(ucast (ai_max_memory_transfer (n i)) :: u32) \<le> MAX_MEMORY_TRANSFER"
    by (simp add: n_def normalize_attach_info_def Let_def * not_less)
qed

text \<open>The halt, or its absence, after a successful attach response: events only.\<close>

lemma follow_halted:
  assumes wf: "wf e s" and att: "attached s" and st: "state s \<noteq> TARGET_LOST" "stop_id s \<noteq> - 1"
    and Q: "\<And>s'. wf e s' \<Longrightarrow> follows s s' \<Longrightarrow> Q () s'"
  shows "wp (enter_halted e stop) (\<lambda>_. wp (emit_pending_stopped e) Q) s"
proof (rule serve_halted [OF wf att st(1)])
  fix s1 assume s1: "wf e s1" "quiet s s1" "state s1 = TARGET_HALTED" "stop_id s1 = stop_id s + 1"
  show "wp (emit_pending_stopped e) Q s1"
  proof (rule serve_emit [OF s1(1)])
    fix s2 assume s2: "wf e s2" "follows s1 s2"
    have "silent s s1" by (rule halted_silent [OF st(2) s1(2-4)])
    from Q [OF s2(1) follows_trans [OF silent_follows [OF this] s2(2)]] show "Q () s2" .
  qed
qed (use st in simp)

lemma running_silent: "silent s (s\<lparr>state := TARGET_RUNNING\<rparr>)"
  by (auto simp: silent_def quiet_def ext_def mark_def intro!: exI [of _ "[]"])

lemma wp_attach_halt:
  assumes wf: "wf e s" and att: "attached s" and st: "state s \<noteq> TARGET_LOST" "stop_id s \<noteq> - 1"
    and Q: "\<And>s'. wf e s' \<Longrightarrow> follows s s' \<Longrightarrow> Q () s'"
  shows "wp (attach_halt e h) Q s"
proof -
  have start: "follows s t" if "kept s t" for t
    by (rule silent_follows [OF calm_silent [OF calmI(1) [OF that]]])
  have run: "wp (modify (\<lambda>s. s\<lparr>state := TARGET_RUNNING\<rparr>)) Q t" if "wf e t" "kept s t" for t
    by (intro wps, rule Q, rule wf_state [OF that(1)], use that att in \<open>simp add: kept_def cfg_def\<close>,
        rule silent_follows [OF silent_trans [OF calm_silent [OF calmI(1) [OF that(2)]] running_silent]])
  have lost: "wp (enter_lost e r) Q t" if "wf e t" "kept s t" for t r
  proof (rule serve_lost [OF that(1)])
    note start = start [OF that(2)]
    show "scratch t \<noteq> None" using that att wf_live [OF that(1)] by (simp add: kept_def cfg_def)
    show "Q () s'" if "wf e s'" "follows t s'" for s'
      by (rule Q [OF that(1) follows_trans [OF start that(2)]])
  qed
  have halt: "wp (enter_halted e stop) (\<lambda>_. wp (emit_pending_stopped e) Q) t"
    if "wf e t" "kept s t" for t stop
    by (rule follow_halted [OF that(1)];
        (rule Q, assumption, erule follows_trans [OF start [OF that(2)]])?)
      (use that att st in \<open>simp_all add: kept_def cfg_def stopv_def\<close>)
  show ?thesis
    unfolding attach_halt_def
    apply (intro wp_if)
     apply (rule run [OF wf kept_refl])
    apply (intro wp_bind, rule wp_calls(10) [OF wf], intro wp_case_prod wp_if)
      apply (erule (1) lost)
     apply (intro wp_bind, erule (1) halt)
    apply (intro wp_bind, rule wp_calls(11), assumption, intro wp_case_prod wp_if)
      apply (intro wp_bind, rule halt, assumption, erule (1) kept_trans)
     apply (rule lost, assumption, erule (1) kept_trans)
    apply (rule run, assumption, erule (1) kept_trans)
    done
qed

lemma wp_adopt_attach_info:
  assumes wf: "wf e s" and ready: "storage_ready e s"
    and info: "ai_hardware_breakpoints i \<le> 16" "ai_hardware_watchpoints i \<le> 16"
      "(ucast (ai_max_memory_transfer i) :: u32) \<le> MAX_MEMORY_TRANSFER"
    and st: "state s = TARGET_DETACHED"
    and Q: "\<And>s'. \<lbrakk>wf e s'; quiet s s'; storage_ready e s'; attached s'; stop_id s' = 0;
      state s' = TARGET_DETACHED; region_count s' = 0; sw_count s' = 0\<rbrakk> \<Longrightarrow> Q () s'"
  shows "wp (adopt_attach_info i) Q s"
  unfolding adopt_attach_info_def clear_debug_state_def clear_run_tracking_def
  apply (intro wps Q)
  apply (use wf ready info st in \<open>auto simp: wf_def storage_ready_def table_ok_def quiet_def ext_def
    split: option.splits intro!: exI [of _ "[]"]\<close>)
  done

lemma wp_store_regions:
  assumes wf: "wf e s" and ready: "storage_ready e s" and n: "length new \<le> 64"
    and Q: "\<And>s'. \<lbrakk>wf e s'; quiet s s'; storage_ready e s'; attached s' = attached s;
      stop_id s' = stop_id s; state s' = state s\<rbrakk> \<Longrightarrow> Q () s'"
  shows "wp (store_regions new) Q s"
proof -
  obtain rs where rs: "regions s = Some rs" "length rs = 64"
    using wf ready by (auto simp: wf_def storage_ready_def)
  show ?thesis
    unfolding store_regions_def
    apply (intro wps)
    apply (simp add: rs n)
    apply (rule Q)
    apply (use wf ready rs n in \<open>auto simp: wf_def storage_ready_def quiet_def ext_def
      intro!: exI [of _ "[]"]\<close>)
    done
qed

lemma serve_attach:
  assumes wf: "wf e s" and live: "scratch s \<noteq> None" and st: "state s = TARGET_DETACHED"
  shows "wp (op_attach e rid payload) (\<lambda>_. replied e OP_ATTACH rid s) s"
proof -
  have fail: "wp (do { respond e OP_ATTACH rid STATUS_ERROR; _ \<leftarrow> handle_disconnect e; return () })
      (\<lambda>_. replied e OP_ATTACH rid s) t" if "quiet s t" "wf e t" for t
    apply (intro wps, rule quiet_respond [OF that live])
    apply (intro wps, erule wp_handle_disconnect)
     apply (intro wps, erule (2) replied_mute)+
    done
  have rest: "wp (do {
      poke_scratch 12 (enc_attach_response (attach_response_of info));
      (if blob \<noteq> [] then poke_scratch 44 blob else return ());
      sent \<leftarrow> finish_frame e;
      if \<not> sent then return () else attach_halt e h }) (\<lambda>_. replied e OP_ATTACH rid s) t'"
    if q: "quiet s t" "stop_id t = 0" "attached t" "state t = TARGET_DETACHED"
      and a: "asm e OP_ATTACH rid t (12 + (32 + length blob)) t' b" "length blob \<le> 1280"
        "length blob mod 20 = 0" "length blob = length (ai_memory_regions info)"
    for t t' b blob info h
  proof -
    have fin: "wp (finish_frame e \<bind> (\<lambda>sent. if \<not> sent then return () else attach_halt e h))
        (\<lambda>_. replied e OP_ATTACH rid s) t2"
      if "asm e OP_ATTACH rid t (12 + (32 + length blob)) t2 b2" and
        "drop 12 (take (12 + (32 + length blob)) b2) = enc_attach_response (attach_response_of info) @ blob" for t2 b2
    proof (intro wp_bind, rule asm_finish [OF that(1)], simp only: that(2), rule typed_attach [OF a(4,3,2)])
      fix sent s1
      assume s1: "op_post e OP_ATTACH rid t s1" "wf e s1" "same t s1" "state s1 = state t"
      have r: "replied e OP_ATTACH rid s s1"
        by (rule replied_quiet [OF q(1) op_post_replied [OF s1(1)]]) (simp add: nowrap_def q)
      show "wp (if \<not> sent then return () else attach_halt e h) (\<lambda>_. replied e OP_ATTACH rid s) s1"
        apply (intro wps r)
        apply (rule wp_attach_halt [OF s1(2)])
           apply (use s1 q in \<open>simp_all add: same_def cfg_def stopv_def\<close>)
        apply (erule (1) replied_follows [OF r])
        done
    qed
    show ?thesis
      apply (intro wp_bind, rule asm_poke [OF a(1)], simp, simp)
      apply (intro wp_bind wp_if)
       apply (erule asm_poke, simp, use a(2) in simp)
       apply (erule fin)
       apply (subst body_splice(3), rule asm_len [OF a(1)], simp, use a(2) in simp, simp, rule refl)
      apply (rule wp_return, erule fin)
      apply (subst body_splice(1), use asm_len [OF a(1)] in simp, simp, simp)
      done
  qed
  show ?thesis
    unfolding op_attach_def
    apply (intro wp_bind wp_get wp_if)
       apply (rule quiet_respond [OF quiet_refl wf live]; assumption)+
    apply (intro wp_bind wp_let, rule wp_calls(8) [OF wf], intro wp_case_prod wp_if)
     apply (rule quiet_failure [OF kept_quiet _ live]; assumption)
    apply (intro wp_let wp_bind)
    subgoal for req params a s1 r raw info blob
      apply (rule wp_adopt_attach_info, assumption)
           apply (erule (1) storage_ready_kept, simp)
          apply (simp_all only: normalize_limits)
       apply (simp add: kept_def st)
      subgoal premises p for s2
      proof -
        have s2: "attached s2 = True" "stop_id s2 = 0" "state s2 = TARGET_DETACHED"
          by (simp_all only: p)
        have q2: "quiet s s2" by (rule quiet_trans [OF kept_quiet]) (use p in auto)
        show ?thesis
          apply (intro wp_if fail [OF q2] p)
          apply (intro wp_bind)
          apply (rule wp_store_regions, rule p, rule p)
           apply (use p(1-20) in \<open>simp add: decode_regions_def\<close>)
          subgoal premises p3 for s3
          proof -
            let ?blob = "ai_memory_regions raw"
            have "length ?blob = 20 * (length ?blob div 20)" 
              using p3(1) div_mult_mod_eq [of "length ?blob" 20] by simp
            then have len: "length ?blob \<le> 1280" using p3(1) by linarith
            have q3: "quiet s s3" by (rule quiet_trans [OF q2 p3(3)])
            show ?thesis
              apply (intro wp_bind, rule asm_begin [OF p3(2)])
                apply (use p3(4) in \<open>simp add: storage_ready_def\<close>)
               apply (use len in simp)
              apply (intro wp_if)
               apply simp
              apply (rule rest [OF q3])
                  apply (simp only: p3 s2)+
                apply (rule len)
               apply (use p3(1) in simp)
              apply (simp add: normalize_attach_info_def Let_def)
              done
          qed
          done
      qed
      done
    done
qed

end
