(* ===== verification/Session_Serve_Run.thy ===== *)
theory Session_Serve_Run
  imports Session_Serve_Link
begin

text \<open>Serving RUN, HALT and the resets.\<close>

section \<open>HALT\<close>

lemma calm_attached: "calm s t \<Longrightarrow> attached t = attached s"
  by (simp add: calm_def cfg_def)

lemma wf_attached_live: "wf e s \<Longrightarrow> attached s \<Longrightarrow> scratch s \<noteq> None"
  by (rule wf_live) simp_all

text \<open>A respond that completes an operation after a silent prefix.\<close>

lemma silent_respond:
  assumes "silent s t" "wf e t" "scratch s \<noteq> None"
    and "\<And>s'. \<lbrakk>served opc rid s s'; wf e s'; same t s'; state s' = state t\<rbrakk> \<Longrightarrow> Q () s'"
  shows "wp (respond e opc rid st) Q t"
proof -
  have "scratch t \<noteq> None" using assms(1,3) quiet_live by (auto simp: silent_def)
  then show ?thesis
    by (rule serve_respond [OF assms(2)]) (rule assms(4), erule served_silent [OF assms(1)])
qed

lemma silent_failure:
  assumes "silent s t" "wf e t" "scratch s \<noteq> None"
    and "\<And>s'. \<lbrakk>served opc rid s s'; wf e s'; same t s'\<rbrakk> \<Longrightarrow> Q () s'"
  shows "wp (send_backend_failure e opc rid r fallback) Q t"
proof -
  have "scratch t \<noteq> None" using assms(1,3) quiet_live by (auto simp: silent_def)
  then show ?thesis
    by (rule serve_failure [OF assms(2)]) (rule assms(4), erule served_silent [OF assms(1)])
qed

text \<open>
  \<open>pre e s t\<close>: from \<open>s\<close> to \<open>t\<close> nothing was sent, provided the stop generation did not wrap.
  \<open>rdy\<close> adds that the target is halted, at this generation or the next.
\<close>

definition pre :: "'w env \<Rightarrow> 'w session \<Rightarrow> 'w session \<Rightarrow> bool" where
  "pre e s t \<longleftrightarrow> wf e t \<and> attached t \<and> (\<exists>tr. ext s t tr) \<and> (nowrap s \<longrightarrow> silent s t)"

definition rdy :: "'w env \<Rightarrow> 'w session \<Rightarrow> 'w session \<Rightarrow> bool" where
  "rdy e s t \<longleftrightarrow> pre e s t \<and> (nowrap s \<longrightarrow> state t = TARGET_HALTED \<and>
     (stop_id t = stop_id s \<or> stop_id t = stop_id s + 1))"

lemma wp_enter_rdy:
  assumes t: "calm s t" "wf e t" "attached s" "state s \<noteq> TARGET_LOST"
    and Q: "\<And>t'. rdy e s t' \<Longrightarrow> Q () t'"
  shows "wp (enter_halted e stop) Q t"
proof (rule serve_halted [OF t(2)])
  note d = calmD [OF t(1)]
  obtain tr0 where tr0: "ext s t tr0" using t(1) by (auto simp: calm_def quiet_def)
  show "attached t" "state t \<noteq> TARGET_LOST" using d t by simp_all
  show "Q () s'" if "stop_id t = - 1" "wf e s'" "\<exists>tr. ext t s' tr" "cfg s' = cfg t" for s'
    using that d t(3) ext_trans [OF tr0] by (intro Q) (auto simp: rdy_def pre_def nowrap_def cfg_def)
  show "Q () s'" if "stop_id t \<noteq> - 1" "wf e s'" "quiet t s'" "cfg s' = cfg t"
    "state s' = TARGET_HALTED" "stop_id s' = stop_id t + 1" "\<not> stop_reported s'" for s'
  proof (rule Q)
    have "silent s s'"
      by (rule silent_trans [OF calm_silent [OF t(1)] halted_silent [OF that(1,3,5,6)]])
    then show "rdy e s s'"
      using that d t(3) by (auto simp: rdy_def pre_def cfg_def silent_def quiet_def)
  qed
qed

lemma op_post_pre:
  assumes h: "pre e s t" and t': "served opc rid t t'" "wf e t'"
  shows "op_post e opc rid s t'"
proof -
  obtain tr0 where "ext s t tr0" using h by (auto simp: pre_def)
  moreover obtain tr where "ext t t' tr" using t'(1) by (auto simp: served_def)
  ultimately have "\<exists>tr. ext s t' tr" by (blast intro: ext_trans)
  moreover have "served opc rid s t'" if "nowrap s"
    by (rule served_silent [OF _ t'(1)]) (use h that in \<open>simp add: pre_def\<close>)
  ultimately show ?thesis using t'(2) by (simp add: op_post_def)
qed

lemma serve_halt:
  assumes wf: "wf e s" and att: "attached s" and st: "state s \<noteq> TARGET_LOST"
  shows "wp (op_halt e rid payload) (\<lambda>_. op_post e OP_HALT rid s) s"
proof -
  note live = wf_attached_live [OF wf att]
  have refl: "silent s s" by (rule calm_silent [OF calm_refl])
  have one: "wp (respond e OP_HALT rid st) (\<lambda>_. op_post e OP_HALT rid s) s" for st
    by (rule silent_respond [OF refl wf live], rule op_postI)
  show ?thesis
    unfolding op_halt_def
    apply (intro wps one)
      apply (rule silent_respond [OF refl wf live], erule serve_emit)
      apply (rule op_postI, assumption, erule (1) served_follows)
     apply (rule wp_calls(11) [OF wf], intro wps)
      apply (rule silent_failure [OF calm_silent [OF calmI(1)] _ live], assumption+)
      apply (erule (1) op_postI [rotated])
     apply (rule wp_enter_rdy [OF calmI(1)], assumption+, rule att, rule st)
    subgoal premises p for a s1 r stop t
    proof -
      have t: "pre e s t" "wf e t" "attached t" using p by (auto simp: rdy_def pre_def)
      show ?thesis
        apply (intro wp_bind)
        apply (rule serve_respond [OF t(2) wf_attached_live [OF t(2,3)]])
        apply (erule serve_emit)
        apply (rule op_post_pre [OF t(1)], erule (1) served_follows, assumption)
        done
    qed
    done
qed


section \<open>RUN\<close>

lemma check_breakpoints_ok:
  "check_breakpoints s es hw0 sw0 = Inr (hw', sw') \<Longrightarrow>
   length hw0 \<le> unat (hardware_breakpoint_limit s) \<Longrightarrow> length sw0 \<le> 32 \<Longrightarrow> \<forall>b \<in> set sw0. be_ok b \<Longrightarrow>
   length hw' \<le> unat (hardware_breakpoint_limit s) \<and> length sw' \<le> 32 \<and> (\<forall>b \<in> set sw'. be_ok b)"
proof (induction s es hw0 sw0 rule: check_breakpoints.induct)
  case (1 s hw0 sw0)
  then show ?case by simp
next
  case (2 s entry rest hw0 sw0)
  have ok: "be_ok (bp_entry_of entry (bp_instruction_size entry))"
    if "bp_instruction_size entry = 2 \<or> bp_instruction_size entry = 4"
      "is_executable_range (active_regions s) (bp_address entry) (ucast (bp_instruction_size entry)) True"
    using that by (auto simp: be_ok_def bp_entry_of_def is_executable_range_def not_less)
  show ?case
    using "2.prems"(1)
    apply (simp split: if_split_asm)
     apply (rule "2.IH"(1); (insert "2.prems"(2-4), auto simp: ok; fail)?)
    apply (rule "2.IH"(2); (insert "2.prems"(2-4), auto; fail)?)
    done
qed

lemma check_watchpoints_length: "check_watchpoints es = Inr ws \<Longrightarrow> length ws = length es"
  by (induction es arbitrary: ws rule: check_watchpoints.induct) (auto split: if_splits sum.splits)

lemma validate_run_ok:
  assumes wf: "wf e s" and v: "validate_run s payload = Inr (req, hw', sw', ws)"
  shows "length hw' \<le> 16" "length sw' \<le> 32" "length ws \<le> 16" "\<forall>b \<in> set sw'. be_ok b"
proof -
  obtain w: "check_breakpoints s (run_breakpoints req payload) [] [] = Inr (hw', sw')"
    and x: "check_watchpoints (run_watchpoints req payload) = Inr ws"
    and h: "run_header_error s req (length payload) = None"
    using v by (auto simp: validate_run_def Let_def split: if_splits option.splits sum.splits)
  have "unat (hardware_breakpoint_limit s) \<le> 16" using wf by (simp add: wf_def word_le_nat_alt)
  with check_breakpoints_ok [OF w] show "length hw' \<le> 16" "length sw' \<le> 32"
    "\<forall>b \<in> set sw'. be_ok b" by simp_all
  show "length ws \<le> 16"
    using check_watchpoints_length [OF x] h
    by (simp add: run_watchpoints_def run_header_error_def not_less split: if_splits)
qed

lemma wf_hw: "wf e s \<Longrightarrow> length ids \<le> 16 \<Longrightarrow> wf e (s\<lparr>hw_count := length ids,
    hw_breakpoint_ids := splice 0 ids (hw_breakpoint_ids s)\<rparr>)"
  by (auto simp: wf_def storage_ready_def idle_def)

lemma unrun_hw: "unrun s (s\<lparr>hw_count := n, hw_breakpoint_ids := ids\<rparr>)"
  by (auto simp: unrun_def quiet_def ext_def views intro!: exI [of _ "[]"])

lemma wp_install_run_config:
  assumes wf: "wf e s" and att: "attached s" and v: "length hw' \<le> 16" "\<forall>b \<in> set sw'. be_ok b"
    and Q: "\<And>r s'. wf e s' \<Longrightarrow> unrun s s' \<Longrightarrow> Q r s'"
  shows "wp (install_run_config e req hw' sw' ws) Q s"
proof -
  note compose = unrun_trans [OF _ kept_unrun]
  have ids: "length hw' \<le> length (hw_breakpoint_ids t)" if "wf e t" for t
    using v that by (simp add: wf_def)
  have tail: "wp (do {
         r \<leftarrow> b_apply_watchpoints e ws;
         if r \<noteq> ESP_OK then return (Some STATUS_NO_WATCHPOINT_SLOT)
         else do {
           r \<leftarrow> b_set_vector_catch e (rq_vector_catch_mask req);
           if r \<noteq> ESP_OK then return (Some STATUS_UNSUPPORTED) else return None
         }}) Q t" if "wf e t" "unrun s t" for t
    apply (intro wps wp_calls(6) [OF that(1)])
     apply (rule Q, assumption, erule compose [OF that(2)])
    apply (rule wp_calls(7), assumption, intro wps)
     apply (rule Q, assumption, rule compose [OF compose [OF that(2)]], assumption, assumption)+
    done
  show ?thesis
    unfolding install_run_config_def
    apply (intro wps, rule wp_sw_bp_apply [OF wf wf_attached [OF wf att] v(2)], intro wps)
     apply (rule Q, assumption, erule kept_unrun)
    apply (rule wp_calls(5), assumption, intro wps)
      apply (rule Q, assumption, erule compose [OF kept_unrun], assumption)
     apply (erule ids)
    apply (rule tail [THEN wp_bindD])
     apply (rule wf_hw [where ids = "map be_breakpoint_id hw'", simplified], assumption, rule v)
    apply (rule unrun_trans [OF compose [OF kept_unrun] unrun_hw], assumption, assumption)
    done
qed

text \<open>A silent prefix, an answer, then the loss of the target.\<close>

lemma wp_lose:
  assumes "calm s t" "wf e t" "scratch s \<noteq> None"
  shows "wp (respond e opc rid st) (\<lambda>_. wp (enter_lost e reason) (\<lambda>_. op_post e opc rid s)) t"
proof (rule silent_respond [OF calm_silent [OF assms(1)] assms(2,3)])
  fix s1 assume s1: "served opc rid s s1" "wf e s1" "same t s1"
  have "scratch s1 \<noteq> None" using s1(1) assms(3) by (auto simp: served_def ext_def)
  then show "wp (enter_lost e reason) (\<lambda>_. op_post e opc rid s) s1"
    by (rule serve_lost [OF s1(2)]) (rule op_postI, assumption, erule served_follows [OF s1(1)])
qed

lemma serve_fail_run:
  assumes t: "calm s t" "wf e t" and live: "scratch s \<noteq> None"
  shows "wp (fail_run e rid st) (\<lambda>_. op_post e OP_RUN rid s) t"
  unfolding fail_run_def
  apply (intro wps, rule wp_rollback_run_config [OF t(2)], intro wps)
  subgoal for ok s1
    apply (cases ok; simp)
     apply (rule wp_mono [OF calm_respond [OF calm_trans [OF t(1) calmI(2)] _ live]],
        assumption, assumption, intro wps, assumption)
    apply (rule wp_lose [OF calm_trans [OF t(1) calmI(2)] _ live]; assumption)
    done
  done

lemma ext_exists_trans: "\<exists>tr. ext s s1 tr \<Longrightarrow> \<exists>tr. ext s1 s2 tr \<Longrightarrow> \<exists>tr. ext s s2 tr"
  by (blast intro: ext_trans)

lemma served_ext: "served opc rid s s' \<Longrightarrow> \<exists>tr. ext s s' tr"
  by (auto simp: served_def)

lemma quiet_ext: "quiet s s' \<Longrightarrow> \<exists>tr. ext s s' tr"
  by (auto simp: quiet_def)

text \<open>The halt that follows an answer, and its event.\<close>

lemma wp_halt_served:
  assumes t: "served opc rid s t" "wf e t" "attached t" "state t \<noteq> TARGET_LOST" "stop_id t = stop_id s"
    and Q: "\<And>t'. op_post e opc rid s t' \<Longrightarrow> Q () t'"
  shows "wp (enter_halted e stop) Q t"
proof (rule serve_halted [OF t(2-4)])
  show "Q () s'" if "stop_id t = - 1" "wf e s'" "\<exists>tr. ext t s' tr" for s'
    using that t(5) ext_exists_trans [OF served_ext [OF t(1)] that(3)]
    by (intro Q) (simp add: op_post_def nowrap_def)
  show "Q () s'" if "stop_id t \<noteq> - 1" "wf e s'" "quiet t s'" "state s' = TARGET_HALTED"
      "stop_id s' = stop_id t + 1" for s'
    by (rule Q, rule op_postI [OF that(2)], rule served_follows [OF t(1)], rule silent_follows,
        rule halted_silent [OF that(1,3-5)])
qed

lemma wp_emit_post:
  assumes "op_post e opc rid s t"
  shows "wp (emit_pending_stopped e) (\<lambda>_. op_post e opc rid s) t"
proof (rule serve_emit)
  show "wf e t" using assms by (simp add: op_post_def)
  show "op_post e opc rid s s'" if "wf e s'" "follows t s'" for s'
    by (rule op_post_follows [OF assms that(2,1)])
qed

lemma op_post_reason: "op_post e opc rid s t \<Longrightarrow> op_post e opc rid s (t\<lparr>pending_reason := r\<rparr>)"
  by (rule op_post_follows, assumption, rule silent_follows)
    (auto simp: silent_def quiet_def ext_def mark_def op_post_def wf_def storage_ready_def idle_def
      intro!: exI [of _ "[]"])

lemma serve_resume_run:
  assumes t: "calm s t" "wf e t" and att: "attached s" and st: "state s \<noteq> TARGET_LOST"
  shows "wp (resume_run e rid req) (\<lambda>_. op_post e OP_RUN rid s) t"
proof -
  have scr: "scratch s \<noteq> None" using calmD [OF t(1)] wf_live [OF t(2)] att by simp
  have go: "wp (do {
      respond e OP_RUN rid STATUS_OK;
      (r, stop) \<leftarrow> b_poll_halted e no_stop;
      if r \<noteq> ESP_OK then
         enter_lost e (if r = ESP_ERR_TIMEOUT then TARGET_LOST_TIMEOUT else TARGET_LOST_SWD_FAULT)
       else if sd_halted stop then do { enter_halted e stop; emit_pending_stopped e }
       else return () }) (\<lambda>_. op_post e OP_RUN rid s) t1"
    if t1: "silent s t1" "wf e t1" "attached t1" "state t1 = TARGET_RUNNING" "stop_id t1 = stop_id s" for t1
    apply (intro wp_bind, rule silent_respond [OF t1(1,2) scr])
    apply (intro wp_bind, rule wp_calls(10), assumption)
    subgoal premises p for s2 a s3
    proof -
      have s3: "attached s3" "state s3 = TARGET_RUNNING" "stop_id s3 = stop_id s"
        using p t1 by (simp_all add: same_def cfg_def stopv_def kept_def)
      have sv: "served OP_RUN rid s s3"
        by (rule served_follows [OF p(1)], rule silent_follows, rule calm_silent, rule calmI, rule p)
      show ?thesis
        apply (intro wps)
          apply (rule serve_lost [OF p(5)])
           apply (use wf_live [OF p(5)] s3 in simp)
          apply (rule op_postI, assumption, erule served_follows [OF sv])
         apply (rule wp_halt_served [OF sv p(5)])
            apply (simp_all add: s3 wp_emit_post op_postI [OF p(5) sv])
        done
    qed
    done
  show ?thesis
    unfolding resume_run_def
    apply (intro wp_bind, rule wp_calls(2) [OF t(2)], intro wp_if wp_bind)
     apply (rule wp_lose [OF calm_trans [OF t(1) calmI(1)] _ scr]; assumption)
    subgoal premises p for a s1
    proof -
      have c: "calm s s1" by (rule calm_trans [OF t(1) calmI(1) [OF p(2)]])
      note d = calmD [OF c]
      let ?s2 = "s1\<lparr>running_action := rq_action req, run_to_active := (rq_action req = RUN_TO_ADDRESS),
         active_run_to_address := (if rq_action req = RUN_TO_ADDRESS then rq_run_to_address req else 0),
         state := TARGET_RUNNING\<rparr>"
      have "silent s1 ?s2"
        by (auto simp: silent_def quiet_def ext_def mark_def intro!: exI [of _ "[]"])
      then have "silent s ?s2" by (rule silent_trans [OF calm_silent [OF c]])
      moreover have "wf e ?s2" using p(1) d att by (auto simp: wf_def storage_ready_def idle_def)
      ultimately show ?thesis
        by (intro wp_modify go) (use d att in simp_all)
    qed
    done
qed


lemma serve_finish_run:
  assumes t: "calm s t" "wf e t" and att: "attached s" and st: "state s \<noteq> TARGET_LOST"
  shows "wp (finish_run e rid req step stop reason) (\<lambda>_. op_post e OP_RUN rid s) t"
proof -
  note d = calmD [OF t(1)]
  have scr: "scratch s \<noteq> None" using d wf_live [OF t(2)] att by simp
  show ?thesis
    unfolding finish_run_def
    apply (intro wp_if wp_bind)
       apply (rule wp_lose [OF t scr])
      apply (rule wp_rollback_run_config [OF t(2)])
      apply (intro wp_bind)
      subgoal for ok s1
        apply (cases ok; simp)
         apply (rule wp_mono [OF calm_respond [OF calm_trans [OF t(1) calmI(2)] _ scr]],
            assumption, assumption, intro wps, assumption)
        apply (rule wp_lose [OF calm_trans [OF t(1) calmI(2)] _ scr]; assumption)
        done
     apply (rule silent_respond [OF calm_silent [OF t(1)] t(2) scr])
     apply (intro wp_bind, rule wp_halt_served, assumption, assumption)
        apply (use d att st in \<open>simp_all add: same_def cfg_def stopv_def\<close>)[3]
     apply (intro wps; rule wp_emit_post; (rule op_post_reason)?; assumption)
    apply (rule serve_resume_run [OF t att st])
    done
qed

lemma serve_run:
  assumes wf: "wf e s" and att: "attached s" and st: "state s \<noteq> TARGET_LOST"
  shows "wp (op_run e rid payload) (\<lambda>_. op_post e OP_RUN rid s) s"
proof -
  note scr = wf_attached_live [OF wf att]
  show ?thesis
    unfolding op_run_def
    apply (intro wp_bind wp_get wp_expect wp_case_sum, rule wfD [OF wf])
     apply (rule calm_respond [OF calm_refl wf scr])
    apply (intro wp_case_prod wp_bind wp_expect)
     apply (simp add: validate_run_ok [OF wf])
    apply (rule wp_install_run_config [OF wf att])
      apply (simp add: validate_run_ok [OF wf])
     apply (simp add: validate_run_ok(4) [OF wf])
    apply (intro wp_case_option)
     apply (intro wp_bind, rule wp_execute_step_over, assumption, intro wp_case_prod)
     apply (rule serve_finish_run [OF calm_trans [OF calmI(2) calmI(3)] _ att st]; assumption)
    apply (rule serve_fail_run [OF calmI(2) _ scr]; assumption)
    done
qed

section \<open>RESET\<close>

lemma pre_trans: "pre e s t \<Longrightarrow> silent t t' \<Longrightarrow> wf e t' \<Longrightarrow> attached t' \<Longrightarrow> pre e s t'"
  by (auto simp: pre_def intro: ext_exists_trans silent_trans)
    (auto simp: silent_def intro: ext_exists_trans quiet_ext)

lemma pre_lose:
  assumes t: "pre e s t"
  shows "wp (respond e opc rid st) (\<lambda>_. wp (enter_lost e reason) (\<lambda>_. op_post e opc rid s)) t"
proof (rule serve_respond)
  show "wf e t" "scratch t \<noteq> None" using t wf_attached_live [of e t] by (simp_all add: pre_def)
  fix s1 assume s1: "wf e s1" "served opc rid t s1" "scratch s1 \<noteq> None"
  show "wp (enter_lost e reason) (\<lambda>_. op_post e opc rid s) s1"
    by (rule serve_lost [OF s1(1,3)])
      (rule op_post_pre [OF t served_follows [OF s1(2)]], assumption+)
qed

lemma serve_prepare_rollback:
  assumes t: "rdy e s t"
    and no: "\<And>s'. op_post e opc rid s s' \<Longrightarrow> Q False s'"
    and yes: "\<And>s'. rdy e s s' \<Longrightarrow> Q True s'"
  shows "wp (prepare_rollback e opc rid) Q t"
  unfolding prepare_rollback_def
proof (intro wp_bind, rule wp_rollback_run_config)
  show "wf e t" using t by (simp add: rdy_def pre_def)
  fix ok t'
  assume t': "wf e t'" "unrun t t'"
  have c: "calm t t'" by (rule calmI(2) [OF t'(2)])
  have r: "rdy e s t'"
    using t calmD [OF c] pre_trans [OF _ calm_silent [OF c] t'(1)] by (auto simp: rdy_def pre_def)
  then have p: "pre e s t'" by (simp add: rdy_def)
  show "wp (if \<not> ok then do {
       respond e opc rid STATUS_SWD_ERROR;
       enter_lost e TARGET_LOST_SWD_FAULT;
       return False } else return True) Q t'"
    by (intro wp_if wp_bind wp_mono [OF pre_lose [OF p]] wp_return yes r)
      (erule wp_mono, intro wps no)
qed

lemma serve_prepare_reset:
  assumes wf: "wf e s" and att: "attached s" and st: "state s \<noteq> TARGET_LOST"
    and no: "\<And>s'. op_post e opc rid s s' \<Longrightarrow> Q False s'"
    and yes: "\<And>s'. rdy e s s' \<Longrightarrow> Q True s'"
  shows "wp (prepare_reset e opc rid) Q s"
proof -
  have s: "pre e s s" using wf att ext_refl silent_trans by (auto simp: pre_def calm_silent calm_refl)
  show ?thesis
    unfolding prepare_reset_def
    apply (intro wp_bind wp_get wp_if)
     apply (rule wp_calls(11) [OF wf], intro wp_case_prod wp_if wp_bind)
      apply (rule silent_failure [OF calm_silent [OF calmI(1)] _ wf_attached_live [OF wf att]],
          assumption, assumption, intro wps no, erule (1) op_postI [rotated])
     apply (rule wp_enter_rdy [OF calmI(1)], assumption, assumption, rule att, rule st)
     apply (rule serve_prepare_rollback, assumption, erule no, erule yes)
    apply (rule serve_prepare_rollback [of e s s], use s in \<open>simp add: rdy_def\<close>, erule no, erule yes)
    done
qed


lemma rdy_kept:
  assumes t: "rdy e s t" and k: "kept t t'" and wf: "wf e t'"
  shows "rdy e s t'"
proof -
  have c: "calm t t'" by (rule calmI(1) [OF k])
  have "pre e s t'"
    by (rule pre_trans [OF _ calm_silent [OF c] wf])
      (use t calmD [OF c] in \<open>simp_all add: rdy_def pre_def\<close>)
  then show ?thesis using t calmD [OF c] by (simp add: rdy_def)
qed

definition cleared :: "'w session \<Rightarrow> 'w session" where
  "cleared s = exec_st (do { clear_debug_state; clear_run_tracking }) s"

lemma cleared_simps:
  "state (cleared s) = state s" "stop_id (cleared s) = stop_id s" "attached (cleared s) = attached s"
  "quiet s (cleared s)" "wf e s \<Longrightarrow> wf e (cleared s)"
  by (auto simp: cleared_def exec_st_def clear_debug_state_def clear_run_tracking_def quiet_def
      ext_def wf_def storage_ready_def idle_def intro!: exI [of _ "[]"])

lemma wp_clear:
  "wp (m ()) Q (cleared s) \<Longrightarrow> wp clear_debug_state (\<lambda>_. wp (clear_run_tracking \<bind> m) Q) s"
  by (simp add: wp_def cleared_def exec_st_def result_st_def clear_debug_state_def
      clear_run_tracking_def)

text \<open>After a reset the target is halted again under the next generation.\<close>

lemma wp_reset_halted:
  assumes t: "rdy e s t"
    and Q: "\<And>t'. pre e s t' \<Longrightarrow> Q () t'"
  shows "wp (enter_halted e stop) Q (cleared t)"
proof (cases "state t = TARGET_LOST")
  case True
  then have "\<not> nowrap s" using t by (auto simp: rdy_def)
  then have "pre e s (cleared t)"
    using t ext_exists_trans [OF _ quiet_ext [OF cleared_simps(4)]]
    by (auto simp: rdy_def pre_def cleared_simps)
  then show ?thesis
    unfolding enter_halted_def using True by (intro wps Q) (simp_all add: cleared_simps)
next
  case False
  have c: "wf e (cleared t)" "attached (cleared t)" "quiet t (cleared t)"
    "state (cleared t) = state t" "stop_id (cleared t) = stop_id t" "\<exists>tr. ext s t tr"
    using t by (simp_all add: rdy_def pre_def cleared_simps)
  have e: "\<exists>tr. ext s t' tr" if "\<exists>tr. ext (cleared t) t' tr" for t'
    by (rule ext_exists_trans [OF c(6) ext_exists_trans [OF quiet_ext [OF c(3)] that]])
  show ?thesis
  proof (rule serve_halted [OF c(1,2)])
    show "Q () s'" if "stop_id (cleared t) = - 1" "wf e s'" "\<exists>tr. ext (cleared t) s' tr"
      "cfg s' = cfg (cleared t)" for s'
    proof -
      have "\<not> nowrap s"
      proof
        assume n: "nowrap s"
        then have "stop_id s = - 1 \<or> stop_id s + 1 = - 1"
          using t that(1) by (auto simp: rdy_def cleared_simps)
        moreover have "stop_id s = - 2" if "stop_id s + 1 = - 1"
          using that by (simp add: eq_diff_eq [symmetric])
        ultimately show False using n by (auto simp: nowrap_def)
      qed
      then show ?thesis
        using that e [OF that(3)] c by (intro Q) (simp add: pre_def cfg_def)
    qed
    show "Q () s'" if "stop_id (cleared t) \<noteq> - 1" "wf e s'" "quiet (cleared t) s'"
      "cfg s' = cfg (cleared t)" "state s' = TARGET_HALTED" "stop_id s' = stop_id (cleared t) + 1" for s'
    proof -
      have "silent t s'"
        by (rule halted_silent) (use that c quiet_trans [OF c(3) that(3)] in simp_all)
      moreover have "pre e s t" using t by (simp add: rdy_def)
      moreover have "attached s'" using that(4) c by (simp add: cfg_def)
      ultimately show ?thesis by (intro Q) (rule pre_trans [OF _ _ that(2)])
    qed
  qed (use False c in simp)
qed

lemma pre_reason: "pre e s t \<Longrightarrow> pre e s (t\<lparr>pending_reason := r\<rparr>)"
  by (rule pre_trans, assumption) (auto simp: pre_def silent_def quiet_def ext_def mark_def wf_def
      storage_ready_def idle_def intro!: exI [of _ "[]"])

lemma pre_answer_emit:
  assumes t: "pre e s t"
  shows "wp (respond e opc rid st) (\<lambda>_. wp (emit_pending_stopped e) (\<lambda>_. op_post e opc rid s)) t"
proof (rule serve_respond)
  show "wf e t" "scratch t \<noteq> None" using t wf_attached_live [of e t] by (simp_all add: pre_def)
  fix s1 assume s1: "wf e s1" "served opc rid t s1"
  show "wp (emit_pending_stopped e) (\<lambda>_. op_post e opc rid s) s1"
    by (rule wp_emit_post, rule op_post_pre [OF t s1(2,1)])
qed

lemma serve_reset_halt:
  assumes wf: "wf e s" and att: "attached s" and st: "state s \<noteq> TARGET_LOST"
  shows "wp (op_reset_halt e rid payload) (\<lambda>_. op_post e OP_RESET_HALT rid s) s"
  unfolding op_reset_halt_def reset_failed_def
  apply (intro wp_bind wp_get wp_case_option)
   apply (rule serve_prepare_reset [OF wf att st], simp, rule wp_return, assumption)
   apply (simp only: not_True_eq_False if_False, intro wp_bind)
   apply (rule wp_calls(9), simp add: rdy_def pre_def)
   apply (intro wp_case_prod wp_if wp_bind)
    apply (rule pre_lose, drule (2) rdy_kept, simp add: rdy_def)
   apply (rule wp_clear, intro wp_bind, rule wp_reset_halted, erule (2) rdy_kept)
   apply (intro wp_bind wp_modify, rule pre_answer_emit, erule pre_reason)
  apply (rule calm_respond [OF calm_refl wf wf_attached_live [OF wf att]])
  done

lemma serve_reset_run:
  assumes wf: "wf e s" and att: "attached s" and st: "state s \<noteq> TARGET_LOST"
  shows "wp (op_reset_run e rid payload) (\<lambda>_. op_post e OP_RESET_RUN rid s) s"
proof -
  have run: "pre e s ((cleared t)\<lparr>state := TARGET_RUNNING\<rparr>)" if "rdy e s t" for t
  proof (rule pre_trans [of e s t])
    show "pre e s t" using that by (simp add: rdy_def)
    show "attached ((cleared t)\<lparr>state := TARGET_RUNNING\<rparr>)"
      "wf e ((cleared t)\<lparr>state := TARGET_RUNNING\<rparr>)"
      using that by (auto intro!: wf_state simp: rdy_def pre_def cleared_simps)
    have "quiet (cleared t) ((cleared t)\<lparr>state := TARGET_RUNNING\<rparr>)"
      by (auto simp: quiet_def ext_def intro!: exI [of _ "[]"])
    then have "quiet t ((cleared t)\<lparr>state := TARGET_RUNNING\<rparr>)"
      by (rule quiet_trans [OF cleared_simps(4)])
    then show "silent t ((cleared t)\<lparr>state := TARGET_RUNNING\<rparr>)"
      by (simp add: silent_def mark_def cleared_simps)
  qed
  have fin: "wp (respond e OP_RESET_RUN rid st) (\<lambda>_. op_post e OP_RESET_RUN rid s) t"
    if "pre e s t" for t st
    by (rule serve_respond; (rule op_post_pre [OF that], assumption, assumption)?)
      (use that wf_attached_live [of e t] in \<open>simp_all add: pre_def\<close>)
  show ?thesis
    unfolding op_reset_run_def reset_failed_def
    apply (intro wp_bind wp_get wp_case_option)
     apply (rule serve_prepare_reset [OF wf att st], simp, rule wp_return, assumption)
     apply (simp only: not_True_eq_False if_False, intro wp_bind)
     apply (rule wp_calls(9), simp add: rdy_def pre_def)
     apply (intro wp_case_prod wp_if wp_bind)
      apply (rule pre_lose, drule (2) rdy_kept, simp add: rdy_def)
     apply (rule wp_clear, intro wp_bind wp_modify, rule fin, rule run, erule (2) rdy_kept)
    apply (rule calm_respond [OF calm_refl wf wf_attached_live [OF wf att]])
    done
qed

end
