(* ===== verification/Session_Main.thy ===== *)
theory Session_Main
  imports Session_Serve_Run
begin

text \<open>
  The whole request path: every accepted request is served (\<open>serve_accepted\<close>), every entry point
  preserves \<open>wf\<close>, and \<open>reachable\<close> is the set of states a caller can drive a session into, in any
  order of calls and with an environment that may change between them.
\<close>

section \<open>Accepted requests\<close>

definition accepted :: "bytes \<Rightarrow> bool" where
  "accepted m \<longleftrightarrow> is_valid_message_size (length m) \<and>
     hdr_version (dec_msg_header m) = PROTOCOL_VERSION \<and>
     hdr_kind (dec_msg_header m) = KIND_REQUEST \<and> hdr_request_id (dec_msg_header m) \<noteq> 0"

abbreviation (input) opcode_of :: "bytes \<Rightarrow> u16" where
  "opcode_of m \<equiv> hdr_opcode (dec_msg_header m)"

abbreviation (input) request_of :: "bytes \<Rightarrow> u32" where
  "request_of m \<equiv> hdr_request_id (dec_msg_header m)"

definition handle_accepted :: "'w env \<Rightarrow> u16 \<Rightarrow> u32 \<Rightarrow> bytes \<Rightarrow> ('w session, unit) st" where
  "handle_accepted e opc rid payload = do {
     s \<leftarrow> State_Monad.get;
     case gate_column opc of
           None \<Rightarrow> respond e opc rid
             (if state s = TARGET_LOST then STATUS_TARGET_LOST else STATUS_UNSUPPORTED)
         | Some column \<Rightarrow>
             (case gate_status (GATE_TABLE (state s) column) of
                Some st \<Rightarrow> respond e opc rid st
              | None \<Rightarrow> dispatch e opc rid payload)
   }"

lemma handle_request_accepted:
  assumes "\<not> transport_dead s" "accepted m"
  shows "run_state (handle_request e m) s =
    run_state (handle_accepted e (opcode_of m) (request_of m) (drop 12 m)) s"
  using assms by (simp add: handle_request_def handle_accepted_def accepted_def Let_def)

lemma handle_request_ignored:
  assumes "transport_dead s \<or> \<not> accepted m"
  shows "run_state (handle_request e m) s = ((), s)"
  using assms by (auto simp: handle_request_def accepted_def Let_def)

lemma gate_statusD: "gate_status g = None \<Longrightarrow> g = ALLOW"
  by (cases g) simp_all

lemma gate_allow:
  assumes "gate_column opc = Some c" "GATE_TABLE st c = ALLOW"
  shows "opc = OP_GET_STATE \<or> (opc = OP_ATTACH \<and> st = TARGET_DETACHED) \<or>
    (opc \<noteq> OP_ATTACH \<and> (st = TARGET_HALTED \<or> st = TARGET_RUNNING))"
  using assms by (cases st; cases c) (auto simp: gate_column_def split: if_splits)

lemma wf_attached_state: "wf e s \<Longrightarrow> state s = TARGET_HALTED \<or> state s = TARGET_RUNNING \<Longrightarrow> attached s"
  by (auto simp: wf_def)

definition rises :: "u16 \<Rightarrow> bool" where
  "rises opc \<longleftrightarrow> opc \<noteq> OP_ATTACH \<and> opc \<noteq> OP_DETACH"

lemma serve_accepted:
  assumes wf: "wf e s" and live: "scratch s \<noteq> None"
  shows "wp (handle_accepted e opc rid payload)
    (\<lambda>_ s'. if rises opc then op_post e opc rid s s' else replied e opc rid s s') s"
proof -
  have simple: "wp (respond e opc rid st) (\<lambda>_ s'. if rises opc then op_post e opc rid s s'
      else replied e opc rid s s') s" for st
    by (rule serve_respond [OF wf live]) (auto intro: op_postI served_replied)
  have att: "wp (dispatch e opc rid payload) (\<lambda>_. op_post e opc rid s) s"
    if "rises opc" "opc \<noteq> OP_GET_STATE" "gate_column opc = Some c" "attached s" "state s \<noteq> TARGET_LOST" for c
    using that unfolding dispatch_def rises_def gate_column_def
    by (auto intro: serve_read_memory [OF wf live] serve_write_memory [OF wf live]
        serve_read_registers [OF wf live] serve_write_registers [OF wf live]
        serve_run [OF wf] serve_halt [OF wf] serve_reset_halt [OF wf] serve_reset_run [OF wf]
        split: if_splits)
  show ?thesis
    unfolding handle_accepted_def
  proof (intro wps simple)
    fix c assume c: "gate_column opc = Some c" "gate_status (GATE_TABLE (state s) c) = None"
    note a = gate_allow [OF c(1) gate_statusD [OF c(2)]]
    show "wp (dispatch e opc rid payload) (\<lambda>_ s'. if rises opc then op_post e opc rid s s'
      else replied e opc rid s s') s"
    proof (cases "opc = OP_GET_STATE \<or> opc = OP_ATTACH \<or> opc = OP_DETACH")
      case True
      then show ?thesis
        using a serve_get_state [OF wf live] serve_attach [OF wf live] serve_detach [OF wf live]
        by (auto simp: dispatch_def rises_def)
    next
      case False
      then show ?thesis
        using a att [OF _ _ c(1)] wf_attached_state [OF wf] by (auto simp: rises_def)
    qed
  qed
qed

text \<open>A session that was never initialised, or lost its buffers, answers nothing.\<close>

lemma serve_uninitialised:
  assumes wf: "wf e s" and dead: "scratch s = None"
  shows "wp (handle_accepted e opc rid payload) (\<lambda>_ s'. wf e s') s"
proof -
  have idle: "state s = TARGET_DETACHED" "\<not> attached s" "\<not> storage_ready e s"
    using wf dead by (auto simp: wf_def idle_def storage_ready_def)
  have simple: "wp (respond e opc rid st) (\<lambda>_ s'. wf e s') s" for opc rid st
    by (rule wp_respond [OF wf])
  show ?thesis
    unfolding handle_accepted_def
  proof (intro wps simple)
    fix c assume c: "gate_column opc = Some c" "gate_status (GATE_TABLE (state s) c) = None"
    note a = gate_allow [OF c(1) gate_statusD [OF c(2)]]
    have "wp (op_attach e rid payload) (\<lambda>_ s'. wf e s') s"
      unfolding op_attach_def by (intro wps simple) (use idle in simp)+
    moreover have "wp (op_get_state e rid payload) (\<lambda>_ s'. wf e s') s"
      unfolding op_get_state_def
      by (intro wps simple wp_begin_frame) (use wf dead in \<open>simp_all\<close>)
    ultimately show "wp (dispatch e opc rid payload) (\<lambda>_ s'. wf e s') s"
      using a idle by (auto simp: dispatch_def)
  qed
qed

lemma op_post_wf: "op_post e opc rid s s' \<Longrightarrow> wf e s'"
  by (simp add: op_post_def)

lemma replied_wf: "replied e opc rid s s' \<Longrightarrow> wf e s'"
  by (simp add: replied_def)

lemma wf_handle_request: "wf e s \<Longrightarrow> wf e (exec_st (handle_request e m) s)"
proof (cases "\<not> transport_dead s \<and> accepted m")
  case True
  assume wf: "wf e s"
  have "wp (handle_accepted e (opcode_of m) (request_of m) (drop 12 m)) (\<lambda>_ s'. wf e s') s"
  proof (cases "scratch s = None")
    case False
    show ?thesis
      by (rule wp_mono [OF serve_accepted [OF wf False]])
        (auto dest: op_post_wf replied_wf split: if_splits)
  qed (rule serve_uninitialised [OF wf])
  then show ?thesis
    using True handle_request_accepted [of s m e] by (simp add: wp_def exec_st_def)
next
  case False
  assume "wf e s"
  then show ?thesis using False handle_request_ignored [of s m e] by (auto simp: exec_st_def)
qed

section \<open>Polling and initialisation\<close>

lemma serve_poll:
  assumes wf: "wf e s"
  shows "wp (handle_poll e) (\<lambda>_ s'. wf e s' \<and> (\<exists>tr. ext s s' tr) \<and>
    (stop_id s \<noteq> - 1 \<longrightarrow> follows s s')) s" (is "wp _ ?Q s")
proof -
  have calm: "?Q () t" if "calm s t" "wf e t" for t
    using that silent_follows [OF calm_silent] quiet_ext by (auto simp: calm_def)
  have after: "?Q () t'" if "calm s t" "wf e t'" "follows t t'" for t t'
  proof -
    have "follows s t'" by (rule follows_trans [OF silent_follows [OF calm_silent [OF that(1)]] that(3)])
    then show ?thesis using that(2) by (auto simp: follows_def)
  qed
  have halt: "wp (enter_halted e stop) (\<lambda>_. wp (emit_pending_stopped e) ?Q) t"
    if c: "calm s t" and t: "wf e t" "attached t" "state t = TARGET_RUNNING" for t stop
  proof (cases "stop_id t = - 1")
    case False
    then show ?thesis
      by (intro follow_halted [OF t(1,2)] after [OF c]) (use t in simp_all)
  next
    case True
    have id: "stop_id s = - 1" using True calmD [OF c] by simp
    have "\<exists>tr. ext s t tr" using c by (auto simp: calm_def intro: quiet_ext)
    then have fin: "?Q () t'" if "wf e t'" "\<exists>tr. ext t t' tr" for t'
      using that id ext_exists_trans by blast
    show ?thesis
      apply (rule serve_halted [OF t(1,2)])
        apply (use t in simp)
       subgoal for s1
         apply (erule serve_emit, rule fin, assumption)
         apply (erule ext_exists_trans, auto simp: follows_def)
         done
      apply (use True in simp)
      done
  qed
  show ?thesis
    unfolding handle_poll_def
    apply (intro wp_bind wp_get wp_if wp_return)
     apply (rule calm [OF calm_refl wf])
    apply (rule wp_calls(10) [OF wf], intro wp_case_prod wp_if wp_bind)
      apply (rule serve_lost, assumption)
       apply (rule wf_live, assumption, simp add: kept_def cfg_def)
      apply (rule after [OF calmI(1)], assumption, assumption, assumption)
     apply (rule halt, erule calmI, assumption, simp add: kept_def cfg_def, simp add: kept_def)
    apply (rule wp_return, rule calm [OF calmI(1)], assumption, assumption)
    done
qed

lemma wp_calloc:
  "(\<And>ok w. Q ok (s\<lparr>world := w\<rparr>)) \<Longrightarrow> wp (calloc e n) Q s"
  by (simp add: wp_def calloc_def exec_st_def result_st_def split: prod.splits)

lemma wp_init:
  assumes wf: "wf e s"
  shows "wp (init e) (\<lambda>r s'. wf e s' \<and> (r = ESP_OK \<longrightarrow> storage_ready e s') \<and>
    (r = ESP_ERR_NO_MEM \<longrightarrow> scratch s' = None)) s"
proof -
  have fields: "\<not> ub s" "length (hw_breakpoint_ids s) = 16" "hw_count s \<le> 16"
    "hardware_breakpoint_limit s \<le> 16" "hardware_watchpoint_limit s \<le> 16"
    "max_memory_transfer s \<le> MAX_MEMORY_TRANSFER" "tx_frame_size s \<le> 8192" "list_all act_ok (trace s)"
    using wf by (simp_all add: wf_def)
  show ?thesis
  proof (cases "storage_ready e s \<or> env_tx_sink e = None")
    case True
    then show ?thesis
      unfolding init_def by (intro wps) (use wf in simp_all)
  next
    case False
    then have sink: "env_tx_sink e \<noteq> None" and nr: "\<not> storage_ready e s" by simp_all
    have idle: "\<not> attached s" "state s = TARGET_DETACHED" "region_count s = 0" "sw_count s = 0"
      "pending_registers_size s = 0" "pending_stack_size s = 0" "scratch s = None"
      using wf nr by (auto simp: wf_def idle_def)
    note defs = wf_def storage_ready_def idle_def table_ok_def sw_bp_zero_def
    show ?thesis
      unfolding init_def no_memory_def release_storage_def
      apply (intro wp_bind wp_get wp_if)
        apply (use False in simp)
       apply (use False in simp)
      apply (intro wps wp_calloc)
          apply (simp add: defs fields idle)
         apply (simp add: defs fields idle)
        apply (simp add: defs fields idle)
       apply (simp add: defs fields idle)
      apply (use sink in \<open>simp add: defs fields idle\<close>)
      done
  qed
qed

section \<open>Reachable states\<close>

inductive reachable :: "'w env \<Rightarrow> 'w session \<Rightarrow> bool" for e where
  reach_new: "reachable e (new_session w)"
| reach_world: "reachable e s \<Longrightarrow> reachable e (s\<lparr>world := w\<rparr>)"
| reach_init: "reachable e s \<Longrightarrow> reachable e (exec_st (init e) s)"
| reach_request: "reachable e s \<Longrightarrow> reachable e (exec_st (handle_request e m) s)"
| reach_poll: "reachable e s \<Longrightarrow> reachable e (exec_st (handle_poll e) s)"
| reach_disconnect: "reachable e s \<Longrightarrow> reachable e (exec_st (handle_disconnect e) s)"

lemma wf_handle_poll: "wf e s \<Longrightarrow> wf e (exec_st (handle_poll e) s)"
  by (rule exec_stD, rule wp_mono [OF serve_poll]) simp_all

lemma wf_handle_disconnect: "wf e s \<Longrightarrow> wf e (exec_st (handle_disconnect e) s)"
  by (rule exec_stD, rule wp_handle_disconnect) simp_all

lemma wf_init: "wf e s \<Longrightarrow> wf e (exec_st (init e) s)"
  by (rule exec_stD, rule wp_mono [OF wp_init]) simp_all

lemma wf_reachable: "reachable e s \<Longrightarrow> wf e s"
proof (induction rule: reachable.induct)
  case (reach_world s w)
  then show ?case by (simp add: wf_def storage_ready_def idle_def)
qed (simp_all add: wf_new_session wf_init wf_handle_request wf_handle_poll wf_handle_disconnect)

end
