(* ===== verification/Session_Specs.thy ===== *)
theory Session_Specs
  imports Session_Main
begin

text \<open>
  Functional specifications of the session's routines on data: the register blob
  (\<open>normalize_pc_in_register_blob\<close>, the entry list of \<open>op_write_registers\<close>), the stack window of a
  snapshot, and the ATTACH description.
\<close>

section \<open>Register blobs and the stack window\<close>

lemma drop_splice_after:
  "off + length bs \<le> k \<Longrightarrow> off + length bs \<le> length buf \<Longrightarrow>
   drop k (splice off bs buf) = drop k buf"
  by (simp add: splice_def)

lemma walk_entries_drop:
  "drop off bs' = drop off bs \<Longrightarrow> walk_entries bs' sz off = walk_entries bs sz off"
proof (induction bs sz off rule: walk_entries.induct)
  case (1 bs sz offset)
  have s: "slice offset 4 bs' = slice offset 4 bs" using "1.prems" by (simp add: slice_def)
  have d: "drop (offset + k) bs' = drop (offset + k) bs" for k
    using "1.prems" by (metis add.commute drop_drop)
  show ?case
    using "1.IH" [OF _ refl refl _ d] s
    by (subst (1 2) walk_entries.simps) (simp add: Let_def)
qed

lemma walk_entries_splice:
  "(o', en) \<in> set (walk_entries bs sz off) \<Longrightarrow> length v \<le> unat (rv_value_size en) \<Longrightarrow>
   sz \<le> length bs \<Longrightarrow>
   off \<le> o' \<and> walk_entries (splice (o' + 4) v bs) sz off = walk_entries bs sz off"
proof (induction bs sz off rule: walk_entries.induct)
  case (1 bs sz offset)
  let ?en = "dec_register_value (slice offset 4 bs)"
  let ?next = "offset + (4 + unat (rv_value_size ?en))"
  let ?bs = "splice (o' + 4) v bs"
  have fit: "offset + 4 \<le> sz" and nx: "?next \<le> sz"
    using "1.prems"(1) by (subst (asm) walk_entries.simps; force simp: Let_def split: if_splits)+
  have w: "walk_entries bs sz offset = (offset, ?en) # walk_entries bs sz ?next"
    using fit nx by (subst walk_entries.simps) (simp add: Let_def)
  have step: "walk_entries ?bs sz offset = (offset, ?en) # walk_entries ?bs sz ?next"
    if "slice offset 4 ?bs = slice offset 4 bs"
    using fit nx that by (subst walk_entries.simps) (simp add: Let_def)
  consider (here) "o' = offset" "en = ?en" | (later) "(o', en) \<in> set (walk_entries bs sz ?next)"
    using "1.prems"(1) w by auto
  then show ?case
  proof cases
    case here
    have b: "offset + 4 + length v \<le> length bs" using here nx "1.prems" by simp
    then have "slice offset 4 ?bs = slice offset 4 bs"
      using here by (intro slice_splice_disjoint) auto
    moreover have "walk_entries ?bs sz ?next = walk_entries bs sz ?next"
      by (rule walk_entries_drop, rule drop_splice_after) (use here b "1.prems"(2) in simp_all)
    ultimately show ?thesis using here step w by simp
  next
    case later
    have IH: "?next \<le> o' \<and> walk_entries ?bs sz ?next = walk_entries bs sz ?next"
      by (rule "1.IH" [OF fit refl refl _ later "1.prems"(2,3)]) (use nx in simp)
    have "o' + 4 + unat (rv_value_size en) \<le> sz"
      using walk_entries_bound later by blast
    then have "slice offset 4 ?bs = slice offset 4 bs"
      using IH "1.prems" by (intro slice_splice_disjoint) auto
    then show ?thesis using step w IH by simp
  qed
qed


text \<open>C38. While a step over a software breakpoint is pending, the register blob that leaves the
  session has the breakpoint's address as the value of its first available 32-bit PC entry; every
  other byte, and so the list of entries, is as the backend returned it, and a blob without such
  an entry is unchanged.\<close>

theorem normalize_pc_spec:
  assumes "sz \<le> length data"
  shows "let out = normalize_pc_in_register_blob True address data sz in
    length out = length data \<and> walk_entries out sz 0 = walk_entries data sz 0 \<and>
    (case List.find (\<lambda>(_, entry). is_pc_entry entry) (walk_entries data sz 0) of
       None \<Rightarrow> out = data
     | Some (offset, _) \<Rightarrow> entry_value32 out offset = ucast address \<and>
         take (offset + 4) out = take (offset + 4) data \<and> drop (offset + 8) out = drop (offset + 8) data)"
proof (cases "List.find (\<lambda>(_, entry). is_pc_entry entry) (walk_entries data sz 0)")
  case None
  then show ?thesis by (simp add: normalize_pc_in_register_blob_def)
next
  case (Some x)
  obtain off entry where x: "x = (off, entry)" by force
  have mem: "(off, entry) \<in> set (walk_entries data sz 0)" "rv_value_size entry = 4"
    using find_Some_in [OF Some] by (auto simp: x is_pc_entry_def)
  have fit: "off + 8 \<le> length data"
    using walk_entries_bound [OF mem(1)] mem(2) assms by simp
  let ?out = "splice (off + 4) (le_bytes 4 (ucast address :: u32)) data"
  have out: "normalize_pc_in_register_blob True address data sz = ?out"
    by (simp add: normalize_pc_in_register_blob_def Some x)
  have "walk_entries ?out sz 0 = walk_entries data sz 0"
    using walk_entries_splice [OF mem(1) _ assms, of "le_bytes 4 (ucast address :: u32)"] mem(2)
    by simp
  moreover have "entry_value32 ?out off = ucast address"
    using fit slice_splice_same [of "off + 4" "le_bytes 4 (ucast address :: u32)" data]
    by (simp add: entry_value32_def)
  moreover have "take (off + 4) ?out = take (off + 4) data" "drop (off + 8) ?out = drop (off + 8) data"
    using fit by (simp add: splice_def, intro drop_splice_after) simp_all
  ultimately show ?thesis
    using fit unfolding Let_def out by (simp add: Some x)
qed

theorem normalize_pc_spec_witness:
  "entry_value32 (normalize_pc_in_register_blob True 0x20000100 [15, 0, 4, 0, 9, 9, 9, 9] 8) 0 = 0x20000100"
proof -
  have "walk_entries [15, 0, 4, 0, 9, 9, 9, 9] 8 0 = [(0, \<lparr>rv_register_id = 15, rv_value_size = 4, rv_flags = 0\<rparr>)]"
    by (simp add: walk_entries.simps dec_register_value_def slice_def)
  then show ?thesis
    using normalize_pc_spec [of 8 "[15, 0, 4, 0, 9, 9, 9, 9]" "0x20000100"]
    by (simp add: Let_def is_pc_entry_def)
qed

text \<open>The stack snapshot window of a 32-bit stack pointer is never empty, lies inside the
  readable RAM region found for it, contains the stack pointer, and reaches at most 64 bytes
  below and 512 bytes above it.\<close>

theorem stack_window_spec:
  fixes sp :: u32
  assumes "stack_region rs (ucast sp) = Some r"
  shows "r \<in> set rs \<and> mr_type r = MEMORY_RAM \<and> mr_flags r AND MEM_READ \<noteq> 0 \<and>
    (case stack_window r (ucast sp) of None \<Rightarrow> False
     | Some (a, b) \<Rightarrow> unat (mr_start r) \<le> unat a \<and> unat a \<le> unat sp \<and> unat sp < unat b \<and>
         unat b \<le> unat (mr_start r) + unat (mr_length r) \<and>
         unat sp - unat a \<le> 64 \<and> unat b - unat sp \<le> 512)"
proof -
  let ?sp = "ucast sp :: u64"
  have r: "r \<in> set rs" "mr_type r = MEMORY_RAM" "mr_flags r AND MEM_READ \<noteq> 0" "\<not> region_wraps r"
    "mr_start r \<le> ?sp" "?sp < mr_start r + mr_length r"
    using find_Some_in [OF assms [unfolded stack_region_def]] by auto
  have u: "unat ?sp = unat sp" by (simp add: unat_ucast_up)
  have sp: "unat sp < 2 ^ 32" using unsigned_less [of sp] by simp
  have lim: "unat (mr_start r + mr_length r) = unat (mr_start r) + unat (mr_length r)"
    using r(4) by (intro unat_sum_fits) (simp add: region_wraps_iff)
  have s: "unat (?sp + 512) = unat sp + 512"
    using sp by (subst unat_word_ariths) (simp add: u)
  have d: "unat (?sp - 64) = unat sp - 64" if "64 < unat sp"
    using that by (subst unat_sub) (simp_all add: u word_le_nat_alt)
  have "unat (mr_start r) \<le> unat sp" "unat sp < unat (mr_start r) + unat (mr_length r)"
    using r(5,6) by (simp_all add: word_le_nat_alt word_less_nat_alt u lim)
  with r(1-3) show ?thesis
    by (auto simp: stack_window_def Let_def word_less_nat_alt word_le_nat_alt u s lim d)
qed

theorem stack_window_spec_witness:
  "case stack_window \<lparr>mr_start = 0x20000000, mr_length = 0x10000, mr_type = MEMORY_RAM, mr_flags = 7,
     mr_reserved = 0\<rparr> (ucast (0x20000010 :: u32)) of
     None \<Rightarrow> False | Some (a, b) \<Rightarrow> 0x20000000 \<le> unat a \<and> unat a \<le> 0x20000010"
proof -
  let ?r = "\<lparr>mr_start = 0x20000000, mr_length = 0x10000, mr_type = MEMORY_RAM, mr_flags = 7,
     mr_reserved = 0\<rparr>"
  have "stack_region [?r] (ucast (0x20000010 :: u32)) = Some ?r"
    by (simp add: stack_region_def region_wraps_def)
  from stack_window_spec [OF this] show ?thesis by (auto split: option.splits)
qed


section \<open>The ATTACH description\<close>

abbreviation (input) has_cap :: "attach_info \<Rightarrow> u32 \<Rightarrow> bool" where
  "has_cap info cap \<equiv> ai_capabilities info AND cap \<noteq> 0"

lemma bit_strip_if: "bit (strip_if u c x) k \<longleftrightarrow> bit x k \<and> \<not> (bit c k \<and> u)"
proof -
  have "\<not> (bit x k \<and> bit c k)" if "x AND c = 0"
    using that by (metis bit_and_iff bit_0_eq bot_fun_def bot_bool_def)
  then show ?thesis
    by (auto simp: strip_if_def bit_and_iff bit_not_iff dest: bit_imp_le_length)
qed

lemma cap_bit: "x AND 2 ^ k = 0 \<longleftrightarrow> \<not> bit x k" for x :: u32
  by (rule and_exp_eq_0_iff_not_bit)

lemma cap_bits:
  "x AND 4 = 0 \<longleftrightarrow> \<not> bit x 2" "x AND 8 = 0 \<longleftrightarrow> \<not> bit x 3" "x AND 16 = 0 \<longleftrightarrow> \<not> bit x 4"
  "x AND 32 = 0 \<longleftrightarrow> \<not> bit x 5" "x AND 64 = 0 \<longleftrightarrow> \<not> bit x 6" "x AND 4096 = 0 \<longleftrightarrow> \<not> bit x 12"
  "x AND 1024 = 0 \<longleftrightarrow> \<not> bit x 10" "x AND 2048 = 0 \<longleftrightarrow> \<not> bit x 11" for x :: u32
  using cap_bit [of x 2] cap_bit [of x 3] cap_bit [of x 4] cap_bit [of x 5] cap_bit [of x 6]
    cap_bit [of x 12] cap_bit [of x 10] cap_bit [of x 11] by simp_all

lemma reset_bits: "x AND 3072 = 0 \<longleftrightarrow> \<not> bit x 10 \<and> \<not> bit x 11" for x :: u32
proof -
  have "x AND 3072 = (x AND 1024) OR (x AND 2048)"
    by (simp flip: bit.conj_disj_distrib)
  then show ?thesis by (simp add: cap_bits or_eq_0_iff)
qed

lemma exp_bit: "bit (2 ^ j :: u32) k \<longleftrightarrow> k = j \<and> j < 32"
  by (auto simp: bit_exp_iff)

lemma handled_bits: "bit HANDLED_CAPABILITIES k \<longleftrightarrow> k \<in> {0, 2, 3, 4, 5, 6, 9, 10, 11, 12}"
proof -
  have "HANDLED_CAPABILITIES = 2 ^ 0 OR 2 ^ 2 OR 2 ^ 3 OR 2 ^ 4 OR 2 ^ 5 OR 2 ^ 6 OR 2 ^ 9 OR
      2 ^ 10 OR 2 ^ 11 OR 2 ^ 12"
    by (simp add: HANDLED_CAPABILITIES_def)
  then have "bit HANDLED_CAPABILITIES k \<longleftrightarrow> bit (2 ^ 0 OR 2 ^ 2 OR 2 ^ 3 OR 2 ^ 4 OR 2 ^ 5 OR 2 ^ 6 OR
      2 ^ 9 OR 2 ^ 10 OR 2 ^ 11 OR 2 ^ 12 :: u32) k" by (rule arg_cong)
  then show ?thesis
    unfolding bit_or_iff exp_bit by (simp only: insert_iff empty_iff) auto
qed

lemma single_bits: "bit (4 :: u32) k \<longleftrightarrow> k = 2" "bit (8 :: u32) k \<longleftrightarrow> k = 3" "bit (16 :: u32) k \<longleftrightarrow> k = 4"
  "bit (64 :: u32) k \<longleftrightarrow> k = 6" "bit (4096 :: u32) k \<longleftrightarrow> k = 12"
  using exp_bit [of 2 k] exp_bit [of 3 k] exp_bit [of 4 k] exp_bit [of 6 k] exp_bit [of 12 k]
  by simp_all

lemma bit_normalized: "bit (ai_capabilities (normalize_attach_info i)) k \<longleftrightarrow>
    bit (ai_capabilities i) k \<and> bit HANDLED_CAPABILITIES k \<and>
    \<not> (k = 3 \<and> ai_hardware_breakpoints i = 0) \<and> \<not> (k = 4 \<and> ai_hardware_watchpoints i = 0) \<and>
    \<not> (k = 2 \<and> \<not> bit (ai_capabilities i) 5) \<and>
    \<not> (k \<in> {6, 12} \<and> \<not> bit (ai_capabilities i) 10 \<and> \<not> bit (ai_capabilities i) 11)"
proof -
  have m: "min h 16 = 0 \<longleftrightarrow> h = 0" for h :: u16 by (auto simp: min_def)
  define c where "c = ai_capabilities i AND HANDLED_CAPABILITIES"
  define hw where "hw = strip_if (ai_hardware_breakpoints i = 0) 8 c"
  define wp where "wp = strip_if (ai_hardware_watchpoints i = 0) 16 hw"
  define sw where "sw = strip_if (wp AND 32 = 0) 4 wp"
  define rh where "rh = strip_if (sw AND 3072 = 0) 64 sw"
  have n: "ai_capabilities (normalize_attach_info i) = strip_if (rh AND 3072 = 0) 4096 rh"
    by (simp add: normalize_attach_info_def Let_def m rh_def sw_def wp_def hw_def c_def)
  have c: "bit c j \<longleftrightarrow> bit (ai_capabilities i) j \<and> bit HANDLED_CAPABILITIES j" for j
    by (simp add: c_def bit_and_iff)
  have wp: "bit wp j \<longleftrightarrow> bit c j \<and> \<not> (j = 3 \<and> ai_hardware_breakpoints i = 0) \<and>
      \<not> (j = 4 \<and> ai_hardware_watchpoints i = 0)" for j
    unfolding wp_def hw_def bit_strip_if single_bits by blast
  have h: "bit HANDLED_CAPABILITIES 5" "bit HANDLED_CAPABILITIES 10" "bit HANDLED_CAPABILITIES 11"
    by (simp_all add: handled_bits)
  have sw: "bit sw j \<longleftrightarrow> bit wp j \<and> \<not> (j = 2 \<and> \<not> bit (ai_capabilities i) 5)" for j
    unfolding sw_def bit_strip_if single_bits cap_bits using wp [of 5] c [of 5] h by auto
  have rh: "bit rh j \<longleftrightarrow> bit sw j \<and>
      \<not> (j = 6 \<and> \<not> bit (ai_capabilities i) 10 \<and> \<not> bit (ai_capabilities i) 11)" for j
    unfolding rh_def bit_strip_if single_bits reset_bits
    using sw [of 10] sw [of 11] wp [of 10] wp [of 11] c [of 10] c [of 11] h by auto
  show ?thesis
    unfolding n bit_strip_if single_bits reset_bits rh sw wp c using h by auto
qed

lemma normalized_limits:
  "ai_hardware_breakpoints (normalize_attach_info i) =
     (if bit (ai_capabilities (normalize_attach_info i)) 3 then min (ai_hardware_breakpoints i) 16 else 0)"
  "ai_hardware_watchpoints (normalize_attach_info i) =
     (if bit (ai_capabilities (normalize_attach_info i)) 4 then min (ai_hardware_watchpoints i) 16 else 0)"
proof -
  have m: "min h 16 = 0 \<longleftrightarrow> h = 0" for h :: u16 by (auto simp: min_def)
  have h: "bit HANDLED_CAPABILITIES 3" "bit HANDLED_CAPABILITIES 4" by (simp_all add: handled_bits)
  show "ai_hardware_breakpoints (normalize_attach_info i) =
     (if bit (ai_capabilities (normalize_attach_info i)) 3 then min (ai_hardware_breakpoints i) 16 else 0)"
    unfolding bit_normalized
    by (auto simp: normalize_attach_info_def Let_def cap_bits bit_strip_if single_bits bit_and_iff h m)
  show "ai_hardware_watchpoints (normalize_attach_info i) =
     (if bit (ai_capabilities (normalize_attach_info i)) 4 then min (ai_hardware_watchpoints i) 16 else 0)"
    unfolding bit_normalized
    by (auto simp: normalize_attach_info_def Let_def cap_bits bit_strip_if single_bits bit_and_iff h m)
qed

lemma normalized_transfer:
  "unat (ai_max_memory_transfer (normalize_attach_info i)) =
     (if ai_max_memory_transfer i = 0 then 4096 else min (unat (ai_max_memory_transfer i)) 8160)"
proof -
  have u: "unat (ucast x :: u32) = unat x" for x :: u16 by (simp add: unat_ucast_up)
  have d: "unat (ucast y :: u16) = unat y" if "y \<le> 8160" for y :: u32
    using that by (simp add: word_le_nat_alt unsigned_ucast_eq take_bit_nat_eq_self)
  have z: "(ucast x :: u32) = 0 \<longleftrightarrow> x = 0" for x :: u16
    using u [of x] by (metis unat_eq_0)
  show ?thesis
    by (auto simp: normalize_attach_info_def Let_def z d u word_less_nat_alt word_le_nat_alt min_def)
qed
text \<open>What the session promises about the description it answers ATTACH with.\<close>

definition consistent_info :: "attach_info \<Rightarrow> bool" where
  "consistent_info info \<longleftrightarrow>
     ai_capabilities info AND NOT HANDLED_CAPABILITIES = 0 \<and>
     ai_hardware_breakpoints info \<le> 16 \<and> ai_hardware_watchpoints info \<le> 16 \<and>
     (has_cap info CAP_HARDWARE_BP \<longleftrightarrow> ai_hardware_breakpoints info \<noteq> 0) \<and>
     (has_cap info CAP_WATCHPOINT \<longleftrightarrow> ai_hardware_watchpoints info \<noteq> 0) \<and>
     (has_cap info CAP_SINGLE_STEP \<or> \<not> has_cap info CAP_SOFTWARE_BP) \<and>
     (has_cap info CAP_RESET_SYSTEM \<or> has_cap info CAP_RESET_NRST \<or>
       \<not> has_cap info CAP_RESET_HALT \<and> \<not> has_cap info CAP_RESET_RUN) \<and>
     1 \<le> ai_max_memory_transfer info \<and> ai_max_memory_transfer info \<le> 8160"

lemma consistent_normalized: "consistent_info (normalize_attach_info i)"
proof -
  let ?n = "normalize_attach_info i"
  have "ai_capabilities ?n AND NOT HANDLED_CAPABILITIES = 0"
    by (rule bit_word_eqI) (auto simp: bit_and_iff bit_not_iff bit_normalized)
  moreover have "bit (ai_capabilities ?n) 3 \<Longrightarrow> ai_hardware_breakpoints i \<noteq> 0"
    "bit (ai_capabilities ?n) 4 \<Longrightarrow> ai_hardware_watchpoints i \<noteq> 0"
    by (auto simp: bit_normalized)
  moreover have "bit (ai_capabilities ?n) 5 \<or> \<not> bit (ai_capabilities ?n) 2"
    "bit (ai_capabilities ?n) 10 \<or> bit (ai_capabilities ?n) 11 \<or>
     \<not> bit (ai_capabilities ?n) 6 \<and> \<not> bit (ai_capabilities ?n) 12"
    by (auto simp: bit_normalized handled_bits)
  moreover have "min h 16 \<noteq> 0 \<longleftrightarrow> h \<noteq> 0" "min h 16 \<le> 16" for h :: u16 by (auto simp: min_def)
  moreover have "1 \<le> ai_max_memory_transfer ?n" "ai_max_memory_transfer ?n \<le> 8160"
    using normalized_transfer [of i] by (auto simp: word_le_nat_alt Suc_le_eq unat_gt_0)
  ultimately show ?thesis
    unfolding consistent_info_def cap_bits normalized_limits by auto
qed

lemma normalize_consistent:
  assumes "consistent_info i"
  shows "normalize_attach_info i = i"
proof (rule attach_info.equality)
  let ?n = "normalize_attach_info i"
  note c = assms [unfolded consistent_info_def cap_bits]
  have h: "bit HANDLED_CAPABILITIES k" if "bit (ai_capabilities i) k" for k
    using c that by (metis bit_and_iff bit_not_iff bit_imp_le_length possible_bit_word bit_0_eq bot_fun_def bot_bool_def)
  show caps: "ai_capabilities ?n = ai_capabilities i"
    by (rule bit_word_eqI) (use c h in \<open>auto simp: bit_normalized\<close>)
  show "ai_hardware_breakpoints ?n = ai_hardware_breakpoints i"
    "ai_hardware_watchpoints ?n = ai_hardware_watchpoints i"
    unfolding normalized_limits caps using c by (auto simp: min_def)
  show "ai_max_memory_transfer ?n = ai_max_memory_transfer i"
    using normalized_transfer [of i] c by (auto simp: word_unat_eq_iff word_le_nat_alt)
qed (simp_all add: normalize_attach_info_def Let_def)

text \<open>Whatever a backend reports at ATTACH, the normalised description is consistent: only
  capabilities the session handles, at most 16 hardware breakpoints and watchpoints, each
  capability bit set exactly when its resource exists, software breakpoints only with single-step,
  resets only with a reset method, a transfer limit between 1 and 8160. Normalising again changes
  nothing, and no capability is invented.\<close>

theorem normalize_attach_info_sound:
  "consistent_info (normalize_attach_info info) \<and>
   normalize_attach_info (normalize_attach_info info) = normalize_attach_info info \<and>
   ai_capabilities (normalize_attach_info info) AND NOT (ai_capabilities info) = 0 \<and>
   ai_memory_regions (normalize_attach_info info) = ai_memory_regions info"
  using consistent_normalized normalize_consistent [OF consistent_normalized]
  by (auto simp: bit_and_iff bit_not_iff bit_normalized normalize_limits(4) intro!: bit_word_eqI)

section \<open>Register lists\<close>

lemma slice_drop: "slice i n m @ drop (i + n) m = drop i m"
  unfolding slice_def by (metis append_take_drop_id drop_drop add.commute)

lemma enc_dec_register_value:
  assumes "length bs = 4"
  shows "enc_register_value (dec_register_value bs) = bs"
proof -
  have "le_bytes 2 (le_word (slice 0 2 bs) :: u16) = slice 0 2 bs"
    "le_bytes 1 (le_word (slice 2 1 bs) :: u8) = slice 2 1 bs"
    "le_bytes 1 (le_word (slice 3 1 bs) :: u8) = slice 3 1 bs"
    using assms by (intro le_bytes_le_word; simp)+
  moreover have "slice 0 2 bs @ slice 2 1 bs @ slice 3 1 bs = bs"
    using assms by (auto simp: slice_def length_Suc_conv eval_nat_numeral)
  ultimately show ?thesis by (simp add: enc_register_value_def dec_register_value_def)
qed

definition entry_bytes :: "register_value \<times> bytes \<Rightarrow> bytes" where
  "entry_bytes = (\<lambda>(entry, v). enc_register_value entry @ v)"

definition writable_entry :: "register_value \<times> bytes \<Rightarrow> bool" where
  "writable_entry = (\<lambda>(entry, v). v \<noteq> [] \<and> length v = unat (rv_value_size entry) \<and>
     rv_flags entry = REGISTER_VALUE_FLAG_NONE)"

lemma write_list_end_iff:
  "off \<le> length blob \<Longrightarrow> write_list_end blob n off = Some (length blob) \<longleftrightarrow>
     (\<exists>es. length es = n \<and> list_all writable_entry es \<and> drop off blob = concat (map entry_bytes es))"
proof (induction n arbitrary: off)
  case 0
  then show ?case by auto
next
  case (Suc n)
  let ?en = "dec_register_value (slice off 4 blob)"
  let ?k = "unat (rv_value_size ?en)"
  show ?case (is "?L \<longleftrightarrow> ?R")
  proof
    assume ?L
    then have A: "off + 4 \<le> length blob" "rv_value_size ?en \<noteq> 0" "rv_flags ?en = REGISTER_VALUE_FLAG_NONE"
      "off + 4 + ?k \<le> length blob" "write_list_end blob n (off + 4 + ?k) = Some (length blob)"
      using Suc.prems by (auto simp: Let_def split: if_splits)
    with Suc.IH [of "off + 4 + ?k"] obtain es where es: "length es = n" "list_all writable_entry es"
      "drop (off + 4 + ?k) blob = concat (map entry_bytes es)" by auto
    let ?v = "slice (off + 4) ?k blob"
    have w: "writable_entry (?en, ?v)"
      using A by (auto simp: writable_entry_def unat_gt_0 simp flip: length_greater_0_conv)
    have split: "drop off blob = slice off 4 blob @ ?v @ drop (off + 4 + ?k) blob"
      by (simp only: slice_drop)
    from w split show ?R
      using es A by (intro exI [of _ "(?en, ?v) # es"]) (simp add: entry_bytes_def enc_dec_register_value)
  next
    assume ?R
    then obtain en v es where es: "length es = n" "list_all writable_entry es" "writable_entry (en, v)"
      "drop off blob = enc_register_value en @ v @ concat (map entry_bytes es)"
      by (auto simp: length_Suc_conv entry_bytes_def)
    then have v: "v \<noteq> []" "length v = unat (rv_value_size en)" "rv_flags en = REGISTER_VALUE_FLAG_NONE"
      by (auto simp: writable_entry_def)
    have "slice off 4 blob = enc_register_value en"
      by (simp add: slice_def es(4))
    then have en: "?en = en" using dec_enc_register_value [of en "[]"] by simp
    have len: "length blob - off = 4 + length v + length (concat (map entry_bytes es))"
      using arg_cong [OF es(4), of length] by simp
    have "drop (off + 4 + length v) blob = drop (4 + length v) (drop off blob)"
      by (simp add: add.commute add.left_commute)
    also have "\<dots> = concat (map entry_bytes es)" by (simp add: es(4))
    finally have "write_list_end blob n (off + 4 + length v) = Some (length blob)"
      using Suc.IH [of "off + 4 + length v"] es len Suc.prems v by auto
    then show ?L using en v len Suc.prems by (auto simp: Let_def)
  qed
qed

text \<open>C37. WRITE_REGISTERS accepts a payload exactly when it is the concatenation of the announced
  number of register entries, for core 0, each with a non-empty value of the size it states and
  no flags, and at least one entry.\<close>

theorem write_list_ok_iff:
  "write_list_ok req blob \<longleftrightarrow> wrq_core_id req = 0 \<and> wrq_register_count req \<noteq> 0 \<and>
     (\<exists>es. length es = unat (wrq_register_count req) \<and> list_all writable_entry es \<and>
        blob = concat (map entry_bytes es))"
  using write_list_end_iff [of 0 blob "unat (wrq_register_count req)"] by (auto simp: write_list_ok_def)

end
