(* ===== verification/Session_Contract.thy ===== *)
theory Session_Contract
  imports Session_Specs
begin

text \<open>
  What a host can rely on, request by request: the verdict on a request that is refused
  (\<open>request_verdict\<close>) with what a refusal leaves untouched, the quiet of a lost session, and the
  rise of the stop generations over a whole connection (\<open>dialogue\<close>).
\<close>

section \<open>Refusals\<close>

definition refused :: "u16 \<Rightarrow> u32 \<Rightarrow> status_t \<Rightarrow> 'w session \<Rightarrow> 'w session \<Rightarrow> bool" where
  "refused opc rid st s s' \<longleftrightarrow> same s s' \<and> state s' = state s \<and>
     (\<exists>f ok. trace s' = trace s @ [Tx f ok] \<and> frame_ok f \<and>
        msg_of f = Response opc rid (status_code st) \<and> transport_dead s' = (\<not> ok))"

lemma wp_refuse:
  assumes "wf e s" "scratch s \<noteq> None" "\<not> transport_dead s"
  shows "wp (respond e opc rid st) (\<lambda>_. refused opc rid st s) s"
  by (rule wp_respond_raw [OF assms(1)])
    (use assms in \<open>auto simp: replies_def refused_def same_def views\<close>)

text \<open>The first check each handler makes that fails, before it touches the target.\<close>

definition detach_error :: "bytes \<Rightarrow> status_t option" where
  "detach_error payload =
     (if length payload \<noteq> SIZEOF_detach_request then Some STATUS_INVALID_ARGUMENT
      else let action = dq_action (dec_detach_request payload) in
        if action \<noteq> DETACH_KEEP_HALTED \<and> action \<noteq> DETACH_RESUME then Some STATUS_INVALID_ARGUMENT
        else None)"

definition write_registers_error :: "'w session \<Rightarrow> bytes \<Rightarrow> status_t option" where
  "write_registers_error s payload =
     (if length payload < SIZEOF_write_registers_request then Some STATUS_INVALID_ARGUMENT
      else let req = dec_write_registers_request payload in
        if wrq_stop_id req \<noteq> stop_id s then Some STATUS_STALE_STOP
        else if \<not> write_list_ok req (drop SIZEOF_write_registers_request payload)
        then Some STATUS_INVALID_ARGUMENT else None)"

definition request_error :: "'w session \<Rightarrow> u16 \<Rightarrow> bytes \<Rightarrow> status_t option" where
  "request_error s opc payload =
     (if opc = OP_ATTACH then (if attached s then Some STATUS_BUSY
        else if length payload \<noteq> SIZEOF_attach_request then Some STATUS_INVALID_ARGUMENT else None)
      else if opc = OP_DETACH then detach_error payload
      else if opc = OP_GET_STATE then (if payload \<noteq> [] then Some STATUS_INVALID_ARGUMENT else None)
      else if opc = OP_READ_MEMORY then read_memory_error s payload
      else if opc = OP_WRITE_MEMORY then write_memory_error s payload
      else if opc = OP_READ_REGISTERS then read_registers_error s payload
      else if opc = OP_WRITE_REGISTERS then write_registers_error s payload
      else if opc = OP_RUN then (case validate_run s payload of Inl st \<Rightarrow> Some st | Inr _ \<Rightarrow> None)
      else if opc = OP_HALT then (if payload \<noteq> [] then Some STATUS_INVALID_ARGUMENT
        else if state s = TARGET_HALTED \<and> stop_reported s then Some STATUS_TARGET_HALTED else None)
      else if opc = OP_RESET_HALT then reset_error s CAP_RESET_HALT payload
      else if opc = OP_RESET_RUN then reset_error s CAP_RESET_RUN payload
      else None)"

text \<open>Gating comes first: a request the table does not allow is refused by the target state alone.\<close>

definition request_verdict :: "'w session \<Rightarrow> u16 \<Rightarrow> bytes \<Rightarrow> status_t option" where
  "request_verdict s opc payload =
     (case gate_column opc of
        None \<Rightarrow> Some (if state s = TARGET_LOST then STATUS_TARGET_LOST else STATUS_UNSUPPORTED)
      | Some column \<Rightarrow>
          (case gate_status (GATE_TABLE (state s) column) of
             Some st \<Rightarrow> Some st
           | None \<Rightarrow> request_error s opc payload))"

lemma dispatch_refuses:
  assumes wf: "wf e s" and live: "scratch s \<noteq> None" "\<not> transport_dead s"
    and err: "request_error s opc payload = Some st"
  shows "wp (dispatch e opc rid payload) (\<lambda>_. refused opc rid st s) s"
proof -
  note refuse = wp_refuse [OF wf live]
  note wfd = wfD [OF wf]
  show ?thesis
    using err unfolding request_error_def dispatch_def
    by (auto simp: op_attach_def op_detach_def op_get_state_def op_read_memory_def
        op_write_memory_def op_read_registers_def op_write_registers_def op_run_def op_halt_def
        op_reset_halt_def op_reset_run_def detach_error_def write_registers_error_def Let_def wfd
        intro!: wps refuse split: if_splits sum.splits)
qed

lemma request_refused:
  assumes wf: "wf e s" and live: "scratch s \<noteq> None" "\<not> transport_dead s" and acc: "accepted m"
    and err: "request_verdict s (opcode_of m) (drop 12 m) = Some st"
  shows "refused (opcode_of m) (request_of m) st s (exec_st (handle_request e m) s)"
proof -
  have "wp (handle_accepted e (opcode_of m) (request_of m) (drop 12 m))
      (\<lambda>_. refused (opcode_of m) (request_of m) st s) s"
    using err unfolding handle_accepted_def request_verdict_def
    by (auto intro!: wps wp_refuse [OF wf live] dispatch_refuses [OF wf live]
        split: option.splits)
  then show ?thesis
    using handle_request_accepted [OF live(2) acc, of e] by (simp add: wp_def exec_st_def)
qed

section \<open>A lost session is quiet\<close>

text \<open>\<open>sends s s'\<close>: nothing but frames left the session, and the target state is the same.\<close>

definition sends :: "'w session \<Rightarrow> 'w session \<Rightarrow> bool" where
  "sends s s' \<longleftrightarrow> state s' = state s \<and> (\<exists>tr. trace s' = trace s @ tr \<and> list_all is_tx tr)"

lemma sends_refl: "sends s s"
  by (simp add: sends_def)

lemma sends_trans: "sends s s1 \<Longrightarrow> sends s1 s2 \<Longrightarrow> sends s s2"
  by (auto simp: sends_def)

lemma sends_modify: "trace (f s) = trace s \<Longrightarrow> state (f s) = state s \<Longrightarrow> wp (modify f) (\<lambda>_. sends s) s"
  by (simp add: wp_def exec_st_def result_st_def sends_def)

lemma sends_then:
  "wp m (\<lambda>_. sends s) s \<Longrightarrow> (\<And>a t. sends s t \<Longrightarrow> wp (f a) (\<lambda>_. sends t) t) \<Longrightarrow>
   wp (State_Monad.bind m f) (\<lambda>_. sends s) s"
  by (rule wp_bind, erule wp_mono) (blast intro: wp_mono sends_trans)

lemma sends_poke: "wp (poke_scratch off bs) (\<lambda>_. sends s) s"
  unfolding poke_scratch_def by (rule sends_modify) (auto split: option.splits)

lemma sends_peek: "wp (peek_scratch off n) (\<lambda>_. sends s) s"
  by (auto simp: wp_def exec_st_def result_st_def peek_scratch_def sends_def split: option.splits)

lemma sends_return: "wp (State_Monad.return x) (\<lambda>_. sends s) s"
  by (rule wp_return) (rule sends_refl)

lemma sends_tx: "wp (call f (Tx b)) (\<lambda>_. sends s) s"
  by (rule wp_call) (simp add: sends_def)

lemma sends_kill: "wp kill_transport (\<lambda>_. sends s) s"
  unfolding kill_transport_def by (rule sends_modify) simp_all

lemmas sends_steps = sends_then sends_poke sends_peek sends_return sends_tx sends_kill
  sends_modify wp_get wp_if wp_case_option wp_case_prod

lemma sends_begin: "wp (begin_frame k opc rid n) (\<lambda>_. sends s) s"
  unfolding begin_frame_def by (intro wp_bind [OF wp_get] wp_if sends_return) (intro sends_steps; simp)

lemma sends_finish: "wp (finish_frame e) (\<lambda>_. sends s) s"
  unfolding finish_frame_def by (intro wp_bind [OF wp_get] wp_if sends_return) (intro sends_steps; simp)

lemma sends_respond: "wp (respond e opc rid st) (\<lambda>_. sends s) s"
  unfolding respond_def send_response_def
  by (intro sends_then sends_begin sends_return wp_if sends_poke sends_finish)

lemma sends_get_state: "wp (op_get_state e rid payload) (\<lambda>_. sends s) s"
  unfolding op_get_state_def
  by (intro wp_if sends_respond sends_then [OF sends_begin] sends_return wp_bind [OF wp_get]
      sends_then [OF sends_poke] sends_then [OF sends_finish])

lemma lost_request:
  assumes "state s = TARGET_LOST"
  shows "sends s (exec_st (handle_request e m) s)"
proof (cases "\<not> transport_dead s \<and> accepted m")
  case False
  then show ?thesis using handle_request_ignored [of s m e] by (auto simp: exec_st_def sends_refl)
next
  case True
  have gate: "c = GATE_GET_STATE" if "gate_status (GATE_TABLE TARGET_LOST c) = None" for c
    using that by (cases c) simp_all
  have opc: "opc = OP_GET_STATE" if "gate_column opc = Some GATE_GET_STATE" for opc
    using that by (auto simp: gate_column_def split: if_splits)
  have "wp (handle_accepted e (opcode_of m) (request_of m) (drop 12 m)) (\<lambda>_. sends s) s"
    unfolding handle_accepted_def
    by (intro wp_bind [OF wp_get] wp_case_option sends_respond)
      (auto simp: assms dispatch_def dest!: gate opc intro: sends_get_state)
  then show ?thesis
    using True handle_request_accepted [of s m e] by (simp add: wp_def exec_st_def)
qed

lemma lost_poll: "state s = TARGET_LOST \<Longrightarrow> exec_st (handle_poll e) s = s"
  by (simp add: handle_poll_def exec_st_def)

section \<open>Stop generations over a connection\<close>

text \<open>
  \<open>dialogue e s s'\<close>: polls and requests other than ATTACH and DETACH, in any number and order, with
  an environment that may change between them, lead from \<open>s\<close> to \<open>s'\<close>, and no call starts within
  one generation of the wrap.
\<close>

inductive dialogue :: "'w env \<Rightarrow> 'w session \<Rightarrow> 'w session \<Rightarrow> bool" for e s where
  dialogue_start: "dialogue e s s"
| dialogue_world: "dialogue e s t \<Longrightarrow> dialogue e s (t\<lparr>world := w\<rparr>)"
| dialogue_request: "dialogue e s t \<Longrightarrow> nowrap t \<Longrightarrow> opcode_of m \<noteq> OP_ATTACH \<Longrightarrow> opcode_of m \<noteq> OP_DETACH \<Longrightarrow>
    dialogue e s (exec_st (handle_request e m) t)"
| dialogue_poll: "dialogue e s t \<Longrightarrow> nowrap t \<Longrightarrow> dialogue e s (exec_st (handle_poll e) t)"

definition rose :: "'w session \<Rightarrow> 'w session \<Rightarrow> bool" where
  "rose s s' \<longleftrightarrow> (\<exists>tr. ext s s' tr \<and> rising s s' (stops (outs tr)))"

lemma rose_trans: "rose s s1 \<Longrightarrow> rose s1 s2 \<Longrightarrow> rose s s2"
  unfolding rose_def by clarify (rule exI, rule conjI, erule (1) ext_trans, auto intro: rising_trans)

lemma rose_refl: "rose s s"
  unfolding rose_def by (intro exI [of _ "[]"]) (simp add: ext_refl rising_silent)

lemma rose_request:
  assumes wf: "wf e t" and live: "scratch t \<noteq> None" and n: "nowrap t"
    and opc: "opcode_of m \<noteq> OP_ATTACH" "opcode_of m \<noteq> OP_DETACH"
  shows "rose t (exec_st (handle_request e m) t)"
proof (cases "\<not> transport_dead t \<and> accepted m")
  case False
  then show ?thesis using handle_request_ignored [of t m e] by (auto simp: exec_st_def rose_refl)
next
  case True
  have "wp (handle_accepted e (opcode_of m) (request_of m) (drop 12 m)) (\<lambda>_. rose t) t"
    by (rule wp_mono [OF serve_accepted [OF wf live]])
      (use opc n in \<open>auto simp: rises_def op_post_def served_def rose_def\<close>)
  then show ?thesis
    using True handle_request_accepted [of t m e] by (simp add: wp_def exec_st_def)
qed

lemma rose_poll: "wf e t \<Longrightarrow> nowrap t \<Longrightarrow> rose t (exec_st (handle_poll e) t)"
proof -
  assume wf: "wf e t" and n: "nowrap t"
  then have "stop_id t \<noteq> - 1" by (auto simp: nowrap_def)
  then have "wp (handle_poll e) (\<lambda>_. rose t) t"
    by (intro wp_mono [OF serve_poll [OF wf]]) (auto simp: follows_def rose_def)
  then show ?thesis by (rule exec_stD)
qed

lemma rose_world: "rose s (t\<lparr>world := w\<rparr>) = rose s t"
proof -
  have "mark (t\<lparr>world := w\<rparr>) = mark t" "ext s (t\<lparr>world := w\<rparr>) tr = ext s t tr" for tr
    by (simp_all add: mark_def ext_def)
  then show ?thesis by (simp add: rose_def rising_def)
qed

lemma wf_any_world: "wf e (s\<lparr>world := w\<rparr>) = wf e s"
  by (simp add: wf_def storage_ready_def idle_def)

lemma dialogue_rose:
  assumes "dialogue e s s'" and "wf e s" and "scratch s \<noteq> None"
  shows "wf e s' \<and> scratch s' \<noteq> None \<and> rose s s'"
  using assms(1)
proof induction
  case dialogue_start
  then show ?case using assms rose_refl by simp
next
  case (dialogue_world t w)
  have "wf e (t\<lparr>world := w\<rparr>)" using dialogue_world by (simp add: wf_any_world)
  moreover have "rose s (t\<lparr>world := w\<rparr>)"
    using dialogue_world by (simp add: rose_world)
  ultimately show ?case using dialogue_world by simp
next
  case (dialogue_request t m)
  then have "rose t (exec_st (handle_request e m) t)" by (intro rose_request) auto
  moreover from this have "scratch (exec_st (handle_request e m) t) \<noteq> None"
    using dialogue_request by (auto simp: rose_def ext_def)
  ultimately show ?case
    using dialogue_request wf_handle_request rose_trans by blast
next
  case (dialogue_poll t)
  then have "rose t (exec_st (handle_poll e) t)" by (intro rose_poll) auto
  moreover from this have "scratch (exec_st (handle_poll e) t) \<noteq> None"
    using dialogue_poll by (auto simp: rose_def ext_def)
  ultimately show ?case
    using dialogue_poll wf_handle_poll rose_trans by blast
qed

end
