(* ===== verification/Session_Shadow.thy ===== *)
theory Session_Shadow
  imports Session_Contract
begin

text \<open>
  Software breakpoints and the target's program. A patched address holds \<open>BKPT_PATCH\<close> in target
  memory and the bytes it replaced in \<open>sw_bps_[i].original\<close>; \<open>program table m\<close> is the memory the
  table stands for, the original bytes overlaid on \<open>m\<close>. Under the contract of \<open>backend_memory\<close> the
  restore, remember and patch loops of \<open>sidp_session.cpp\<close> keep it, on every outcome, a failed
  write included.
\<close>

section \<open>The program behind the breakpoints\<close>

definition overlay :: "sw_bp \<Rightarrow> (u64 \<Rightarrow> u8) \<Rightarrow> u64 \<Rightarrow> u8" where
  "overlay b m = (\<lambda>x. if sb_installed b \<and> bp_covers b x
     then sb_original b ! unat (x - sb_address b) else m x)"

definition program :: "sw_bp list \<Rightarrow> (u64 \<Rightarrow> u8) \<Rightarrow> u64 \<Rightarrow> u8" where
  "program table m = foldr overlay table m"

definition apart :: "sw_bp \<Rightarrow> sw_bp \<Rightarrow> bool" where
  "apart a b \<longleftrightarrow>
     unat (sb_address a) + unat (sb_instruction_size a) \<le> unat (sb_address b) \<or>
     unat (sb_address b) + unat (sb_instruction_size b) \<le> unat (sb_address a)"

definition sound :: "sw_bp list \<Rightarrow> bool" where
  "sound bs \<longleftrightarrow> list_all (\<lambda>b. entry_ok b \<and> length (sb_original b) = 4) bs \<and> sorted_wrt apart bs"

lemma apart_sym: "apart a b \<longleftrightarrow> apart b a"
  by (auto simp: apart_def)

lemma entry_fits:
  assumes "entry_ok b"
  shows "unat (sb_address b) + unat (sb_instruction_size b) < 2 ^ 64"
proof -
  have "\<not> sb_address b > u64_max - ucast (sb_instruction_size b)" using assms by (simp add: entry_ok_def not_less)
  then show ?thesis by (simp only: no_wrap_iff) (simp add: unat_ucast_up)
qed

lemma covers_iff:
  assumes "entry_ok b"
  shows "bp_covers b x \<longleftrightarrow> unat (sb_address b) \<le> unat x \<and>
    unat x < unat (sb_address b) + unat (sb_instruction_size b)"
  using entry_fits [OF assms]
  by (simp add: bp_covers_def word_le_nat_alt word_less_nat_alt unat_sum_fits unat_ucast_up)

lemma covers_offset:
  assumes "entry_ok b"
  shows "bp_covers b x \<longleftrightarrow> unat (x - sb_address b) < unat (sb_instruction_size b)"
proof (cases "sb_address b \<le> x")
  case True
  then have "unat (x - sb_address b) = unat x - unat (sb_address b)" by (rule unat_sub)
  then show ?thesis using True by (auto simp: covers_iff [OF assms] word_le_nat_alt)
next
  case False
  then have "unat x < unat (sb_address b)" by (simp add: word_le_nat_alt)
  moreover have "unat (x - sb_address b) = 2 ^ 64 + unat x - unat (sb_address b)"
    using False unat_sub_if_size [of x "sb_address b"] by (simp add: word_size word_le_nat_alt)
  ultimately show ?thesis
    using entry_fits [OF assms] by (auto simp: covers_iff [OF assms])
qed

lemma apart_covers: "entry_ok a \<Longrightarrow> entry_ok b \<Longrightarrow> apart a b \<Longrightarrow> \<not> (bp_covers a x \<and> bp_covers b x)"
  by (auto simp: covers_iff apart_def)

lemma program_simps [simp]:
  "program [] m = m" "program (b # bs) m = overlay b (program bs m)"
  "program (as @ bs) m = program as (program bs m)"
  by (simp_all add: program_def)

lemma overlay_commute:
  "entry_ok a \<Longrightarrow> entry_ok b \<Longrightarrow> apart a b \<Longrightarrow> overlay a (overlay b m) = overlay b (overlay a m)"
  using apart_covers by (fastforce simp: overlay_def fun_eq_iff)

lemma overlay_uninstalled [simp]: "\<not> sb_installed b \<Longrightarrow> overlay b m = m"
  by (simp add: overlay_def)

lemma sound_simps [simp]:
  "sound []" "sound (b # bs) \<longleftrightarrow> entry_ok b \<and> length (sb_original b) = 4 \<and> list_all (apart b) bs \<and> sound bs"
  by (auto simp: sound_def list_all_iff)

lemma sound_append [simp]:
  "sound (as @ bs) \<longleftrightarrow> sound as \<and> sound bs \<and> list_all (\<lambda>a. list_all (apart a) bs) as"
  by (induction as) auto

lemma program_overlay:
  "entry_ok b \<Longrightarrow> sound as \<Longrightarrow> list_all (apart b) as \<Longrightarrow> program as (overlay b m) = overlay b (program as m)"
  by (induction as) (simp_all add: overlay_commute)

lemma program_at: "m x = m' x \<Longrightarrow> program bs m x = program bs m' x"
  by (induction bs) (simp_all add: overlay_def)

text \<open>What is written under an installed breakpoint does not show.\<close>

lemma program_hidden:
  assumes "sb_installed b" and "\<And>x. \<not> bp_covers b x \<Longrightarrow> m' x = m x"
  shows "program (as @ b # bs) m' = program (as @ b # bs) m"
proof
  fix x
  show "program (as @ b # bs) m' x = program (as @ b # bs) m x"
    using assms program_at [of m' x m bs] program_at [of "overlay b (program bs m')" x "overlay b (program bs m)" as]
    by (cases "bp_covers b x") (auto simp: overlay_def)
qed

lemma overlay_write:
  assumes "sb_installed b" "entry_ok b" "length (sb_original b) = 4"
  shows "mem_write (sb_address b) (take (unat (sb_instruction_size b)) (sb_original b)) m = overlay b m"
proof -
  have "unat (sb_instruction_size b) \<le> 4" using assms(2) by (auto simp: entry_ok_def)
  then show ?thesis
    using assms by (auto simp: mem_write_def overlay_def covers_offset)
qed

text \<open>An entry whose original bytes are in memory again can be dropped from anywhere.\<close>

lemma program_drop:
  assumes "sound (as @ b # bs)"
  shows "program (as @ bs) (overlay b m) = program (as @ b # bs) m"
proof -
  have "program bs (overlay b m) = overlay b (program bs m)"
    using assms by (intro program_overlay) auto
  then show ?thesis by simp
qed

lemma sound_drop: "sound (as @ b # bs) \<Longrightarrow> sound (as @ bs)"
  by (auto simp: list_all_iff)

section \<open>Writing\<close>

definition keeps_program :: "('w \<Rightarrow> bool) \<Rightarrow> ('w \<Rightarrow> u64 \<Rightarrow> u8) \<Rightarrow> 'w session \<Rightarrow> sw_bp list \<Rightarrow>
    'w session \<Rightarrow> sw_bp list \<Rightarrow> bool" where
  "keeps_program ok mem s bs s' bs' \<longleftrightarrow> (ok (world s) \<longrightarrow>
     ok (world s') \<and> program bs' (mem (world s')) = program bs (mem (world s)))"

lemma keeps_program_refl: "keeps_program ok mem s bs s bs"
  by (simp add: keeps_program_def)

lemma keeps_program_trans:
  "keeps_program ok mem s bs s1 bs1 \<Longrightarrow> keeps_program ok mem s1 bs1 s2 bs2 \<Longrightarrow>
   keeps_program ok mem s bs s2 bs2"
  by (auto simp: keeps_program_def)

context backend_memory
begin

lemma wp_write_mem:
  assumes "length data \<le> MAX_FRAME_SIZE"
    and "\<And>r s'. \<lbrakk>swv s' = swv s; world_ok (world s) \<Longrightarrow> world_ok (world s') \<and>
        (r = ESP_OK \<longrightarrow> tmem (world s') = mem_write a data (tmem (world s))) \<and>
        (\<forall>x. length data \<le> unat (x - a) \<longrightarrow> tmem (world s') x = tmem (world s) x)\<rbrakk> \<Longrightarrow> Q r s'"
  shows "wp (b_write_mem e a data k) Q s"
  unfolding b_write_mem_def
  by (rule wp_call, rule assms(2), simp add: views)
    (use assms(1) write_mem_world write_mem_data write_mem_fail in \<open>simp, blast\<close>)

lemma wp_read_mem:
  assumes "\<And>r bs s'. \<lbrakk>swv s' = swv s; world_ok (world s) \<Longrightarrow> world_ok (world s') \<and>
        tmem (world s') = tmem (world s) \<and> (r = ESP_OK \<longrightarrow> n \<le> MAX_FRAME_SIZE \<longrightarrow> bs = mem_read a n (tmem (world s)))\<rbrakk> \<Longrightarrow> Q (r, bs) s'"
  shows "wp (b_read_mem e a n k) Q s"
  unfolding b_read_mem_def
  apply (rule wp_call)
  subgoal for p w
    apply (cases p, simp)
    apply (rule assms, simp add: views)
    using read_mem_world [of "world s" a n k p w] read_mem_data [of "world s" n a k _ w] by auto
  done

lemma restore_one:
  assumes t: "sw_table s = Some t" "i < length t" and b: "entry_ok (t ! i)" "length (sb_original (t ! i)) = 4"
    and Q: "\<And>ok s' b'. \<lbrakk>sw_table s' = Some (t[i := b']); sw_count s' = sw_count s;
      if ok then b' = (t ! i)\<lparr>sb_installed := False\<rparr> else b' = t ! i \<and> sb_installed (t ! i);
      world_ok (world s) \<Longrightarrow> world_ok (world s') \<and>
        (if ok then tmem (world s') = overlay (t ! i) (tmem (world s))
         else \<forall>x. \<not> bp_covers (t ! i) x \<longrightarrow> tmem (world s') x = tmem (world s) x)\<rbrakk> \<Longrightarrow> Q ok s'"
  shows "wp (sw_bp_restore_one e i) Q s"
proof -
  have len: "length (take (unat (sb_instruction_size (t ! i))) (sb_original (t ! i))) =
      unat (sb_instruction_size (t ! i))" "unat (sb_instruction_size (t ! i)) \<le> 4"
    using b by (auto simp: entry_ok_def)
  show ?thesis
    unfolding sw_bp_restore_one_def
    apply (intro wps wp_sw_get [OF t])
      apply (rule Q [where b' = "t ! i"]; simp add: t)
     apply (use len b in simp)
    apply (rule wp_write_mem, use len in simp, intro wps)
     apply (rule wp_sw_put [where t = t], simp add: swv_def t, rule t, intro wps)
     apply (rule Q, simp, simp add: swv_def, simp)
    subgoal using overlay_write b by simp
    apply (rule Q [where b' = "t ! i"])
       apply (simp_all add: swv_def t)
    using len by (simp add: covers_offset b not_less)
qed

text \<open>The loop keeps the failed entries in front: the table it stands for is those and the unvisited ones.\<close>

lemma restore_loop:
  assumes "sw_table s = Some t" "length t = 32" "n \<le> 32" "rem \<le> k" "k \<le> n"
    and "sound (take rem t @ drop k (take n t))"
    and "\<And>r got s' t'. \<lbrakk>sw_table s' = Some t'; length t' = 32; rem \<le> r; r \<le> n; sound (take r t');
      keeps_program world_ok tmem s (take rem t @ drop k (take n t)) s' (take r t');
      got \<Longrightarrow> ok \<and> r = rem\<rbrakk> \<Longrightarrow> Q (r, got) s'"
  shows "wp (sw_bp_restore_loop e [k..<n] rem ok) Q s"
  using assms
proof (induction "n - k" arbitrary: s t k rem ok)
  case 0
  then have "k = n" by simp
  then show ?case
    using 0(2-) keeps_program_refl [of world_ok tmem s] by (auto intro!: wps)
next
  case (Suc d)
  then have k: "k < n" by simp
  define b where "b = t ! k"
  define as bs where "as = take rem t" and "bs = drop (Suc k) (take n t)"
  have split: "drop k (take n t) = b # bs"
    using k Suc.prems(2,3) by (simp add: b_def bs_def Cons_nth_drop_Suc [symmetric])
  have sound: "sound (as @ b # bs)" using Suc.prems(6) by (simp add: split as_def)
  then have b: "entry_ok b" "length (sb_original b) = 4" by simp_all
  note fin = Suc.prems(7)
  have xs: "[k..<n] = k # [Suc k..<n]" using k by (simp add: upt_conv_Cons)
  have dropped: "take rem (t[k := b']) = as" "drop (Suc k) (take n (t[k := b'])) = bs" for b'
    using Suc.prems(4) by (simp_all add: as_def bs_def list_update_beyond drop_update_cancel take_update_cancel take_update_swap)
  have same: "t[k := b] = t" by (simp add: b_def)
  show ?case
    unfolding xs sw_bp_restore_loop.simps
  proof (intro wps, rule restore_one [OF Suc.prems(1)])
    fix got :: bool and s' :: "'w session" and b'
    assume s': "sw_table s' = Some (t[k := b'])" "sw_count s' = sw_count s"
      and res: "if got then b' = (t ! k)\<lparr>sb_installed := False\<rparr> else b' = t ! k \<and> sb_installed (t ! k)"
      and mem: "world_ok (world s) \<Longrightarrow> world_ok (world s') \<and>
        (if got then tmem (world s') = overlay (t ! k) (tmem (world s))
         else \<forall>x. \<not> bp_covers (t ! k) x \<longrightarrow> tmem (world s') x = tmem (world s) x)"
    have kept: "keeps_program world_ok tmem s (as @ b # bs) s' (if got then as @ bs else as @ b # bs)"
      using mem res program_drop [OF sound] program_hidden [of b "tmem (world s')" "tmem (world s)"]
      by (auto simp: keeps_program_def b_def [symmetric] simp del: program_simps)
    show "wp (if \<not> got then do {
          (if rem \<noteq> k then do { entry \<leftarrow> sw_get k; sw_put rem entry } else return ());
          sw_bp_restore_loop e [Suc k..<n] (Suc rem) False }
        else sw_bp_restore_loop e [Suc k..<n] rem ok) Q s'"
    proof (cases got)
      case True
      have "wp (sw_bp_restore_loop e [Suc k..<n] rem ok) Q s'"
        by (rule Suc.hyps(1) [OF _ s'(1)])
          (use Suc.hyps(2) Suc.prems(2-5) k kept True sound_drop [OF sound] in
            \<open>auto simp: dropped split as_def [symmetric] intro!: fin elim: keeps_program_trans\<close>)
      then show ?thesis using True by simp
    next
      case False
      then have b': "b' = b" using res by (simp add: b_def)
      have tab: "sw_table s' = Some t" using s'(1) by (simp add: b' same)
      have step: "wp (sw_bp_restore_loop e [Suc k..<n] (Suc rem) False) Q u"
        if u: "sw_table u = Some (t[rem := b])" "world u = world s'" for u
      proof (rule Suc.hyps(1) [OF _ u(1)])
        have eq: "take (Suc rem) (t[rem := b]) = as @ [b]"
          using Suc.prems(2-5) k by (simp add: as_def take_Suc_conv_app_nth)
        have eq': "drop (Suc k) (take n (t[rem := b])) = bs"
          using Suc.prems(4) by (simp add: bs_def take_update_swap)
        show "sound (take (Suc rem) (t[rem := b]) @ drop (Suc k) (take n (t[rem := b])))"
          using sound by (simp only: eq eq') simp
        fix r got' w t'
        assume *: "sw_table w = Some t'" "length t' = 32" "Suc rem \<le> r" "r \<le> n" "sound (take r t')"
          "keeps_program world_ok tmem u (take (Suc rem) (t[rem := b]) @ drop (Suc k) (take n (t[rem := b]))) w (take r t')"
          "got' \<Longrightarrow> False \<and> r = Suc rem"
        have "keeps_program world_ok tmem s (as @ b # bs) w (take r t')"
          using kept *(6) False unfolding eq eq' keeps_program_def u(2) by simp
        then show "Q (r, got') w"
          using * by (intro fin [of w t' r got']) (auto simp: split as_def [symmetric])
      qed (use Suc.hyps(2) Suc.prems(2-5) k in simp_all)
      show ?thesis
        using False step [of s'] step [of "s'\<lparr>sw_table := Some (t[rem := b])\<rparr>"] Suc.prems(2-5) k tab
        by (auto intro!: wps wp_sw_get [OF tab] wp_sw_put [OF tab] simp: b_def [symmetric] same)
    qed
  qed (use k Suc.prems(2,3) b in \<open>simp_all add: b_def\<close>)
qed

end

definition table_sound :: "'w session \<Rightarrow> bool" where
  "table_sound s \<longleftrightarrow> sw_count s \<le> 32 \<and> (\<exists>t. sw_table s = Some t \<and> length t = 32) \<and> sound (active_sw s)"

definition remembers :: "(u64 \<Rightarrow> u8) \<Rightarrow> sw_bp \<Rightarrow> bool" where
  "remembers m b \<longleftrightarrow> (\<forall>x. bp_covers b x \<longrightarrow> m x = sb_original b ! unat (x - sb_address b))"

definition armed :: "(u64 \<Rightarrow> u8) \<Rightarrow> sw_bp \<Rightarrow> bool" where
  "armed m b \<longleftrightarrow> sb_installed b \<and> mem_read (sb_address b) 2 m = BKPT_PATCH"

abbreviation (input) sw_key :: "sw_bp \<Rightarrow> u32 \<times> u64 \<times> u8" where
  "sw_key b \<equiv> (sb_id b, sb_address b, sb_instruction_size b)"

abbreviation (input) be_key :: "bp_entry \<Rightarrow> u32 \<times> u64 \<times> u8" where
  "be_key b \<equiv> (be_breakpoint_id b, be_address b, be_instruction_size b)"

lemma active_take: "sw_table s = Some t \<Longrightarrow> active_sw s = take (sw_count s) t"
  by (simp add: active_sw_def)

lemma remembers_overlay: "remembers m b \<Longrightarrow> overlay b m = m"
  by (auto simp: remembers_def overlay_def)

lemma program_uninstalled: "list_all (\<lambda>b. \<not> sb_installed b) bs \<Longrightarrow> program bs m = m"
  by (induction bs) simp_all

lemma mem_read_2: "mem_read a 2 m = [m a, m (a + 1)]"
  by (simp add: mem_read_def numeral_2_eq_2)

lemma covers_first: "entry_ok b \<Longrightarrow> bp_covers b (sb_address b) \<and> bp_covers b (sb_address b + 1)"
  by (auto simp: covers_offset entry_ok_def)

lemma armed_frame:
  assumes "armed m a" "entry_ok a" "entry_ok b" "apart a b" "\<And>x. \<not> bp_covers b x \<Longrightarrow> m' x = m x"
  shows "armed m' a"
proof -
  have "m' (sb_address a) = m (sb_address a)" "m' (sb_address a + 1) = m (sb_address a + 1)"
    using covers_first [OF assms(2)] apart_covers [OF assms(2-4)] assms(5) by blast+
  then show ?thesis using assms(1) by (simp add: armed_def mem_read_2)
qed

lemma remembers_frame:
  assumes "remembers m a" "entry_ok a" "entry_ok b" "apart a b" "\<And>x. \<not> bp_covers b x \<Longrightarrow> m' x = m x"
  shows "remembers m' a"
  using assms apart_covers [OF assms(2-4)] unfolding remembers_def by metis

context backend_memory
begin

abbreviation (input) same_program :: "'w session \<Rightarrow> 'w session \<Rightarrow> bool" where
  "same_program s s' \<equiv> keeps_program world_ok tmem s (active_sw s) s' (active_sw s')"

lemma restore_all:
  assumes "table_sound s"
    and Q: "\<And>ok s'. \<lbrakk>table_sound s'; same_program s s'; sw_count s' \<le> sw_count s; ok \<Longrightarrow> sw_count s' = 0\<rbrakk> \<Longrightarrow> Q ok s'"
  shows "wp (sw_bp_restore_all e) Q s"
proof -
  obtain t where t: "sw_table s = Some t" "length t = 32" "sw_count s \<le> 32" "sound (active_sw s)"
    using assms(1) by (auto simp: table_sound_def)
  have fin: "Q ok (s'\<lparr>sw_count := r\<rparr>)"
    if "sw_table s' = Some t'" "length t' = 32" "r \<le> sw_count s" "sound (take r t')"
      "keeps_program world_ok tmem s (active_sw s) s' (take r t')" "ok \<Longrightarrow> r = 0" for r ok s' t'
    using that t(3) by (intro Q) (auto simp: table_sound_def active_sw_def keeps_program_def)
  show ?thesis
    unfolding sw_bp_restore_all_def
    apply (intro wps)
    apply (rule restore_loop [OF t(1,2,3)])
       apply simp
      apply simp
     apply (use t in \<open>simp add: active_sw_def\<close>)
    apply (intro wps)
    apply (use t in \<open>auto simp: active_sw_def intro!: fin\<close>)
    done
qed

lemma install_one:
  assumes t: "sw_table s = Some t" "i < length t" and b: "entry_ok (t ! i)"
    and Q: "\<And>ok s'. \<lbrakk>sw_table s' = Some (t[i := (t ! i)\<lparr>sb_installed := True\<rparr>]); sw_count s' = sw_count s;
      world_ok (world s) \<Longrightarrow> world_ok (world s') \<and>
        (\<forall>x. \<not> bp_covers (t ! i) x \<longrightarrow> tmem (world s') x = tmem (world s) x) \<and>
        (ok \<longrightarrow> mem_read (sb_address (t ! i)) 2 (tmem (world s')) = BKPT_PATCH)\<rbrakk> \<Longrightarrow> Q ok s'"
  shows "wp (sw_bp_install_one e i) Q s"
proof -
  have size: "2 \<le> unat (sb_instruction_size (t ! i))" using b by (auto simp: entry_ok_def)
  show ?thesis
    unfolding sw_bp_install_one_def
    apply (intro wps wp_sw_get [OF t] wp_sw_put [OF t])
    apply (rule wp_write_mem)
     apply (simp add: BKPT_PATCH_def)
    apply (intro wps Q)
      apply (simp_all add: swv_def covers_offset [OF b] BKPT_PATCH_def mem_read_2 mem_write_def)
    using size by auto
qed

end

lemma overlaps_apart:
  assumes "entry_ok b" "be_ok en" "\<not> sw_overlaps en b"
    and "sb_address slot = be_address en" "sb_instruction_size slot = be_instruction_size en"
  shows "apart b slot"
proof -
  have e: "entry_ok slot" using assms by (auto simp: be_ok_def entry_ok_def)
  have "unat (be_address en + ucast (be_instruction_size en) :: u64) = unat (be_address en) + unat (be_instruction_size en)"
    using entry_fits [OF e] assms(4,5) by (simp add: unat_sum_fits unat_ucast_up)
  moreover have "unat (sb_address b + ucast (sb_instruction_size b) :: u64) = unat (sb_address b) + unat (sb_instruction_size b)"
    using entry_fits [OF assms(1)] by (simp add: unat_sum_fits unat_ucast_up)
  ultimately show ?thesis
    using assms(3-5) by (auto simp: sw_overlaps_def apart_def word_less_nat_alt)
qed

lemma sound_snoc: "sound bs \<Longrightarrow> entry_ok b \<Longrightarrow> length (sb_original b) = 4 \<Longrightarrow> list_all (\<lambda>a. apart a b) bs \<Longrightarrow>
    sound (bs @ [b])"
  by simp

lemma remembers_read:
  assumes "entry_ok b" "sb_original b = splice 0 (take (unat (sb_instruction_size b)) (mem_read (sb_address b) (unat (sb_instruction_size b)) m)) [0, 0, 0, 0]"
  shows "remembers m b"
proof -
  have "unat (sb_instruction_size b) \<le> 4" using assms(1) by (auto simp: entry_ok_def)
  then show ?thesis
    unfolding remembers_def covers_offset [OF assms(1)]
    by (auto simp: assms(2) nth_splice mem_read_def)
qed

context backend_memory
begin

text \<open>A table whose entries are all remembered and none installed: memory is the program.\<close>

definition clean_table :: "bool \<Rightarrow> 'w session \<Rightarrow> bool" where
  "clean_table g s \<longleftrightarrow> table_sound s \<and> (g \<longrightarrow> world_ok (world s)) \<and>
     list_all (\<lambda>b. \<not> sb_installed b \<and> (g \<longrightarrow> remembers (tmem (world s)) b)) (active_sw s)"

lemma clean_program: "clean_table g s \<Longrightarrow> program (active_sw s) m = m"
  by (rule program_uninstalled) (auto simp: clean_table_def list_all_iff)

lemma remember:
  assumes "clean_table g s" "list_all be_ok entries"
    and "\<And>st s'. \<lbrakk>table_sound s'; same_program s s';
      st = STATUS_OK \<Longrightarrow> clean_table g s' \<and> map sw_key (active_sw s') = map sw_key (active_sw s) @ map be_key entries\<rbrakk> \<Longrightarrow>
      Q st s'"
  shows "wp (sw_bp_remember e entries) Q s"
  using assms
proof (induction entries arbitrary: s)
  case Nil
  then show ?case by (auto simp: clean_table_def keeps_program_refl intro!: wps)
next
  case (Cons en entries)
  note clean = Cons.prems(1) and fin = Cons.prems(3)
  have ts: "table_sound s" using clean by (simp add: clean_table_def)
  obtain t where t: "sw_table s = Some t" "length t = 32" "sw_count s \<le> 32" "sound (active_sw s)"
    using ts by (auto simp: table_sound_def)
  have en: "be_ok en" "unat (be_instruction_size en) \<le> 4" using Cons.prems(2) by (auto simp: be_ok_def)
  have stop: "wp (sw_bp_restore_all e) (\<lambda>_. wp (return st) Q) s1"
    if "table_sound s1" "same_program s s1" "st \<noteq> STATUS_OK" for st s1
    using that(3) by (auto intro!: wps restore_all [OF that(1)] fin elim: keeps_program_trans [OF that(2)])
  let ?slot = "\<lparr>sb_id = be_breakpoint_id en, sb_address = be_address en,
     sb_instruction_size = be_instruction_size en, sb_installed = False,
     sb_original = sb_original (t ! sw_count s)\<rparr>"
  have go: ?case if room: "sw_count s < 32" and none: "\<not> list_ex (sw_overlaps en) (active_sw s)"
  proof -
    have n: "sw_count s < length t" using room t by simp
    have keepact: "active_sw (s1 :: 'w session) = active_sw s"
      if "sw_table s1 = Some (t[sw_count s := b])" "sw_count s1 = sw_count s" for s1 b
      using that t(1) by (simp add: active_sw_def)
    have slotok: "entry_ok ?slot" using en by (auto simp: be_ok_def entry_ok_def)
    have ap: "list_all (\<lambda>a. apart a ?slot) (active_sw s)"
      unfolding list_all_iff
    proof
      fix a assume a: "a \<in> set (active_sw s)"
      then have "entry_ok a" using t(4) by (auto simp: sound_def list_all_iff)
      moreover have "\<not> sw_overlaps en a" using none a by (auto simp: list_ex_iff)
      ultimately show "apart a ?slot" using en by (intro overlaps_apart [where en = en]) simp_all
    qed
    have lens: "length (splice 0 (take (unat (be_instruction_size en)) bs) [0, 0, 0, 0]) = 4" for bs :: bytes
      using en by (intro length_splice [THEN trans]) simp_all
    {
      fix s2 :: "'w session" and r :: esp_err and bs :: bytes
      assume 2: "swv s2 = swv (s\<lparr>sw_table := Some (t[sw_count s := ?slot])\<rparr>)"
        and w: "world_ok (world s) \<Longrightarrow> world_ok (world s2) \<and> tmem (world s2) = tmem (world s) \<and>
          (r = ESP_OK \<longrightarrow> bs = mem_read (be_address en) (unat (be_instruction_size en)) (tmem (world s)))"
      have s2: "sw_table s2 = Some (t[sw_count s := ?slot])" "sw_count s2 = sw_count s"
        using 2 by (simp_all add: swv_def)
      have act: "active_sw s2 = active_sw s" by (rule keepact [OF s2])
      have ts2: "table_sound s2" using s2 act t by (simp add: table_sound_def)
      have sp: "same_program s s2" using w by (simp add: keeps_program_def act)
      define b where "b = ?slot\<lparr>sb_original := splice 0 (take (unat (be_instruction_size en)) bs) [0, 0, 0, 0]\<rparr>"
      have ok: "entry_ok b" using slotok by (simp add: b_def entry_ok_def)
      have apb: "list_all (\<lambda>a. apart a b) (active_sw s)"
        using ap by (simp add: b_def apart_def list_all_iff)
      have onward: "wp (sw_bp_remember e entries) Q s3"
        if r: "r = ESP_OK" and s3: "s3 = s2\<lparr>sw_table := Some (t[sw_count s := b]), sw_count := Suc (sw_count s2)\<rparr>" for s3
      proof (rule Cons.IH)
        have act3: "active_sw s3 = active_sw s @ [b]"
          using n t(1) by (simp add: s3 s2 active_sw_def take_Suc_conv_app_nth)
        have "sound (active_sw s3)"
          unfolding act3 using ok apb lens by (intro sound_snoc [OF t(4)]) (simp_all add: b_def)
        then have "table_sound s3"
          using room t(2) by (simp only: table_sound_def) (simp add: s3 s2)
        moreover have "list_all (\<lambda>b. \<not> sb_installed b \<and> (g \<longrightarrow> remembers (tmem (world s3)) b)) (active_sw s @ [b])"
          using clean w r ok remembers_read [of b "tmem (world s)"]
          by (auto simp: clean_table_def s3 b_def list_all_iff)
        moreover have "g \<longrightarrow> world_ok (world s3)" using clean w by (simp add: clean_table_def s3)
        ultimately show "clean_table g s3" by (simp only: clean_table_def act3)
        have sp3: "same_program s s3"
          unfolding keeps_program_def act3 using w clean_program [OF clean] by (simp add: s3) (simp add: b_def)
        fix st s'
        assume "table_sound s'" "same_program s3 s'" "st = STATUS_OK \<Longrightarrow> clean_table g s' \<and>
          map sw_key (active_sw s') = map sw_key (active_sw s3) @ map be_key entries"
        then show "Q st s'"
          using keeps_program_trans [OF sp3] by (intro fin) (auto simp: act3 b_def)
      qed (use Cons.prems(2) in simp)
      note ts2 sp onward
    }
    note rest = this
    show ?thesis
      unfolding sw_bp_remember.simps
      apply (intro wps)
        apply (use room in simp)
       apply (simp add: sw_readable_def t)
      apply (use none in simp)
      apply (rule wp_sw_get [OF t(1) n], intro wps)
      apply (rule wp_sw_put [OF t(1) n], intro wps)
       apply (rule en)
      apply (rule wp_read_mem)
      subgoal premises p for slot r bs s2
      proof -
        note rest = rest [of s2 r bs, OF p(4) [unfolded p(3)]]
        have w: "world_ok (world s) \<Longrightarrow> world_ok (world s2) \<and> tmem (world s2) = tmem (world s) \<and>
          (r = ESP_OK \<longrightarrow> bs = mem_read (be_address en) (unat (be_instruction_size en)) (tmem (world s)))"
          using p(5) en(2) by simp
        have t2: "sw_table s2 = Some (t[sw_count s := slot])" "sw_count s2 = sw_count s"
          using p(4) by (simp_all add: swv_def)
        show ?thesis
          apply (intro wps)
            apply (rule stop [OF rest(1,2) [OF w]]; simp)
           apply (rule stop [OF rest(1,2) [OF w]]; simp)
          apply (rule wp_sw_put [OF t2(1)], use n in simp)
          apply (intro wps)
          apply (rule rest(3) [OF w])
            apply (auto simp: t2 p(3))
          done
      qed
      done
  qed
  show ?case
  proof (cases "sw_count s = 32 \<or> list_ex (sw_overlaps en) (active_sw s)")
    case True
    then show ?thesis
      unfolding sw_bp_remember.simps
      by (auto intro!: wps stop simp: ts keeps_program_refl sw_readable_def t)
  next
    case False
    then show ?thesis using go t(3) by simp
  qed
qed

end

lemma sound_nth: "sound bs \<Longrightarrow> i < length bs \<Longrightarrow> entry_ok (bs ! i) \<and> length (sb_original (bs ! i)) = 4"
  by (auto simp: sound_def list_all_iff)

lemma sound_apart: "sound bs \<Longrightarrow> i < length bs \<Longrightarrow> j < length bs \<Longrightarrow> i \<noteq> j \<Longrightarrow> apart (bs ! i) (bs ! j)"
  unfolding sound_def sorted_wrt_iff_nth_less using apart_sym by (metis linorder_neqE_nat)

lemma sound_install:
  assumes "sound bs" "i < length bs"
  shows "sound (bs[i := (bs ! i)\<lparr>sb_installed := f\<rparr>])"
proof -
  have "sorted_wrt apart (bs[i := (bs ! i)\<lparr>sb_installed := f\<rparr>])"
    using assms unfolding sound_def sorted_wrt_iff_nth_less
    by (auto simp: nth_list_update apart_def)
  moreover have "entry_ok (bs ! i)" "length (sb_original (bs ! i)) = 4" using sound_nth [OF assms] by simp_all
  ultimately show ?thesis
    using assms by (auto simp: sound_def list_all_length nth_list_update entry_ok_def)
qed

text \<open>Arming a remembered entry does not show.\<close>

lemma program_install:
  assumes "sound bs" "i < length bs" "\<not> sb_installed (bs ! i)" "remembers m (bs ! i)"
    and "\<And>x. \<not> bp_covers (bs ! i) x \<Longrightarrow> m' x = m x"
  shows "program (bs[i := (bs ! i)\<lparr>sb_installed := True\<rparr>]) m' = program bs m"
proof -
  define as b cs where "as = take i bs" and "b = bs ! i" and "cs = drop (Suc i) bs"
  let ?b = "b\<lparr>sb_installed := True\<rparr>"
  have eq: "bs = as @ b # cs" "bs[i := ?b] = as @ ?b # cs"
    using assms(2) by (simp_all add: as_def b_def cs_def id_take_nth_drop [symmetric] upd_conv_take_nth_drop)
  have covers: "bp_covers ?b x = bp_covers b x" for x by (simp add: bp_covers_def)
  have "overlay ?b m = m"
    using assms(4) by (intro remembers_overlay) (simp add: remembers_def covers b_def [symmetric])
  moreover have "sound (as @ ?b # cs)"
    using sound_install [OF assms(1,2), of True] by (simp only: eq(2) b_def [symmetric])
  ultimately have "program (as @ ?b # cs) m = program (as @ cs) m"
    using program_drop [of as ?b cs m] by (simp del: program_simps)
  moreover have "\<not> sb_installed b" using assms(3) by (simp add: b_def)
  then have "program (as @ cs) m = program bs m" by (simp add: eq(1))
  moreover have "program (as @ ?b # cs) m' = program (as @ ?b # cs) m"
    using assms(5) [folded b_def] by (intro program_hidden) (simp_all add: covers)
  ultimately show ?thesis by (simp only: eq(2) b_def [symmetric])
qed

context backend_memory
begin

definition patching :: "bool \<Rightarrow> nat \<Rightarrow> 'w session \<Rightarrow> bool" where
  "patching g i s \<longleftrightarrow> table_sound s \<and> i \<le> sw_count s \<and> (g \<longrightarrow> world_ok (world s)) \<and>
     (\<forall>j < sw_count s. if j < i then sb_installed (active_sw s ! j) \<and> (g \<longrightarrow> armed (tmem (world s)) (active_sw s ! j))
        else \<not> sb_installed (active_sw s ! j) \<and> (g \<longrightarrow> remembers (tmem (world s)) (active_sw s ! j)))"

lemma length_active: "table_sound s \<Longrightarrow> length (active_sw s) = sw_count s"
  by (auto simp: table_sound_def active_sw_def)

lemma patch_step:
  assumes p: "patching g i s" and i: "i < sw_count s" and t: "sw_table s = Some t"
    and s': "sw_table s' = Some (t[i := (t ! i)\<lparr>sb_installed := True\<rparr>])" "sw_count s' = sw_count s"
    and w: "world_ok (world s) \<Longrightarrow> world_ok (world s') \<and>
        (\<forall>x. \<not> bp_covers (t ! i) x \<longrightarrow> tmem (world s') x = tmem (world s) x)"
  shows "table_sound s'" and "g = world_ok (world s) \<Longrightarrow> same_program s s'"
    and "g \<Longrightarrow> mem_read (sb_address (t ! i)) 2 (tmem (world s')) = BKPT_PATCH \<Longrightarrow> patching g (Suc i) s'"
    and "\<not> g \<Longrightarrow> patching g (Suc i) s'"
    and "map sw_key (active_sw s') = map sw_key (active_sw s)"
proof -
  have ts: "table_sound s" using p by (simp add: patching_def)
  have len: "length (active_sw s) = sw_count s" by (rule length_active [OF ts])
  have nth: "t ! i = active_sw s ! i" using i t by (simp add: active_sw_def)
  have act: "active_sw s' = (active_sw s)[i := (active_sw s ! i)\<lparr>sb_installed := True\<rparr>]"
    using i t s' by (simp add: active_sw_def take_update_swap)
  have snd: "sound (active_sw s)" using ts by (simp add: table_sound_def)
  show ts': "table_sound s'"
    using ts t s' sound_install [OF snd, of i True] i len unfolding table_sound_def act by auto
  show "map sw_key (active_sw s') = map sw_key (active_sw s)"
    using i len by (auto simp: act map_update intro!: nth_equalityI simp: nth_list_update)
  show "same_program s s'" if "g = world_ok (world s)"
    using program_install [OF snd, of i "tmem (world s)" "tmem (world s')"] i len w p that
    by (auto simp: keeps_program_def act patching_def nth)
  have others: "if j < i then sb_installed (active_sw s' ! j) \<and> (g \<longrightarrow> armed (tmem (world s')) (active_sw s' ! j))
        else \<not> sb_installed (active_sw s' ! j) \<and> (g \<longrightarrow> remembers (tmem (world s')) (active_sw s' ! j))"
    if j: "j < sw_count s" "j \<noteq> i" for j
  proof -
    have e: "entry_ok (active_sw s ! j)" "entry_ok (active_sw s ! i)" "apart (active_sw s ! j) (active_sw s ! i)"
      using sound_nth [OF snd] sound_apart [OF snd] i j len by auto
    have "active_sw s' ! j = active_sw s ! j" using j by (simp add: act)
    moreover have "g \<Longrightarrow> \<not> bp_covers (active_sw s ! i) x \<Longrightarrow> tmem (world s') x = tmem (world s) x" for x
      using w p by (simp add: patching_def nth)
    ultimately show ?thesis
      using p j(1) armed_frame [OF _ e, of "tmem (world s)" "tmem (world s')"]
        remembers_frame [OF _ e, of "tmem (world s)" "tmem (world s')"]
      by (auto simp: patching_def)
  qed
  have *: "patching g (Suc i) s'" if "g \<Longrightarrow> armed (tmem (world s')) (active_sw s' ! i)"
    unfolding patching_def
  proof (intro conjI allI impI)
    fix j assume j: "j < sw_count s'"
    show "if j < Suc i then sb_installed (active_sw s' ! j) \<and> (g \<longrightarrow> armed (tmem (world s')) (active_sw s' ! j))
        else \<not> sb_installed (active_sw s' ! j) \<and> (g \<longrightarrow> remembers (tmem (world s')) (active_sw s' ! j))"
    proof (cases "j = i")
      case True
      then show ?thesis using that i len by (simp add: act)
    next
      case False
      then show ?thesis using others [of j] j s'(2) by (auto split: if_splits)
    qed
  qed (use ts' i s' w p in \<open>auto simp: patching_def\<close>)
  show "patching g (Suc i) s'" if "g" "mem_read (sb_address (t ! i)) 2 (tmem (world s')) = BKPT_PATCH"
    using that i len by (intro *) (simp add: armed_def act nth)
  show "patching g (Suc i) s'" if "\<not> g" using that by (intro *) simp
qed

lemma patch:
  assumes "patching (world_ok (world s0)) i s" "sw_count s = n" "same_program s0 s"
    and "\<And>st s'. \<lbrakk>table_sound s'; same_program s0 s';
      st = STATUS_OK \<Longrightarrow> patching (world_ok (world s0)) n s' \<and> sw_count s' = n \<and> map sw_key (active_sw s') = map sw_key (active_sw s)\<rbrakk> \<Longrightarrow>
      Q st s'"
  shows "wp (sw_bp_patch e [i..<n]) Q s"
  using assms
proof (induction "n - i" arbitrary: i s)
  case 0
  then have "[i..<n] = []" "i = n" by (auto simp: patching_def)
  then show ?case using 0 by (auto intro!: wps simp: patching_def)
next
  case (Suc d)
  let ?g = "world_ok (world s0)"
  have i: "i < sw_count s" using Suc.hyps(2) Suc.prems(2) by simp
  have ts: "table_sound s" using Suc.prems(1) by (simp add: patching_def)
  then obtain t where t: "sw_table s = Some t" "i < length t" "entry_ok (t ! i)"
    using i sound_nth [of "active_sw s" i] length_active [OF ts] by (auto simp: table_sound_def active_sw_def)
  have xs: "[i..<n] = i # [Suc i..<n]" using i Suc.prems(2) by (simp add: upt_conv_Cons)
  have g: "?g \<Longrightarrow> world_ok (world s)" using Suc.prems(1) by (simp add: patching_def)
  show ?case
    unfolding xs sw_bp_patch.simps
  proof (intro wps, rule install_one [OF t])
    fix ok and s' :: "'w session"
    assume s': "sw_table s' = Some (t[i := (t ! i)\<lparr>sb_installed := True\<rparr>])" "sw_count s' = sw_count s"
      and w: "world_ok (world s) \<Longrightarrow> world_ok (world s') \<and>
        (\<forall>x. \<not> bp_covers (t ! i) x \<longrightarrow> tmem (world s') x = tmem (world s) x) \<and>
        (ok \<longrightarrow> mem_read (sb_address (t ! i)) 2 (tmem (world s')) = BKPT_PATCH)"
    have w': "world_ok (world s) \<Longrightarrow> world_ok (world s') \<and>
        (\<forall>x. \<not> bp_covers (t ! i) x \<longrightarrow> tmem (world s') x = tmem (world s) x)" using w by blast
    note step = patch_step [OF Suc.prems(1) i t(1) s' w']
    have sp: "same_program s0 s'"
    proof (cases ?g)
      case True
      then have "same_program s s'" using step(2) g by simp
      then show ?thesis by (rule keeps_program_trans [OF Suc.prems(3)])
    qed (simp add: keeps_program_def)
    show "wp (if \<not> ok then do { _ \<leftarrow> sw_bp_restore_all e; return STATUS_SWD_ERROR }
        else sw_bp_patch e [Suc i..<n]) Q s'"
    proof (cases ok)
      case True
      have "patching ?g (Suc i) s'" using step(3,4) w g True by blast
      then have "wp (sw_bp_patch e [Suc i..<n]) Q s'"
        using Suc.hyps(2) Suc.prems(2) s' sp step(5)
        by (intro Suc.hyps(1) Suc.prems(4)) auto
      then show ?thesis using True by simp
    next
      case False
      then show ?thesis
        by (auto intro!: wps restore_all [OF step(1)] Suc.prems(4) elim: keeps_program_trans [OF sp])
    qed
  qed
qed

lemma apply_program:
  assumes "table_sound s" "list_all be_ok entries"
    and Q: "\<And>st s'. \<lbrakk>table_sound s'; same_program s s';
      st = STATUS_OK \<Longrightarrow> map sw_key (active_sw s') = map be_key entries \<and>
        list_all (\<lambda>b. sb_installed b \<and> (world_ok (world s) \<longrightarrow> armed (tmem (world s')) b)) (active_sw s')\<rbrakk> \<Longrightarrow> Q st s'"
  shows "wp (sw_bp_apply e entries) Q s"
  unfolding sw_bp_apply_def
proof (intro wps, rule restore_all [OF assms(1)], intro wps Q)
  fix ok and s1 :: "'w session"
  assume 1: "table_sound s1" "same_program s s1" "ok \<Longrightarrow> sw_count s1 = 0" and "\<not> \<not> ok"
  then have n: "sw_count s1 = 0" by simp
  have a1: "active_sw s1 = []" using n by (auto simp: active_sw_def split: option.splits)
  have clean: "clean_table (world_ok (world s)) s1"
    using 1 by (simp add: clean_table_def a1 keeps_program_def)
  show "wp (sw_bp_remember e entries) (\<lambda>st. wp (if st \<noteq> STATUS_OK then return st
      else gets sw_count \<bind> (\<lambda>n. sw_bp_patch e [0..<n])) Q) s1"
  proof (rule remember [OF clean assms(2)], intro wps)
    fix st and s2 :: "'w session"
    assume 2: "table_sound s2" "same_program s1 s2"
    have sp: "same_program s s2" by (rule keeps_program_trans [OF 1(2) 2(2)])
    show "Q st s2" if "st \<noteq> STATUS_OK" using that by (intro Q [OF 2(1) sp]) simp
    assume ok: "st = STATUS_OK \<Longrightarrow> clean_table (world_ok (world s)) s2 \<and>
      map sw_key (active_sw s2) = map sw_key (active_sw s1) @ map be_key entries" "\<not> st \<noteq> STATUS_OK"
    have "patching (world_ok (world s)) 0 s2"
      using ok length_active [OF 2(1)] by (auto simp: patching_def clean_table_def list_all_length)
    then show "wp (sw_bp_patch e [0..<sw_count s2]) Q s2"
    proof (rule patch [OF _ refl sp], intro Q)
      fix st' and s3 :: "'w session"
      assume 3: "st' = STATUS_OK \<Longrightarrow> patching (world_ok (world s)) (sw_count s2) s3 \<and> sw_count s3 = sw_count s2 \<and>
          map sw_key (active_sw s3) = map sw_key (active_sw s2)" "st' = STATUS_OK" "table_sound s3"
      then show "map sw_key (active_sw s3) = map be_key entries \<and>
          list_all (\<lambda>b. sb_installed b \<and> (world_ok (world s) \<longrightarrow> armed (tmem (world s3)) b)) (active_sw s3)"
        using ok length_active [OF 3(3)] by (auto simp: patching_def list_all_length a1)
    qed
  qed
qed simp_all

end

end
