(* ===== verification/Session_Table.thy ===== *)
theory Session_Table
  imports Session_Shadow
begin

text \<open>
  The active breakpoints are well-formed and pairwise disjoint in every reachable state. Most
  operations do not write the table (\<open>keeps\<close>); those that do keep \<open>table_sound\<close>, and \<open>op_attach\<close>
  leaves it empty.
\<close>

section \<open>Operations that leave the table alone\<close>

definition keeps :: "('w session, 'a) st \<Rightarrow> bool" where
  "keeps m \<longleftrightarrow> (\<forall>s. swv (exec_st m s) = swv s)"

named_theorems keep_rules "operations that leave the breakpoint table alone"

lemma keeps_monad [keep_rules]:
  "keeps (State_Monad.return a)" "keeps State_Monad.get" "keeps (gets f)" "keeps (expect c)"
  by (simp_all add: keeps_def exec_st_def expect_def swv_def)

lemma keeps_bind [keep_rules]: "keeps m \<Longrightarrow> (\<And>a. keeps (f a)) \<Longrightarrow> keeps (State_Monad.bind m f)"
  by (simp add: keeps_def exec_st_def case_prod_beta)

lemma keeps_cases [keep_rules]:
  "(c \<Longrightarrow> keeps m) \<Longrightarrow> (\<not> c \<Longrightarrow> keeps n) \<Longrightarrow> keeps (if c then m else n)"
  "(\<And>a b. p = (a, b) \<Longrightarrow> keeps (g a b)) \<Longrightarrow> keeps (case p of (a, b) \<Rightarrow> g a b)"
  "(x = None \<Longrightarrow> keeps m) \<Longrightarrow> (\<And>a. x = Some a \<Longrightarrow> keeps (h a)) \<Longrightarrow>
   keeps (case x of None \<Rightarrow> m | Some a \<Rightarrow> h a)"
  "(\<And>a. y = Inl a \<Longrightarrow> keeps (k a)) \<Longrightarrow> (\<And>b. y = Inr b \<Longrightarrow> keeps (l b)) \<Longrightarrow>
   keeps (case y of Inl a \<Rightarrow> k a | Inr b \<Rightarrow> l b)"
  by (simp_all split: prod.splits option.splits sum.splits)

lemma keeps_let [keep_rules]: "(\<And>x. x = t \<Longrightarrow> keeps (f x)) \<Longrightarrow> keeps (let x = t in f x)"
  by simp

lemma keeps_modify [keep_rules]: "(\<And>s. swv (f s) = swv s) \<Longrightarrow> keeps (modify f)"
  by (simp add: keeps_def exec_st_def)

lemma keeps_call [keep_rules]: "keeps (call f g)"
  by (simp add: keeps_def exec_st_def call_def swv_def split: prod.splits)

lemma keeps_calls [keep_rules]:
  "keeps (b_attach e p)" "keeps (b_detach e a)" "keeps (b_reset e k h d)" "keeps (b_poll_halted e d)"
  "keeps (b_halt e ms d)" "keeps (b_resume e a x)" "keeps (b_read_regs e ids cap)"
  "keeps (b_write_regs e data)" "keeps (b_read_mem e addr n w)" "keeps (b_write_mem e addr data w)"
  "keeps (b_apply_breakpoints e bs)" "keeps (b_apply_watchpoints e ws)" "keeps (b_set_vector_catch e m)"
  unfolding b_defs by (intro keep_rules)+

lemma keeps_buffers [keep_rules]:
  "keeps (poke_scratch off bs)" "keeps (poke_pending off bs)" "keeps (peek_scratch off n)"
  "keeps (peek_pending off n)" "keeps (store_regions rs)" "keeps (sw_get i)" "keeps (calloc e n)"
  by (simp_all add: keeps_def exec_st_def swv_def poke_scratch_def poke_pending_def peek_scratch_def
      peek_pending_def store_regions_def sw_get_def calloc_def split: option.splits prod.splits)

lemma keeps_frames [keep_rules]:
  "keeps (begin_frame k opc r n)" "keeps kill_transport"
  unfolding begin_frame_def kill_transport_def by (intro keep_rules; simp add: swv_def)+

lemma keeps_finish_frame [keep_rules]: "keeps (finish_frame e)"
  unfolding finish_frame_def by (intro keep_rules)

lemma keeps_sends [keep_rules]:
  "keeps (send_response e opc r st payload)" "keeps (send_target_lost e reason)" "keeps (send_stopped e)"
  unfolding send_response_def send_target_lost_def send_stopped_def
  by (intro keep_rules; simp add: swv_def)+

lemma keeps_respond [keep_rules]: "keeps (respond e opc r st)"
  unfolding respond_def by (intro keep_rules)

lemma keeps_enter_lost [keep_rules]: "keeps (enter_lost e reason)"
  unfolding enter_lost_def by (intro keep_rules; simp add: swv_def)

lemma keeps_failure [keep_rules]: "keeps (send_backend_failure e opc r res fb)"
  unfolding send_backend_failure_def by (intro keep_rules)

lemma keeps_stack [keep_rules]: "keeps (capture_stack_snapshot e)"
  unfolding capture_stack_snapshot_def by (intro keep_rules; simp add: swv_def)

lemma keeps_snapshot [keep_rules]: "keeps (capture_snapshot e)"
  unfolding capture_snapshot_def by (intro keep_rules; simp add: swv_def)

lemma keeps_halted [keep_rules]: "keeps (enter_halted e stop)" "keeps (emit_pending_stopped e)"
  unfolding enter_halted_def emit_pending_stopped_def by (intro keep_rules; simp add: swv_def)+

lemma keeps_pc [keep_rules]: "keeps (write_current_pc e pc)"
  "keeps (update_step_over_after_register_write data n)"
  unfolding write_current_pc_def update_step_over_after_register_write_def
  by (intro keep_rules; simp add: swv_def)+

lemma keeps_poll [keep_rules]: "keeps (poll_step e fuel stop)"
proof (induction fuel arbitrary: stop)
  case (Suc fuel)
  show ?case unfolding poll_step.simps by (intro keep_rules Suc)
qed (simp add: keep_rules)

lemma keeps_clear [keep_rules]: "keeps clear_debug_state" "keeps clear_run_tracking" "keeps detach_cleanup"
  unfolding detach_cleanup_def clear_debug_state_def clear_run_tracking_def
  by (intro keep_rules; simp add: swv_def)+

lemma keeps_ops [keep_rules]:
  "keeps (detach_halt e r)" "keeps (attach_halt e h)" "keeps (op_get_state e r payload)"
  "keeps (op_read_memory e r payload)" "keeps (op_read_registers e r payload)"
  "keeps (op_write_registers e r payload)" "keeps (op_halt e r payload)" "keeps (handle_poll e)"
  "keeps (resume_run e r req)" "keeps (reset_failed e opc r err)"
  unfolding detach_halt_def attach_halt_def op_get_state_def op_read_memory_def op_read_registers_def
    op_write_registers_def op_halt_def handle_poll_def resume_run_def reset_failed_def
  by (intro keep_rules; simp add: swv_def)+

section \<open>Reachable tables\<close>

text \<open>A predicate of the table alone that an operation preserves.\<close>

definition sw_only :: "('w session \<Rightarrow> bool) \<Rightarrow> bool" where
  "sw_only I \<longleftrightarrow> (\<forall>s s'. swv s' = swv s \<longrightarrow> I s' = I s)"

definition preserves :: "('w session \<Rightarrow> bool) \<Rightarrow> ('w session, 'a) st \<Rightarrow> bool" where
  "preserves I m \<longleftrightarrow> (\<forall>s. I s \<longrightarrow> I (exec_st m s))"

lemma preserves_bind: "preserves I m \<Longrightarrow> (\<And>a. preserves I (f a)) \<Longrightarrow> preserves I (State_Monad.bind m f)"
  by (simp add: preserves_def exec_st_def case_prod_beta)

lemma preserves_cases:
  "(c \<Longrightarrow> preserves I m) \<Longrightarrow> (\<not> c \<Longrightarrow> preserves I n) \<Longrightarrow> preserves I (if c then m else n)"
  "(\<And>a b. p = (a, b) \<Longrightarrow> preserves I (g a b)) \<Longrightarrow> preserves I (case p of (a, b) \<Rightarrow> g a b)"
  "(x = None \<Longrightarrow> preserves I m) \<Longrightarrow> (\<And>a. x = Some a \<Longrightarrow> preserves I (h a)) \<Longrightarrow>
   preserves I (case x of None \<Rightarrow> m | Some a \<Rightarrow> h a)"
  "(\<And>a. y = Inl a \<Longrightarrow> preserves I (k a)) \<Longrightarrow> (\<And>b. y = Inr b \<Longrightarrow> preserves I (l b)) \<Longrightarrow>
   preserves I (case y of Inl a \<Rightarrow> k a | Inr b \<Rightarrow> l b)"
  by (simp_all split: prod.splits option.splits sum.splits)

lemma preserves_let: "(\<And>x. x = t \<Longrightarrow> preserves I (f x)) \<Longrightarrow> preserves I (let x = t in f x)"
  by simp

lemma preserves_keeps: "sw_only I \<Longrightarrow> keeps m \<Longrightarrow> preserves I m"
  unfolding keeps_def preserves_def sw_only_def by blast

lemma preservesD: "preserves I m \<Longrightarrow> I s \<Longrightarrow> wp m (\<lambda>_. I) s"
  by (simp add: preserves_def wp_def)

lemma preservesI: "(\<And>s. I s \<Longrightarrow> wp m (\<lambda>_. I) s) \<Longrightarrow> preserves I m"
  by (simp add: preserves_def wp_def)

definition sw_inv :: "'w session \<Rightarrow> bool" where
  "sw_inv s \<longleftrightarrow> sw_count s = 0 \<or> table_sound s"

lemma active_swv:
  assumes "swv s' = swv s"
  shows "active_sw s' = active_sw s"
proof -
  have "sw_table s' = sw_table s" "sw_count s' = sw_count s" using assms by (simp_all add: swv_def)
  then show ?thesis unfolding active_sw_def by (simp only:)
qed

lemma table_swv:
  assumes "swv s' = swv s"
  shows "table_sound s' = table_sound s" "sw_count s' = sw_count s"
proof -
  have "sw_table s' = sw_table s" "sw_count s' = sw_count s" using assms by (simp_all add: swv_def)
  then show "table_sound s' = table_sound s" "sw_count s' = sw_count s"
    unfolding table_sound_def active_swv [OF assms] by (simp_all only:)
qed

lemma sw_only_inv: "sw_only sw_inv" "sw_only (\<lambda>s. table_sound s \<and> i < sw_count s)"
  unfolding sw_only_def sw_inv_def using table_swv by (metis, metis)

lemmas pres = preserves_bind preserves_cases preserves_let

text \<open>The breakpoint operations over any environment: the memory contract of no world.\<close>

lemma no_contract: "backend_memory e (\<lambda>_. False) (\<lambda>_ _. 0)"
  by unfold_locales simp_all

lemmas table_restore_all = backend_memory.restore_all [OF no_contract]
lemmas table_restore_one = backend_memory.restore_one [OF no_contract]
lemmas table_install_one = backend_memory.install_one [OF no_contract]
lemmas table_apply = backend_memory.apply_program [OF no_contract]

lemma pres_restore_all: "preserves sw_inv (sw_bp_restore_all e)"
proof (rule preservesI)
  fix s :: "'a session" assume "sw_inv s"
  then consider "sw_count s = 0" | "table_sound s" by (auto simp: sw_inv_def)
  then show "wp (sw_bp_restore_all e) (\<lambda>_. sw_inv) s"
  proof cases
    case 1
    then show ?thesis unfolding sw_bp_restore_all_def by (auto intro!: wps simp: sw_inv_def)
  next
    case 2
    then show ?thesis by (rule table_restore_all) (simp add: sw_inv_def)
  qed
qed

lemma slot_sound:
  assumes "table_sound s" "i < sw_count s"
  obtains t where "sw_table s = Some t" "i < length t" "entry_ok (t ! i)" "length (sb_original (t ! i)) = 4"
    "active_sw s ! i = t ! i"
  using assms sound_nth [of "active_sw s" i] by (fastforce simp: table_sound_def active_sw_def)

lemma table_flagged:
  assumes "table_sound s" "i < sw_count s" "sw_table s = Some t"
    and "sw_table s' = Some (t[i := (t ! i)\<lparr>sb_installed := f\<rparr>])" "sw_count s' = sw_count s"
  shows "table_sound s' \<and> i < sw_count s'"
proof -
  have "active_sw s' = (active_sw s)[i := (active_sw s ! i)\<lparr>sb_installed := f\<rparr>]" "i < length (active_sw s)"
    using assms by (auto simp: active_sw_def take_update_swap table_sound_def)
  then show ?thesis using assms sound_install [of "active_sw s" i f] by (auto simp: table_sound_def)
qed

lemma pres_one:
  "preserves (\<lambda>s. table_sound s \<and> i < sw_count s) (sw_bp_restore_one e i)"
  "preserves (\<lambda>s. table_sound s \<and> i < sw_count s) (sw_bp_install_one e i)"
proof -
  show "preserves (\<lambda>s. table_sound s \<and> i < sw_count s) (sw_bp_restore_one e i)"
  proof (rule preservesI)
    fix s :: "'a session" assume s: "table_sound s \<and> i < sw_count s"
    then obtain t where t: "sw_table s = Some t" "i < length t" "entry_ok (t ! i)" "length (sb_original (t ! i)) = 4"
      using slot_sound by blast
    show "wp (sw_bp_restore_one e i) (\<lambda>_ s. table_sound s \<and> i < sw_count s) s"
    proof (rule table_restore_one [OF t])
      fix ok and s' :: "'a session" and b'
      assume "sw_table s' = Some (t[i := b'])" "sw_count s' = sw_count s"
        "if ok then b' = (t ! i)\<lparr>sb_installed := False\<rparr> else b' = t ! i \<and> sb_installed (t ! i)"
      moreover from this(3) have "b' = (t ! i)\<lparr>sb_installed := \<not> ok\<rparr>" by (cases ok) simp_all
      ultimately show "table_sound s' \<and> i < sw_count s'"
        using table_flagged [OF _ _ t(1), where i = i and s' = s' and f = "\<not> ok"] s by simp
    qed
  qed
  show "preserves (\<lambda>s. table_sound s \<and> i < sw_count s) (sw_bp_install_one e i)"
  proof (rule preservesI)
    fix s :: "'a session" assume s: "table_sound s \<and> i < sw_count s"
    then obtain t where t: "sw_table s = Some t" "i < length t" "entry_ok (t ! i)"
      using slot_sound by blast
    show "wp (sw_bp_install_one e i) (\<lambda>_ s. table_sound s \<and> i < sw_count s) s"
      by (rule table_install_one [OF t]) (rule table_flagged [OF _ _ t(1), where f = True]; simp add: s)
  qed
qed

lemma sw_only_sound: "sw_only table_sound"
  unfolding sw_only_def using table_swv(1) by blast

definition table_inv :: "('w session \<Rightarrow> bool) \<Rightarrow> 'w env \<Rightarrow> bool" where
  "table_inv I e \<longleftrightarrow> sw_only I \<and> preserves I (sw_bp_restore_all e)"

lemma table_invs: "table_inv sw_inv e" "table_inv table_sound e"
  using sw_only_inv(1) sw_only_sound pres_restore_all [of e]
  by (auto simp: table_inv_def intro!: preservesI intro: table_restore_all)

lemma inv_keeps: "table_inv I e \<Longrightarrow> keeps m \<Longrightarrow> preserves I m"
  by (simp add: table_inv_def preserves_keeps)

lemma inv_restore_all: "table_inv I e \<Longrightarrow> preserves I (sw_bp_restore_all e)"
  by (simp add: table_inv_def)

named_theorems inv_rules "operations that preserve an invariant of the breakpoint table"

lemmas [inv_rules] = inv_restore_all preserves_bind preserves_cases preserves_let

lemma inv_rollback [inv_rules]: "table_inv I e \<Longrightarrow> preserves I (rollback_run_config e)"
  unfolding rollback_run_config_def by (intro inv_rules; (assumption | rule inv_keeps, assumption, intro keep_rules))

lemma inv_resets [inv_rules]:
  "table_inv I e \<Longrightarrow> preserves I (fail_run e r st)"
  "table_inv I e \<Longrightarrow> preserves I (prepare_rollback e opc r)"
  "table_inv I e \<Longrightarrow> preserves I (detach_target e r a)"
  unfolding fail_run_def prepare_rollback_def detach_target_def
  by (intro inv_rules; (assumption | rule inv_keeps, assumption, intro keep_rules))+

lemma inv_prepare [inv_rules]: "table_inv I e \<Longrightarrow> preserves I (prepare_reset e opc r)"
  unfolding prepare_reset_def
  by (intro inv_rules; (assumption | rule inv_keeps, assumption, intro keep_rules))

lemma inv_ops [inv_rules]:
  "table_inv I e \<Longrightarrow> preserves I (op_reset_halt e r payload)"
  "table_inv I e \<Longrightarrow> preserves I (op_reset_run e r payload)"
  "table_inv I e \<Longrightarrow> preserves I (op_detach e r payload)"
  "table_inv I e \<Longrightarrow> preserves I (handle_disconnect e)"
  unfolding op_reset_halt_def op_reset_run_def op_detach_def handle_disconnect_def
  by (intro inv_rules; (assumption | rule inv_keeps, assumption, intro keep_rules; simp add: swv_def))+

lemma inv_adopt: "preserves sw_inv (adopt_attach_info info)"
proof -
  have "preserves sw_inv (modify (\<lambda>s. s\<lparr>sw_count := 0, region_count := 0\<rparr>))"
    by (simp add: preserves_def exec_st_def sw_inv_def)
  note last = this
  show ?thesis
    unfolding adopt_attach_info_def
    by (intro inv_rules last; (assumption | rule inv_keeps [OF table_invs(1)], intro keep_rules; simp add: swv_def))
qed

lemma inv_attach: "preserves sw_inv (op_attach e r payload)"
  unfolding op_attach_def
  by (intro inv_rules inv_adopt table_invs(1);
      (assumption | rule inv_keeps [OF table_invs(1)], intro keep_rules; simp add: swv_def))

lemma sound_overlap: "sound bs \<Longrightarrow> sound (map (overlap_one a d) bs)"
  by (simp add: sound_def list_all_iff sorted_wrt_map) (simp add: apart_def [abs_def])

lemma inv_overlap: "preserves sw_inv (sw_bp_write_overlap a d)"
proof (rule preservesI)
  fix s :: "'a session" assume s: "sw_inv s"
  show "wp (sw_bp_write_overlap a d) (\<lambda>_. sw_inv) s"
  proof (cases "sw_count s = 0")
    case False
    then obtain t where t: "table_sound s" "sw_table s = Some t" "length t = 32" "sw_count s \<le> 32"
      using s by (auto simp: sw_inv_def table_sound_def)
    show ?thesis
      unfolding sw_bp_write_overlap_def
      by (intro wps) (use t sound_overlap [of "active_sw s" a d] in
        \<open>auto simp: sw_inv_def table_sound_def active_sw_def\<close>)
  qed (auto simp: sw_bp_write_overlap_def sw_inv_def intro!: wps)
qed

lemma inv_write_memory: "preserves sw_inv (op_write_memory e r payload)"
  unfolding op_write_memory_def
  by (intro inv_rules inv_overlap;
      (assumption | rule inv_keeps [OF table_invs(1)], intro keep_rules; simp add: swv_def))

lemma find_active:
  assumes "sw_bp_find_by_address (active_sw s) a = Some i"
  shows "i < sw_count s"
proof -
  have "i < length (active_sw s)"
    using assms by (auto simp: sw_bp_find_by_address_def find_Some_iff)
  then show ?thesis by (auto simp: active_sw_def split: option.splits)
qed

definition slot_inv :: "nat option \<Rightarrow> 'w session \<Rightarrow> bool" where
  "slot_inv bp s \<longleftrightarrow> table_sound s \<and> (case bp of None \<Rightarrow> True | Some i \<Rightarrow> i < sw_count s)"

lemma sw_only_slot: "sw_only (slot_inv bp)"
proof -
  have "slot_inv bp s' = slot_inv bp s" if "swv s' = swv s" for s s' :: "'a session"
    unfolding slot_inv_def table_swv [OF that] ..
  then show ?thesis unfolding sw_only_def by blast
qed

lemma slot_keeps: "keeps m \<Longrightarrow> preserves (slot_inv bp) m"
  by (rule preserves_keeps [OF sw_only_slot])

lemma slot_ops: "preserves (slot_inv bp) (restore_at e bp)" "preserves (slot_inv bp) (install_at e bp)"
proof -
  have "preserves (slot_inv bp) (State_Monad.return True)" by (rule slot_keeps) (rule keep_rules)
  then show "preserves (slot_inv bp) (restore_at e bp)" "preserves (slot_inv bp) (install_at e bp)"
    using pres_one [of _ e] by (cases bp; simp add: restore_at_def install_at_def slot_inv_def [abs_def])+
qed

lemma slot_finish: "preserves (slot_inv bp) (finish_step_over e a bp polled)"
  unfolding finish_step_over_def
  by (intro preserves_bind preserves_cases slot_ops;
     (rule slot_keeps, intro keep_rules; simp add: swv_def))

lemma pres_step_over: "preserves table_sound (execute_step_over e a)"
proof (rule preservesI)
  fix s :: "'a session" assume s: "table_sound s"
  define bp where "bp = sw_bp_find_by_address (active_sw s) (sw_step_over_address s)"
  have init: "slot_inv bp s"
    using s find_active by (auto simp: slot_inv_def bp_def split: option.splits)
  have read: "sw_readable s" using s by (auto simp: table_sound_def sw_readable_def)
  have tail: "preserves (slot_inv bp) (do {
       restored \<leftarrow> restore_at e bp;
       if \<not> restored then return (STEP_FAILED, no_stop, TARGET_LOST_SWD_FAULT)
       else do {
         pc_ok \<leftarrow> write_current_pc e pc;
         if \<not> pc_ok then do {
           _ \<leftarrow> install_at e bp;
           return (STEP_FAILED, no_stop, TARGET_LOST_SWD_FAULT)
         }
         else do {
           r \<leftarrow> b_resume e RUN_SINGLE_STEP 0;
           if r \<noteq> ESP_OK then return (STEP_FAILED_LOST, no_stop,
             if r = ESP_ERR_TIMEOUT then TARGET_LOST_TIMEOUT else TARGET_LOST_SWD_FAULT)
           else do {
             polled \<leftarrow> poll_step e 100 no_stop;
             finish_step_over e a bp polled
           }
         }
       }})" for pc
    by (intro preserves_bind preserves_cases slot_ops slot_finish;
        (rule slot_keeps, intro keep_rules; simp add: swv_def))
  show "wp (execute_step_over e a) (\<lambda>_. table_sound) s"
    unfolding execute_step_over_def
    apply (rule wp_bind, rule wp_get, rule wp_if)
     apply (rule wp_return, rule s)
    apply (rule wp_bind, rule wp_expect, rule read)
    apply (simp only: Let_def bp_def [symmetric])
    apply (rule wp_mono [OF preservesD [OF tail init]])
    apply (simp add: slot_inv_def)
    done
qed

lemma sound_keeps: "keeps m \<Longrightarrow> preserves table_sound m"
  by (rule preserves_keeps [OF sw_only_sound])

lemma pres_apply: "list_all be_ok entries \<Longrightarrow> preserves table_sound (sw_bp_apply e entries)"
  by (rule preservesI) (rule table_apply)

lemma pres_install: "list_all be_ok sw \<Longrightarrow> preserves table_sound (install_run_config e req hw sw ws)"
  unfolding install_run_config_def
  by (intro preserves_bind preserves_cases pres_apply;
      (assumption | rule sound_keeps, intro keep_rules; simp add: swv_def))

lemma pres_finish: "preserves table_sound (finish_run e r req step stop reason)"
  unfolding finish_run_def
  by (intro preserves_bind preserves_cases inv_rollback [OF table_invs(2)];
      (assumption | rule sound_keeps, intro keep_rules; simp add: swv_def))

lemma validate_be_ok: "validate_run s payload = Inr (req, hw', sw', ws) \<Longrightarrow> list_all be_ok sw'"
  by (auto simp: validate_run_def Let_def list_all_iff split: if_splits option.splits sum.splits
      dest: check_breakpoints_ok)

lemma pres_run: "preserves table_sound (op_run e r payload)"
proof (rule preservesI)
  fix s :: "'a session" assume s: "table_sound s"
  have "preserves table_sound (do {
         expect c;
         failed \<leftarrow> install_run_config e req hw sw ws;
         case failed of
           Some st \<Rightarrow> fail_run e r st
         | None \<Rightarrow> do {
             (step, step_stop, lost_reason) \<leftarrow> execute_step_over e (rq_action req);
             finish_run e r req step step_stop lost_reason
           }})" if "validate_run s payload = Inr (req, hw, sw, ws)" for c req hw sw ws
    by (intro preserves_bind preserves_cases pres_install pres_step_over pres_finish
        inv_resets(1) [OF table_invs(2)] validate_be_ok [OF that];
        (rule sound_keeps, intro keep_rules; simp add: swv_def))
  then have "preserves table_sound (case validate_run s payload of
       Inl st \<Rightarrow> respond e OP_RUN r st
     | Inr (req, hw, sw, ws) \<Rightarrow> do {
         expect (length hw \<le> MAX_HARDWARE_BREAKPOINTS \<and> length sw \<le> MAX_SOFTWARE_BREAKPOINTS \<and>
           length ws \<le> MAX_HARDWARE_WATCHPOINTS);
         failed \<leftarrow> install_run_config e req hw sw ws;
         case failed of
           Some st \<Rightarrow> fail_run e r st
         | None \<Rightarrow> do {
             (step, step_stop, lost_reason) \<leftarrow> execute_step_over e (rq_action req);
             finish_run e r req step step_stop lost_reason
           }})"
    using sound_keeps [OF keeps_respond] by (intro preserves_cases) auto
  moreover have "table_sound (s\<lparr>ub := b\<rparr>)" for b
    using s table_swv(1) [of "s\<lparr>ub := b\<rparr>" s] by (simp add: swv_def)
  ultimately show "wp (op_run e r payload) (\<lambda>_. table_sound) s"
    unfolding op_run_def by (intro wp_bind wp_get) (auto simp: wp_def preserves_def expect_def exec_st_def result_st_def)
qed

lemma sound_of_inv:
  assumes "wf e s" "attached s" "sw_inv s"
  shows "table_sound s"
  using assms wf_table [OF assms(1)] wf_attached [OF assms(1,2)]
  by (auto simp: sw_inv_def storage_ready_def table_ok_def table_sound_def active_sw_def)

lemma inv_of_sound: "table_sound s \<Longrightarrow> sw_inv s"
  by (simp add: sw_inv_def)

lemma inv_dispatch:
  assumes wf: "wf e s" and att: "opc \<noteq> OP_RUN \<or> attached s" and s: "sw_inv s"
  shows "sw_inv (exec_st (dispatch e opc r payload) s)"
proof (cases "opc = OP_RUN")
  case True
  then have "exec_st (dispatch e opc r payload) s = exec_st (op_run e r payload) s" by (simp add: dispatch_def)
  moreover have "table_sound s" using att s True by (intro sound_of_inv [OF wf]) auto
  ultimately show ?thesis using pres_run [of e r payload] inv_of_sound by (auto simp: preserves_def)
next
  case False
  then have "preserves sw_inv (dispatch e opc r payload)"
    unfolding dispatch_def
    by (simp add: inv_attach inv_write_memory inv_ops [OF table_invs(1)] inv_keeps [OF table_invs(1)] keep_rules)
  then show ?thesis using s by (simp add: preserves_def)
qed

lemma inv_handle_request:
  assumes wf: "wf e s" and s: "sw_inv s"
  shows "sw_inv (exec_st (handle_request e m) s)"
proof (cases "\<not> transport_dead s \<and> accepted m")
  case True
  have resp: "sw_inv (exec_st (respond e opc r st) s)" for opc r st
    using preservesD [OF inv_keeps [OF table_invs(1) keeps_respond] s] by (simp add: wp_def)
  have "sw_inv (exec_st (handle_accepted e (opcode_of m) (request_of m) (drop 12 m)) s)"
  proof (cases "gate_column (opcode_of m)")
    case None
    then show ?thesis using resp by (simp add: handle_accepted_def exec_st_def)
  next
    case (Some c)
    show ?thesis
    proof (cases "gate_status (GATE_TABLE (state s) c)")
      case None
      have "opcode_of m \<noteq> OP_RUN \<or> attached s"
        using gate_allow [OF Some gate_statusD [OF None]] wf_attached_state [OF wf] by auto
      then show ?thesis
        using inv_dispatch [OF wf _ s] Some None by (simp add: handle_accepted_def exec_st_def)
    qed (use Some resp in \<open>simp add: handle_accepted_def exec_st_def\<close>)
  qed
  then show ?thesis using True handle_request_accepted [of s m e] by (simp add: exec_st_def)
next
  case False
  then show ?thesis using s handle_request_ignored [of s m e] by (auto simp: exec_st_def)
qed

text \<open>In every reachable state the active breakpoints are well-formed and pairwise disjoint.\<close>

lemma inv_reachable: "reachable e s \<Longrightarrow> sw_inv s"
proof (induction rule: reachable.induct)
  case (reach_init s)
  have count: "sw_count (exec_st (init e) s) = sw_count s"
    by (simp add: init_def exec_st_def calloc_def no_memory_def release_storage_def split: prod.splits)
  show ?case
  proof (cases "storage_ready e s")
    case True
    then show ?thesis using reach_init.IH by (simp add: init_def exec_st_def storage_ready_def)
  next
    case False
    then have "sw_count s = 0" using wf_reachable [OF reach_init.hyps] by (simp add: wf_def idle_def)
    then show ?thesis by (simp add: sw_inv_def count)
  qed
next
  case (reach_world s w)
  have "swv (s\<lparr>world := w\<rparr>) = swv s" by (simp add: swv_def)
  then show ?case using sw_only_inv(1) reach_world.IH unfolding sw_only_def by blast
next
  case (reach_poll s)
  then show ?case using inv_keeps [OF table_invs(1)] keeps_ops(8) by (auto simp: preserves_def)
next
  case (reach_disconnect s)
  then show ?case using inv_ops(4) [OF table_invs(1)] by (auto simp: preserves_def)
next
  case (reach_request s m)
  then show ?case by (intro inv_handle_request wf_reachable)
qed (simp add: sw_inv_def new_session_def)

end
