(* ===== verification/Mock_Backend.thy ===== *)
theory Mock_Backend
  imports Backend
begin

text \<open>
  The one implementation of \<open>target_backend_t\<close> in the repository: \<open>mock_backend_t\<close> of
  \<open>test/test_sidp_session.cpp\<close>, a 64 KiB RAM target whose faults are scripted by flags. Its world
  is a record; the call counters and the "last argument" fields that only the tests read are left
  out, they influence no result. The theory shows that the mock satisfies \<open>backend_memory\<close>, so the
  contract the memory theorems assume can be met, and it provides the concrete environment of the
  witnesses.
\<close>

section \<open>The mock\<close>

abbreviation (input) RAM_BASE :: u64 where "RAM_BASE \<equiv> 0x20000000"
abbreviation (input) RAM_SIZE :: nat where "RAM_SIZE \<equiv> 0x10000"

record mock =
  mk_mem :: bytes
  mk_region_base :: u64
  mk_ram_flags :: u8
  mk_running :: bool
  mk_halted :: bool
  mk_detach_ok :: bool
  mk_malformed_map :: bool
  mk_fail_attach :: bool
  mk_fault_on_next :: bool
  mk_halt_will_timeout :: bool
  mk_fail_after_patch :: bool
  mk_fail_restore :: bool
  mk_caps_extra :: u32
  mk_caps_remove :: u32
  mk_hw_bp_override :: u16
  mk_hw_wp_override :: u16
  mk_max_xfer_override :: u16
  mk_snapshot_sp :: u32
  mk_stepping :: bool
  mk_fail_repatch_after_step :: bool
  mk_fail_pc_write :: bool
  mk_step_hangs :: bool
  mk_step_fault_flag :: bool
  mk_step_watchpoint_flag :: bool
  mk_step_poll_error :: esp_err
  mk_step_pc :: u32
  mk_step_advance :: u32
  mk_step_clean :: bool
  mk_step_fault_dfsr :: u32
  mk_snapshot_sp_unavailable :: bool
  mk_last_pc :: u32
  mk_last_comparator_match :: bool
  mk_last_comparator_index :: u8
  mk_last_dfsr :: u32
  mk_tx_frames :: "bytes list"

definition mock_init :: mock where
  "mock_init = \<lparr>mk_mem = replicate RAM_SIZE 0, mk_region_base = RAM_BASE, mk_ram_flags = 7,
     mk_running = True, mk_halted = False, mk_detach_ok = True, mk_malformed_map = False,
     mk_fail_attach = False, mk_fault_on_next = False, mk_halt_will_timeout = False,
     mk_fail_after_patch = False, mk_fail_restore = False, mk_caps_extra = 0,
     mk_caps_remove = 0, mk_hw_bp_override = 6, mk_hw_wp_override = 4,
     mk_max_xfer_override = 4096, mk_snapshot_sp = 0x20008000, mk_stepping = False,
     mk_fail_repatch_after_step = False, mk_fail_pc_write = False, mk_step_hangs = False,
     mk_step_fault_flag = False, mk_step_watchpoint_flag = False, mk_step_poll_error = ESP_OK,
     mk_step_pc = 0, mk_step_advance = 4, mk_step_clean = True, mk_step_fault_dfsr = 8,
     mk_snapshot_sp_unavailable = False, mk_last_pc = 0x1000, mk_last_comparator_match = False,
     mk_last_comparator_index = 0, mk_last_dfsr = 0, mk_tx_frames = []\<rparr>"

text \<open>\<open>mem_at\<close>: the offset of an address in \<open>mem\<close>, or \<open>nullptr\<close>.\<close>

definition mem_at :: "mock \<Rightarrow> u64 \<Rightarrow> nat option" where
  "mem_at w address =
     (if mk_region_base w \<le> address \<and> address - mk_region_base w \<le> word_of_nat (RAM_SIZE - 4)
      then Some (unat (address - mk_region_base w)) else None)"

text \<open>\<open>fault_next\<close>: consumes the scripted fault; each operation returns \<open>ESP_FAIL\<close> on it.\<close>

definition fault_next :: "mock \<Rightarrow> bool \<times> mock" where
  "fault_next w = (mk_fault_on_next w, w\<lparr>mk_fault_on_next := False\<rparr>)"

definition mock_attach :: "attach_params \<Rightarrow> mock \<Rightarrow> (esp_err \<times> attach_info) \<times> mock" where
  "mock_attach p w =
     (let blank = \<lparr>ai_architecture = 0, ai_profile = 0, ai_address_width = 0, ai_capabilities = 0,
          ai_target_id = 0, ai_cpu_id = 0, ai_supported_vector_catch_mask = 0,
          ai_hardware_breakpoints = 0, ai_hardware_watchpoints = 0, ai_max_memory_transfer = 0,
          ai_memory_regions = []\<rparr>;
        region = enc_memory_region \<lparr>mr_start = mk_region_base w,
          mr_length = word_of_nat RAM_SIZE, mr_type = MEMORY_RAM, mr_flags = mk_ram_flags w,
          mr_reserved = 0\<rparr>;
        caps = CAP_HARDWARE_BP OR CAP_SOFTWARE_BP OR CAP_WATCHPOINT OR CAP_SINGLE_STEP OR
          CAP_RESET_HALT OR CAP_RESET_SYSTEM OR CAP_RESET_RUN OR CAP_STOP_SNAPSHOT
      in if mk_fail_attach w then ((ESP_FAIL, blank), w)
         else ((ESP_OK, \<lparr>ai_architecture = 1, ai_profile = 3, ai_address_width = 32,
           ai_capabilities = (caps OR mk_caps_extra w) AND NOT (mk_caps_remove w),
           ai_target_id = 0x12345678, ai_cpu_id = 0x411FC241,
           ai_supported_vector_catch_mask = 0x3,
           ai_hardware_breakpoints = mk_hw_bp_override w,
           ai_hardware_watchpoints = mk_hw_wp_override w,
           ai_max_memory_transfer = mk_max_xfer_override w,
           ai_memory_regions = (if mk_malformed_map w then butlast region else region)\<rparr>), w))"

definition mock_detach :: "u8 \<Rightarrow> mock \<Rightarrow> esp_err \<times> mock" where
  "mock_detach a w = (if mk_detach_ok w then ESP_OK else ESP_FAIL, w)"

definition mock_reset ::
  "u8 \<Rightarrow> bool \<Rightarrow> stop_detect \<Rightarrow> mock \<Rightarrow> (esp_err \<times> stop_detect) \<times> mock" where
  "mock_reset k halt_after d w =
     (case fault_next w of (f, w) \<Rightarrow>
        if f then ((ESP_FAIL, d), w)
        else if halt_after then
          ((ESP_OK, no_stop\<lparr>sd_halted := True, sd_pc := 0x08000000\<rparr>),
           w\<lparr>mk_halted := True, mk_running := False\<rparr>)
        else ((ESP_OK, d), w\<lparr>mk_running := True, mk_halted := False\<rparr>))"

definition observed_stop :: "mock \<Rightarrow> stop_detect \<Rightarrow> stop_detect" where
  "observed_stop w d = d\<lparr>sd_pc := mk_last_pc w, sd_comparator_match := mk_last_comparator_match w,
     sd_comparator_index := mk_last_comparator_index w, sd_dfsr := mk_last_dfsr w\<rparr>"

definition mock_poll_halted :: "stop_detect \<Rightarrow> mock \<Rightarrow> (esp_err \<times> stop_detect) \<times> mock" where
  "mock_poll_halted d w =
     (if mk_stepping w \<and> mk_step_poll_error w \<noteq> ESP_OK then ((mk_step_poll_error w, no_stop), w)
      else case fault_next w of (f, w) \<Rightarrow>
        if f then ((ESP_FAIL, no_stop), w)
        else let stop = no_stop\<lparr>sd_halted := mk_halted w,
               sd_fault := mk_stepping w \<and> mk_step_fault_flag w,
               sd_watchpoint_match := mk_stepping w \<and> mk_step_watchpoint_flag w\<rparr>
          in ((ESP_OK, if mk_halted w then observed_stop w stop else stop), w))"

definition mock_halt :: "u32 \<Rightarrow> stop_detect \<Rightarrow> mock \<Rightarrow> (esp_err \<times> stop_detect) \<times> mock" where
  "mock_halt ms d w =
     (case fault_next w of (f, w) \<Rightarrow>
        if f then ((ESP_FAIL, d), w)
        else if mk_halt_will_timeout w then ((ESP_ERR_TIMEOUT, d), w)
        else ((ESP_OK, observed_stop w (no_stop\<lparr>sd_halted := True\<rparr>)),
          w\<lparr>mk_halted := True, mk_running := False\<rparr>))"

definition mock_resume :: "u8 \<Rightarrow> u64 \<Rightarrow> mock \<Rightarrow> esp_err \<times> mock" where
  "mock_resume action a w =
     (case fault_next (w\<lparr>mk_stepping := (action = RUN_SINGLE_STEP)\<rparr>) of (f, w) \<Rightarrow>
        if f then (ESP_FAIL, w)
        else if action = RUN_SINGLE_STEP then
          (ESP_OK, w\<lparr>mk_halted := \<not> mk_step_hangs w, mk_running := mk_step_hangs w,
             mk_step_pc := mk_step_pc w + mk_step_advance w,
             mk_last_pc := mk_step_pc w + mk_step_advance w,
             mk_last_dfsr := (if mk_step_clean w then 1 else mk_step_fault_dfsr w),
             mk_last_comparator_match := False\<rparr>)
        else (ESP_OK, w\<lparr>mk_halted := False, mk_running := True\<rparr>))"

definition mock_entry :: "u16 \<Rightarrow> u8 \<Rightarrow> u32 \<Rightarrow> bytes" where
  "mock_entry i flags v =
     enc_register_value \<lparr>rv_register_id = i, rv_value_size = 4, rv_flags = flags\<rparr> @ le_bytes 4 v"

definition mock_read_regs ::
  "u16 list \<Rightarrow> nat \<Rightarrow> mock \<Rightarrow> (esp_err \<times> bytes \<times> nat) \<times> mock" where
  "mock_read_regs ids cap w =
     (case fault_next w of (f, w) \<Rightarrow>
        if f then ((ESP_FAIL, [], 0), w)
        else if ids \<noteq> [] then
          (if list_ex (\<lambda>i. i \<noteq> ARM_REG_PC) ids then ((ESP_ERR_INVALID_ARG, [], 0), w)
           else if length ids * 8 > cap then ((ESP_ERR_NO_MEM, [], 0), w)
           else ((ESP_OK, concat (map (\<lambda>i. mock_entry ARM_REG_PC REGISTER_VALUE_FLAG_NONE
               (mk_last_pc w + word_of_nat i)) [0..<length ids]), length ids * 8), w))
        else if 16 > cap then ((ESP_ERR_NO_MEM, [], 16), w)
        else ((ESP_OK, mock_entry ARM_REG_PC REGISTER_VALUE_FLAG_NONE 0x1000 @
            mock_entry ARM_REG_SP (if mk_snapshot_sp_unavailable w
              then REGISTER_VALUE_FLAG_UNAVAILABLE else REGISTER_VALUE_FLAG_NONE)
              (mk_snapshot_sp w), 16), w))"

function mock_scan_regs :: "bytes \<Rightarrow> nat \<Rightarrow> mock \<Rightarrow> esp_err \<times> mock" where
  "mock_scan_regs data offset w =
     (if offset + SIZEOF_register_value \<le> length data then
        let entry = dec_register_value (slice offset SIZEOF_register_value data);
            entry_size = SIZEOF_register_value + unat (rv_value_size entry)
        in if offset + entry_size > length data then (ESP_ERR_INVALID_ARG, w)
           else mock_scan_regs data (offset + entry_size)
             (if rv_register_id entry = ARM_REG_PC \<and> rv_value_size entry = 4
              then let pc = le_word (slice (offset + SIZEOF_register_value) 4 data)
                in w\<lparr>mk_last_pc := pc, mk_step_pc := pc\<rparr>
              else w)
      else (ESP_OK, w))"
  by pat_completeness auto
termination by (relation "measure (\<lambda>(data, offset, w). length data - offset)") (auto simp: Let_def)

declare mock_scan_regs.simps [simp del]

definition mock_write_regs :: "bytes \<Rightarrow> mock \<Rightarrow> esp_err \<times> mock" where
  "mock_write_regs data w =
     (if mk_fail_pc_write w then (ESP_ERR_TIMEOUT, w)
      else case fault_next w of (f, w) \<Rightarrow>
        if f then (ESP_FAIL, w) else mock_scan_regs data 0 w)"

definition mock_read_mem :: "u64 \<Rightarrow> nat \<Rightarrow> u8 \<Rightarrow> mock \<Rightarrow> (esp_err \<times> bytes) \<times> mock" where
  "mock_read_mem address n width w =
     (case fault_next w of (f, w) \<Rightarrow>
        if f then ((ESP_FAIL, []), w)
        else case (mem_at w address, mem_at w (address + word_of_nat n - 1)) of
          (Some src, Some _) \<Rightarrow> ((ESP_OK, slice src n (mk_mem w)), w)
        | _ \<Rightarrow> ((ESP_ERR_INVALID_ARG, []), w))"

definition mock_write_mem :: "u64 \<Rightarrow> bytes \<Rightarrow> u8 \<Rightarrow> mock \<Rightarrow> esp_err \<times> mock" where
  "mock_write_mem address data width w =
     (let patch = (data = [0x00, 0xBE]) in
      if mk_fail_restore w \<and> \<not> patch then (ESP_ERR_TIMEOUT, w)
      else case fault_next w of (f, w) \<Rightarrow>
        if f then (ESP_FAIL, w)
        else case (mem_at w address, mem_at w (address + word_of_nat (length data) - 1)) of
          (Some dst, Some _) \<Rightarrow>
            (let w = w\<lparr>mk_mem := splice dst data (mk_mem w)\<rparr> in
             if patch \<and> mk_stepping w \<and> mk_fail_repatch_after_step w
             then (ESP_ERR_TIMEOUT, w\<lparr>mk_fail_repatch_after_step := False\<rparr>)
             else let w = (if patch \<and> mk_stepping w
                  then w\<lparr>mk_fail_repatch_after_step := False\<rparr> else w)
               in if patch \<and> mk_fail_after_patch w
                  then (ESP_ERR_TIMEOUT, w\<lparr>mk_fail_after_patch := False\<rparr>)
                  else (ESP_OK, if patch then w\<lparr>mk_fail_after_patch := False\<rparr> else w))
        | _ \<Rightarrow> (ESP_ERR_INVALID_ARG, w))"

definition mock_simple :: "mock \<Rightarrow> esp_err \<times> mock" where
  "mock_simple w = (case fault_next w of (f, w) \<Rightarrow> if f then (ESP_FAIL, w) else (ESP_OK, w))"

definition mock_capture_tx :: "bytes \<Rightarrow> mock \<Rightarrow> bool \<times> mock" where
  "mock_capture_tx frame w = (True, w\<lparr>mk_tx_frames := mk_tx_frames w @ [frame]\<rparr>)"

definition mock_env :: "mock env" where
  "mock_env = \<lparr>bk_attach = mock_attach, bk_detach = mock_detach, bk_reset = mock_reset,
     bk_poll_halted = mock_poll_halted, bk_halt = mock_halt, bk_resume = mock_resume,
     bk_read_regs = mock_read_regs, bk_write_regs = mock_write_regs,
     bk_read_mem = mock_read_mem, bk_write_mem = mock_write_mem,
     bk_apply_breakpoints = (\<lambda>_. mock_simple), bk_apply_watchpoints = (\<lambda>_. mock_simple),
     bk_set_vector_catch = (\<lambda>_. mock_simple),
     env_tx_sink = Some mock_capture_tx, env_calloc = (\<lambda>_ w. (True, w))\<rparr>"

section \<open>The mock meets the memory contract\<close>

definition mock_ok :: "mock \<Rightarrow> bool" where
  "mock_ok w \<longleftrightarrow> length (mk_mem w) = RAM_SIZE \<and> mk_region_base w = RAM_BASE"

definition mock_tmem :: "mock \<Rightarrow> u64 \<Rightarrow> u8" where
  "mock_tmem w x = (if unat (x - RAM_BASE) < RAM_SIZE then mk_mem w ! unat (x - RAM_BASE) else 0)"

lemma unat_add_nat: "unat (d :: u64) + i < 2 ^ 64 \<Longrightarrow> unat (d + word_of_nat i) = unat d + i"
  by (simp add: unat_word_ariths unsigned_of_nat take_bit_eq_mod mod_add_right_eq)

lemma unat_add_word: "unat (d :: u64) + unat y < 2 ^ 64 \<Longrightarrow> unat (d + y) = unat d + unat y"
  using unat_add_nat [of d "unat y"] by simp

lemma mem_at_extent:
  assumes w: "mock_ok w" and a: "mem_at w a = Some src"
    and z: "mem_at w (a + word_of_nat n - 1) = Some z" and n: "n \<le> 8192"
  shows "src = unat (a - RAM_BASE)" and "src + n \<le> RAM_SIZE"
proof -
  let ?d = "a - RAM_BASE"
  show src: "src = unat ?d" using a w by (simp add: mem_at_def mock_ok_def split: if_splits)
  have d: "unat ?d \<le> 0xFFFC"
    using a w by (simp add: mem_at_def mock_ok_def word_le_nat_alt split: if_splits)
  have e: "unat (a + word_of_nat n - 1 - RAM_BASE) \<le> 0xFFFC"
    using z w by (simp add: mem_at_def mock_ok_def word_le_nat_alt split: if_splits)
  show "src + n \<le> RAM_SIZE"
  proof (cases n)
    case 0
    then show ?thesis using d src by simp
  next
    case (Suc m)
    have eq: "a + word_of_nat n - 1 - RAM_BASE = ?d + word_of_nat m"
      by (simp add: Suc algebra_simps)
    have "unat (?d + word_of_nat m) = unat ?d + m"
      by (rule unat_add_nat) (use d n Suc in simp)
    then have "unat ?d + m \<le> 0xFFFC"
      using e by (simp only: eq)
    then show ?thesis using src Suc by simp
  qed
qed

lemma mock_tmem_read:
  assumes w: "mock_ok w" and src: "src = unat (a - RAM_BASE)" "src + n \<le> RAM_SIZE"
  shows "slice src n (mk_mem w) = mem_read a n (mock_tmem w)"
proof (rule nth_equalityI)
  have len: "length (mk_mem w) = RAM_SIZE" using w by (simp add: mock_ok_def)
  show "length (slice src n (mk_mem w)) = length (mem_read a n (mock_tmem w))"
    using len src by simp
  fix i assume "i < length (slice src n (mk_mem w))"
  then have i: "i < n" using len src by simp
  have "unat (a + word_of_nat i - RAM_BASE) = src + i"
    using unat_add_nat [of "a - RAM_BASE" i] src i by (simp add: algebra_simps)
  then show "slice src n (mk_mem w) ! i = mem_read a n (mock_tmem w) ! i"
    using len src i by (simp add: nth_slice mem_read_def mock_tmem_def)
qed

lemma mock_tmem_write:
  assumes w: "mock_ok w" and src: "src = unat (a - RAM_BASE)" "src + length data \<le> RAM_SIZE"
    and w': "mk_mem w' = splice src data (mk_mem w)"
  shows "mock_tmem w' = mem_write a data (mock_tmem w)"
proof
  fix x
  have len: "length (mk_mem w) = RAM_SIZE" using w by (simp add: mock_ok_def)
  have sum: "x - RAM_BASE = (a - RAM_BASE) + (x - a)" by simp
  have in_range: "unat (x - RAM_BASE) = src + unat (x - a)" if "unat (x - a) < length data"
    unfolding sum src(1) by (rule unat_add_word) (use that src in simp)
  have out_range: "unat (x - a) = unat (x - RAM_BASE) - src"
    if "src \<le> unat (x - RAM_BASE)"
  proof -
    have eq: "x - a = (x - RAM_BASE) - (a - RAM_BASE)" by simp
    have "a - RAM_BASE \<le> x - RAM_BASE" using that src(1) by (simp add: word_le_nat_alt)
    then have "unat ((x - RAM_BASE) - (a - RAM_BASE)) = unat (x - RAM_BASE) - unat (a - RAM_BASE)"
      by (rule unat_sub)
    then show ?thesis by (simp only: eq src(1))
  qed
  show "mock_tmem w' x = mem_write a data (mock_tmem w) x"
  proof (cases "unat (x - a) < length data")
    case True
    then show ?thesis
      using len src(2) by (simp add: mock_tmem_def mem_write_def w' nth_splice in_range)
  next
    case False
    then have "src \<le> unat (x - RAM_BASE) \<Longrightarrow> length data \<le> unat (x - RAM_BASE) - src"
      using out_range by simp
    then show ?thesis
      using False len src(2)
      by (cases "unat (x - RAM_BASE) < src") (auto simp: mock_tmem_def mem_write_def w' nth_splice)
  qed
qed

lemma mock_read_cases:
  assumes "mock_read_mem a n k w = ((r, bs), w')"
  shows "mk_mem w' = mk_mem w" "mk_region_base w' = mk_region_base w"
    and "r = ESP_OK \<Longrightarrow> \<exists>src z. mem_at w a = Some src \<and> mem_at w (a + word_of_nat n - 1) = Some z \<and>
      bs = slice src n (mk_mem w)"
  using assms by (auto simp: mock_read_mem_def fault_next_def mem_at_def split: if_splits option.splits)

lemma mock_write_cases:
  assumes "mock_write_mem a data k w = (r, w')"
  shows "mk_region_base w' = mk_region_base w"
    and "(r \<noteq> ESP_OK \<and> mk_mem w' = mk_mem w) \<or>
      (\<exists>src z. mem_at w a = Some src \<and> mem_at w (a + word_of_nat (length data) - 1) = Some z \<and>
        mk_mem w' = splice src data (mk_mem w))"
  using assms by (auto simp: mock_write_mem_def fault_next_def mem_at_def Let_def
      split: if_splits option.splits)

lemma mock_write_tmem:
  assumes w: "mock_ok w" and n: "length data \<le> MAX_FRAME_SIZE" and r: "mock_write_mem a data k w = (r, w')"
  shows "mock_tmem w' = mem_write a data (mock_tmem w) \<or> r \<noteq> ESP_OK \<and> mock_tmem w' = mock_tmem w"
proof (cases "mk_mem w' = mk_mem w \<and> r \<noteq> ESP_OK")
  case True
  then show ?thesis by (auto simp: mock_tmem_def)
next
  case False
  then obtain src z where m: "mem_at w a = Some src"
    "mem_at w (a + word_of_nat (length data) - 1) = Some z" "mk_mem w' = splice src data (mk_mem w)"
    using mock_write_cases(2) [OF r] by auto
  show ?thesis
    using mock_tmem_write [OF w mem_at_extent [OF w m(1,2) n] m(3)] by simp
qed

interpretation mock: backend_memory mock_env mock_ok mock_tmem
proof unfold_locales
  fix w w' :: mock and a n k r bs data err x
  assume w: "mock_ok w"
  {
    assume "bk_read_mem mock_env a n k w = (r, w')"
    then show "mock_ok w' \<and> mock_tmem w' = mock_tmem w"
      using w mock_read_cases(1,2) [of a n k w "fst r" "snd r" w']
      by (auto simp: mock_env_def mock_ok_def mock_tmem_def)
  next
    assume n: "n \<le> MAX_FRAME_SIZE" and r: "bk_read_mem mock_env a n k w = ((ESP_OK, bs), w')"
    then have "mock_read_mem a n k w = ((ESP_OK, bs), w')" by (simp add: mock_env_def)
    then obtain src z where m: "mem_at w a = Some src" "mem_at w (a + word_of_nat n - 1) = Some z"
      "bs = slice src n (mk_mem w)"
      using mock_read_cases(3) by blast
    show "bs = mem_read a n (mock_tmem w)"
      using mock_tmem_read [OF w mem_at_extent [OF w m(1,2) n]] m(3) by simp
  next
    assume n: "length data \<le> MAX_FRAME_SIZE" and "bk_write_mem mock_env a data k w = (err, w')"
    then have r: "mock_write_mem a data k w = (err, w')" by (simp add: mock_env_def)
    have "length (mk_mem w') = length (mk_mem w)"
      using mock_write_cases(2) [OF r] mem_at_extent(2) [OF w _ _ n] w by (auto simp: mock_ok_def)
    then show "mock_ok w'" using w mock_write_cases(1) [OF r] by (simp add: mock_ok_def)
  next
    assume "length data \<le> MAX_FRAME_SIZE" "bk_write_mem mock_env a data k w = (ESP_OK, w')"
    then show "mock_tmem w' = mem_write a data (mock_tmem w)"
      using mock_write_tmem [OF w, of data a k ESP_OK w'] by (simp add: mock_env_def)
  next
    assume "length data \<le> MAX_FRAME_SIZE" "bk_write_mem mock_env a data k w = (err, w')"
      "length data \<le> unat (x - a)"
    then show "mock_tmem w' x = mock_tmem w x"
      using mock_write_tmem [OF w, of data a k err w'] by (auto simp: mock_env_def mem_write_def)
  }
qed

end
