(* ===== verification/Mock_Session.thy ===== *)
theory Mock_Session
  imports Session_Contract Mock_Backend
begin

text \<open>
  Sessions over the mock of the host tests, for the witnesses: \<open>fresh\<close> after \<open>init\<close>, and \<open>live\<close>
  after an ATTACH that leaves the target running.
\<close>

section \<open>Sessions for the witnesses\<close>

text \<open>A session over the mock of the host tests, after a successful \<open>init\<close>, and two requests.\<close>

definition fresh :: "mock session" where
  "fresh = exec_st (init mock_env) (new_session mock_init)"

definition request :: "u16 \<Rightarrow> bytes \<Rightarrow> bytes" where
  "request opc payload = enc_msg_header \<lparr>hdr_version = PROTOCOL_VERSION, hdr_kind = KIND_REQUEST,
     hdr_opcode = opc, hdr_request_id = 7, hdr_crc32 = 0\<rparr> @ payload"

lemma fresh_fields [simp]:
  "scratch fresh \<noteq> None" "\<not> transport_dead fresh" "state fresh = TARGET_DETACHED" "stop_id fresh = 0"
  by (simp_all add: fresh_def exec_st_def init_def calloc_def mock_env_def new_session_def
      storage_ready_def)

lemma reachable_fresh: "reachable mock_env fresh"
  unfolding fresh_def by (intro reachable.intros)

lemma request_fields [simp]:
  "length (request opc payload) = 12 + length payload" "opcode_of (request opc payload) = opc"
  "request_of (request opc payload) = 7" "drop 12 (request opc payload) = payload"
  by (simp_all add: request_def wire)

lemma accepted_request: "length payload \<le> 8180 \<Longrightarrow> accepted (request opc payload)"
  by (simp add: accepted_def is_valid_message_size_def) (simp add: request_def wire)

section \<open>A session with a running target\<close>

definition attach_payload :: bytes where
  "attach_payload = enc_attach_request \<lparr>areq_initial_stack_before = 0, areq_initial_stack_after = 0,
     areq_connect_under_reset = 0, areq_halt_after_attach = 0, areq_reserved = 0\<rparr>"

abbreviation (input) ram :: memory_region where
  "ram \<equiv> \<lparr>mr_start = RAM_BASE, mr_length = word_of_nat RAM_SIZE, mr_type = MEMORY_RAM, mr_flags = 7, mr_reserved = 0\<rparr>"

lemma mock_attaches:
  "mock_attach p mock_init = ((r, raw), w) \<Longrightarrow> r = ESP_OK \<and> w = mock_init \<and>
     ai_memory_regions raw = enc_memory_region ram \<and> ai_max_memory_transfer raw = 4096"
  by (auto simp: mock_attach_def mock_init_def)

lemma normal_regions:
  "ai_memory_regions (normalize_attach_info i) = ai_memory_regions i"
  "ai_max_memory_transfer i = 4096 \<Longrightarrow> ai_max_memory_transfer (normalize_attach_info i) = 4096"
  by (simp_all add: normalize_attach_info_def Let_def)

lemma one_region: "decode_regions (enc_memory_region r) = [r]" "length (enc_memory_region r) = 20"
  using dec_enc_memory_region [of r "[]"] by (simp_all add: decode_regions_def slice_def)

definition running :: "mock session \<Rightarrow> bool" where
  "running u \<longleftrightarrow> attached u \<and> state u = TARGET_RUNNING \<and> stop_id u = 0 \<and> sw_count u = 0 \<and> active_regions u = [ram] \<and>
     max_memory_transfer u = 4096 \<and> mock_ok (world u) \<and> \<not> transport_dead u"

lemma op_attach_runs:
  assumes "wf mock_env s" "storage_ready mock_env s" "\<not> attached s" "\<not> transport_dead s" "world s = mock_init"
  shows "wp (op_attach mock_env rid attach_payload) (\<lambda>_. running) s"
proof -
  obtain buf rs where b: "scratch s = Some buf" "length buf = 8192" "regions s = Some rs" "length rs = 64"
    using assms(1,2) by (auto simp: storage_ready_def wf_def)
  show ?thesis
    unfolding op_attach_def
    apply (intro wps)
       apply (use assms in \<open>simp_all add: attach_payload_def\<close>) [3]
    apply (simp only: Let_def b_attach_def)
    apply (rule wp_call)
    subgoal premises p for _ _ p w
    proof -
      obtain r raw where q: "p = (r, raw)" by (cases p)
      have m: "r = ESP_OK" "w = mock_init" "ai_memory_regions (normalize_attach_info raw) = enc_memory_region ram"
        "ai_max_memory_transfer (normalize_attach_info raw) = 4096"
        using p assms(5) mock_attaches [of _ r raw w] by (auto simp: q mock_env_def normal_regions)
      have off: "areq_halt_after_attach (dec_attach_request attach_payload) = 0"
        using dec_enc_attach_request [where rest = "[]"] by (simp add: attach_payload_def)
      show ?thesis
        apply (simp only: q m one_region off adopt_attach_info_def clear_debug_state_def clear_run_tracking_def store_regions_def case_prod_conv)
        apply (intro wps)
          apply simp
         apply simp
        apply (rule wp_begin_some [where buf = buf])
           apply (simp_all add: b) [3]
        apply (intro wps)
         apply simp
        apply (rule wp_poke_scratch, simp, simp add: b)
        apply (intro wps)
         apply (rule wp_poke_scratch, simp, simp add: b)
         apply (intro wps)
         apply (rule wp_finish_frame_sink [where sink = mock_capture_tx])
               apply (simp, simp add: b, simp add: mock_env_def, simp add: b, simp add: b, simp add: b assms)
         apply (clarsimp simp: mock_capture_tx_def attach_halt_def)
         apply (intro wps)
         apply (simp add: running_def b active_regions_def mock_ok_def mock_init_def splice_def)
        apply (use length_enc_memory_region [of ram] in auto)
        done
    qed
    done
qed

text \<open>The session after ATTACH: the target is running.\<close>

definition live :: "mock session" where
  "live = exec_st (handle_request mock_env (request OP_ATTACH attach_payload)) fresh"

lemma reachable_live: "reachable mock_env live"
  unfolding live_def by (intro reach_request reachable_fresh)

lemma live_running: "running live"
proof -
  have "storage_ready mock_env fresh" "\<not> attached fresh" "world fresh = mock_init"
    by (simp_all add: fresh_def exec_st_def init_def calloc_def mock_env_def new_session_def storage_ready_def)
  then have "wp (op_attach mock_env 7 attach_payload) (\<lambda>_. running) fresh"
    by (intro op_attach_runs wf_reachable [OF reachable_fresh]) simp_all
  then have "running (exec_st (handle_accepted mock_env OP_ATTACH 7 attach_payload) fresh)"
    by (simp add: handle_accepted_def exec_st_def gate_column_def dispatch_def wp_def)
  moreover have "accepted (request OP_ATTACH attach_payload)" by (rule accepted_request) (simp add: attach_payload_def)
  ultimately show ?thesis
    using handle_request_accepted [of fresh "request OP_ATTACH attach_payload" mock_env]
    by (simp add: live_def exec_st_def)
qed

end
