(* ===== verification/Session_Program.thy ===== *)
theory Session_Program
  imports Session_Table Mock_Session
begin

text \<open>
  \<open>op_read_memory\<close> and \<open>op_write_memory\<close> on the program behind the breakpoints: the loops of
  \<open>sw_bp_substitute_read\<close>, of the write image and of \<open>sw_bp_write_overlap\<close> are functions of the
  memory the table stands for, so a client reads and writes the program and never sees a patch.
\<close>

section \<open>READ and WRITE on bytes\<close>

lemma program_covered:
  assumes "sound bs" "b \<in> set bs" "sb_installed b" "bp_covers b x"
  shows "program bs m x = sb_original b ! unat (x - sb_address b)"
  using assms
proof (induction bs)
  case (Cons c bs)
  then show ?case
    using apart_covers [of c b x] by (auto simp: overlay_def list_all_iff sound_def)
qed simp

lemma program_uncovered:
  "\<forall>b \<in> set bs. \<not> (sb_installed b \<and> bp_covers b x) \<Longrightarrow> program bs m x = m x"
  by (induction bs) (auto simp: overlay_def)

lemma program_fold: "sound bs \<Longrightarrow> fold overlay bs m = program bs m"
  by (induction bs arbitrary: m) (simp_all add: program_overlay)

lemma mem_read_cong: "(\<And>i. i < n \<Longrightarrow> f (a + word_of_nat i) = g (a + word_of_nat i)) \<Longrightarrow> mem_read a n f = mem_read a n g"
  by (simp add: mem_read_def)

lemma nth_mem_read [simp]: "i < n \<Longrightarrow> mem_read a n m ! i = m (a + word_of_nat i)"
  by (simp add: mem_read_def)

lemma unat_offset: "unat a + n < 2 ^ 64 \<Longrightarrow> i \<le> n \<Longrightarrow> unat (a + word_of_nat i :: u64) = unat a + i"
  by (simp add: unat_word_ariths unat_of_nat)

lemma misses_covers:
  assumes "entry_ok b" "unat a + n < 2 ^ 64" "bp_misses b a n" "i < n"
  shows "\<not> bp_covers b (a + word_of_nat i)"
proof -
  have "unat (sb_address b + ucast (sb_instruction_size b) :: u64) = unat (sb_address b) + unat (sb_instruction_size b)"
    using entry_fits [OF assms(1)] by (simp add: unat_sum_fits unat_ucast_up)
  then show ?thesis
    using assms unat_offset [OF assms(2), of i] unat_offset [OF assms(2), of n]
    by (auto simp: covers_iff bp_misses_def word_le_nat_alt)
qed

lemma substitute_program_one:
  assumes "entry_ok b" "unat a + n < 2 ^ 64"
  shows "substitute_one a b (mem_read a n m) = mem_read a n (overlay b m)"
  using misses_covers [OF assms]
  by (auto simp: substitute_one_def overlay_def mem_read_def Let_def intro!: nth_equalityI)

lemma substitute_program:
  assumes "sound bs" "unat a + n < 2 ^ 64"
  shows "sw_bp_substitute_read bs a (mem_read a n m) = mem_read a n (program bs m)"
proof -
  have "fold (substitute_one a) bs (mem_read a n m) = mem_read a n (fold overlay bs m)"
    using assms(1)
  proof (induction bs arbitrary: m)
    case (Cons b bs)
    then show ?case using substitute_program_one [OF _ assms(2), of b m] by simp
  qed simp
  then show ?thesis by (simp add: sw_bp_substitute_read_def program_fold [OF assms(1)])
qed

definition patch_over :: "sw_bp \<Rightarrow> (u64 \<Rightarrow> u8) \<Rightarrow> u64 \<Rightarrow> u8" where
  "patch_over b f = (\<lambda>x. if sb_installed b \<and> unat (x - sb_address b) < 2
     then BKPT_PATCH ! unat (x - sb_address b) else f x)"

lemma patch_range:
  assumes "entry_ok b"
  shows "sb_address b \<le> x \<and> x < sb_address b + 2 \<longleftrightarrow> unat (x - sb_address b) < 2"
proof -
  let ?b = "b\<lparr>sb_instruction_size := 2\<rparr>"
  have size: "2 \<le> unat (sb_instruction_size b)" using assms by (auto simp: entry_ok_def)
  have "unat (sb_address b) + 2 < 2 ^ 64" using entry_fits [OF assms] size by simp
  then have "\<not> sb_address b > u64_max - 2" by (simp only: no_wrap_iff) simp
  then have "sb_address b \<le> u64_max - 2" by (simp only: not_less)
  then have "entry_ok ?b" by (simp add: entry_ok_def)
  then show ?thesis using covers_offset [of ?b x] by (simp add: bp_covers_def)
qed

lemma keep_patch_one:
  assumes "entry_ok b" "unat a + n < 2 ^ 64"
  shows "keep_patch a b (mem_read a n f) = mem_read a n (patch_over b f)"
proof -
  have miss: "\<not> unat (a + word_of_nat i - sb_address b) < 2"
    if "sb_address b + 2 \<le> a \<or> a + word_of_nat n \<le> sb_address b" "i < n" for i
  proof -
    have "2 \<le> unat (sb_instruction_size b)" using assms(1) by (auto simp: entry_ok_def)
    then have "unat (sb_address b + 2 :: u64) = unat (sb_address b) + 2"
      using entry_fits [OF assms(1)] by (simp add: unat_sum_fits)
    then show ?thesis
      using that unat_offset [OF assms(2), of i] unat_offset [OF assms(2), of n]
      unfolding patch_range [OF assms(1), symmetric] by (auto simp: word_le_nat_alt word_less_nat_alt)
  qed
  show ?thesis
    using miss by (auto simp: keep_patch_def patch_over_def mem_read_def Let_def patch_range [OF assms(1)]
        intro!: nth_equalityI)
qed

lemma write_image_read:
  assumes "sound bs" "unat a + n < 2 ^ 64"
  shows "write_image bs a (mem_read a n f) = mem_read a n (fold patch_over bs f)"
proof -
  have "fold (keep_patch a) bs (mem_read a n f) = mem_read a n (fold patch_over bs f)"
    using assms(1)
  proof (induction bs arbitrary: f)
    case (Cons b bs)
    then show ?case using keep_patch_one [OF _ assms(2), of b f] by simp
  qed simp
  then show ?thesis by (simp add: write_image_def)
qed

lemma patches_uncovered:
  assumes "sound bs" "\<forall>b \<in> set bs. \<not> (sb_installed b \<and> bp_covers b x)"
  shows "fold patch_over bs f x = f x"
  using assms
proof (induction bs arbitrary: f)
  case (Cons b bs)
  then have "\<not> (sb_installed b \<and> unat (x - sb_address b) < 2)"
    by (auto simp: covers_offset entry_ok_def)
  then have "patch_over b f x = f x" by (auto simp: patch_over_def)
  then show ?case using Cons by simp
qed simp

lemma patches_covered:
  assumes "sound bs" "b \<in> set bs" "sb_installed b" "unat (x - sb_address b) < 2"
  shows "fold patch_over bs f x = BKPT_PATCH ! unat (x - sb_address b)"
  using assms
proof (induction bs arbitrary: f)
  case (Cons c bs)
  show ?case
  proof (cases "b \<in> set bs")
    case True
    then show ?thesis using Cons by simp
  next
    case False
    then have c: "c = b" using Cons.prems by simp
    have "bp_covers b x" using Cons.prems by (auto simp: c covers_offset entry_ok_def)
    then have "\<forall>d \<in> set bs. \<not> (sb_installed d \<and> bp_covers d x)"
      using Cons.prems(1) apart_covers [of b _ x] by (auto simp: c list_all_iff sound_def)
    then show ?thesis
      using Cons.prems patches_uncovered [of bs x "patch_over b f"] by (simp add: c) (simp add: patch_over_def)
  qed
qed simp

lemma overlap_fold:
  assumes "entry_ok b" "length orig = 4" "unat a + n < 2 ^ 64" "k < unat (sb_instruction_size b)" "n \<le> length data"
  shows "fold (\<lambda>offset original. let absolute = a + word_of_nat offset in
          if bp_covers b absolute then original[unat (absolute - sb_address b) := data ! offset] else original)
        [0..<n] orig ! k =
    (if unat (sb_address b + word_of_nat k - a) < n then data ! unat (sb_address b + word_of_nat k - a) else orig ! k)"
    (is "fold ?f _ _ ! k = _")
  using assms(3,5)
proof (induction n)
  case (Suc n)
  define x where "x = sb_address b + word_of_nat k"
  have size: "unat (sb_instruction_size b) \<le> 4" using assms(1) by (auto simp: entry_ok_def)
  have len: "length (fold ?f [0..<n] orig) = 4"
    using length_overlap_fold [of "\<lambda>i. bp_covers b (a + word_of_nat i)" "\<lambda>i. unat (a + word_of_nat i - sb_address b)" "\<lambda>i. data ! i"]
    by (simp add: Let_def assms(2))
  have ux: "unat x = unat (sb_address b) + k"
    using unat_offset [of "sb_address b" k k] entry_fits [OF assms(1)] assms(4) by (simp add: x_def)
  have ua: "unat (a + word_of_nat n) = unat a + n" using Suc.prems unat_offset [of a "Suc n" n] by simp
  have cx: "bp_covers b x" using assms(1,4) ux by (simp add: covers_iff)
  have off: "unat (x - sb_address b) = k" using cx ux by (simp add: bp_covers_def unat_sub)
  have at: "unat (x - a) = n \<longleftrightarrow> x = a + word_of_nat n"
  proof
    assume "unat (x - a) = n"
    then have "x - a = word_of_nat n" using Suc.prems by (simp add: word_unat_eq_iff unat_of_nat)
    then show "x = a + word_of_nat n" by (simp add: algebra_simps)
  next
    assume "x = a + word_of_nat n"
    then show "unat (x - a) = n" using Suc.prems by (simp add: unat_of_nat)
  qed
  have idx: "unat (a + word_of_nat n - sb_address b) = k \<longleftrightarrow> x = a + word_of_nat n" if "bp_covers b (a + word_of_nat n)"
  proof
    assume "unat (a + word_of_nat n - sb_address b) = k"
    then have "a + word_of_nat n - sb_address b = x - sb_address b" using off by (simp add: word_unat_eq_iff)
    then show "x = a + word_of_nat n" by simp
  qed (use off in simp)
  have ih: "fold ?f [0..<n] orig ! k = (if unat (x - a) < n then data ! unat (x - a) else orig ! k)"
    using Suc by (simp add: x_def)
  show ?case
    using ih at idx cx len size assms(4) unfolding x_def [symmetric]
    by (auto simp: Let_def nth_list_update less_Suc_eq)
qed simp

lemma overlap_misses:
  assumes "entry_ok b" "unat a + length data < 2 ^ 64" "bp_misses b a (length data)" "bp_covers b x"
  shows "\<not> unat (x - a) < length data"
proof
  assume less: "unat (x - a) < length data"
  have "x = a + word_of_nat (unat (x - a))" by simp
  then show False using misses_covers [OF assms(1-3) less] assms(4) by simp
qed

lemma overlap_original:
  assumes "entry_ok b" "length (sb_original b) = 4" "unat a + length data < 2 ^ 64" "sb_installed b" "bp_covers b x"
  shows "sb_original (overlap_one a data b) ! unat (x - sb_address b) =
    (if unat (x - a) < length data then data ! unat (x - a) else sb_original b ! unat (x - sb_address b))"
proof -
  have k: "unat (x - sb_address b) < unat (sb_instruction_size b)" using assms(1,5) by (simp add: covers_offset)
  have "sb_address b + word_of_nat (unat (x - sb_address b)) = x" by simp
  then show ?thesis
    using overlap_fold [OF assms(1,2,3) k, of data] overlap_misses [OF assms(1,3) _ assms(5)] assms(4)
    by (auto simp: overlap_one_def)
qed

lemma mem_write_read: "mem_write a (mem_read a n f) m = (\<lambda>x. if unat (x - a) < n then f x else m x)"
  by (auto simp: mem_write_def)

lemma data_read: "unat a + length data < 2 ^ 64 \<Longrightarrow> data = mem_read a (length data) (\<lambda>x. data ! unat (x - a))"
  by (auto intro!: nth_equalityI simp: unat_of_nat)

text \<open>A write through the breakpoints is a write to the program, and the patches stay armed.\<close>

lemma write_program:
  assumes "sound bs" "unat a + length data < 2 ^ 64"
  shows "program (map (overlap_one a data) bs) (mem_write a (write_image bs a data) m) =
    mem_write a data (program bs m)"
proof
  fix x
  define img where "img = fold patch_over bs (\<lambda>x. data ! unat (x - a))"
  have written: "mem_write a (write_image bs a data) m = (\<lambda>x. if unat (x - a) < length data then img x else m x)"
    using write_image_read [OF assms, of "\<lambda>x. data ! unat (x - a)"] data_read [OF assms(2)]
    by (simp only: img_def mem_write_read)
  show "program (map (overlap_one a data) bs) (mem_write a (write_image bs a data) m) x =
      mem_write a data (program bs m) x"
  proof (cases "\<exists>b \<in> set bs. sb_installed b \<and> bp_covers b x")
    case True
    then obtain b where b: "b \<in> set bs" "sb_installed b" "bp_covers b x" by blast
    have ok: "entry_ok b" "length (sb_original b) = 4" using assms(1) b(1) by (auto simp: sound_def list_all_iff)
    have "bp_covers (overlap_one a data b) x" using b(3) by (simp add: bp_covers_def)
    then have "program (map (overlap_one a data) bs) m' x = sb_original (overlap_one a data b) ! unat (x - sb_address b)" for m'
      using program_covered [OF sound_overlap [OF assms(1)], of "overlap_one a data b" a data x m'] b by simp
    moreover have "program bs m x = sb_original b ! unat (x - sb_address b)"
      by (rule program_covered [OF assms(1) b])
    ultimately show ?thesis
      using overlap_original [OF ok assms(2) b(2,3)] by (simp add: mem_write_def)
  next
    case False
    then have "\<forall>b \<in> set (map (overlap_one a data) bs). \<not> (sb_installed b \<and> bp_covers b x)"
      by (auto simp: bp_covers_def)
    moreover have "img x = data ! unat (x - a)"
      using patches_uncovered [OF assms(1)] False by (simp add: img_def)
    moreover have "program bs m x = m x" using False by (intro program_uncovered) auto
    ultimately show ?thesis by (simp add: program_uncovered written) (simp add: mem_write_def)
  qed
qed

lemma write_armed:
  assumes "sound bs" "unat a + length data < 2 ^ 64" "b \<in> set bs" "armed m b"
  shows "armed (mem_write a (write_image bs a data) m) (overlap_one a data b)"
proof -
  have img: "mem_write a (write_image bs a data) m =
      (\<lambda>x. if unat (x - a) < length data then fold patch_over bs (\<lambda>x. data ! unat (x - a)) x else m x)"
    using write_image_read [OF assms(1,2), of "\<lambda>x. data ! unat (x - a)"] data_read [OF assms(2)]
    by (simp add: mem_write_read)
  have "mem_write a (write_image bs a data) m x = BKPT_PATCH ! unat (x - sb_address b)"
    if "unat (x - sb_address b) < 2" "m x = BKPT_PATCH ! unat (x - sb_address b)" for x
    using that patches_covered [OF assms(1,3) _ that(1)] assms(4) by (simp add: img armed_def)
  then show ?thesis using assms(4) by (simp add: armed_def mem_read_2 BKPT_PATCH_def)
qed

section \<open>Sending\<close>

text \<open>What sending a message cannot change.\<close>

definition sending :: "('w session \<Rightarrow> bool) \<Rightarrow> 'w env \<Rightarrow> bool" where
  "sending I e \<longleftrightarrow> (\<forall>s. I s \<longrightarrow> (\<forall>x. I (s\<lparr>scratch := x\<rparr>)) \<and> (\<forall>x. I (s\<lparr>tx_frame_size := x\<rparr>)) \<and>
       (\<forall>x. I (s\<lparr>transport_dead := x\<rparr>)) \<and> (\<forall>x. I (s\<lparr>ub := x\<rparr>)) \<and> (\<forall>x. I (s\<lparr>state := x\<rparr>))) \<and>
     (\<forall>sink f. env_tx_sink e = Some sink \<longrightarrow> preserves I (call (sink f) (Tx f)))"

lemma pres_basic:
  "preserves I (State_Monad.return a)" "preserves I State_Monad.get" "preserves I (gets f)"
  "preserves I (peek_scratch off n)" if "sending I e"
  using that by (auto simp: preserves_def exec_st_def peek_scratch_def sending_def split: option.splits)

lemma pres_poke: "sending I e \<Longrightarrow> preserves I (poke_scratch off bs)"
  by (auto simp: preserves_def exec_st_def poke_scratch_def sending_def split: option.splits)

lemma pres_fields:
  assumes "sending I e"
  shows "preserves I (modify (\<lambda>s. s\<lparr>tx_frame_size := n\<rparr>))" "preserves I kill_transport"
    "preserves I (modify (\<lambda>s. s\<lparr>state := x\<rparr>))"
    "env_tx_sink e = Some sink \<Longrightarrow> preserves I (call (sink f) (Tx f))"
  using assms by (auto simp: preserves_def exec_st_def kill_transport_def sending_def)

lemmas sending_rules = preserves_bind preserves_cases preserves_let pres_basic pres_poke pres_fields

lemma pres_begin: "sending I e \<Longrightarrow> preserves I (begin_frame k opc r n)"
  unfolding begin_frame_def by (intro sending_rules)

lemma pres_finish_frame: "sending I e \<Longrightarrow> preserves I (finish_frame e)"
  unfolding finish_frame_def by (intro sending_rules; assumption)

lemma pres_respond: "sending I e \<Longrightarrow> preserves I (respond e opc r st)"
  unfolding respond_def send_response_def
  by (intro sending_rules pres_begin pres_finish_frame; assumption)

lemma pres_enter_lost: "sending I e \<Longrightarrow> preserves I (enter_lost e reason)"
  unfolding enter_lost_def send_target_lost_def
  by (intro sending_rules pres_begin pres_finish_frame; assumption)

lemma pres_failure: "sending I e \<Longrightarrow> preserves I (send_backend_failure e opc r res fb)"
  unfolding send_backend_failure_def
  by (intro sending_rules pres_respond pres_enter_lost; assumption)

lemma sending_trace: "sending (\<lambda>s. \<exists>tr. trace s = T @ tr) e"
  by (auto simp: sending_def preserves_def exec_st_def call_def split: prod.splits)

definition sink_blind :: "'w env \<Rightarrow> ('w \<Rightarrow> bool) \<Rightarrow> ('w \<Rightarrow> u64 \<Rightarrow> u8) \<Rightarrow> bool" where
  "sink_blind e ok mem \<longleftrightarrow> (\<forall>sink f w got w'. env_tx_sink e = Some sink \<longrightarrow> ok w \<longrightarrow>
     sink f w = (got, w') \<longrightarrow> ok w' \<and> mem w' = mem w)"

lemma sending_memory:
  "sink_blind e ok mem \<Longrightarrow> sending (\<lambda>s. ok (world s) \<and> mem (world s) = M) e"
  unfolding sending_def sink_blind_def
  by (auto simp: preserves_def exec_st_def call_def split: prod.splits dest: spec)

section \<open>The handlers\<close>

lemma read_accepted:
  assumes "read_memory_error s payload = None"
  defines "req \<equiv> dec_read_memory_request payload"
  shows "unat (rmq_length req) \<le> 8164" "unat (rmq_address req) + unat (rmq_length req) < 2 ^ 64"
proof -
  have v: "validate_memory_access (active_regions s) (rmq_address req) (rmq_length req) (rmq_flags req)
      (rmq_access_width req) False = STATUS_OK" and n: "\<not> unat (rmq_length req) > 8192 - 12 - 16"
    using assms by (auto simp: read_memory_error_def Let_def status_error_def split: if_splits option.splits)
  show "unat (rmq_length req) \<le> 8164" using n by simp
  have "\<not> rmq_address req > u64_max - ucast (rmq_length req)"
    using v by (auto simp: validate_memory_access_def split: if_splits)
  then show "unat (rmq_address req) + unat (rmq_length req) < 2 ^ 64"
    by (simp only: no_wrap_iff) (simp add: unat_ucast_up)
qed

lemma write_accepted:
  assumes "write_memory_error s payload = None"
  defines "req \<equiv> dec_write_memory_request payload"
  shows "length (drop 20 payload) = unat (wmq_length req)"
    "unat (wmq_address req) + length (drop 20 payload) < 2 ^ 64"
proof -
  have v: "validate_memory_access (active_regions s) (wmq_address req) (wmq_length req) (wmq_flags req)
      (wmq_access_width req) True = STATUS_OK" and n: "length payload - 20 = unat (wmq_length req)"
    using assms by (auto simp: write_memory_error_def Let_def status_error_def split: if_splits option.splits)
  show len: "length (drop 20 payload) = unat (wmq_length req)" using n by simp
  have "\<not> wmq_address req > u64_max - ucast (wmq_length req)"
    using v by (auto simp: validate_memory_access_def split: if_splits)
  then show "unat (wmq_address req) + length (drop 20 payload) < 2 ^ 64"
    unfolding len by (simp only: no_wrap_iff) (simp add: unat_ucast_up)
qed

lemma payload_parts:
  assumes "length h = 16" "28 + length d \<le> length b" "n = 28 + length d"
  shows "drop 12 (take n (splice 12 h (splice 28 d b))) = h @ d"
  using assms by (simp add: splice_def min_def)

context backend_memory
begin

lemma read_op:
  fixes s :: "'w session"
  assumes wf: "wf e s" and ts: "table_sound s" and w: "world_ok (world s)" and alive: "\<not> transport_dead s"
    and buf: "scratch s = Some buf" and none: "read_memory_error s payload = None"
  defines "req \<equiv> dec_read_memory_request payload"
  defines "n \<equiv> unat (rmq_length req)"
  shows "wp (op_read_memory e rid payload) (\<lambda>_ s'. \<exists>r acts.
    trace s' = trace s @ BkReadMem (rmq_address req) n (rmq_access_width req) r # acts \<and>
    (r = ESP_OK \<longrightarrow> (\<exists>f got. acts = [Tx f got] \<and> drop 12 f =
      enc_read_memory_response \<lparr>rms_status = status_code STATUS_OK, rms_address = rmq_address req,
        rms_completed_length = rmq_length req\<rparr> @
      mem_read (rmq_address req) n (program (active_sw s) (tmem (world s)))))) s" (is "wp _ ?Q s")
proof -
  have ok: "regions_readable s \<and> sw_readable s \<and> sw_bounded s" using wfD [OF wf] by simp
  have len: "length buf = 8192" using wf buf by (rule wf_scratch)
  have n: "n \<le> 8164" "unat (rmq_address req) + n < 2 ^ 64"
    using read_accepted [OF none] by (simp_all add: req_def n_def)
  have snd: "sound (active_sw s)" using ts by (simp add: table_sound_def)
  have sink: "env_tx_sink e \<noteq> None" using wf buf by (auto simp: wf_def storage_ready_def)
  have fail: "wp (send_backend_failure e OP_READ_MEMORY rid r STATUS_ADDRESS_ERROR) ?Q t"
    if "trace t = trace s @ [BkReadMem (rmq_address req) n (rmq_access_width req) r]" "r \<noteq> ESP_OK" for t r
    by (rule wp_mono [OF preservesD [OF pres_failure [OF sending_trace [of "trace t"]]]])
      (use that in auto)
  show ?thesis
    unfolding op_read_memory_def
    apply (intro wps, rule ok, simp only: none option.case Let_def)
    apply (fold req_def, fold n_def)
    apply (intro wps wp_begin_some [OF buf len])
      apply (use n in simp)
     apply simp
     apply (simp only: b_read_mem_def)
     apply (rule wp_call, intro wps)
     apply (rule wp_poke_scratch, simp, simp add: len, use n in simp)
     apply (intro wps)
      apply (rule fail, simp, assumption)
    subgoal premises p for _ _ a w' r bs
    proof -
      have r: "r = ESP_OK" and got: "bk_read_mem e (rmq_address req) n (rmq_access_width req) (world s) = ((ESP_OK, bs), w')"
        using p by simp_all
      have data: "take n bs = mem_read (rmq_address req) n (tmem (world s))"
        using read_mem_data [OF w _ got] n by simp
      then have lbs: "length (take n bs) = n" by simp
      let ?d = "mem_read (rmq_address req) n (program (active_sw s) (tmem (world s)))"
      have sub: "sw_bp_substitute_read (active_sw s) (rmq_address req) (take n bs) = ?d"
        unfolding data by (rule substitute_program [OF snd n(2)])
      show ?thesis
        apply (rule wp_peek_scratch, simp, use n len lbs in simp)
        apply (subst slice_splice_same)
          apply (use n len lbs in simp)
         apply (simp only: lbs)
        apply (intro wps wp_poke_scratch, simp)
          apply (use n len lbs sub in simp)
         apply simp
        apply (use n len lbs sub in simp)
        apply (rule wp_finish_frame)
              apply simp
             apply (use n len lbs sub in simp)
            apply (rule sink)
           apply simp
          apply (use n in simp)
         apply (use alive in simp)
        apply (intro wps exI conjI impI)
           apply (simp add: p)
          apply (rule refl)
        subgoal for got w''
          apply (simp only: sealed_payload sub)
          apply (subst payload_parts)
             apply (simp add: enc_read_memory_response_def)
            apply (use n len lbs in simp)
           apply simp
          apply simp
          done
        done
    qed
    apply (use none in simp)
    done
qed

end

lemma sending_conj: "sending I e \<Longrightarrow> sending J e \<Longrightarrow> sending (\<lambda>s. I s \<and> J s) e"
  by (simp add: sending_def preserves_def)

lemma sending_swv: "sending (\<lambda>s. swv s = V) e"
  by (simp add: sending_def preserves_def exec_st_def call_def swv_def split: prod.splits)

context backend_memory
begin

lemma write_op:
  fixes s :: "'w session"
  assumes wf: "wf e s" and ts: "table_sound s" and w: "world_ok (world s)" and blind: "sink_blind e world_ok tmem"
    and buf: "scratch s = Some buf" and none: "write_memory_error s payload = None"
  defines "req \<equiv> dec_write_memory_request payload" and "data \<equiv> drop 20 payload"
  shows "wp (op_write_memory e rid payload) (\<lambda>_ s'. \<exists>r acts.
    trace s' = trace s @ BkWriteMem (wmq_address req) (write_image (active_sw s) (wmq_address req) data) (wmq_access_width req) r # acts \<and>
    world_ok (world s') \<and>
    (if r = ESP_OK
     then program (active_sw s') (tmem (world s')) = mem_write (wmq_address req) data (program (active_sw s) (tmem (world s))) \<and>
       (list_all (armed (tmem (world s))) (active_sw s) \<longrightarrow> list_all (armed (tmem (world s'))) (active_sw s'))
     else \<forall>x. unat (x - wmq_address req) \<ge> length data \<longrightarrow>
       program (active_sw s') (tmem (world s')) x = program (active_sw s) (tmem (world s)) x)) s" (is "wp _ ?Q s")
proof -
  have ok: "regions_readable s \<and> sw_readable s \<and> sw_bounded s" using wfD [OF wf] by simp
  have len: "length buf = 8192" using wf buf by (rule wf_scratch)
  have n: "unat (wmq_address req) + length data < 2 ^ 64" "length data \<le> 8160"
    using write_accepted [OF none] write_memory_length [OF wf none] by (simp_all add: req_def data_def)
  have snd: "sound (active_sw s)" using ts by (simp add: table_sound_def)
  let ?img = "write_image (active_sw s) (wmq_address req) data"
  have after: "sending (\<lambda>u. swv u = swv t \<and> (world_ok (world u) \<and> tmem (world u) = tmem (world t)) \<and>
      (\<exists>tr. trace u = trace t @ tr)) e" for t :: "'w session"
    by (intro sending_conj sending_swv sending_memory blind sending_trace)
  have lens: "length ?img = length data" "length ?img \<le> MAX_FRAME_SIZE" using n by simp_all
  have fail: "wp (send_backend_failure e OP_WRITE_MEMORY rid r st) ?Q t"
    if t: "swv t = swv s" "world t = w'" "r \<noteq> ESP_OK"
      "trace t = trace s @ [BkWriteMem (wmq_address req) ?img (wmq_access_width req) r]"
      and got: "bk_write_mem e (wmq_address req) ?img (wmq_access_width req) (world s) = (r, w')" for t r w' st
  proof -
    have init: "swv t = swv t \<and> (world_ok (world t) \<and> tmem (world t) = tmem (world t)) \<and> (\<exists>tr. trace t = trace t @ tr)"
      using write_mem_world [OF w lens(2) got] t by simp
    show ?thesis
    proof (rule wp_mono [OF preservesD [OF pres_failure [OF after] init]])
      fix u :: "'w session"
      assume u: "swv u = swv t \<and> (world_ok (world u) \<and> tmem (world u) = tmem (world t)) \<and> (\<exists>tr. trace u = trace t @ tr)"
      then have "active_sw u = active_sw s" using t(1) by (intro active_swv) simp
      then have "program (active_sw u) (tmem (world u)) x = program (active_sw s) (tmem (world s)) x"
        if "length data \<le> unat (x - wmq_address req)" for x
        using that u t write_mem_fail [OF w lens(2) got, of x] lens(1) by (auto intro: program_at)
      then show "?Q () u" using u t by auto
    qed
  qed
  have good: "wp (respond e OP_WRITE_MEMORY rid st) ?Q t"
    if t: "active_sw t = map (overlap_one (wmq_address req) data) (active_sw s)" "world t = w'"
      "trace t = trace s @ [BkWriteMem (wmq_address req) ?img (wmq_access_width req) ESP_OK]"
      and got: "bk_write_mem e (wmq_address req) ?img (wmq_access_width req) (world s) = (ESP_OK, w')" for t w' st
  proof -
    have mem: "tmem w' = mem_write (wmq_address req) ?img (tmem (world s))"
      by (rule write_mem_data [OF w lens(2) got])
    have init: "swv t = swv t \<and> (world_ok (world t) \<and> tmem (world t) = tmem (world t)) \<and> (\<exists>tr. trace t = trace t @ tr)"
      using write_mem_world [OF w lens(2) got] t by simp
    show ?thesis
    proof (rule wp_mono [OF preservesD [OF pres_respond [OF after] init]])
      fix u :: "'w session"
      assume u: "swv u = swv t \<and> (world_ok (world u) \<and> tmem (world u) = tmem (world t)) \<and> (\<exists>tr. trace u = trace t @ tr)"
      then have act: "active_sw u = map (overlap_one (wmq_address req) data) (active_sw s)"
        using t(1) active_swv [of u t] by simp
      have "list_all (armed (tmem (world u))) (active_sw u)" if "list_all (armed (tmem (world s))) (active_sw s)"
        using that write_armed [OF snd n(1)] u t(2) mem by (simp add: act list_all_iff)
      moreover have "program (active_sw u) (tmem (world u)) =
          mem_write (wmq_address req) data (program (active_sw s) (tmem (world s)))"
        using write_program [OF snd n(1)] u t(2) mem by (simp add: act)
      ultimately show "?Q () u" using u t by auto
    qed
  qed
  show ?thesis
    unfolding op_write_memory_def
    apply (intro wps, rule ok, simp only: none option.case Let_def)
     apply (fold req_def, fold data_def)
     apply (intro wps wp_poke_scratch [OF buf], use len n in simp)
     apply (rule wp_peek_scratch, simp, use len n in simp)
     apply (subst slice_splice_same, use len n in simp, simp)
     apply (simp only: b_write_mem_def)
     apply (intro wps)
     apply (rule wp_call, intro wps)
      apply (rule fail; simp add: swv_def)
     apply (simp only: sw_bp_write_overlap_def)
     apply (intro wps good)
        apply (use ts in \<open>auto simp: table_sound_def active_sw_def\<close>) [4]
    apply (use none in simp)
    done
qed

end

section \<open>Properties\<close>

lemma verdict_dispatch:
  assumes "accepted m" "\<not> transport_dead s" "request_verdict s (opcode_of m) (drop 12 m) = None"
    and "wp (dispatch e (opcode_of m) (request_of m) (drop 12 m)) (\<lambda>_. Q) s"
  shows "Q (exec_st (handle_request e m) s)"
proof -
  have "wp (handle_accepted e (opcode_of m) (request_of m) (drop 12 m)) (\<lambda>_. Q) s"
    using assms(3,4) unfolding handle_accepted_def request_verdict_def
    by (auto intro!: wps split: option.splits)
  then show ?thesis using handle_request_accepted [OF assms(2,1), of e] by (simp add: wp_def exec_st_def)
qed

lemma verdict_ready:
  assumes wf: "wf e s" and "request_verdict s opc payload = None" "opc \<noteq> OP_ATTACH" "opc \<noteq> OP_GET_STATE"
  shows "attached s" "\<exists>buf. scratch s = Some buf" "request_error s opc payload = None"
proof -
  obtain c where c: "gate_column opc = Some c" "gate_status (GATE_TABLE (state s) c) = None"
    and err: "request_error s opc payload = None"
    using assms(2) by (auto simp: request_verdict_def split: option.splits)
  show att: "attached s"
    using gate_allow [OF c(1) gate_statusD [OF c(2)]] assms(3,4) wf_attached_state [OF wf] by blast
  show "\<exists>buf. scratch s = Some buf" using wf_attached [OF wf att] by (auto simp: storage_ready_def)
  show "request_error s opc payload = None" by (rule err)
qed

lemma wp_run: "wp m Q s \<Longrightarrow> case run_state m s of (a, s') \<Rightarrow> Q a s'"
  by (simp add: wp_def exec_st_def result_st_def case_prod_beta)

text \<open>C4. Breakpoints are invisible. Let the program be target memory with the remembered original bytes
  put back under every installed breakpoint. In a reachable state with a target that keeps the
  memory contract, installing any list of well-formed breakpoints and restoring all of them leave
  the program as it was on every outcome, failed reads and writes included. When the installation
  reports success the table holds exactly the requested breakpoints, each with its patch in
  memory; when the restore reports success the table is empty and memory is the program again.\<close>

theorem breakpoints_invisible:
  assumes "backend_memory e ok mem" "reachable e s" "attached s" "ok (world s)" "list_all be_ok entries"
  shows "(case run_state (sw_bp_apply e entries) s of (st, s') \<Rightarrow> ok (world s') \<and>
      program (active_sw s') (mem (world s')) = program (active_sw s) (mem (world s)) \<and>
      (st = STATUS_OK \<longrightarrow> map sw_key (active_sw s') = map be_key entries \<and>
        list_all (armed (mem (world s'))) (active_sw s'))) \<and>
    (case run_state (sw_bp_restore_all e) s of (done, s') \<Rightarrow> ok (world s') \<and>
      program (active_sw s') (mem (world s')) = program (active_sw s) (mem (world s)) \<and>
      (done \<longrightarrow> active_sw s' = [] \<and> mem (world s') = program (active_sw s) (mem (world s))))"
    (is "?P \<and> ?R")
proof
  have ts: "table_sound s"
    by (rule sound_of_inv [OF wf_reachable [OF assms(2)] assms(3) inv_reachable [OF assms(2)]])
  show ?P
    by (rule wp_run, rule backend_memory.apply_program [OF assms(1) ts assms(5)])
      (use assms(4) in \<open>auto simp: keeps_program_def list_all_iff\<close>)
  have "active_sw t = []" if "sw_count t = 0" for t :: "'a session"
    using that by (auto simp: active_sw_def split: option.splits)
  then show ?R
    using assms(4) by (intro wp_run backend_memory.restore_all [OF assms(1) ts]) (auto simp: keeps_program_def)
qed

text \<open>C5. READ_MEMORY shows the program. An accepted, admitted READ_MEMORY makes exactly one backend
  read of the requested range, and when that succeeds exactly one frame leaves: the response header
  followed by the bytes of the program, without any breakpoint patch.\<close>

theorem read_memory_shows_program:
  assumes "backend_memory e ok mem" "reachable e s" "ok (world s)" "\<not> transport_dead s" "accepted m"
    and "opcode_of m = OP_READ_MEMORY" "request_verdict s OP_READ_MEMORY (drop 12 m) = None"
  defines "req \<equiv> dec_read_memory_request (drop 12 m)"
  defines "n \<equiv> unat (rmq_length req)"
  shows "\<exists>r acts. trace (exec_st (handle_request e m) s) =
      trace s @ BkReadMem (rmq_address req) n (rmq_access_width req) r # acts \<and>
    (r = ESP_OK \<longrightarrow> (\<exists>f got. acts = [Tx f got] \<and> drop 12 f =
      enc_read_memory_response \<lparr>rms_status = status_code STATUS_OK, rms_address = rmq_address req,
        rms_completed_length = rmq_length req\<rparr> @
      mem_read (rmq_address req) n (program (active_sw s) (mem (world s)))))"
proof -
  have wf: "wf e s" by (rule wf_reachable [OF assms(2)])
  note ready = verdict_ready [OF wf assms(7)]
  have none: "read_memory_error s (drop 12 m) = None" using ready(3) by (simp add: request_error_def)
  obtain buf where buf: "scratch s = Some buf" using ready(2) by auto
  have ts: "table_sound s" using ready(1) by (intro sound_of_inv [OF wf _ inv_reachable [OF assms(2)]]) simp
  show ?thesis
    by (rule verdict_dispatch [OF assms(5,4)])
      (use assms(6,7) backend_memory.read_op [OF assms(1) wf ts assms(3,4) buf none] in
        \<open>simp_all add: dispatch_def req_def n_def\<close>)
qed

lemma dispatch_write: "dispatch e OP_WRITE_MEMORY rid payload = op_write_memory e rid payload"
  by (simp add: dispatch_def)

text \<open>C6. WRITE_MEMORY writes the program. An accepted, admitted WRITE_MEMORY makes one backend write; when
  that succeeds the program is the old one with exactly the data in the range, the bytes under
  installed breakpoints included, and every breakpoint whose patch was in memory still has it there.
  When it fails the program is unchanged outside the range.\<close>

theorem write_memory_updates_program:
  assumes "backend_memory e ok mem" "sink_blind e ok mem" "reachable e s" "ok (world s)" "\<not> transport_dead s"
    and "accepted m" "opcode_of m = OP_WRITE_MEMORY" "request_verdict s OP_WRITE_MEMORY (drop 12 m) = None"
  defines "req \<equiv> dec_write_memory_request (drop 12 m)" and "data \<equiv> drop 32 m"
  defines "s' \<equiv> exec_st (handle_request e m) s"
  shows "\<exists>r acts. trace s' = trace s @
      BkWriteMem (wmq_address req) (write_image (active_sw s) (wmq_address req) data) (wmq_access_width req) r # acts \<and>
    ok (world s') \<and>
    (if r = ESP_OK
     then program (active_sw s') (mem (world s')) = mem_write (wmq_address req) data (program (active_sw s) (mem (world s))) \<and>
       (list_all (armed (mem (world s))) (active_sw s) \<longrightarrow> list_all (armed (mem (world s'))) (active_sw s'))
     else \<forall>x. unat (x - wmq_address req) \<ge> length data \<longrightarrow>
       program (active_sw s') (mem (world s')) x = program (active_sw s) (mem (world s)) x)"
proof -
  have wf: "wf e s" by (rule wf_reachable [OF assms(3)])
  note ready = verdict_ready [OF wf assms(8)]
  have none: "write_memory_error s (drop 12 m) = None" using ready(3) by (simp add: request_error_def)
  obtain buf where buf: "scratch s = Some buf" using ready(2) by auto
  have ts: "table_sound s" using ready(1) by (intro sound_of_inv [OF wf _ inv_reachable [OF assms(3)]]) simp
  have data: "data = drop 20 (drop 12 m)" by (simp add: data_def)
  show ?thesis
    unfolding s'_def req_def data
    by (rule verdict_dispatch [OF assms(6,5)], use assms(7,8) in simp)
      (simp only: assms(7) dispatch_write, rule backend_memory.write_op [OF assms(1) wf ts assms(4,2) buf none])
qed


lemma mock_blind: "sink_blind mock_env mock_ok mock_tmem"
  by (auto simp: sink_blind_def mock_env_def mock_capture_tx_def mock_ok_def mock_tmem_def)

lemma live_fields: "attached live" "mock_ok (world live)" "\<not> transport_dead live" "active_sw live = []"
  using live_running by (auto simp: running_def active_sw_def split: option.splits)

definition patched_at :: bp_entry where
  "patched_at = \<lparr>be_breakpoint_id = 1, be_address = 0x20000100, be_kind = BREAKPOINT_SOFTWARE,
     be_instruction_size = 2, be_temporary = 0\<rparr>"

theorem breakpoints_invisible_witness:
  "case run_state (sw_bp_apply mock_env [patched_at]) live of (st, s') \<Rightarrow>
     program (active_sw s') (mock_tmem (world s')) = mock_tmem (world live)"
  using breakpoints_invisible [OF mock.backend_memory_axioms reachable_live live_fields(1,2),
      where entries = "[patched_at]"]
  by (simp add: be_ok_def patched_at_def live_fields(4) split: prod.splits)

definition read_request :: bytes where
  "read_request = enc_read_memory_request \<lparr>rmq_stop_id = 0, rmq_address = RAM_BASE, rmq_length = 4,
     rmq_flags = MEM_ACCESS_ALLOW_RUNNING, rmq_access_width = MEM_WIDTH_DEFAULT, rmq_reserved = 0\<rparr>"

definition write_request :: bytes where
  "write_request = enc_write_memory_request \<lparr>wmq_stop_id = 0, wmq_address = RAM_BASE, wmq_length = 2,
     wmq_flags = MEM_ACCESS_ALLOW_RUNNING, wmq_access_width = MEM_WIDTH_DEFAULT, wmq_reserved = 0\<rparr> @ [1, 2]"

lemma memory_requests:
  "request_verdict live OP_READ_MEMORY read_request = None" "length read_request = 20"
  "request_verdict live OP_WRITE_MEMORY write_request = None" "length write_request = 22"
  using live_running dec_enc_read_memory_request [where rest = "[]"]
  by (simp_all add: request_verdict_def request_error_def gate_column_def running_def read_request_def write_request_def
      wire read_memory_error_def write_memory_error_def stop_gate_def flags_contradict_def status_error_def
      validate_memory_access_def region_wraps_def region_holds_def region_status_def)

theorem read_memory_shows_program_witness:
  "\<exists>r acts. trace (exec_st (handle_request mock_env (request OP_READ_MEMORY read_request)) live) =
      trace live @ BkReadMem RAM_BASE 4 MEM_WIDTH_DEFAULT r # acts"
  using read_memory_shows_program [OF mock.backend_memory_axioms reachable_live live_fields(2,3),
      of "request OP_READ_MEMORY read_request"] memory_requests dec_enc_read_memory_request [where rest = "[]"]
  by (fastforce simp: accepted_request read_request_def)

theorem write_memory_updates_program_witness:
  "mock_ok (world (exec_st (handle_request mock_env (request OP_WRITE_MEMORY write_request)) live))"
  using write_memory_updates_program [OF mock.backend_memory_axioms mock_blind reachable_live live_fields(2,3),
      of "request OP_WRITE_MEMORY write_request"] memory_requests
  by (auto simp: accepted_request)

end
