(* ===== verification/Transport_Queue.thy ===== *)
theory Transport_Queue
  imports Backend Crc32 "HOL-Library.Sublist"
begin

text \<open>
  The packet queues shared by both transports: \<open>packet_queue_transport\<close>
  (\<open>include/sidp_transport_queue.hpp\<close>, \<open>sidp_transport_queue.cpp\<close>). The class is a record that
  the derived transports extend; its virtual methods and the FreeRTOS calls it makes are the
  fields of \<open>platform\<close>. Every section under the queue mutex is one function, so the tasks that
  share a transport interleave as sequences of these functions (\<open>reached\<close>); the two loops that
  wait outside the mutex are \<open>wait_loop\<close>, which may run for ever.
\<close>

section \<open>State\<close>

abbreviation (input) WAIT_FOREVER :: u32 where "WAIT_FOREVER \<equiv> 0xFFFFFFFF"
abbreviation (input) QUEUE_SIZE :: nat where "QUEUE_SIZE \<equiv> 131072"
abbreviation (input) LOG_QUEUE_SIZE :: nat where "LOG_QUEUE_SIZE \<equiv> 4096"
abbreviation (input) MAX_LOG_FRAME_SIZE :: nat where "MAX_LOG_FRAME_SIZE \<equiv> 12 + 4 + 1024"
abbreviation (input) POLL_MS :: u32 where "POLL_MS \<equiv> 10"

text \<open>\<open>portMAX_DELAY\<close> of a 32-bit \<open>TickType_t\<close>.\<close>

abbreviation (input) portMAX_DELAY :: u32 where "portMAX_DELAY \<equiv> 0xFFFFFFFF"

text \<open>
  A ring buffer is the list of its items in order, and \<open>None\<close> the null handle. An item that was
  received and not yet returned is no longer in the list.
\<close>

record packet_queue =
  queue_mutex :: bool
  ring_buffer :: "bytes list option"
  tx_ring :: "bytes list option"
  log_ring :: "bytes list option"
  tx_task_handle :: bool
  link_serial :: u64
  accepted_link_serial :: u64
  rx_borrowed :: u32
  tx_pending :: u32
  tx_busy :: bool
  dead :: bool
  connected :: bool
  epoch :: u32
  tx_dropped :: u32

definition new_queue :: "'z \<Rightarrow> 'z packet_queue_scheme" where
  "new_queue z = \<lparr>queue_mutex = False, ring_buffer = None, tx_ring = None, log_ring = None,
     tx_task_handle = False, link_serial = 0, accepted_link_serial = 0, rx_borrowed = 0,
     tx_pending = 0, tx_busy = False, dead = True, connected = False, epoch = 0, tx_dropped = 0,
     \<dots> = z\<rparr>"

datatype ring = RX_RING | TX_RING | LOG_RING

text \<open>
  The virtual methods a derived transport overrides (\<open>deliver_tx_frame\<close> is \<open>None\<close> when it never
  returns), and the RTOS: whether a ring buffer takes
  an item without waiting, whether an allocation succeeds, the tick counter, and a delay, during
  which any other task may run.
\<close>

record 's platform =
  physical_link_open :: "'s \<Rightarrow> bool"
  reset_wire_buffers :: "'s \<Rightarrow> 's"
  deliver_tx_frame :: "bytes \<Rightarrow> bool \<Rightarrow> 's \<Rightarrow> (bool \<times> 's) option"
  ring_accepts :: "ring \<Rightarrow> bytes \<Rightarrow> 's \<Rightarrow> bool"
  mutex_available :: "'s \<Rightarrow> bool"
  ring_available :: "ring \<Rightarrow> nat \<Rightarrow> 's \<Rightarrow> bool"
  task_available :: "'s \<Rightarrow> bool"
  tick_count :: "'s \<Rightarrow> u32"
  task_delay :: "u32 \<Rightarrow> 's \<Rightarrow> 's"
  tick_rate_hz :: u32

section \<open>Session boundaries\<close>

definition link_is_connected :: "'z packet_queue_scheme platform \<Rightarrow> 'z packet_queue_scheme \<Rightarrow> bool" where
  "link_is_connected P s \<longleftrightarrow> connected s \<and> physical_link_open P s"

definition is_open :: "'z packet_queue_scheme platform \<Rightarrow> 'z packet_queue_scheme \<Rightarrow> bool" where
  "is_open P s \<longleftrightarrow> \<not> dead s \<and> link_is_connected P s"

definition needs_disconnect :: "'z packet_queue_scheme platform \<Rightarrow> 'z packet_queue_scheme \<Rightarrow> bool" where
  "needs_disconnect P s \<longleftrightarrow> \<not> is_open P s"

fun drain :: "bytes list option \<Rightarrow> bytes list option" where
  "drain None = None"
| "drain (Some []) = Some []"
| "drain (Some (item # items)) = drain (Some items)"

definition close_locked :: "'z packet_queue_scheme \<Rightarrow> 'z packet_queue_scheme" where
  "close_locked s = s\<lparr>ring_buffer := drain (ring_buffer s), tx_ring := drain (tx_ring s),
     log_ring := drain (log_ring s), tx_pending := 0, dead := True, epoch := epoch s + 1\<rparr>"

definition close_session :: "'z packet_queue_scheme \<Rightarrow> 'z packet_queue_scheme" where
  "close_session s = close_locked s"

definition link_changed :: "bool \<Rightarrow> 'z packet_queue_scheme \<Rightarrow> 'z packet_queue_scheme" where
  "link_changed up s =
     (let s = s\<lparr>connected := up\<rparr>;
          s = (if up then s\<lparr>link_serial := link_serial s + 1\<rparr> else s)
      in close_locked s)"

definition begin_session ::
  "'z packet_queue_scheme platform \<Rightarrow> 'z packet_queue_scheme \<Rightarrow> esp_err \<times> 'z packet_queue_scheme" where
  "begin_session P s =
     (if ring_buffer s = None \<or> \<not> dead s \<or> \<not> link_is_connected P s \<or>
         link_serial s = accepted_link_serial s \<or> tx_busy s \<or> rx_borrowed s \<noteq> 0
      then (ESP_ERR_INVALID_STATE, s)
      else
        let s = close_locked s;
            s = reset_wire_buffers P s
        in (ESP_OK, s\<lparr>accepted_link_serial := link_serial s, dead := False\<rparr>))"

definition destroy_queues :: "'z packet_queue_scheme \<Rightarrow> 'z packet_queue_scheme" where
  "destroy_queues s = s\<lparr>ring_buffer := None, tx_ring := None, log_ring := None, queue_mutex := False\<rparr>"

definition create_queues ::
  "'z packet_queue_scheme platform \<Rightarrow> 'z packet_queue_scheme \<Rightarrow> esp_err \<times> 'z packet_queue_scheme" where
  "create_queues P s =
     (if \<not> queue_mutex s \<and> \<not> mutex_available P s then (ESP_ERR_NO_MEM, s)
      else
        let ring = (\<lambda>r n. if ring_available P r n s then Some [] else None);
            s = s\<lparr>queue_mutex := True, ring_buffer := ring RX_RING QUEUE_SIZE,
                  tx_ring := ring TX_RING QUEUE_SIZE, log_ring := ring LOG_RING LOG_QUEUE_SIZE\<rparr>
        in if ring_buffer s = None \<or> tx_ring s = None \<or> log_ring s = None
           then (ESP_ERR_NO_MEM, destroy_queues s)
           else (ESP_OK, s))"

definition spawn_tx_task ::
  "'z packet_queue_scheme platform \<Rightarrow> 'z packet_queue_scheme \<Rightarrow> esp_err \<times> 'z packet_queue_scheme" where
  "spawn_tx_task P s =
     (if tx_ring s = None \<or> tx_task_handle s then (ESP_ERR_INVALID_STATE, s)
      else if task_available P s then (ESP_OK, s\<lparr>tx_task_handle := True\<rparr>)
      else (ESP_ERR_NO_MEM, s))"

section \<open>Waiting\<close>

definition timeout_to_ticks :: "u32 \<Rightarrow> u32 \<Rightarrow> u32" where
  "timeout_to_ticks hz timeout_ms =
     (if timeout_ms = WAIT_FOREVER then portMAX_DELAY
      else
        let ticks = (ucast timeout_ms * ucast hz + 999) div 1000 :: u64
        in if ticks \<ge> ucast portMAX_DELAY then portMAX_DELAY - 1 else ucast ticks)"

text \<open>The delay of one round of a waiting loop.\<close>

definition wait_ticks :: "u32 \<Rightarrow> u32 \<Rightarrow> u32 \<Rightarrow> u32 \<Rightarrow> u32" where
  "wait_ticks hz timeout_ms limit elapsed =
     (let slice = timeout_to_ticks hz POLL_MS
      in if timeout_ms = WAIT_FOREVER \<or> limit - elapsed > slice then slice else limit - elapsed)"

text \<open>
  The loop of \<open>start_read\<close> and \<open>flush_write\<close>: \<open>poll\<close> is the section under the mutex, \<open>expired\<close> the
  result on timeout. \<open>None\<close> is a loop that never returns.
\<close>

partial_function (option) wait_loop ::
  "'s platform \<Rightarrow> ('s \<Rightarrow> 'r option \<times> 's) \<Rightarrow> 'r \<Rightarrow> u32 \<Rightarrow> u32 \<Rightarrow> 's \<Rightarrow> ('r \<times> 's) option" where
  "wait_loop P poll expired timeout_ms start s =
     (case poll s of
        (Some r, s) \<Rightarrow> Some (r, s)
      | (None, s) \<Rightarrow>
          let limit = timeout_to_ticks (tick_rate_hz P) timeout_ms;
              elapsed = tick_count P s - start
          in if timeout_ms \<noteq> WAIT_FOREVER \<and> elapsed \<ge> limit then Some (expired, s)
             else wait_loop P poll expired timeout_ms start
                    (task_delay P (wait_ticks (tick_rate_hz P) timeout_ms limit elapsed) s))"

section \<open>Reading\<close>

definition read_poll ::
  "'z packet_queue_scheme platform \<Rightarrow> 'z packet_queue_scheme \<Rightarrow>
   (esp_err \<times> bytes option) option \<times> 'z packet_queue_scheme" where
  "read_poll P s =
     (if \<not> is_open P s then (Some (ESP_ERR_INVALID_STATE, None), s)
      else case ring_buffer s of
        None \<Rightarrow> (Some (ESP_ERR_INVALID_STATE, None), s)
      | Some [] \<Rightarrow> (None, s)
      | Some (packet # rest) \<Rightarrow>
          (Some (ESP_OK, Some packet),
           s\<lparr>ring_buffer := Some rest, rx_borrowed := rx_borrowed s + 1\<rparr>))"

text \<open>\<open>null_out\<close>: one of the two out pointers is null.\<close>

definition start_read ::
  "'z packet_queue_scheme platform \<Rightarrow> bool \<Rightarrow> u32 \<Rightarrow> 'z packet_queue_scheme \<Rightarrow>
   ((esp_err \<times> bytes option) \<times> 'z packet_queue_scheme) option" where
  "start_read P null_out timeout_ms s =
     (if null_out then Some ((ESP_ERR_INVALID_ARG, None), s)
      else wait_loop P (read_poll P) (ESP_ERR_TIMEOUT, None) timeout_ms (tick_count P s) s)"

text \<open>\<open>null_buf\<close>: the buffer handed back is a null pointer.\<close>

definition end_read :: "bool \<Rightarrow> 'z packet_queue_scheme \<Rightarrow> 'z packet_queue_scheme" where
  "end_read null_buf s =
     (if \<not> null_buf \<and> ring_buffer s \<noteq> None then s\<lparr>rx_borrowed := rx_borrowed s - 1\<rparr> else s)"

definition ring_push :: "bytes \<Rightarrow> bytes list option \<Rightarrow> bytes list option" where
  "ring_push item ring = map_option (\<lambda>items. items @ [item]) ring"

definition deliver_packet ::
  "'z packet_queue_scheme platform \<Rightarrow> bytes \<Rightarrow> u32 \<Rightarrow> 'z packet_queue_scheme \<Rightarrow> 'z packet_queue_scheme" where
  "deliver_packet P data received_epoch s =
     (if \<not> is_valid_message_size (length data) \<or> \<not> verify_message_crc data then s
      else if \<not> is_open P s \<or> received_epoch \<noteq> epoch s then s
      else if data ! 0 \<noteq> PROTOCOL_VERSION \<or> \<not> ring_accepts P RX_RING data s then close_locked s
      else s\<lparr>ring_buffer := ring_push data (ring_buffer s)\<rparr>)"

section \<open>Writing\<close>

definition enqueue ::
  "'z packet_queue_scheme platform \<Rightarrow> bytes \<Rightarrow> bool \<Rightarrow> 'z packet_queue_scheme \<Rightarrow>
   esp_err \<times> 'z packet_queue_scheme" where
  "enqueue P message log s =
     (if length message < SIZEOF_msg_header then (ESP_ERR_INVALID_ARG, s)
      else if length message > (if log then MAX_LOG_FRAME_SIZE else MAX_FRAME_SIZE)
      then (ESP_ERR_INVALID_SIZE, s)
      else if log \<and> hdr_kind (dec_msg_header message) \<noteq> KIND_LOG_STREAM then (ESP_ERR_INVALID_ARG, s)
      else if \<not> is_open P s \<or> tx_ring s = None then (ESP_ERR_INVALID_STATE, s)
      else if \<not> ring_accepts P (if log then LOG_RING else TX_RING) message s
      then let s = s\<lparr>tx_dropped := tx_dropped s + 1\<rparr>
           in (ESP_ERR_NO_MEM, if \<not> log then close_locked s else s)
      else
        let s = (if log then s\<lparr>log_ring := ring_push message (log_ring s)\<rparr>
                 else s\<lparr>tx_ring := ring_push message (tx_ring s)\<rparr>)
        in (ESP_OK, s\<lparr>tx_pending := tx_pending s + 1\<rparr>))"

definition write_message ::
  "'z packet_queue_scheme platform \<Rightarrow> bytes \<Rightarrow> 'z packet_queue_scheme \<Rightarrow>
   esp_err \<times> 'z packet_queue_scheme" where
  "write_message P message = enqueue P message False"

definition write_message_log ::
  "'z packet_queue_scheme platform \<Rightarrow> bytes \<Rightarrow> 'z packet_queue_scheme \<Rightarrow>
   esp_err \<times> 'z packet_queue_scheme" where
  "write_message_log P message = enqueue P message True"

definition flush_poll ::
  "'z packet_queue_scheme platform \<Rightarrow> 'z packet_queue_scheme \<Rightarrow>
   esp_err option \<times> 'z packet_queue_scheme" where
  "flush_poll P s =
     (if \<not> is_open P s then Some ESP_ERR_INVALID_STATE
      else if tx_pending s = 0 \<and> \<not> tx_busy s then Some ESP_OK else None, s)"

definition flush_write ::
  "'z packet_queue_scheme platform \<Rightarrow> u32 \<Rightarrow> 'z packet_queue_scheme \<Rightarrow>
   (esp_err \<times> 'z packet_queue_scheme) option" where
  "flush_write P timeout_ms s =
     wait_loop P (flush_poll P) ESP_ERR_TIMEOUT timeout_ms (tick_count P s) s"

definition tx_dropped_frames :: "'z packet_queue_scheme \<Rightarrow> u32" where
  "tx_dropped_frames s = tx_dropped s"

definition tx_idle :: "'z packet_queue_scheme \<Rightarrow> bool" where
  "tx_idle s \<longleftrightarrow> \<not> tx_busy s"

text \<open>
  \<open>service_tx\<close> holds the mutex twice, before and after the frame is on the wire; the frame in
  between is neither queued nor sent.
\<close>

definition tx_take ::
  "'z packet_queue_scheme platform \<Rightarrow> 'z packet_queue_scheme \<Rightarrow>
   (bytes \<times> bool) option \<times> 'z packet_queue_scheme" where
  "tx_take P s =
     (if \<not> is_open P s \<or> tx_busy s then (None, s)
      else
        let taken = (\<lambda>s. s\<lparr>tx_pending := tx_pending s - 1, tx_busy := True\<rparr>)
        in case tx_ring s of
             Some (item # items) \<Rightarrow> (Some (item, False), taken (s\<lparr>tx_ring := Some items\<rparr>))
           | _ \<Rightarrow>
               (case log_ring s of
                  Some (item # items) \<Rightarrow> (Some (item, True), taken (s\<lparr>log_ring := Some items\<rparr>))
                | _ \<Rightarrow> (None, s)))"

definition tx_finish :: "bool \<Rightarrow> 'z packet_queue_scheme \<Rightarrow> 'z packet_queue_scheme" where
  "tx_finish sent s =
     (let s = (if \<not> sent then close_locked (s\<lparr>tx_dropped := tx_dropped s + 1\<rparr>) else s)
      in s\<lparr>tx_busy := False\<rparr>)"

definition service_tx ::
  "'z packet_queue_scheme platform \<Rightarrow> 'z packet_queue_scheme \<Rightarrow> (bool \<times> 'z packet_queue_scheme) option" where
  "service_tx P s =
     (case tx_take P s of
        (None, s) \<Rightarrow> Some (False, s)
      | (Some (item, log), s) \<Rightarrow>
          (case deliver_tx_frame P item log s of
             None \<Rightarrow> None
           | Some (sent, s) \<Rightarrow> Some (True, tx_finish sent s)))"

text \<open>The inner loop of \<open>tx_task_loop\<close>; the outer one waits for a notification and starts it again.\<close>

partial_function (option) tx_drain ::
  "'z packet_queue_scheme platform \<Rightarrow> 'z packet_queue_scheme \<Rightarrow> 'z packet_queue_scheme option" where
  "tx_drain P s =
     (case service_tx P s of
        None \<Rightarrow> None
      | Some (served, s) \<Rightarrow> if served then tx_drain P s else Some s)"

end
