(* ===== verification/Transport_Cdc.thy ===== *)
theory Transport_Cdc
  imports Transport_Queue
begin

text \<open>
  The USB CDC transport: \<open>cdc_slip_transport\<close> (\<open>include/sidp_transport_cdc.hpp\<close>,
  \<open>sidp_transport_cdc.cpp\<close>). Its record extends that of the packet queues. TinyUSB and the timer
  are a parameter (\<open>usb_driver\<close>) over a state \<open>usb\<close>, which only their calls change. A store into
  one of the two buffers is checked: \<open>overrun\<close> records one that left its buffer or had none.
\<close>

section \<open>State\<close>

abbreviation (input) SLIP_END :: u8 where "SLIP_END \<equiv> 0xC0"
abbreviation (input) SLIP_ESC :: u8 where "SLIP_ESC \<equiv> 0xDB"
abbreviation (input) SLIP_ESC_END :: u8 where "SLIP_ESC_END \<equiv> 0xDC"
abbreviation (input) SLIP_ESC_ESC :: u8 where "SLIP_ESC_ESC \<equiv> 0xDD"

abbreviation (input) MAX_ENCODED_FRAME_SIZE :: nat where "MAX_ENCODED_FRAME_SIZE \<equiv> 16386"
abbreviation (input) TX_SEND_TIMEOUT_MS :: u32 where "TX_SEND_TIMEOUT_MS \<equiv> 5000"
abbreviation (input) RX_READ_CHUNK_SIZE :: nat where "RX_READ_CHUNK_SIZE \<equiv> 64"
abbreviation (input) FLUSH_WAIT_SLICE_MS :: u32 where "FLUSH_WAIT_SLICE_MS \<equiv> 10"

record 'w cdc_transport = packet_queue +
  cdc_port :: int
  frame_buffer :: "bytes option"
  tx_buffer :: "bytes option"
  frame_size :: nat
  tx_size :: nat
  tx_offset :: nat
  frame_discarded :: bool
  initialized :: bool
  decoder_epoch :: u32
  dtr :: bool
  receiving_frame :: bool
  escape_pending :: bool
  usb :: 'w
  overrun :: bool

definition new_cdc :: "'w \<Rightarrow> 'w cdc_transport" where
  "new_cdc w = new_queue
     (cdc_transport.fields 0 None None 0 0 0 False False 0 False False False w False)"

text \<open>
  TinyUSB, its CDC-ACM wrapper, the heap and the timer. \<open>heap_byte\<close> is the unspecified content of
  fresh memory and \<open>timer_us\<close> is \<open>esp_timer_get_time\<close>, which is never negative.
\<close>

record 'w usb_driver =
  port_count :: int
  heap_available :: "'w \<Rightarrow> bool"
  heap_byte :: "'w \<Rightarrow> nat \<Rightarrow> u8"
  cdcacm_init :: "int \<Rightarrow> 'w \<Rightarrow> esp_err \<times> 'w"
  cdcacm_initialized :: "int \<Rightarrow> 'w \<Rightarrow> bool"
  unregister_callbacks :: "int \<Rightarrow> 'w \<Rightarrow> 'w"
  cdc_connected :: "int \<Rightarrow> 'w \<Rightarrow> bool"
  read_flush :: "int \<Rightarrow> 'w \<Rightarrow> 'w"
  write_clear :: "int \<Rightarrow> 'w \<Rightarrow> 'w"
  cdcacm_read :: "int \<Rightarrow> nat \<Rightarrow> 'w \<Rightarrow> (esp_err \<times> bytes) \<times> 'w"
  write_queue :: "int \<Rightarrow> bytes \<Rightarrow> 'w \<Rightarrow> nat \<times> 'w"
  write_flush :: "int \<Rightarrow> u32 \<Rightarrow> 'w \<Rightarrow> esp_err \<times> 'w"
  timer_us :: "'w \<Rightarrow> int"

record deadline =
  started_at :: u32
  timeout_ms :: u32

section \<open>The decoder\<close>

definition reset_frame_state :: "'w cdc_transport \<Rightarrow> 'w cdc_transport" where
  "reset_frame_state s = s\<lparr>frame_size := 0, frame_discarded := False, escape_pending := False\<rparr>"

definition append_decoded_byte :: "u8 \<Rightarrow> 'w cdc_transport \<Rightarrow> 'w cdc_transport" where
  "append_decoded_byte byte s =
     (if frame_size s = MAX_FRAME_SIZE then s\<lparr>frame_discarded := True\<rparr>
      else case frame_buffer s of
        None \<Rightarrow> s\<lparr>overrun := True\<rparr>
      | Some buf \<Rightarrow>
          if frame_size s < length buf
          then s\<lparr>frame_buffer := Some (buf[frame_size s := byte]), frame_size := frame_size s + 1\<rparr>
          else s\<lparr>overrun := True\<rparr>)"

definition consume_input_byte :: "u8 \<Rightarrow> 'w cdc_transport \<Rightarrow> bool \<times> 'w cdc_transport" where
  "consume_input_byte byte s =
     (if byte = SLIP_END then
        if \<not> receiving_frame s then (False, reset_frame_state (s\<lparr>receiving_frame := True\<rparr>))
        else if escape_pending s then (False, reset_frame_state s)
        else if frame_discarded s then (False, reset_frame_state s)
        else if frame_size s = 0 then (False, s)
        else (True, s)
      else if \<not> receiving_frame s \<or> frame_discarded s then (False, s)
      else if escape_pending s then
        let s = s\<lparr>escape_pending := False\<rparr>
        in (False,
            if byte = SLIP_ESC_END then append_decoded_byte SLIP_END s
            else if byte = SLIP_ESC_ESC then append_decoded_byte SLIP_ESC s
            else s\<lparr>frame_discarded := True\<rparr>)
      else if byte = SLIP_ESC then (False, s\<lparr>escape_pending := True\<rparr>)
      else (False, append_decoded_byte byte s))"

section \<open>The encoder\<close>

definition append_tx_byte :: "u8 \<Rightarrow> 'w cdc_transport \<Rightarrow> 'w cdc_transport" where
  "append_tx_byte byte s =
     (case tx_buffer s of
        None \<Rightarrow> s\<lparr>overrun := True\<rparr>
      | Some buf \<Rightarrow>
          if tx_size s < length buf
          then s\<lparr>tx_buffer := Some (buf[tx_size s := byte]), tx_size := tx_size s + 1\<rparr>
          else s\<lparr>overrun := True\<rparr>)"

definition append_escaped_tx_byte :: "u8 \<Rightarrow> 'w cdc_transport \<Rightarrow> 'w cdc_transport" where
  "append_escaped_tx_byte byte s =
     (if byte = SLIP_END then append_tx_byte SLIP_ESC_END (append_tx_byte SLIP_ESC s)
      else if byte = SLIP_ESC then append_tx_byte SLIP_ESC_ESC (append_tx_byte SLIP_ESC s)
      else append_tx_byte byte s)"

definition encode_message :: "bytes \<Rightarrow> 'w cdc_transport \<Rightarrow> 'w cdc_transport" where
  "encode_message message s =
     (let s = s\<lparr>tx_size := 0, tx_offset := 0\<rparr>;
          s = append_tx_byte SLIP_END s;
          s = fold append_escaped_tx_byte message s
      in append_tx_byte SLIP_END s)"

section \<open>The link\<close>

definition cdc_physical_link_open :: "'w usb_driver \<Rightarrow> 'w cdc_transport \<Rightarrow> bool" where
  "cdc_physical_link_open d s \<longleftrightarrow> initialized s \<and> cdcacm_initialized d (cdc_port s) (usb s) \<and>
     cdc_connected d (cdc_port s) (usb s)"

definition cdc_reset_wire_buffers :: "'w usb_driver \<Rightarrow> 'w cdc_transport \<Rightarrow> 'w cdc_transport" where
  "cdc_reset_wire_buffers d s =
     s\<lparr>usb := write_clear d (cdc_port s) (read_flush d (cdc_port s) (usb s))\<rparr>"

text \<open>The platform with the overrides the code below needs itself; \<open>R\<close> is the RTOS.\<close>

definition cdc_link ::
  "'w usb_driver \<Rightarrow> 'w cdc_transport platform \<Rightarrow> 'w cdc_transport platform" where
  "cdc_link d R = R\<lparr>physical_link_open := cdc_physical_link_open d,
     reset_wire_buffers := cdc_reset_wire_buffers d\<rparr>"

section \<open>Sending\<close>

definition map_esp_error :: "esp_err \<Rightarrow> esp_err" where
  "map_esp_error error =
     (if error = ESP_ERR_INVALID_ARG \<or> error = ESP_ERR_NO_MEM \<or> error = ESP_ERR_TIMEOUT \<or>
         error = ESP_ERR_NOT_FINISHED \<or> error = ESP_ERR_INVALID_STATE then error
      else ESP_FAIL)"

definition now_ms :: "'w usb_driver \<Rightarrow> 'w cdc_transport \<Rightarrow> u32" where
  "now_ms d s = word_of_int (timer_us d (usb s) div 1000)"

definition remaining_timeout :: "'w usb_driver \<Rightarrow> deadline \<Rightarrow> 'w cdc_transport \<Rightarrow> u32" where
  "remaining_timeout d deadline s =
     (if timeout_ms deadline = WAIT_FOREVER then WAIT_FOREVER
      else
        let elapsed = now_ms d s - started_at deadline
        in if elapsed < timeout_ms deadline then timeout_ms deadline - elapsed else 0)"

definition flush_cdc_once ::
  "'w usb_driver \<Rightarrow> 'w cdc_transport platform \<Rightarrow> deadline \<Rightarrow> 'w cdc_transport \<Rightarrow>
   esp_err \<times> 'w cdc_transport" where
  "flush_cdc_once d R deadline s =
     (if \<not> is_open (cdc_link d R) s then (ESP_ERR_INVALID_STATE, s)
      else
        let wait_ms = remaining_timeout d deadline s;
            wait_ms = (if wait_ms = WAIT_FOREVER \<or> wait_ms > FLUSH_WAIT_SLICE_MS
                       then FLUSH_WAIT_SLICE_MS else wait_ms)
        in case write_flush d (cdc_port s) (timeout_to_ticks (tick_rate_hz R) wait_ms) (usb s) of
             (result, w) \<Rightarrow>
               let s = s\<lparr>usb := w\<rparr>
               in (if result = ESP_OK then ESP_OK
                   else if \<not> is_open (cdc_link d R) s then ESP_ERR_INVALID_STATE
                   else if result \<noteq> ESP_ERR_TIMEOUT \<and> result \<noteq> ESP_ERR_NOT_FINISHED
                   then map_esp_error result
                   else if timeout_ms deadline \<noteq> WAIT_FOREVER \<and> remaining_timeout d deadline s = 0
                   then ESP_ERR_TIMEOUT
                   else ESP_ERR_NOT_FINISHED, s))"

definition forget_frame :: "'w cdc_transport \<Rightarrow> 'w cdc_transport" where
  "forget_frame s = s\<lparr>tx_size := 0, tx_offset := 0\<rparr>"

text \<open>The bytes \<open>tx_buffer + tx_offset\<close> to \<open>tx_buffer + tx_size\<close>, and the bounds of reading them.\<close>

definition unsent :: "'w cdc_transport \<Rightarrow> bytes" where
  "unsent s = slice (tx_offset s) (tx_size s - tx_offset s) (case tx_buffer s of None \<Rightarrow> [] | Some buf \<Rightarrow> buf)"

definition check_unsent :: "'w cdc_transport \<Rightarrow> 'w cdc_transport" where
  "check_unsent s =
     (case tx_buffer s of
        None \<Rightarrow> s\<lparr>overrun := True\<rparr>
      | Some buf \<Rightarrow> if tx_size s \<le> length buf then s else s\<lparr>overrun := True\<rparr>)"

text \<open>
  The first loop of \<open>deliver_tx_frame\<close> hands the encoded bytes to TinyUSB. \<open>push_round\<close> is one
  round: its result, or \<open>None\<close> to go round again.
\<close>

definition push_round ::
  "'w usb_driver \<Rightarrow> 'w cdc_transport platform \<Rightarrow> deadline \<Rightarrow> 'w cdc_transport \<Rightarrow>
   bool option \<times> 'w cdc_transport" where
  "push_round d R deadline s =
     (if \<not> tx_offset s < tx_size s then (Some True, s)
      else if \<not> is_open (cdc_link d R) s \<or> remaining_timeout d deadline s = 0
      then (Some False, forget_frame s)
      else
        let s = check_unsent s
        in case write_queue d (cdc_port s) (unsent s) (usb s) of
             (queued, w) \<Rightarrow>
               let s = s\<lparr>usb := w\<rparr>
               in if queued \<noteq> 0 then (None, s\<lparr>tx_offset := tx_offset s + queued\<rparr>)
                  else case flush_cdc_once d R deadline s of
                    (flush_result, s) \<Rightarrow>
                      if flush_result \<noteq> ESP_OK \<and> flush_result \<noteq> ESP_ERR_NOT_FINISHED
                      then (Some False, forget_frame s)
                      else (None, s))"

partial_function (option) push_tx ::
  "'w usb_driver \<Rightarrow> 'w cdc_transport platform \<Rightarrow> deadline \<Rightarrow> 'w cdc_transport \<Rightarrow>
   (bool \<times> 'w cdc_transport) option" where
  "push_tx d R deadline s =
     (case push_round d R deadline s of
        (Some pushed, s) \<Rightarrow> Some (pushed, s)
      | (None, s) \<Rightarrow> push_tx d R deadline s)"

text \<open>The second loop: drain the last bytes from the TinyUSB buffer onto the wire.\<close>

partial_function (option) drain_tx ::
  "'w usb_driver \<Rightarrow> 'w cdc_transport platform \<Rightarrow> deadline \<Rightarrow> 'w cdc_transport \<Rightarrow>
   (bool \<times> 'w cdc_transport) option" where
  "drain_tx d R deadline s =
     (case flush_cdc_once d R deadline s of
        (flush_result, s) \<Rightarrow>
          if flush_result = ESP_ERR_NOT_FINISHED then drain_tx d R deadline s
          else Some (flush_result = ESP_OK, forget_frame s))"

definition cdc_deliver_tx_frame ::
  "'w usb_driver \<Rightarrow> 'w cdc_transport platform \<Rightarrow> bytes \<Rightarrow> bool \<Rightarrow> 'w cdc_transport \<Rightarrow>
   (bool \<times> 'w cdc_transport) option" where
  "cdc_deliver_tx_frame d R frame log s =
     (if \<not> is_open (cdc_link d R) s then Some (False, s)
      else
        let s = encode_message frame s;
            deadline = \<lparr>started_at = now_ms d s, timeout_ms = (if log then 20 else TX_SEND_TIMEOUT_MS)\<rparr>;
            clear = (\<lambda>s. s\<lparr>usb := write_clear d (cdc_port s) (usb s)\<rparr>)
        in case push_tx d R deadline s of
             None \<Rightarrow> None
           | Some (False, s) \<Rightarrow> Some (False, clear s)
           | Some (True, s) \<Rightarrow>
               (case drain_tx d R deadline s of
                  None \<Rightarrow> None
                | Some (sent, s) \<Rightarrow> Some (sent, clear s)))"

definition cdc_platform ::
  "'w usb_driver \<Rightarrow> 'w cdc_transport platform \<Rightarrow> 'w cdc_transport platform" where
  "cdc_platform d R = (cdc_link d R)\<lparr>deliver_tx_frame := cdc_deliver_tx_frame d R\<rparr>"

section \<open>Receiving\<close>

text \<open>One chunk: each byte through the decoder, each completed frame to the queue.\<close>

fun feed_bytes ::
  "'w cdc_transport platform \<Rightarrow> u32 \<Rightarrow> bytes \<Rightarrow> 'w cdc_transport \<Rightarrow> 'w cdc_transport" where
  "feed_bytes P current_epoch [] s = s"
| "feed_bytes P current_epoch (byte # chunk) s =
     (case consume_input_byte byte s of
        (False, s) \<Rightarrow> feed_bytes P current_epoch chunk s
      | (True, s) \<Rightarrow>
          let packet = take (frame_size s) (case frame_buffer s of None \<Rightarrow> [] | Some buf \<Rightarrow> buf)
          in feed_bytes P current_epoch chunk
               (reset_frame_state (deliver_packet P packet current_epoch s)))"

partial_function (option) read_chunks ::
  "'w usb_driver \<Rightarrow> 'w cdc_transport platform \<Rightarrow> u32 \<Rightarrow> 'w cdc_transport \<Rightarrow> 'w cdc_transport option" where
  "read_chunks d R current_epoch s =
     (case cdcacm_read d (cdc_port s) RX_READ_CHUNK_SIZE (usb s) of
        ((result, chunk), w) \<Rightarrow>
          let s = s\<lparr>usb := w\<rparr>
          in if result \<noteq> ESP_OK \<or> chunk = [] then Some s
             else read_chunks d R current_epoch (feed_bytes R current_epoch chunk s))"

definition drain_cdc_input ::
  "'w usb_driver \<Rightarrow> 'w cdc_transport platform \<Rightarrow> 'w cdc_transport \<Rightarrow> 'w cdc_transport option" where
  "drain_cdc_input d R s =
     (let P = cdc_platform d R;
          current_epoch = epoch s;
          s = (if decoder_epoch s \<noteq> current_epoch \<or> \<not> is_open P s
               then (reset_frame_state s)\<lparr>receiving_frame := False, decoder_epoch := current_epoch\<rparr>
               else s)
      in if \<not> is_open P s then Some (s\<lparr>usb := read_flush d (cdc_port s) (usb s)\<rparr>)
         else read_chunks d P current_epoch s)"

section \<open>Callbacks and initialization\<close>

text \<open>\<open>None\<close> is a null event pointer; events the code does not name are the last constructor.\<close>

datatype device_event = TINYUSB_EVENT_ATTACHED | TINYUSB_EVENT_DETACHED | TINYUSB_EVENT_OTHER

datatype port_event = CDC_EVENT_LINE_STATE_CHANGED bool | CDC_EVENT_RX | CDC_EVENT_OTHER

definition device_event_callback :: "device_event option \<Rightarrow> 'w cdc_transport \<Rightarrow> 'w cdc_transport" where
  "device_event_callback event s =
     (case event of
        None \<Rightarrow> s
      | Some event \<Rightarrow>
          if \<not> initialized s then s
          else if event = TINYUSB_EVENT_ATTACHED \<or> event = TINYUSB_EVENT_DETACHED
          then (reset_frame_state (link_changed False (s\<lparr>dtr := False\<rparr>)))\<lparr>receiving_frame := False\<rparr>
          else s)"

definition cdc_event_callback ::
  "'w usb_driver \<Rightarrow> 'w cdc_transport platform \<Rightarrow> int \<Rightarrow> port_event option \<Rightarrow> 'w cdc_transport \<Rightarrow>
   'w cdc_transport option" where
  "cdc_event_callback d R itf event s =
     (case event of
        None \<Rightarrow> Some s
      | Some event \<Rightarrow>
          if \<not> initialized s \<or> cdc_port s \<noteq> itf then Some s
          else case event of
            CDC_EVENT_LINE_STATE_CHANGED up \<Rightarrow>
              Some (if dtr s \<noteq> up
                    then (reset_frame_state (link_changed up (s\<lparr>dtr := up\<rparr>)))\<lparr>receiving_frame := False\<rparr>
                    else s)
          | CDC_EVENT_RX \<Rightarrow> drain_cdc_input d R s
          | CDC_EVENT_OTHER \<Rightarrow> Some s)"

definition cdc_teardown :: "'w cdc_transport \<Rightarrow> 'w cdc_transport" where
  "cdc_teardown s =
     destroy_queues (s\<lparr>initialized := False, cdc_port := 0, frame_buffer := None, tx_buffer := None\<rparr>)"

text \<open>\<open>init\<close> from the registration with TinyUSB on, with the queues and buffers in place.\<close>

definition cdc_start ::
  "'w usb_driver \<Rightarrow> 'w cdc_transport platform \<Rightarrow> 'w cdc_transport \<Rightarrow> esp_err \<times> 'w cdc_transport" where
  "cdc_start d R s =
     (case cdcacm_init d (cdc_port s) (usb s) of
        (result, w) \<Rightarrow>
          let s = s\<lparr>usb := w\<rparr>
          in if result \<noteq> ESP_OK then (map_esp_error result, cdc_teardown s)
             else case spawn_tx_task R s of
               (task_result, s) \<Rightarrow>
                 if task_result \<noteq> ESP_OK
                 then (task_result,
                       cdc_teardown (s\<lparr>usb := unregister_callbacks d (cdc_port s) (usb s)\<rparr>))
                 else (ESP_OK, s))"

definition cdc_init ::
  "'w usb_driver \<Rightarrow> 'w cdc_transport platform \<Rightarrow> int \<Rightarrow> 'w cdc_transport \<Rightarrow> esp_err \<times> 'w cdc_transport" where
  "cdc_init d R port s =
     (if initialized s then (ESP_ERR_INVALID_STATE, s)
      else if port < 0 \<or> port \<ge> port_count d then (ESP_ERR_INVALID_ARG, s)
      else if \<not> heap_available d (usb s) then (ESP_ERR_NO_MEM, s)
      else
        let buffers = map (heap_byte d (usb s)) [0..<MAX_FRAME_SIZE + MAX_ENCODED_FRAME_SIZE]
        in case create_queues R s of
             (queue_result, s) \<Rightarrow>
               if queue_result \<noteq> ESP_OK then (queue_result, s)
               else cdc_start d R
                      (s\<lparr>cdc_port := port, frame_buffer := Some (take MAX_FRAME_SIZE buffers),
                         tx_buffer := Some (drop MAX_FRAME_SIZE buffers), initialized := True\<rparr>))"

end
