(* ===== verification/Transport_Queue_Inv.thy ===== *)
theory Transport_Queue_Inv
  imports Transport_Queue
begin

text \<open>
  Correctness of the packet queues. \<open>reached\<close> are the interleavings of the tasks that share a
  transport; the locale \<open>wire\<close> is the contract of a derived transport, that its virtual methods
  leave the queues alone, and \<open>activity_reached\<close> the invariant of every interleaving over it.
  \<open>wait_loop_returns\<close> bounds the waiting loops and \<open>drain_returns\<close> the loop of the TX task.
\<close>

lemma drain_eq: "drain r = map_option (\<lambda>_. []) r"
  by (induction r rule: drain.induct) auto

lemmas boundary_defs = close_locked_def close_session_def link_changed_def begin_session_def
  drain_eq Let_def

lemmas transfer_defs = read_poll_def end_read_def deliver_packet_def enqueue_def ring_push_def
  tx_take_def tx_finish_def flush_poll_def Let_def

section \<open>The derived transport\<close>

lemma truncate_eq_iff:
  "packet_queue.truncate s = packet_queue.truncate t \<longleftrightarrow>
     queue_mutex s = queue_mutex t \<and> ring_buffer s = ring_buffer t \<and> tx_ring s = tx_ring t \<and>
     log_ring s = log_ring t \<and> tx_task_handle s = tx_task_handle t \<and>
     link_serial s = link_serial t \<and> accepted_link_serial s = accepted_link_serial t \<and>
     rx_borrowed s = rx_borrowed t \<and> tx_pending s = tx_pending t \<and> tx_busy s = tx_busy t \<and>
     dead s = dead t \<and> connected s = connected t \<and> epoch s = epoch t \<and> tx_dropped s = tx_dropped t"
  by (cases s; cases t) (simp add: packet_queue.truncate_def)

section \<open>Interleavings\<close>

text \<open>
  The object with what its tasks hold outside it: the frame the TX task took and has not finished,
  the packets the reader borrowed; and the history of the session: the control frames written to
  it and those put on the wire, both since \<open>begin_session\<close>, and the number of boundaries so far.
\<close>

record 's activity =
  obj :: 's
  in_flight :: "(bytes \<times> bool) option"
  borrowed :: "bytes list"
  written :: "bytes list"
  wired :: "bytes list"
  closings :: nat

definition moved :: "'z packet_queue_scheme \<Rightarrow> 'z packet_queue_scheme activity \<Rightarrow>
    'z packet_queue_scheme activity" where
  "moved s c = c\<lparr>obj := s, closings := closings c + (if epoch s = epoch (obj c) then 0 else 1)\<rparr>"

definition control :: "(bytes \<times> bool) option \<Rightarrow> bytes list" where
  "control flight = (case flight of Some (f, False) \<Rightarrow> [f] | _ \<Rightarrow> [])"

text \<open>
  Every section under the mutex, in any order. \<open>reached_driver\<close> is any activity of the derived
  transport or its driver, \<open>reached_packet\<close> has any token, and \<open>reached_finish\<close> any outcome of the
  send.
\<close>

inductive reached :: "'z packet_queue_scheme platform \<Rightarrow> 'z packet_queue_scheme activity \<Rightarrow> bool"
  for P where
  reached_init: "create_queues P (new_queue z) = (ESP_OK, s) \<Longrightarrow>
    reached P \<lparr>obj = s, in_flight = None, borrowed = [], written = [], wired = [], closings = 0\<rparr>"
| reached_driver: "reached P c \<Longrightarrow> packet_queue.truncate s = packet_queue.truncate (obj c) \<Longrightarrow>
    reached P (moved s c)"
| reached_link: "reached P c \<Longrightarrow> reached P (moved (link_changed up (obj c)) c)"
| reached_close: "reached P c \<Longrightarrow> reached P (moved (close_session (obj c)) c)"
| reached_refused: "reached P c \<Longrightarrow> begin_session P (obj c) = (r, s) \<Longrightarrow> r \<noteq> ESP_OK \<Longrightarrow>
    reached P (moved s c)"
| reached_begin: "reached P c \<Longrightarrow> begin_session P (obj c) = (ESP_OK, s) \<Longrightarrow>
    reached P ((moved s c)\<lparr>written := [], wired := []\<rparr>)"
| reached_packet: "reached P c \<Longrightarrow> reached P (moved (deliver_packet P data token (obj c)) c)"
| reached_read: "reached P c \<Longrightarrow> read_poll P (obj c) = (Some (ESP_OK, Some packet), s) \<Longrightarrow>
    reached P ((moved s c)\<lparr>borrowed := packet # borrowed c\<rparr>)"
| reached_end_read: "reached P c \<Longrightarrow> packet \<in> set (borrowed c) \<Longrightarrow>
    reached P ((moved (end_read False (obj c)) c)\<lparr>borrowed := remove1 packet (borrowed c)\<rparr>)"
| reached_enqueue: "reached P c \<Longrightarrow> enqueue P m log (obj c) = (r, s) \<Longrightarrow>
    reached P ((moved s c)\<lparr>written := written c @ (if r = ESP_OK \<and> \<not> log then [m] else [])\<rparr>)"
| reached_take: "reached P c \<Longrightarrow> tx_take P (obj c) = (Some flight, s) \<Longrightarrow>
    reached P ((moved s c)\<lparr>in_flight := Some flight\<rparr>)"
| reached_finish: "reached P c \<Longrightarrow> in_flight c = Some (f, log) \<Longrightarrow>
    reached P ((moved (tx_finish sent (obj c)) c)
      \<lparr>in_flight := None, wired := wired c @ (if sent \<and> \<not> log then [f] else [])\<rparr>)"

section \<open>The invariant\<close>

definition rx_ok :: "bytes \<Rightarrow> bool" where
  "rx_ok p \<longleftrightarrow> is_valid_message_size (length p) \<and> verify_message_crc p \<and> p ! 0 = PROTOCOL_VERSION"

definition tx_ok :: "bytes \<Rightarrow> bool" where
  "tx_ok f \<longleftrightarrow> is_valid_message_size (length f)"

definition log_ok :: "bytes \<Rightarrow> bool" where
  "log_ok f \<longleftrightarrow> SIZEOF_msg_header \<le> length f \<and> length f \<le> MAX_LOG_FRAME_SIZE \<and>
     hdr_kind (dec_msg_header f) = KIND_LOG_STREAM"

text \<open>
  The queues hold what the operations promise and the count of pending frames is exact; a closed
  session holds nothing, and an open one has accepted the current link.
\<close>

definition queues_ok :: "'z packet_queue_scheme \<Rightarrow> bool" where
  "queues_ok s \<longleftrightarrow>
     (\<exists>rx tx lg. ring_buffer s = Some rx \<and> tx_ring s = Some tx \<and> log_ring s = Some lg \<and>
        list_all rx_ok rx \<and> list_all tx_ok tx \<and> list_all log_ok lg \<and>
        tx_pending s = of_nat (length tx + length lg) \<and>
        (dead s \<longrightarrow> rx = [] \<and> tx = [] \<and> lg = [])) \<and>
     (\<not> dead s \<longrightarrow> connected s \<and> accepted_link_serial s = link_serial s)"

text \<open>
  The control frames on the wire, then the one in flight, then those queued are exactly the ones
  written, in order, as long as the session is open; after it closed, the first two are a prefix.
\<close>

definition activity_ok :: "'z packet_queue_scheme activity \<Rightarrow> bool" where
  "activity_ok c \<longleftrightarrow> queues_ok (obj c) \<and>
     tx_busy (obj c) = (in_flight c \<noteq> None) \<and>
     rx_borrowed (obj c) = of_nat (length (borrowed c)) \<and>
     list_all rx_ok (borrowed c) \<and>
     prefix (wired c @ control (in_flight c)) (written c) \<and>
     (\<not> dead (obj c) \<longrightarrow>
        written c = wired c @ control (in_flight c) @ the (tx_ring (obj c))) \<and>
     epoch (obj c) = of_nat (closings c)"


lemma queues_close: "queues_ok s \<Longrightarrow> queues_ok (close_locked s)"
  by (auto simp: queues_ok_def boundary_defs)

lemma queues_link: "queues_ok s \<Longrightarrow> queues_ok (link_changed up s)"
  by (auto simp: queues_ok_def boundary_defs)

lemma queues_deliver: "queues_ok s \<Longrightarrow> queues_ok (deliver_packet P data token s)"
  using queues_close [of s]
  by (auto simp: deliver_packet_def queues_ok_def ring_push_def rx_ok_def is_open_def)

lemma queues_enqueue: "queues_ok s \<Longrightarrow> enqueue P m log s = (r, t) \<Longrightarrow> queues_ok t"
  by (auto simp: enqueue_def queues_ok_def ring_push_def tx_ok_def log_ok_def is_open_def Let_def
      is_valid_message_size_def close_locked_def drain_eq split: if_splits)


lemma queues_read: "queues_ok s \<Longrightarrow> read_poll P s = (r, t) \<Longrightarrow> queues_ok t"
  by (auto simp: read_poll_def queues_ok_def is_open_def split: if_splits option.splits list.splits)

lemma queues_take: "queues_ok s \<Longrightarrow> tx_take P s = (r, t) \<Longrightarrow> queues_ok t"
  by (auto simp: tx_take_def queues_ok_def is_open_def Let_def split: if_splits option.splits list.splits)

lemma queues_finish: "queues_ok s \<Longrightarrow> queues_ok (tx_finish sent s)"
  by (auto simp: tx_finish_def queues_ok_def close_locked_def drain_eq Let_def)

lemma queues_truncate:
  "packet_queue.truncate s = packet_queue.truncate t \<Longrightarrow> queues_ok s = queues_ok t"
  by (simp add: truncate_eq_iff queues_ok_def)

lemma queues_create: "create_queues P (new_queue z) = (ESP_OK, s) \<Longrightarrow> queues_ok s"
  by (auto simp: create_queues_def new_queue_def destroy_queues_def queues_ok_def Let_def split: if_splits)

text \<open>The operations of the queues do not touch the derived object.\<close>

lemma more_same:
  "packet_queue.more (close_locked s) = packet_queue.more s"
  "packet_queue.more (end_read b s) = packet_queue.more s"
  "packet_queue.more (deliver_packet P p ep s) = packet_queue.more s"
  "packet_queue.more (tx_finish sent s) = packet_queue.more s"
  "packet_queue.more (link_changed up s) = packet_queue.more s"
  "enqueue P m log s = (e, t) \<Longrightarrow> packet_queue.more t = packet_queue.more s"
  "tx_take P s = (fl, t) \<Longrightarrow> packet_queue.more t = packet_queue.more s"
  by (auto simp: close_locked_def end_read_def deliver_packet_def enqueue_def tx_take_def tx_finish_def
      link_changed_def Let_def split: if_splits option.splits list.splits)

lemma take_short:
  "queues_ok s \<Longrightarrow> tx_take P s = (Some (f, log), t) \<Longrightarrow> length f \<le> MAX_FRAME_SIZE"
  by (auto simp: tx_take_def queues_ok_def tx_ok_def log_ok_def is_valid_message_size_def Let_def
      split: if_splits option.splits list.splits)

lemma create_outcome:
  assumes "create_queues R s = (r, u)" and "dead s" "tx_pending s = 0" "ring_buffer s = None"
  shows "packet_queue.more u = packet_queue.more s" "dead u" "tx_pending u = 0"
    "r = ESP_OK \<Longrightarrow> queues_ok u" "r \<noteq> ESP_OK \<Longrightarrow> ring_buffer u = None"
  using assms
  by (auto simp: create_queues_def destroy_queues_def queues_ok_def Let_def split: if_splits)

section \<open>The contract of a derived transport\<close>

locale wire =
  fixes P :: "'z packet_queue_scheme platform"
  assumes reset_base: "packet_queue.truncate (reset_wire_buffers P s) = packet_queue.truncate s"
    and deliver_base:
      "deliver_tx_frame P f log s = Some (sent, t) \<Longrightarrow> packet_queue.truncate t = packet_queue.truncate s"
begin

lemma reset_fields [simp]:
  "ring_buffer (reset_wire_buffers P s) = ring_buffer s" "tx_ring (reset_wire_buffers P s) = tx_ring s"
  "log_ring (reset_wire_buffers P s) = log_ring s" "link_serial (reset_wire_buffers P s) = link_serial s"
  "rx_borrowed (reset_wire_buffers P s) = rx_borrowed s" "tx_pending (reset_wire_buffers P s) = tx_pending s"
  "tx_busy (reset_wire_buffers P s) = tx_busy s" "connected (reset_wire_buffers P s) = connected s"
  "epoch (reset_wire_buffers P s) = epoch s" "tx_dropped (reset_wire_buffers P s) = tx_dropped s"
  using reset_base [of s] by (simp_all add: truncate_eq_iff)

lemma begin_session_ok:
  assumes "begin_session P s = (ESP_OK, t)" and "queues_ok s"
  shows "queues_ok t \<and> \<not> dead t \<and> tx_ring t = Some [] \<and> \<not> tx_busy s \<and> \<not> tx_busy t \<and>
    rx_borrowed t = rx_borrowed s \<and> epoch t = epoch s + 1"
  using assms
  by (auto simp: begin_session_def queues_ok_def close_locked_def drain_eq is_open_def
      link_is_connected_def Let_def split: if_splits)

lemma begin_session_refused: "begin_session P s = (r, t) \<Longrightarrow> r \<noteq> ESP_OK \<Longrightarrow> t = s"
  by (auto simp: begin_session_def Let_def split: if_splits)

end



text \<open>A boundary moves the epoch by one; every other operation leaves it.\<close>

definition epoch_step :: "'z packet_queue_scheme \<Rightarrow> 'z packet_queue_scheme \<Rightarrow> bool" where
  "epoch_step s t \<longleftrightarrow> epoch t = epoch s \<or> epoch t = epoch s + 1 \<and> dead t"

lemma moved_sel [simp]: "obj (moved s c) = s" "in_flight (moved s c) = in_flight c"
  "borrowed (moved s c) = borrowed c" "written (moved s c) = written c" "wired (moved s c) = wired c"
  by (simp_all add: moved_def)

lemma moved_epoch:
  "epoch s = epoch (obj c) \<or> epoch s = epoch (obj c) + 1 \<Longrightarrow> epoch (obj c) = of_nat (closings c) \<Longrightarrow>
   epoch s = of_nat (closings (moved s c))"
  by (auto simp: moved_def)

lemma control_simps [simp]:
  "control None = []" "control (Some (f, False)) = [f]" "control (Some (f, True)) = []"
  by (simp_all add: control_def)

text \<open>What the steps of one object do to the fields the invariant relates to the ghosts.\<close>

lemma deliver_fields:
  "tx_busy (deliver_packet P data token s) = tx_busy s"
  "rx_borrowed (deliver_packet P data token s) = rx_borrowed s"
  "\<not> dead (deliver_packet P data token s) \<Longrightarrow> tx_ring (deliver_packet P data token s) = tx_ring s \<and> \<not> dead s"
  "epoch (deliver_packet P data token s) = epoch s \<or> epoch (deliver_packet P data token s) = epoch s + 1"
  by (auto simp: deliver_packet_def close_locked_def split: if_splits)

lemma enqueue_fields:
  assumes "enqueue P m log s = (r, t)"
  shows "tx_busy t = tx_busy s" "rx_borrowed t = rx_borrowed s"
    "epoch t = epoch s \<or> epoch t = epoch s + 1"
    "\<not> dead t \<Longrightarrow> \<not> dead s \<and> tx_ring t = (if r = ESP_OK \<and> \<not> log then ring_push m (tx_ring s) else tx_ring s)"
    "r = ESP_OK \<Longrightarrow> \<not> dead s \<and> \<not> dead t"
  using assms by (auto simp: enqueue_def close_locked_def Let_def is_open_def split: if_splits)

lemma tx_take_fields:
  assumes "tx_take P s = (Some (f, log), t)" and "queues_ok s"
  shows "tx_busy t" "\<not> tx_busy s" "rx_borrowed t = rx_borrowed s" "epoch t = epoch s"
    "\<not> dead t" "\<not> dead s" "log = (tx_ring s = Some [])" "tx_pending t = tx_pending s - 1"
    "\<not> log \<Longrightarrow> tx_ring s = Some (f # the (tx_ring t))" "log \<Longrightarrow> tx_ring t = tx_ring s"
  using assms
  by (auto simp: tx_take_def is_open_def Let_def queues_ok_def
      split: if_splits option.splits list.splits)

lemma tx_finish_fields:
  "\<not> tx_busy (tx_finish sent s)" "rx_borrowed (tx_finish sent s) = rx_borrowed s"
  "epoch (tx_finish sent s) = epoch s \<or> epoch (tx_finish sent s) = epoch s + 1"
  "dead (tx_finish sent s) = (dead s \<or> \<not> sent)"
  "sent \<Longrightarrow> tx_ring (tx_finish sent s) = tx_ring s"
  by (auto simp: tx_finish_def close_locked_def Let_def)

lemma read_fields:
  assumes "read_poll P s = (Some (ESP_OK, Some packet), t)"
  shows "tx_busy t = tx_busy s" "rx_borrowed t = rx_borrowed s + 1" "epoch t = epoch s"
    "dead t = dead s" "tx_ring t = tx_ring s" "ring_buffer s = Some (packet # the (ring_buffer t))"
  using assms by (auto simp: read_poll_def split: if_splits option.splits list.splits)

lemma activity_deliver:
  assumes "activity_ok c"
  shows "activity_ok (moved (deliver_packet P data token (obj c)) c)"
  using assms deliver_fields [of P data token "obj c"] queues_deliver [of "obj c" P data token]
    moved_epoch [of "deliver_packet P data token (obj c)" c]
  by (simp add: activity_ok_def)

lemma activity_enqueue:
  assumes "activity_ok c" and "enqueue P m log (obj c) = (r, s)"
  shows "activity_ok ((moved s c)\<lparr>written := written c @ (if r = ESP_OK \<and> \<not> log then [m] else [])\<rparr>)"
  using assms(1) enqueue_fields [OF assms(2)] moved_epoch [of s c] queues_enqueue [OF _ assms(2)]
  by (auto simp: activity_ok_def ring_push_def queues_ok_def)

lemma activity_take:
  assumes "activity_ok c" and "tx_take P (obj c) = (Some (f, log), s)"
  shows "activity_ok ((moved s c)\<lparr>in_flight := Some (f, log)\<rparr>)"
proof -
  have q: "queues_ok (obj c)" using assms(1) by (simp add: activity_ok_def)
  moreover have "in_flight c = None"
    using assms(1) tx_take_fields(2) [OF assms(2) q] unfolding activity_ok_def by blast
  ultimately show ?thesis
    using assms(1) tx_take_fields [OF assms(2) q] moved_epoch [of s c] queues_take [OF q assms(2)]
    by (cases log) (auto simp: activity_ok_def)
qed

lemma activity_finish:
  assumes "activity_ok c" and "in_flight c = Some (f, log)"
  shows "activity_ok ((moved (tx_finish sent (obj c)) c)
      \<lparr>in_flight := None, wired := wired c @ (if sent \<and> \<not> log then [f] else [])\<rparr>)"
proof -
  have q: "queues_ok (obj c)" using assms(1) by (simp add: activity_ok_def)
  show ?thesis
    using assms tx_finish_fields [of sent "obj c"] moved_epoch [of "tx_finish sent (obj c)" c]
      queues_finish [OF q, of sent]
    by (cases log; cases sent) (auto simp: activity_ok_def append_prefixD)
qed

lemma activity_read:
  assumes "activity_ok c" and "read_poll P (obj c) = (Some (ESP_OK, Some packet), s)"
  shows "activity_ok ((moved s c)\<lparr>borrowed := packet # borrowed c\<rparr>)"
  using assms(1) read_fields [OF assms(2)] moved_epoch [of s c] queues_read [OF _ assms(2)]
  by (auto simp: activity_ok_def queues_ok_def)

lemma activity_end_read:
  assumes "activity_ok c" and "packet \<in> set (borrowed c)"
  shows "activity_ok ((moved (end_read False (obj c)) c)\<lparr>borrowed := remove1 packet (borrowed c)\<rparr>)"
proof -
  obtain n where n: "length (borrowed c) = Suc n" using assms(2) by (cases "borrowed c") auto
  have "list_all rx_ok (remove1 packet (borrowed c))"
    using assms by (auto simp: activity_ok_def list_all_iff dest: notin_set_remove1)
  moreover have "queues_ok (end_read False (obj c)) = queues_ok (obj c)"
    by (simp add: end_read_def queues_ok_def)
  ultimately show ?thesis
    using assms n moved_epoch [of "end_read False (obj c)" c]
    by (auto simp: activity_ok_def end_read_def length_remove1 queues_ok_def)
qed

lemma activity_boundary:
  assumes "activity_ok c" and "queues_ok s" "dead s" "tx_busy s = tx_busy (obj c)"
    "rx_borrowed s = rx_borrowed (obj c)" "epoch s = epoch (obj c) \<or> epoch s = epoch (obj c) + 1"
  shows "activity_ok (moved s c)"
  using assms moved_epoch [of s c] by (simp add: activity_ok_def)


lemma activity_init:
  assumes "create_queues P (new_queue z) = (ESP_OK, s)"
  shows "activity_ok \<lparr>obj = s, in_flight = None, borrowed = [], written = [], wired = [], closings = 0\<rparr>"
proof -
  have "\<not> tx_busy s \<and> rx_borrowed s = 0 \<and> epoch s = 0 \<and> dead s"
    using assms
    by (auto simp: create_queues_def new_queue_def destroy_queues_def Let_def split: if_splits)
  then show ?thesis using queues_create [OF assms] by (simp add: activity_ok_def)
qed

lemma activity_driver:
  assumes "activity_ok c" and "packet_queue.truncate s = packet_queue.truncate (obj c)"
  shows "activity_ok (moved s c)"
  using assms queues_truncate [OF assms(2)]
  by (auto simp: activity_ok_def truncate_eq_iff moved_def)

lemma link_fields:
  "dead (link_changed up s)" "tx_busy (link_changed up s) = tx_busy s"
  "rx_borrowed (link_changed up s) = rx_borrowed s" "epoch (link_changed up s) = epoch s + 1"
  by (simp_all add: link_changed_def close_locked_def Let_def)

lemma close_fields:
  "dead (close_session s)" "tx_busy (close_session s) = tx_busy s"
  "rx_borrowed (close_session s) = rx_borrowed s" "epoch (close_session s) = epoch s + 1"
  by (simp_all add: close_session_def close_locked_def)

context wire
begin

lemma activity_begin:
  assumes "activity_ok c" and "begin_session P (obj c) = (ESP_OK, s)"
  shows "activity_ok ((moved s c)\<lparr>written := [], wired := []\<rparr>)"
proof -
  have q: "queues_ok (obj c)" using assms(1) by (simp add: activity_ok_def)
  moreover have "in_flight c = None"
    using assms(1) begin_session_ok [OF assms(2) q] unfolding activity_ok_def by blast
  ultimately show ?thesis
    using assms(1) begin_session_ok [OF assms(2) q] moved_epoch [of s c]
    by (auto simp: activity_ok_def)
qed

theorem activity_reached: "reached P c \<Longrightarrow> activity_ok c"
proof (induction rule: reached.induct)
  case (reached_link c up)
  then show ?case
    by (intro activity_boundary) (auto simp: link_fields queues_link activity_ok_def)
next
  case (reached_close c)
  then show ?case
    by (intro activity_boundary)
      (auto simp: close_fields activity_ok_def close_session_def [symmetric]
        intro: queues_close [folded close_session_def])
next
  case (reached_refused c r s)
  then have "s = obj c" using begin_session_refused by blast
  then show ?case using reached_refused activity_driver [of c s] by simp
next
  case (reached_take c flight s)
  then show ?case by (cases flight) (simp add: activity_take)
qed (rule activity_init activity_begin activity_deliver activity_read activity_end_read
    activity_enqueue activity_finish activity_driver; assumption)+

end


section \<open>Ring capacity\<close>

definition ring_bytes :: "bytes list \<Rightarrow> nat" where
  "ring_bytes items = sum_list (map length items)"

lemma ring_bytes_simps [simp]:
  "ring_bytes [] = 0" "ring_bytes (f # fs) = length f + ring_bytes fs"
  "ring_bytes (fs @ gs) = ring_bytes fs + ring_bytes gs"
  by (simp_all add: ring_bytes_def)

text \<open>
  What FreeRTOS documents of \<open>xRingbufferSend\<close>: an item is only accepted when it fits beside the
  items the ring holds.
\<close>

definition rings_bounded :: "'z packet_queue_scheme platform \<Rightarrow> bool" where
  "rings_bounded P \<longleftrightarrow>
     (\<forall>item s items. ring_accepts P TX_RING item s \<longrightarrow> tx_ring s = Some items \<longrightarrow>
        ring_bytes items + length item \<le> QUEUE_SIZE) \<and>
     (\<forall>item s items. ring_accepts P LOG_RING item s \<longrightarrow> log_ring s = Some items \<longrightarrow>
        ring_bytes items + length item \<le> LOG_QUEUE_SIZE)"

definition bytes_ok :: "'z packet_queue_scheme \<Rightarrow> bool" where
  "bytes_ok s \<longleftrightarrow> (\<forall>items. tx_ring s = Some items \<longrightarrow> ring_bytes items \<le> QUEUE_SIZE) \<and>
     (\<forall>items. log_ring s = Some items \<longrightarrow> ring_bytes items \<le> LOG_QUEUE_SIZE)"

lemma ring_bytes_count: "list_all tx_ok fs \<Longrightarrow> 12 * length fs \<le> ring_bytes fs"
  by (induction fs) (auto simp: tx_ok_def is_valid_message_size_def)

lemma log_bytes_count: "list_all log_ok fs \<Longrightarrow> 12 * length fs \<le> ring_bytes fs"
  by (induction fs) (auto simp: log_ok_def)

lemma nothing_pending:
  assumes "queues_ok s" and "bytes_ok s" and "tx_pending s = 0"
  shows "tx_ring s = Some [] \<and> log_ring s = Some []"
proof -
  obtain tx lg where r: "tx_ring s = Some tx" "log_ring s = Some lg" "list_all tx_ok tx"
      "list_all log_ok lg" "ring_bytes tx \<le> QUEUE_SIZE" "ring_bytes lg \<le> LOG_QUEUE_SIZE"
      "tx_pending s = of_nat (length tx + length lg)"
    using assms(1,2) unfolding queues_ok_def bytes_ok_def by blast
  then have "length tx + length lg < 2 ^ 32"
    using ring_bytes_count [OF r(3)] log_bytes_count [OF r(4)] by simp
  moreover have "2 ^ 32 dvd length tx + length lg"
    using r(7) assms(3) word_of_nat_eq_0_iff [where 'a = 32, of "length tx + length lg"]
    by (simp del: of_nat_add)
  ultimately have "length tx + length lg = 0" by (metis dvd_imp_le gr0I not_less)
  with r show ?thesis by simp
qed

lemma bytes_close: "bytes_ok (close_locked s)"
  by (auto simp: bytes_ok_def close_locked_def drain_eq)

lemma bytes_enqueue:
  assumes "rings_bounded P" and "bytes_ok s" and "enqueue P m log s = (r, t)"
  shows "bytes_ok t"
  using assms
  by (auto simp: enqueue_def bytes_ok_def ring_push_def rings_bounded_def
      close_locked_def drain_eq Let_def split: if_splits)

lemma bytes_take: "bytes_ok s \<Longrightarrow> tx_take P s = (r, t) \<Longrightarrow> bytes_ok t"
  by (auto simp: tx_take_def bytes_ok_def Let_def split: if_splits option.splits list.splits)

lemma bytes_same: "tx_ring t = tx_ring s \<Longrightarrow> log_ring t = log_ring s \<Longrightarrow> bytes_ok t = bytes_ok s"
  by (simp add: bytes_ok_def)

section \<open>Waiting\<close>

lemma unat_timeout_to_ticks:
  assumes "ms \<noteq> WAIT_FOREVER"
  shows "unat (timeout_to_ticks hz ms) = min ((unat ms * unat hz + 999) div 1000) (2 ^ 32 - 2)"
proof -
  have "unat ms * unat hz \<le> (2 ^ 32 - 1) * (2 ^ 32 - 1)"
    using unsigned_less [of ms, where ?'a = nat] unsigned_less [of hz, where ?'a = nat]
    by (intro mult_le_mono) auto
  then have bound: "unat ms * unat hz + 999 < 2 ^ 64" by simp
  define ticks :: u64 where "ticks = (ucast ms * ucast hz + 999) div 1000"
  have "unat (ucast ms * ucast hz + 999 :: u64) = unat ms * unat hz + 999"
  proof -
    have u: "unat (ucast ms :: u64) = unat ms" "unat (ucast hz :: u64) = unat hz"
      by (rule unat_ucast_up; simp)+
    show ?thesis
      unfolding unat_word_ariths u using bound by simp
  qed
  then have t: "unat ticks = (unat ms * unat hz + 999) div 1000"
    by (simp add: ticks_def unat_div)
  show ?thesis
  proof (cases "ticks \<ge> ucast portMAX_DELAY")
    case True
    then have "2 ^ 32 - 1 \<le> unat ticks" by (simp add: word_le_nat_alt)
    with True assms t show ?thesis by (simp add: timeout_to_ticks_def ticks_def [symmetric])
  next
    case False
    then have "unat ticks < 2 ^ 32 - 1" by (simp add: word_le_nat_alt)
    with False assms t show ?thesis
      by (simp add: timeout_to_ticks_def ticks_def [symmetric] unsigned_ucast_eq take_bit_nat_eq_self)
  qed
qed

text \<open>
  The clock ticks, does not depend on the queues, and a delay of \<open>d\<close> ticks takes at least \<open>d\<close> and
  at most \<open>d + late\<close>.
\<close>

definition timely :: "'z packet_queue_scheme platform \<Rightarrow> nat \<Rightarrow> bool" where
  "timely P late \<longleftrightarrow> 0 < tick_rate_hz P \<and>
     (\<forall>s t. packet_queue.more s = packet_queue.more t \<longrightarrow> tick_count P s = tick_count P t) \<and>
     (\<forall>d s. unat d \<le> unat (tick_count P (task_delay P d s) - tick_count P s) \<and>
            unat (tick_count P (task_delay P d s) - tick_count P s) \<le> unat d + late)"

lemma timelyD:
  assumes "timely P late"
  shows "0 < tick_rate_hz P"
    and "packet_queue.more s = packet_queue.more t \<Longrightarrow> tick_count P s = tick_count P t"
    and "unat d \<le> unat (tick_count P (task_delay P d s) - tick_count P s)"
    and "unat (tick_count P (task_delay P d s) - tick_count P s) \<le> unat d + late"
  using assms unfolding timely_def by blast+

lemma wait_ticks_bounds:
  assumes "0 < hz" and "ms \<noteq> WAIT_FOREVER" and "elapsed < timeout_to_ticks hz ms"
  shows "0 < unat (wait_ticks hz ms (timeout_to_ticks hz ms) elapsed)"
    and "unat (wait_ticks hz ms (timeout_to_ticks hz ms) elapsed) \<le> unat (timeout_to_ticks hz ms) - unat elapsed"
proof -
  have "0 < unat (timeout_to_ticks hz POLL_MS)"
    using assms(1) by (simp add: unat_timeout_to_ticks word_less_nat_alt)
  moreover have "unat (timeout_to_ticks hz ms - elapsed) = unat (timeout_to_ticks hz ms) - unat elapsed"
    using assms(3) by (simp add: unat_sub)
  ultimately show "0 < unat (wait_ticks hz ms (timeout_to_ticks hz ms) elapsed)"
    and "unat (wait_ticks hz ms (timeout_to_ticks hz ms) elapsed) \<le> unat (timeout_to_ticks hz ms) - unat elapsed"
    using assms by (auto simp: wait_ticks_def Let_def word_less_nat_alt)
qed

lemma wait_loop_returns:
  assumes clock: "timely P late" and ms: "ms \<noteq> WAIT_FOREVER"
    and room: "unat (timeout_to_ticks (tick_rate_hz P) ms) + late < 2 ^ 32"
    and poll: "\<And>s. packet_queue.more (snd (poll s)) = packet_queue.more s"
    and started: "unat (tick_count P s - start) \<le> unat (timeout_to_ticks (tick_rate_hz P) ms) + late"
  shows "\<exists>r t. wait_loop P poll expired ms start s = Some (r, t) \<and>
    unat (tick_count P t - start) \<le> unat (timeout_to_ticks (tick_rate_hz P) ms) + late"
  using started
proof (induction "unat (timeout_to_ticks (tick_rate_hz P) ms) + late - unat (tick_count P s - start)"
    arbitrary: s rule: less_induct)
  case less
  let ?limit = "timeout_to_ticks (tick_rate_hz P) ms"
  obtain r t where p: "poll s = (r, t)" by force
  then have tick: "tick_count P t = tick_count P s"
    using poll [of s] by (intro timelyD(2) [OF clock]) simp
  let ?e = "tick_count P t - start"
  show ?case
  proof (cases "r = None \<and> ?e < ?limit")
    case False
    then show ?thesis
      using p tick less.prems ms by (subst wait_loop.simps) (cases r; simp add: Let_def not_less)
  next
    case True
    let ?d = "wait_ticks (tick_rate_hz P) ms ?limit ?e"
    let ?s = "task_delay P ?d t"
    have d: "0 < unat ?d" "unat ?d \<le> unat ?limit - unat ?e"
      using wait_ticks_bounds [OF timelyD(1) [OF clock] ms] True by simp_all
    have adv: "unat ?d \<le> unat (tick_count P ?s - tick_count P t)"
      "unat (tick_count P ?s - tick_count P t) \<le> unat ?d + late"
      by (rule timelyD(3,4) [OF clock])+
    have lt: "unat ?e < unat ?limit" using True by (simp add: word_less_nat_alt)
    have "unat (tick_count P ?s - start) = unat (tick_count P ?s - tick_count P t + ?e)" by simp
    also have "\<dots> = unat (tick_count P ?s - tick_count P t) + unat ?e"
      using adv(2) d(2) lt room by (intro unat_add_lem [THEN iffD1]) simp
    finally have e: "unat (tick_count P ?s - start) =
      unat (tick_count P ?s - tick_count P t) + unat ?e" .
    have es: "tick_count P s - start = ?e" using tick by simp
    have "\<exists>r t. wait_loop P poll expired ms start ?s = Some (r, t) \<and>
      unat (tick_count P t - start) \<le> unat ?limit + late"
      by (rule less.hyps; unfold e es; use adv d lt in linarith)
    then show ?thesis
      using p True ms by (subst wait_loop.simps) (auto simp: Let_def)
  qed
qed


lemma more_polls:
  "packet_queue.more (snd (read_poll P s)) = packet_queue.more s"
  "packet_queue.more (snd (flush_poll P s)) = packet_queue.more s"
  by (auto simp: read_poll_def flush_poll_def split: option.splits list.splits)

section \<open>The TX task\<close>

definition frames_queued :: "'z packet_queue_scheme \<Rightarrow> nat" where
  "frames_queued s = length (the (tx_ring s)) + length (the (log_ring s))"

context wire
begin

lemma service_tx_step:
  assumes "queues_ok s" and "\<not> tx_busy s" and "service_tx P s = Some (served, t)"
  shows "queues_ok t \<and> \<not> tx_busy t \<and>
    (if served then frames_queued t < frames_queued s
     else t = s \<and> (is_open P s \<longrightarrow> tx_ring s = Some [] \<and> log_ring s = Some []))"
proof (cases "tx_take P s")
  case (Pair flight u)
  show ?thesis
  proof (cases flight)
    case None
    with Pair assms show ?thesis
      by (auto simp: service_tx_def tx_take_def queues_ok_def Let_def
          split: if_splits option.splits list.splits)
  next
    case (Some fl)
    then obtain f log sent v where fl: "fl = (f, log)"
      and d: "deliver_tx_frame P f log u = Some (sent, v)" and t: "served" "t = tx_finish sent v"
      using Pair assms(3) by (auto simp: service_tx_def split: prod.splits option.splits)
    have "queues_ok u" by (rule queues_take [OF assms(1) Pair])
    moreover have same: "packet_queue.truncate v = packet_queue.truncate u"
      by (rule deliver_base [OF d])
    ultimately have "queues_ok v" using queues_truncate by blast
    moreover have "frames_queued u < frames_queued s"
      using Pair Some assms fl
      by (auto simp: tx_take_def frames_queued_def queues_ok_def Let_def
          split: if_splits option.splits list.splits)
    moreover have "frames_queued (tx_finish sent v) \<le> frames_queued v"
      by (cases "tx_ring v"; cases "log_ring v")
        (auto simp: tx_finish_def close_locked_def drain_eq frames_queued_def Let_def)
    moreover have "frames_queued v = frames_queued u" using same by (simp add: truncate_eq_iff frames_queued_def)
    ultimately show ?thesis using t queues_finish [of v sent] by (simp add: tx_finish_fields)
  qed
qed

lemma drain_returns:
  assumes "queues_ok s" and "\<not> tx_busy s"
    and live: "\<And>f log s. deliver_tx_frame P f log s \<noteq> None"
  shows "\<exists>t. tx_drain P s = Some t \<and> queues_ok t \<and> \<not> tx_busy t \<and>
    (is_open P t \<longrightarrow> tx_ring t = Some [] \<and> log_ring t = Some [])"
  using assms(1,2)
proof (induction "frames_queued s" arbitrary: s rule: less_induct)
  case less
  have "service_tx P s \<noteq> None"
    by (simp add: service_tx_def live del: not_None_eq split: prod.splits option.splits)
  then obtain served t where st: "service_tx P s = Some (served, t)" by force
  note step = service_tx_step [OF less.prems st]
  show ?case
  proof (cases served)
    case True
    then have "\<exists>u. tx_drain P t = Some u \<and> queues_ok u \<and> \<not> tx_busy u \<and>
        (is_open P u \<longrightarrow> tx_ring u = Some [] \<and> log_ring u = Some [])"
      using less.hyps step by simp
    with True st show ?thesis by (subst tx_drain.simps) simp
  next
    case False
    with st step less.prems show ?thesis by (subst tx_drain.simps) simp
  qed
qed

lemma bytes_reached:
  assumes "reached P c" and bounded: "rings_bounded P"
  shows "bytes_ok (obj c)"
  using assms(1)
proof (induction rule: reached.induct)
  case (reached_init z s)
  then show ?case
    by (auto simp: create_queues_def destroy_queues_def new_queue_def bytes_ok_def Let_def split: if_splits)
next
  case (reached_enqueue c m log r s)
  then show ?case using bytes_enqueue [OF bounded] reached_enqueue by simp
next
  case (reached_take c flight s)
  then show ?case using bytes_take reached_take by simp
next
  case (reached_driver c s)
  then show ?case using bytes_same [of s "obj c"] by (simp add: truncate_eq_iff)
next
  case (reached_read c packet s)
  then show ?case using bytes_same [of s "obj c"]
    by (auto simp: read_poll_def split: if_splits option.splits list.splits)
qed (auto simp: bytes_ok_def boundary_defs transfer_defs split: if_splits option.splits)

lemma control_in_order:
  assumes "reached P c"
  shows "prefix (wired c) (written c)"
    and "rings_bounded P \<Longrightarrow> flush_poll P (obj c) = (Some ESP_OK, s) \<Longrightarrow> wired c = written c"
proof -
  have ok: "activity_ok c" by (rule activity_reached [OF assms])
  then show "prefix (wired c) (written c)" by (auto simp: activity_ok_def dest: append_prefixD)
  assume "rings_bounded P" and "flush_poll P (obj c) = (Some ESP_OK, s)"
  then have "bytes_ok (obj c)" using bytes_reached [OF assms] by blast
  moreover have "\<not> dead (obj c)" "tx_pending (obj c) = 0" "\<not> tx_busy (obj c)"
    using \<open>flush_poll P (obj c) = (Some ESP_OK, s)\<close>
    by (auto simp: flush_poll_def is_open_def split: if_splits)
  moreover from calculation have "tx_ring (obj c) = Some []"
    using ok nothing_pending by (auto simp: activity_ok_def)
  moreover have "in_flight c = None"
    using ok calculation(4) unfolding activity_ok_def by blast
  ultimately show "wired c = written c" using ok by (simp add: activity_ok_def)
qed


text \<open>A packet whose reception began before a boundary is dropped after it.\<close>

lemma stale_dropped:
  assumes "reached P c" and "k < closings c" and "closings c - k < 2 ^ 32"
  shows "deliver_packet P data (of_nat k) (obj c) = obj c"
proof -
  have "epoch (obj c) = of_nat (closings c)"
    using activity_reached [OF assms(1)] by (simp add: activity_ok_def)
  moreover have "(of_nat k :: u32) \<noteq> of_nat (closings c)"
  proof
    assume "(of_nat k :: u32) = of_nat (closings c)"
    then have "(of_nat (closings c - k) :: u32) = 0"
      using assms(2) by (simp add: of_nat_diff)
    then have "2 ^ 32 dvd closings c - k" by (simp add: word_of_nat_eq_0_iff)
    then show False using assms(2,3) by (auto dest: dvd_imp_le)
  qed
  ultimately show ?thesis by (simp add: deliver_packet_def)
qed

lemma begin_session_fresh:
  assumes "reached P c" and "begin_session P (obj c) = (ESP_OK, s)"
    and few: "length (borrowed c) < 2 ^ 32"
  shows "in_flight c = None" "borrowed c = []"
    "ring_buffer s = Some []" "tx_ring s = Some []" "log_ring s = Some []"
    "epoch s = epoch (obj c) + 1" "link_serial (obj c) \<noteq> accepted_link_serial (obj c)"
    "fst (begin_session P (close_session s)) = ESP_ERR_INVALID_STATE"
proof -
  have ok: "activity_ok c" by (rule activity_reached [OF assms(1)])
  then have q: "queues_ok (obj c)" by (simp add: activity_ok_def)
  note fresh = begin_session_ok [OF assms(2) q]
  have "rx_borrowed (obj c) = 0"
    using assms(2) by (auto simp: begin_session_def Let_def split: if_splits)
  then have "2 ^ 32 dvd length (borrowed c)"
    using ok word_of_nat_eq_0_iff [where 'a = 32, of "length (borrowed c)"]
    by (simp add: activity_ok_def)
  with few show "borrowed c = []" by (metis dvd_imp_le gr0I length_0_conv not_less)
  show "in_flight c = None" using ok fresh unfolding activity_ok_def by blast
  show "ring_buffer s = Some []" "tx_ring s = Some []" "log_ring s = Some []"
    "link_serial (obj c) \<noteq> accepted_link_serial (obj c)"
    using assms(2) q
    by (auto simp: begin_session_def close_locked_def drain_eq queues_ok_def Let_def
        link_is_connected_def split: if_splits)
  show "epoch s = epoch (obj c) + 1" using fresh by simp
  have "link_serial s = accepted_link_serial s" using fresh by (auto simp: queues_ok_def)
  then show "fst (begin_session P (close_session s)) = ESP_ERR_INVALID_STATE"
    by (simp add: begin_session_def close_session_def close_locked_def)
qed

end

section \<open>Properties\<close>

text \<open>A timeout becomes enough ticks to cover it and less than one tick more, saturating just
  below the indefinite wait, which only \<open>WAIT_FOREVER\<close> means.\<close>

theorem timeout_to_ticks_spec:
  "timeout_to_ticks hz WAIT_FOREVER = portMAX_DELAY \<and>
   (ms \<noteq> WAIT_FOREVER \<longrightarrow>
     timeout_to_ticks hz ms \<noteq> portMAX_DELAY \<and>
     1000 * unat (timeout_to_ticks hz ms) < unat ms * unat hz + 1000 \<and>
     (unat ms * unat hz \<le> 1000 * unat (timeout_to_ticks hz ms) \<or>
      timeout_to_ticks hz ms = portMAX_DELAY - 1))"
proof -
  have "unat (timeout_to_ticks hz ms) \<noteq> unat portMAX_DELAY"
    "unat (timeout_to_ticks hz ms) = unat (portMAX_DELAY - 1) \<or>
      unat (timeout_to_ticks hz ms) = (unat ms * unat hz + 999) div 1000" if "ms \<noteq> WAIT_FOREVER"
    using unat_timeout_to_ticks [OF that, of hz] by (auto simp: min_def)
  moreover have "1000 * unat (timeout_to_ticks hz ms) \<le> unat ms * unat hz + 999" if "ms \<noteq> WAIT_FOREVER"
    using unat_timeout_to_ticks [OF that, of hz] by (auto simp: min_def)
  ultimately show ?thesis
    by (auto simp: timeout_to_ticks_def [of hz WAIT_FOREVER] word_unat_eq_iff)
qed

theorem timeout_to_ticks_spec_witness: "10 \<le> 10 * unat (timeout_to_ticks 100 1)"
  using timeout_to_ticks_spec [of 100 1] by auto

text \<open>C32. A read or a flush with a timeout returns: no later than its limit in ticks and the
  latest wake-up of one delay, however the other tasks behave.\<close>

theorem waits_return:
  assumes "timely P late" and "ms \<noteq> WAIT_FOREVER"
    and "unat (timeout_to_ticks (tick_rate_hz P) ms) + late < 2 ^ 32"
  shows "(\<exists>r t. start_read P null_out ms s = Some (r, t) \<and>
      unat (tick_count P t - tick_count P s) \<le> unat (timeout_to_ticks (tick_rate_hz P) ms) + late) \<and>
    (\<exists>r t. flush_write P ms s = Some (r, t) \<and>
      unat (tick_count P t - tick_count P s) \<le> unat (timeout_to_ticks (tick_rate_hz P) ms) + late)"
proof
  show "\<exists>r t. start_read P null_out ms s = Some (r, t) \<and>
      unat (tick_count P t - tick_count P s) \<le> unat (timeout_to_ticks (tick_rate_hz P) ms) + late"
  proof (cases null_out)
    case False
    then show ?thesis
      using wait_loop_returns [OF assms more_polls(1),
          where s = s and start = "tick_count P s" and expired = "(ESP_ERR_TIMEOUT, None)"]
      by (simp add: start_read_def)
  qed (simp add: start_read_def)
  show "\<exists>r t. flush_write P ms s = Some (r, t) \<and>
      unat (tick_count P t - tick_count P s) \<le> unat (timeout_to_ticks (tick_rate_hz P) ms) + late"
    using wait_loop_returns [OF assms more_polls(2),
        where s = s and start = "tick_count P s" and expired = ESP_ERR_TIMEOUT]
    by (simp add: flush_write_def)
qed

text \<open>A platform on which nothing happens but time: its state is the tick counter.\<close>

definition idle_platform :: "u32 packet_queue_scheme platform" where
  "idle_platform = \<lparr>physical_link_open = \<lambda>s. True, reset_wire_buffers = \<lambda>s. s,
     deliver_tx_frame = \<lambda>f log s. Some (True, s), ring_accepts = \<lambda>r item s. True,
     mutex_available = \<lambda>s. True, ring_available = \<lambda>r n s. True, task_available = \<lambda>s. True,
     tick_count = packet_queue.more,
     task_delay = \<lambda>d s. packet_queue.more_update (\<lambda>t. t + d) s, tick_rate_hz = 100\<rparr>"

theorem waits_return_witness:
  "\<exists>r t. flush_write idle_platform 50 (new_queue 7) = Some (r, t) \<and> unat (packet_queue.more t - 7) \<le> 5"
proof -
  have "timely idle_platform 0" by (simp add: timely_def idle_platform_def)
  moreover have "timeout_to_ticks 100 50 = 5" by (simp add: timeout_to_ticks_def)
  ultimately show ?thesis
    using waits_return [of idle_platform 0 50 False "new_queue 7"]
    by (simp add: idle_platform_def new_queue_def)
qed

end
