(* ===== verification/Transport_Cdc_Slip.thy ===== *)
theory Transport_Cdc_Slip
  imports Transport_Cdc Transport_Queue_Inv
begin

text \<open>
  The SLIP framing of the CDC transport. \<open>slip_next\<close> and \<open>slip_out\<close> are the framing as an automaton on
  unbounded data, which the byte-wise decoder of the code refines (\<open>consume_refines\<close>,
  \<open>feed_refines\<close>); \<open>unescape\<close> is the framing read a segment at a time, which the automaton equals
  (\<open>slip_segment\<close>); \<open>encode_message_spec\<close> is what the encoder stages.
\<close>

section \<open>The automaton\<close>

text \<open>
  Before the first END, inside a frame that will be dropped, or inside one with the bytes decoded
  so far and whether an escape is open.
\<close>

datatype slip = Hunting | Skipping | Frame bytes bool

definition push :: "bytes \<Rightarrow> u8 \<Rightarrow> slip" where
  "push c b = (if length c = MAX_FRAME_SIZE then Skipping else Frame (c @ [b]) False)"

fun slip_next :: "u8 \<Rightarrow> slip \<Rightarrow> slip" where
  "slip_next b Hunting = (if b = SLIP_END then Frame [] False else Hunting)"
| "slip_next b Skipping = (if b = SLIP_END then Frame [] False else Skipping)"
| "slip_next b (Frame c True) =
     (if b = SLIP_END then Frame [] False
      else if b = SLIP_ESC_END then push c SLIP_END
      else if b = SLIP_ESC_ESC then push c SLIP_ESC
      else Skipping)"
| "slip_next b (Frame c False) =
     (if b = SLIP_END then Frame [] False
      else if b = SLIP_ESC then Frame c True
      else push c b)"

fun slip_out :: "u8 \<Rightarrow> slip \<Rightarrow> bytes list" where
  "slip_out b (Frame c False) = (if b = SLIP_END \<and> c \<noteq> [] then [c] else [])"
| "slip_out b _ = []"

fun slip_frames :: "bytes \<Rightarrow> slip \<Rightarrow> bytes list" where
  "slip_frames [] st = []"
| "slip_frames (b # bs) st = slip_out b st @ slip_frames bs (slip_next b st)"

fun slip_run :: "bytes \<Rightarrow> slip \<Rightarrow> slip" where
  "slip_run [] st = st"
| "slip_run (b # bs) st = slip_run bs (slip_next b st)"

lemma slip_frames_append:
  "slip_frames (bs @ cs) st = slip_frames bs st @ slip_frames cs (slip_run bs st)"
  by (induction bs arbitrary: st) simp_all

lemma slip_run_append: "slip_run (bs @ cs) st = slip_run cs (slip_run bs st)"
  by (induction bs arbitrary: st) simp_all

fun escape :: "bytes \<Rightarrow> bytes" where
  "escape [] = []"
| "escape (b # bs) =
     (if b = SLIP_END then [SLIP_ESC, SLIP_ESC_END]
      else if b = SLIP_ESC then [SLIP_ESC, SLIP_ESC_ESC] else [b]) @ escape bs"

definition slip_encode :: "bytes \<Rightarrow> bytes" where
  "slip_encode m = SLIP_END # escape m @ [SLIP_END]"


lemma escape_length: "length m \<le> length (escape m)" "length (escape m) \<le> 2 * length m"
  by (induction m) auto

lemma slip_escape:
  "length c + length m \<le> MAX_FRAME_SIZE \<Longrightarrow>
   slip_run (escape m) (Frame c False) = Frame (c @ m) False \<and>
   slip_frames (escape m) (Frame c False) = []"
  by (induction m arbitrary: c) (auto simp: push_def)

lemma slip_next_end: "slip_next SLIP_END st = Frame [] False"
proof (cases st)
  case (Frame c e)
  then show ?thesis by (cases e) simp_all
qed simp_all

lemma slip_encode_decoded:
  assumes "m \<noteq> []" and "length m \<le> MAX_FRAME_SIZE"
  shows "slip_frames (slip_encode m) st = slip_out SLIP_END st @ [m]"
    and "slip_run (slip_encode m) st = Frame [] False"
  using slip_escape [of "[]" m] assms
  by (simp_all add: slip_encode_def slip_next_end slip_frames_append slip_run_append)

section \<open>The decoder refines the automaton\<close>

definition slip_state :: "'w cdc_transport \<Rightarrow> slip" where
  "slip_state s =
     (if \<not> receiving_frame s then Hunting
      else if frame_discarded s then Skipping
      else Frame (take (frame_size s) (the (frame_buffer s))) (escape_pending s))"

definition rx_ready :: "'w cdc_transport \<Rightarrow> bool" where
  "rx_ready s \<longleftrightarrow> (\<exists>buf. frame_buffer s = Some buf \<and> length buf = MAX_FRAME_SIZE) \<and>
     frame_size s \<le> MAX_FRAME_SIZE \<and> (frame_discarded s \<longrightarrow> \<not> escape_pending s) \<and> \<not> overrun s"

lemma take_store: "n < length buf \<Longrightarrow> take (Suc n) (buf[n := b]) = take n buf @ [b]"
  by (simp add: take_Suc_conv_app_nth)

lemma rx_readyE:
  assumes "rx_ready s"
  obtains buf where "frame_buffer s = Some buf" "length buf = MAX_FRAME_SIZE"
    "frame_size s \<le> MAX_FRAME_SIZE" "frame_discarded s \<Longrightarrow> \<not> escape_pending s" "\<not> overrun s"
  using assms by (auto simp: rx_ready_def)

lemma append_decoded:
  assumes "rx_ready s" and "receiving_frame s" "\<not> frame_discarded s" "\<not> escape_pending s"
  shows "rx_ready (append_decoded_byte b s)"
    and "slip_state (append_decoded_byte b s) = push (take (frame_size s) (the (frame_buffer s))) b"
proof -
  obtain buf where "frame_buffer s = Some buf" "length buf = MAX_FRAME_SIZE"
      "frame_size s \<le> MAX_FRAME_SIZE" "\<not> overrun s"
    using assms(1) by (rule rx_readyE)
  note s = this assms(2-)
  show "rx_ready (append_decoded_byte b s)"
    using s by (simp add: append_decoded_byte_def rx_ready_def)
  show "slip_state (append_decoded_byte b s) = push (take (frame_size s) (the (frame_buffer s))) b"
  proof (cases "frame_size s = MAX_FRAME_SIZE")
    case True
    with s show ?thesis by (simp add: append_decoded_byte_def slip_state_def push_def)
  next
    case False
    with s have "frame_size s < length buf" by simp
    with s False show ?thesis
      by (simp add: append_decoded_byte_def slip_state_def push_def take_store)
  qed
qed


lemma rx_ready_reset [simp]: "rx_ready s \<Longrightarrow> rx_ready (reset_frame_state s)"
  by (simp add: rx_ready_def reset_frame_state_def)

lemma slip_state_reset [simp]: "receiving_frame s \<Longrightarrow> slip_state (reset_frame_state s) = Frame [] False"
  by (simp add: slip_state_def reset_frame_state_def)

lemma take_eq_Nil_ready: "rx_ready s \<Longrightarrow> take (frame_size s) (the (frame_buffer s)) = [] \<longleftrightarrow> frame_size s = 0"
  by (auto elim!: rx_readyE)

definition refines_byte :: "u8 \<Rightarrow> 'w cdc_transport \<Rightarrow> bool \<times> 'w cdc_transport \<Rightarrow> bool" where
  "refines_byte b s r = (case r of (completed, t) \<Rightarrow> rx_ready t \<and>
     slip_state (if completed then reset_frame_state t else t) = slip_next b (slip_state s) \<and>
     (if completed then [take (frame_size t) (the (frame_buffer t))] else []) = slip_out b (slip_state s))"

lemma refines_end:
  assumes "rx_ready s" shows "refines_byte SLIP_END s (consume_input_byte SLIP_END s)"
proof (cases "receiving_frame s")
  case False
  with assms have "rx_ready (reset_frame_state (s\<lparr>receiving_frame := True\<rparr>))"
    by (simp add: rx_ready_def reset_frame_state_def)
  with False show ?thesis by (simp add: consume_input_byte_def refines_byte_def slip_next_end) (simp add: slip_state_def)
next
  case True
  then show ?thesis
    using assms take_eq_Nil_ready [OF assms] rx_readyE [OF assms]
    apply (cases "escape_pending s"; cases "frame_discarded s"; cases "frame_size s = 0")
    apply (simp_all add: consume_input_byte_def refines_byte_def slip_next_end)
    apply (simp_all add: slip_state_def)
    done
qed

lemma refines_data:
  assumes "rx_ready s" and b: "b \<noteq> SLIP_END" shows "refines_byte b s (consume_input_byte b s)"
proof (cases "receiving_frame s \<and> \<not> frame_discarded s")
  case False
  with assms show ?thesis
    by (auto simp: consume_input_byte_def refines_byte_def slip_state_def)
next
  case True
  let ?c = "take (frame_size s) (the (frame_buffer s))"
  have st: "slip_state s = Frame ?c (escape_pending s)" using True by (simp add: slip_state_def)
  show ?thesis
  proof (cases "escape_pending s")
    case False
    then show ?thesis
      using True st b assms append_decoded [OF assms(1), of b]
      by (simp add: consume_input_byte_def refines_byte_def)
         (auto simp: slip_state_def rx_ready_def)
  next
    case esc: True
    let ?s = "s\<lparr>escape_pending := False\<rparr>"
    have "rx_ready ?s" using assms(1) by (simp add: rx_ready_def)
    then have "rx_ready (append_decoded_byte c ?s)" "slip_state (append_decoded_byte c ?s) = push ?c c" for c
      using append_decoded [of ?s c] True by simp_all
    with esc show ?thesis
      using True st b \<open>rx_ready ?s\<close>
      by (simp add: consume_input_byte_def refines_byte_def)
         (auto simp: slip_state_def rx_ready_def)
  qed
qed

lemma consume_refines: "rx_ready s \<Longrightarrow> refines_byte b s (consume_input_byte b s)"
  using refines_end refines_data by (cases "b = SLIP_END") auto


section \<open>A chunk of input\<close>

text \<open>
  The object without its decoder, which is all a delivery can depend on: a ring buffer does not
  look at the decoder when it accepts an item (\<open>ring_blind\<close>).
\<close>

definition undecoded :: "'w cdc_transport \<Rightarrow> 'w cdc_transport" where
  "undecoded s = s\<lparr>frame_buffer := None, frame_size := 0, frame_discarded := False,
     receiving_frame := False, escape_pending := False, overrun := False\<rparr>"

definition ring_blind :: "'w cdc_transport platform \<Rightarrow> bool" where
  "ring_blind R \<longleftrightarrow> (\<forall>r p s. ring_accepts R r p s = ring_accepts R r p (undecoded s))"

lemma undecoded_consume: "undecoded (snd (consume_input_byte b s)) = undecoded s"
  by (auto simp: consume_input_byte_def reset_frame_state_def undecoded_def append_decoded_byte_def
      Let_def split: option.splits)

lemma undecoded_reset [simp]: "undecoded (reset_frame_state s) = undecoded s"
  by (simp add: reset_frame_state_def undecoded_def)

lemma undecoded_sel [simp]:
  "dead (undecoded s) = dead s" "connected (undecoded s) = connected s" "epoch (undecoded s) = epoch s"
  "ring_buffer (undecoded s) = ring_buffer s" "initialized (undecoded s) = initialized s"
  "cdc_port (undecoded s) = cdc_port s" "usb (undecoded s) = usb s"
  by (simp_all add: undecoded_def)

lemma undecoded_link [simp]: "is_open (cdc_platform d R) (undecoded s) = is_open (cdc_platform d R) s"
  by (simp add: is_open_def link_is_connected_def cdc_platform_def cdc_link_def cdc_physical_link_open_def)

lemma undecoded_deliver:
  assumes "ring_blind R"
  shows "undecoded (deliver_packet (cdc_platform d R) p ep s) =
    deliver_packet (cdc_platform d R) p ep (undecoded s)"
proof -
  have r: "ring_accepts (cdc_platform d R) RX_RING p (undecoded s) = ring_accepts (cdc_platform d R) RX_RING p s"
    using assms by (simp add: ring_blind_def cdc_platform_def cdc_link_def)
  show ?thesis
    by (simp add: deliver_packet_def r) (simp add: undecoded_def close_locked_def)
qed

lemma deliver_decoder [simp]:
  "frame_buffer (deliver_packet P p ep s) = frame_buffer s"
  "frame_size (deliver_packet P p ep s) = frame_size s"
  "frame_discarded (deliver_packet P p ep s) = frame_discarded s"
  "receiving_frame (deliver_packet P p ep s) = receiving_frame s"
  "escape_pending (deliver_packet P p ep s) = escape_pending s"
  "overrun (deliver_packet P p ep s) = overrun s"
  "tx_buffer (deliver_packet P p ep s) = tx_buffer s"
  "initialized (deliver_packet P p ep s) = initialized s"
  by (simp_all add: deliver_packet_def close_locked_def)

lemma rx_ready_deliver [simp]: "rx_ready (deliver_packet P p ep s) = rx_ready s"
  by (simp add: rx_ready_def)

lemma slip_state_deliver [simp]:
  "slip_state (reset_frame_state (deliver_packet P p ep s)) = slip_state (reset_frame_state s)"
  by (simp add: slip_state_def reset_frame_state_def)

lemma feed_refines:
  assumes "ring_blind R" and "rx_ready s"
  shows "rx_ready (feed_bytes (cdc_platform d R) ep bs s) \<and>
    slip_state (feed_bytes (cdc_platform d R) ep bs s) = slip_run bs (slip_state s) \<and>
    undecoded (feed_bytes (cdc_platform d R) ep bs s) =
      fold (\<lambda>p. deliver_packet (cdc_platform d R) p ep) (slip_frames bs (slip_state s)) (undecoded s)"
  using assms(2)
proof (induction bs arbitrary: s)
  case Nil
  then show ?case by simp
next
  case (Cons b bs)
  obtain completed t where c: "consume_input_byte b s = (completed, t)" by force
  have ref: "refines_byte b s (completed, t)" using consume_refines [OF Cons.prems] c by metis
  have und: "undecoded t = undecoded s" using undecoded_consume [of b s] c by simp
  obtain buf where buf: "frame_buffer t = Some buf"
    using ref rx_readyE [of t] by (auto simp: refines_byte_def)
  show ?case
  proof (cases completed)
    case False
    then have "rx_ready t" "slip_state t = slip_next b (slip_state s)" "slip_out b (slip_state s) = []"
      using ref by (auto simp: refines_byte_def)
    then show ?thesis using Cons.IH [of t] c False und by simp
  next
    case True
    let ?p = "take (frame_size t) buf"
    let ?t = "reset_frame_state (deliver_packet (cdc_platform d R) ?p ep t)"
    have "rx_ready ?t" "slip_state ?t = slip_next b (slip_state s)" "slip_out b (slip_state s) = [?p]"
      using ref True buf by (auto simp: refines_byte_def)
    moreover have "undecoded ?t = deliver_packet (cdc_platform d R) ?p ep (undecoded s)"
      by (simp add: undecoded_deliver [OF assms(1)] und)
    ultimately show ?thesis using Cons.IH [of ?t] c True buf by (simp add: Let_def)
  qed
qed

lemma feed_append: "feed_bytes P ep (as @ bs) s = feed_bytes P ep bs (feed_bytes P ep as s)"
  by (induction as arbitrary: s) (auto simp: Let_def split: prod.splits bool.splits)

section \<open>The encoder\<close>

definition tx_ready :: "'w cdc_transport \<Rightarrow> bool" where
  "tx_ready s \<longleftrightarrow> (\<exists>buf. tx_buffer s = Some buf \<and> length buf = MAX_ENCODED_FRAME_SIZE) \<and> \<not> overrun s"

definition encoded :: "'w cdc_transport \<Rightarrow> bytes" where
  "encoded s = take (tx_size s) (the (tx_buffer s))"

lemma append_tx:
  assumes "tx_ready s" and "tx_size s < MAX_ENCODED_FRAME_SIZE"
  shows "tx_ready (append_tx_byte b s)" "encoded (append_tx_byte b s) = encoded s @ [b]"
    "tx_size (append_tx_byte b s) = Suc (tx_size s)" "tx_offset (append_tx_byte b s) = tx_offset s"
  using assms by (auto simp: append_tx_byte_def tx_ready_def encoded_def take_store)

lemma append_escaped:
  assumes "tx_ready s" and "tx_size s + length (escape m) \<le> MAX_ENCODED_FRAME_SIZE"
  shows "tx_ready (fold append_escaped_tx_byte m s) \<and>
    encoded (fold append_escaped_tx_byte m s) = encoded s @ escape m \<and>
    tx_size (fold append_escaped_tx_byte m s) = tx_size s + length (escape m) \<and>
    tx_offset (fold append_escaped_tx_byte m s) = tx_offset s"
  using assms
proof (induction m arbitrary: s)
  case Nil
  then show ?case by simp
next
  case (Cons b m)
  let ?s = "append_escaped_tx_byte b s"
  have "tx_ready ?s \<and> encoded ?s = encoded s @ escape [b] \<and>
      tx_size ?s = tx_size s + length (escape [b]) \<and> tx_offset ?s = tx_offset s"
    using Cons.prems by (auto simp: append_escaped_tx_byte_def append_tx)
  then show ?case using Cons.IH [of ?s] Cons.prems by (auto split: if_splits)
qed

lemma encode_message_spec:
  assumes "tx_ready s" and "length m \<le> MAX_FRAME_SIZE"
  shows "tx_ready (encode_message m s) \<and> unsent (encode_message m s) = slip_encode m \<and>
    tx_size (encode_message m s) = length (slip_encode m) \<and> tx_offset (encode_message m s) = 0"
proof -
  let ?a = "append_tx_byte SLIP_END (s\<lparr>tx_size := 0, tx_offset := 0\<rparr>)"
  let ?b = "fold append_escaped_tx_byte m ?a"
  have r0: "tx_ready (s\<lparr>tx_size := 0, tx_offset := 0\<rparr>)" "encoded (s\<lparr>tx_size := 0, tx_offset := 0\<rparr>) = []"
    using assms(1) by (simp_all add: tx_ready_def encoded_def)
  then have a: "tx_ready ?a" "encoded ?a = [SLIP_END]" "tx_size ?a = 1" "tx_offset ?a = 0"
    using append_tx [OF r0(1)] by simp_all
  then have b: "tx_ready ?b \<and> encoded ?b = [SLIP_END] @ escape m \<and>
      tx_size ?b = 1 + length (escape m) \<and> tx_offset ?b = 0"
    using append_escaped [of ?a m] escape_length(2) [of m] assms(2) by simp
  then have e: "tx_ready (append_tx_byte SLIP_END ?b)"
      "encoded (append_tx_byte SLIP_END ?b) = slip_encode m"
      "tx_size (append_tx_byte SLIP_END ?b) = Suc (1 + length (escape m))"
      "tx_offset (append_tx_byte SLIP_END ?b) = 0"
    using append_tx [of ?b] escape_length(2) [of m] assms(2) by (simp_all add: slip_encode_def)
  moreover have "unsent t = encoded t" if "tx_ready t" "tx_offset t = 0" for t :: "'a cdc_transport"
    using that by (auto simp: unsent_def encoded_def slice_def tx_ready_def)
  ultimately show ?thesis by (simp add: encode_message_def Let_def slip_encode_def)
qed


section \<open>The reference decoder\<close>

fun unescape :: "bytes \<Rightarrow> bytes option" where
  "unescape [] = Some []"
| "unescape (b # bs) =
     (if b = SLIP_ESC then
        (case bs of
           [] \<Rightarrow> None
         | e # bs \<Rightarrow>
             if e = SLIP_ESC_END then map_option (Cons SLIP_END) (unescape bs)
             else if e = SLIP_ESC_ESC then map_option (Cons SLIP_ESC) (unescape bs)
             else None)
      else map_option (Cons b) (unescape bs))"

definition segment_frames :: "bytes \<Rightarrow> bytes list" where
  "segment_frames g =
     (case unescape g of
        None \<Rightarrow> []
      | Some m \<Rightarrow> if m \<noteq> [] \<and> length m \<le> MAX_FRAME_SIZE then [m] else [])"

lemma slip_silent: "SLIP_END \<notin> set bs \<Longrightarrow> slip_frames bs st = []"
proof (induction bs arbitrary: st)
  case (Cons b bs)
  then show ?case by (cases "(b, st)" rule: slip_out.cases) auto
qed simp

lemma slip_stuck: "SLIP_END \<notin> set bs \<Longrightarrow> slip_run bs Skipping = Skipping"
  by (induction bs) auto

lemma slip_segment:
  assumes "SLIP_END \<notin> set g" and "length c \<le> MAX_FRAME_SIZE"
  shows "slip_out SLIP_END (slip_run g (Frame c False)) =
    (case unescape g of
       None \<Rightarrow> []
     | Some m \<Rightarrow> if c @ m \<noteq> [] \<and> length (c @ m) \<le> MAX_FRAME_SIZE then [c @ m] else [])"
  using assms
proof (induction g arbitrary: c rule: unescape.induct)
  case 1
  then show ?case by simp
next
  case (2 b bs)
  have put: "slip_out SLIP_END (slip_run cs (push c x)) =
      (case map_option (Cons x) (unescape cs) of None \<Rightarrow> []
       | Some m \<Rightarrow> if c @ m \<noteq> [] \<and> length (c @ m) \<le> MAX_FRAME_SIZE then [c @ m] else [])"
    if IH: "\<And>c. length c \<le> MAX_FRAME_SIZE \<Longrightarrow> slip_out SLIP_END (slip_run cs (Frame c False)) =
        (case unescape cs of None \<Rightarrow> []
         | Some m \<Rightarrow> if c @ m \<noteq> [] \<and> length (c @ m) \<le> MAX_FRAME_SIZE then [c @ m] else [])"
      and "SLIP_END \<notin> set cs" for cs x
  proof (cases "length c = MAX_FRAME_SIZE")
    case True
    then show ?thesis using that(2) by (auto simp: push_def slip_stuck split: option.splits)
  next
    case False
    then show ?thesis using IH [of "c @ [x]"] "2.prems"(2)
      by (auto simp: push_def split: option.splits)
  qed
  show ?case
  proof (cases "b = SLIP_ESC")
    case False
    then show ?thesis using put [of bs b] 2 by simp
  next
    case esc: True
    show ?thesis
    proof (cases bs)
      case Nil
      then show ?thesis using esc by simp
    next
      case (Cons e cs)
      then show ?thesis
        using esc put [of cs SLIP_END] put [of cs SLIP_ESC] 2 by (auto simp: slip_stuck)
    qed
  qed
qed

lemma slip_frames_segments:
  assumes "\<forall>g \<in> set gs. SLIP_END \<notin> set g"
  shows "slip_frames (concat (map (\<lambda>g. g @ [SLIP_END]) gs)) (Frame [] False) = concat (map segment_frames gs)"
  using assms
proof (induction gs)
  case (Cons g gs)
  then show ?case
    using slip_segment [of g "[]"]
    by (auto simp: slip_frames_append slip_run_append slip_silent slip_next_end segment_frames_def
        split: option.splits)
qed simp


section \<open>A loopback port\<close>

text \<open>
  A concrete driver and RTOS: the bytes still to be read, the bytes on the wire, and the time.
  TinyUSB takes at most 64 bytes at a time and each call takes a microsecond.
\<close>

type_synonym loop_state = "bytes \<times> bytes \<times> int"

definition loop_driver :: "loop_state usb_driver" where
  "loop_driver = \<lparr>port_count = 2, heap_available = \<lambda>w. True, heap_byte = \<lambda>w i. 0xA5,
     cdcacm_init = \<lambda>p w. (ESP_OK, w), cdcacm_initialized = \<lambda>p w. True,
     unregister_callbacks = \<lambda>p w. w, cdc_connected = \<lambda>p w. True,
     read_flush = \<lambda>p (i, out, t). ([], out, t), write_clear = \<lambda>p w. w,
     cdcacm_read = \<lambda>p n (i, out, t). ((ESP_OK, take n i), (drop n i, out, t)),
     write_queue = \<lambda>p b (i, out, t). (min 64 (length b), (i, out @ take 64 b, t + 1)),
     write_flush = \<lambda>p ticks (i, out, t). (ESP_OK, (i, out, t + 1)),
     timer_us = \<lambda>(i, out, t). t\<rparr>"

definition loop_rtos :: "loop_state cdc_transport platform" where
  "loop_rtos = \<lparr>physical_link_open = \<lambda>s. False, reset_wire_buffers = \<lambda>s. s,
     deliver_tx_frame = \<lambda>f log s. None,
     ring_accepts = \<lambda>r item s.
       ring_bytes (case r of RX_RING \<Rightarrow> the (ring_buffer s) | TX_RING \<Rightarrow> the (tx_ring s) | LOG_RING \<Rightarrow> the (log_ring s))
         + length item \<le> (case r of LOG_RING \<Rightarrow> LOG_QUEUE_SIZE | _ \<Rightarrow> QUEUE_SIZE),
     mutex_available = \<lambda>s. True, ring_available = \<lambda>r n s. True, task_available = \<lambda>s. True,
     tick_count = \<lambda>s. word_of_int (snd (snd (usb s)) div 10000),
     task_delay = \<lambda>d s. s\<lparr>usb := (case usb s of (i, out, t) \<Rightarrow> (i, out, t + 10000 * uint d))\<rparr>,
     tick_rate_hz = 100\<rparr>"

definition loop_cdc :: "loop_state cdc_transport" where
  "loop_cdc = (new_cdc ([], [], 0))\<lparr>frame_buffer := Some (replicate MAX_FRAME_SIZE 0),
     tx_buffer := Some (replicate MAX_ENCODED_FRAME_SIZE 0), initialized := True\<rparr>"

lemma loop_blind: "ring_blind loop_rtos"
  by (simp add: ring_blind_def loop_rtos_def undecoded_def split: ring.splits)

lemma loop_ready: "rx_ready loop_cdc" "tx_ready loop_cdc" "slip_state loop_cdc = Hunting"
  by (simp_all add: loop_cdc_def new_cdc_def new_queue_def rx_ready_def tx_ready_def slip_state_def
      cdc_transport.defs)

section \<open>Properties\<close>

text \<open>C13. The byte-wise decoder refines the SLIP automaton: from any decoder state and for any input
  in chunks of any size, the packets handed to the queue are those the automaton completes, in
  order, its state afterwards is the automaton's, and no store leaves the frame buffer.\<close>

theorem slip_decoder_refines:
  assumes "ring_blind R" and "rx_ready s"
  shows "rx_ready (feed_bytes (cdc_platform d R) ep (as @ bs) s) \<and>
    slip_state (feed_bytes (cdc_platform d R) ep (as @ bs) s) = slip_run (as @ bs) (slip_state s) \<and>
    feed_bytes (cdc_platform d R) ep (as @ bs) s =
      feed_bytes (cdc_platform d R) ep bs (feed_bytes (cdc_platform d R) ep as s) \<and>
    undecoded (feed_bytes (cdc_platform d R) ep (as @ bs) s) =
      fold (\<lambda>p. deliver_packet (cdc_platform d R) p ep) (slip_frames (as @ bs) (slip_state s)) (undecoded s)"
  using feed_refines [OF assms] feed_append by blast

theorem slip_decoder_refines_witness:
  "slip_state (feed_bytes (cdc_platform loop_driver loop_rtos) 0 ([SLIP_END, 1] @ [SLIP_ESC]) loop_cdc) = Frame [1] True"
  using slip_decoder_refines
    [OF loop_blind loop_ready(1), of loop_driver 0 "[SLIP_END, 1]" "[SLIP_ESC]", THEN conjunct2, THEN conjunct1]
  by (simp add: loop_ready(3) push_def del: feed_bytes.simps)

text \<open>C34. On a fresh link the decoder equals the reference: what precedes the first END is noise, then
  each segment between ENDs is unescaped as a whole, and delivered when that succeeds with 1 to
  8192 bytes; a segment with a bad escape, an empty or an overlong one is dropped alone.\<close>

theorem slip_decoder_reference:
  assumes "ring_blind R" and "rx_ready s" and "\<not> receiving_frame s"
    and "SLIP_END \<notin> set noise" and "\<forall>g \<in> set gs. SLIP_END \<notin> set g"
  shows "undecoded (feed_bytes (cdc_platform d R) ep
      (noise @ SLIP_END # concat (map (\<lambda>g. g @ [SLIP_END]) gs)) s) =
    fold (\<lambda>p. deliver_packet (cdc_platform d R) p ep) (concat (map segment_frames gs)) (undecoded s)"
proof -
  have "slip_run noise Hunting = Hunting" using assms(4) by (induction noise) auto
  moreover have "slip_state s = Hunting" using assms(3) by (simp add: slip_state_def)
  ultimately show ?thesis
    using feed_refines [OF assms(1,2)] slip_frames_segments [OF assms(5)] slip_silent [OF assms(4)]
    by (simp add: slip_frames_append)
qed

theorem slip_decoder_reference_witness:
  "undecoded (feed_bytes (cdc_platform loop_driver loop_rtos) 0 [9, SLIP_END, 1, SLIP_ESC, 7, SLIP_END, 5, SLIP_END] loop_cdc) =
   deliver_packet (cdc_platform loop_driver loop_rtos) [5] 0 (undecoded loop_cdc)"
  using slip_decoder_reference [OF loop_blind loop_ready(1), of "[9]" "[[1, SLIP_ESC, 7], [5]]" loop_driver 0]
    loop_ready(3)
  by (simp add: segment_frames_def slip_state_def del: feed_bytes.simps split: if_splits)

text \<open>C25. Round trip: whatever state the peer's decoder is in, the bytes one transport stages for a
  message of 1 to 8192 bytes make the other deliver exactly that message, after at most the
  frame that was pending, and leave it ready for the next.\<close>

theorem slip_roundtrip:
  assumes "ring_blind R" and "rx_ready s" and "tx_ready t" and "m \<noteq> []" and "length m \<le> MAX_FRAME_SIZE"
  shows "let u = feed_bytes (cdc_platform d R) ep (unsent (encode_message m t)) s in
    undecoded u = fold (\<lambda>p. deliver_packet (cdc_platform d R) p ep)
      (slip_out SLIP_END (slip_state s) @ [m]) (undecoded s) \<and>
    slip_state u = Frame [] False \<and> rx_ready u"
  using encode_message_spec [OF assms(3,5)] feed_refines [OF assms(1,2), of d ep "slip_encode m"]
    slip_encode_decoded [OF assms(4,5), of "slip_state s"]
  by (simp add: Let_def)

theorem slip_roundtrip_witness:
  "undecoded (feed_bytes (cdc_platform loop_driver loop_rtos) 0
      (unsent (encode_message [SLIP_END, SLIP_ESC] loop_cdc)) loop_cdc) =
    deliver_packet (cdc_platform loop_driver loop_rtos) [SLIP_END, SLIP_ESC] 0 (undecoded loop_cdc)"
  using slip_roundtrip [OF loop_blind loop_ready(1,2), of "[SLIP_END, SLIP_ESC]" loop_driver 0]
  by (simp add: loop_ready(3) Let_def del: feed_bytes.simps)



end
