(* ===== verification/Transport_Cdc_Inv.thy ===== *)
theory Transport_Cdc_Inv
  imports Transport_Cdc_Slip
begin

text \<open>
  The CDC transport as a whole: its virtual methods keep the contract of the packet queues
  (interpretation \<open>cdc\<close>), every run of the object keeps its buffers (\<open>cdc_ok_run\<close>), and its send loops
  end by their deadline (\<open>push_returns\<close>, \<open>drain_tx_returns\<close>). The properties of the queues are stated
  here on the platform of this transport.
\<close>

section \<open>What sending leaves alone\<close>

definition rx_part where
  "rx_part s = (frame_buffer s, frame_size s, frame_discarded s, receiving_frame s, escape_pending s,
     initialized s, cdc_port s, decoder_epoch s, dtr s)"

definition tx_sound :: "'w cdc_transport \<Rightarrow> bool" where
  "tx_sound s \<longleftrightarrow> tx_ready s \<and> tx_size s \<le> MAX_ENCODED_FRAME_SIZE"

definition kept :: "'w cdc_transport \<Rightarrow> 'w cdc_transport \<Rightarrow> bool" where
  "kept s t \<longleftrightarrow> packet_queue.truncate t = packet_queue.truncate s \<and> rx_part t = rx_part s \<and>
     (tx_sound s \<longrightarrow> tx_sound t)"

lemma rx_kept_refl [simp]: "kept s s"
  by (simp add: kept_def)

lemma rx_kept_trans: "kept s t \<Longrightarrow> kept t u \<Longrightarrow> kept s u"
  by (simp add: kept_def)

lemmas kept_simps = kept_def rx_part_def tx_sound_def tx_ready_def truncate_eq_iff

lemma kept_usb: "kept s (s\<lparr>usb := w\<rparr>)"
  by (simp add: kept_simps)

lemma kept_offset: "kept s (s\<lparr>tx_offset := n\<rparr>)"
  by (simp add: kept_simps)

lemma kept_forget: "kept s (forget_frame s)"
  by (simp add: kept_simps forget_frame_def)

lemma kept_check: "kept s (check_unsent s)"
  by (auto simp: kept_simps check_unsent_def split: option.splits)

lemma kept_flush: "flush_cdc_once d R deadline s = (r, t) \<Longrightarrow> kept s t"
  by (auto simp: flush_cdc_once_def Let_def kept_usb split: if_splits prod.splits)

lemmas kept_send = rx_kept_trans [OF _ kept_usb] rx_kept_trans [OF _ kept_offset] rx_kept_trans [OF _ kept_check]
  rx_kept_trans [OF _ kept_forget]

lemma kept_round: "push_round d R dl s = (r, t) \<Longrightarrow> kept s t"
proof -
  have "kept s u" if "flush_cdc_once d R dl ((check_unsent s)\<lparr>usb := w\<rparr>) = (fr, u)" for w fr u
    by (rule rx_kept_trans [OF _ kept_flush [OF that]]) (intro kept_send rx_kept_refl)
  then show "push_round d R dl s = (r, t) \<Longrightarrow> kept s t"
    by (auto simp: push_round_def Let_def intro!: kept_send split: if_splits prod.splits)
qed

lemma kept_push:
  assumes "push_tx d R dl s = Some r"
  shows "kept s (snd r)"
proof (rule push_tx.raw_induct [where P = "\<lambda>d R dl s r. kept s (snd r)", OF _ assms])
  fix push and d :: "'a usb_driver" and R dl s r
  assume IH: "\<And>d R dl s r. push d R dl s = Some r \<Longrightarrow> kept s (snd r)"
    and body: "(case push_round d R dl s of (None, t) \<Rightarrow> push d R dl t | (Some b, t) \<Rightarrow> Some (b, t)) = Some r"
  obtain pushed t where p: "push_round d R dl s = (pushed, t)" by force
  show "kept s (snd r)"
    using body p kept_round [OF p] rx_kept_trans [OF kept_round [OF p] IH] by (cases pushed) auto
qed

lemma kept_drain:
  assumes "drain_tx d R dl s = Some r"
  shows "kept s (snd r)"
proof (rule drain_tx.raw_induct [where P = "\<lambda>d R dl s r. kept s (snd r)", OF _ assms])
  fix drain and d :: "'a usb_driver" and R dl s r
  assume IH: "\<And>d R dl s r. drain d R dl s = Some r \<Longrightarrow> kept s (snd r)"
    and body: "(case flush_cdc_once d R dl s of (fr, t) \<Rightarrow>
      if fr = ESP_ERR_NOT_FINISHED then drain d R dl t else Some (fr = ESP_OK, forget_frame t)) = Some r"
  obtain fr t where f: "flush_cdc_once d R dl s = (fr, t)" by force
  show "kept s (snd r)"
    using body f kept_send(4) [OF kept_flush [OF f]] rx_kept_trans [OF kept_flush [OF f] IH]
    by (auto split: if_splits)
qed

lemma encode_fields:
  "packet_queue.truncate (encode_message m s) = packet_queue.truncate s"
  "rx_part (encode_message m s) = rx_part s"
proof -
  have a: "packet_queue.truncate (append_tx_byte b s) = packet_queue.truncate s \<and>
      rx_part (append_tx_byte b s) = rx_part s" for b and s :: "'a cdc_transport"
    by (auto simp: append_tx_byte_def kept_simps split: option.splits)
  then have "packet_queue.truncate (append_escaped_tx_byte b s) = packet_queue.truncate s \<and>
      rx_part (append_escaped_tx_byte b s) = rx_part s" for b and s :: "'a cdc_transport"
    by (simp add: append_escaped_tx_byte_def)
  then have "packet_queue.truncate (fold append_escaped_tx_byte m s) = packet_queue.truncate s \<and>
      rx_part (fold append_escaped_tx_byte m s) = rx_part s" for s :: "'a cdc_transport"
    by (induction m arbitrary: s) simp_all
  with a show "packet_queue.truncate (encode_message m s) = packet_queue.truncate s"
    "rx_part (encode_message m s) = rx_part s"
    by (simp_all add: encode_message_def) (simp_all add: kept_simps)
qed

lemma deliver_kept:
  assumes "cdc_deliver_tx_frame d R f log s = Some (sent, t)"
  shows "packet_queue.truncate t = packet_queue.truncate s \<and> rx_part t = rx_part s \<and>
    (tx_ready s \<longrightarrow> length f \<le> MAX_FRAME_SIZE \<longrightarrow> tx_size s \<le> MAX_ENCODED_FRAME_SIZE \<longrightarrow> tx_sound t)"
proof (cases "is_open (cdc_link d R) s")
  case False
  with assms show ?thesis by (auto simp: cdc_deliver_tx_frame_def tx_sound_def)
next
  case True
  let ?e = "encode_message f s"
  have "kept ?e t"
    using assms True rx_kept_trans
    by (fastforce simp: cdc_deliver_tx_frame_def Let_def
        intro!: kept_send dest!: kept_push kept_drain split: option.splits bool.splits)
  moreover have "tx_sound ?e" if "tx_ready s" "length f \<le> MAX_FRAME_SIZE"
    using encode_message_spec [OF that] escape_length(2) [of f] that(2)
    by (simp add: tx_sound_def slip_encode_def)
  ultimately show ?thesis by (auto simp: kept_def encode_fields)
qed

interpretation cdc: wire "cdc_platform d R" for d R
proof
  show "packet_queue.truncate (reset_wire_buffers (cdc_platform d R) s) = packet_queue.truncate s" for s
    by (simp add: cdc_platform_def cdc_link_def cdc_reset_wire_buffers_def truncate_eq_iff)
  show "deliver_tx_frame (cdc_platform d R) f log s = Some (sent, t) \<Longrightarrow>
      packet_queue.truncate t = packet_queue.truncate s" for f log s sent t
    using deliver_kept [of d R f log s sent t] by (simp add: cdc_platform_def)
qed


section \<open>Runs of the whole object\<close>

inductive cdc_run :: "'w usb_driver \<Rightarrow> 'w cdc_transport platform \<Rightarrow> 'w cdc_transport \<Rightarrow> bool" for d R where
  run_new: "cdc_run d R (new_cdc w)"
| run_usb: "cdc_run d R s \<Longrightarrow> cdc_run d R (s\<lparr>usb := w\<rparr>)"
| run_init: "cdc_run d R s \<Longrightarrow> cdc_init d R port s = (r, t) \<Longrightarrow> cdc_run d R t"
| run_device: "cdc_run d R s \<Longrightarrow> cdc_run d R (device_event_callback device s)"
| run_port: "cdc_run d R s \<Longrightarrow> cdc_event_callback d R itf event s = Some t \<Longrightarrow> cdc_run d R t"
| run_begin: "cdc_run d R s \<Longrightarrow> begin_session (cdc_platform d R) s = (r, t) \<Longrightarrow> cdc_run d R t"
| run_close: "cdc_run d R s \<Longrightarrow> cdc_run d R (close_session s)"
| run_enqueue: "cdc_run d R s \<Longrightarrow> enqueue (cdc_platform d R) m log s = (e, t) \<Longrightarrow> cdc_run d R t"
| run_read: "cdc_run d R s \<Longrightarrow> read_poll (cdc_platform d R) s = (p, t) \<Longrightarrow> cdc_run d R t"
| run_end_read: "cdc_run d R s \<Longrightarrow> cdc_run d R (end_read null_buf s)"
| run_service: "cdc_run d R s \<Longrightarrow> service_tx (cdc_platform d R) s = Some (served, t) \<Longrightarrow> cdc_run d R t"

definition cdc_ok :: "'w cdc_transport \<Rightarrow> bool" where
  "cdc_ok s \<longleftrightarrow> \<not> overrun s \<and> frame_size s \<le> MAX_FRAME_SIZE \<and>
     (frame_discarded s \<longrightarrow> \<not> escape_pending s) \<and> tx_size s \<le> MAX_ENCODED_FRAME_SIZE \<and>
     (if initialized s
      then queues_ok s \<and> (\<exists>buf. frame_buffer s = Some buf \<and> length buf = MAX_FRAME_SIZE) \<and>
        (\<exists>buf. tx_buffer s = Some buf \<and> length buf = MAX_ENCODED_FRAME_SIZE)
      else dead s \<and> ring_buffer s = None \<and> tx_pending s = 0)"

lemma queues_derived [simp]:
  "queues_ok (s\<lparr>cdc_port := a\<rparr>) = queues_ok s" "queues_ok (s\<lparr>frame_buffer := b\<rparr>) = queues_ok s"
  "queues_ok (s\<lparr>tx_buffer := b\<rparr>) = queues_ok s" "queues_ok (s\<lparr>frame_size := n\<rparr>) = queues_ok s"
  "queues_ok (s\<lparr>frame_discarded := c\<rparr>) = queues_ok s" "queues_ok (s\<lparr>initialized := c\<rparr>) = queues_ok s"
  "queues_ok (s\<lparr>decoder_epoch := e\<rparr>) = queues_ok s" "queues_ok (s\<lparr>dtr := c\<rparr>) = queues_ok s"
  "queues_ok (s\<lparr>receiving_frame := c\<rparr>) = queues_ok s" "queues_ok (s\<lparr>escape_pending := c\<rparr>) = queues_ok s"
  "queues_ok (s\<lparr>usb := w\<rparr>) = queues_ok s" "queues_ok (s\<lparr>tx_task_handle := c\<rparr>) = queues_ok s"
  by (simp_all add: queues_ok_def)

lemma cdc_ok_live:
  "initialized s \<Longrightarrow> cdc_ok s \<longleftrightarrow> queues_ok s \<and> rx_ready s \<and> tx_sound s"
  by (auto simp: cdc_ok_def rx_ready_def tx_sound_def tx_ready_def)

lemma open_initialized: "is_open (cdc_platform d R) s \<Longrightarrow> initialized s"
  by (simp add: is_open_def link_is_connected_def cdc_platform_def cdc_link_def cdc_physical_link_open_def)

text \<open>The operations of the queues do not touch the derived object.\<close>

lemma more_fields:
  assumes "packet_queue.more t = packet_queue.more s"
  shows "frame_buffer t = frame_buffer s" "tx_buffer t = tx_buffer s" "frame_size t = frame_size s"
    "tx_size t = tx_size s" "frame_discarded t = frame_discarded s" "initialized t = initialized s"
    "escape_pending t = escape_pending s" "overrun t = overrun s" "cdc_port t = cdc_port s" "usb t = usb s"
  using assms by (cases s; cases t; simp)+

lemma cdc_ok_queue:
  assumes "cdc_ok s" and "packet_queue.more t = packet_queue.more s"
    and "if initialized s then queues_ok t else dead t \<and> ring_buffer t = None \<and> tx_pending t = 0"
  shows "cdc_ok t"
  using assms(1,3) more_fields [OF assms(2)] by (simp add: cdc_ok_def)

lemma cdc_ok_dead: "cdc_ok s \<Longrightarrow> \<not> initialized s \<Longrightarrow> dead s \<and> ring_buffer s = None \<and> tx_pending s = 0"
  by (simp add: cdc_ok_def)

lemma cdc_ok_close:
  assumes "cdc_ok s"
  shows "cdc_ok (close_locked s)"
proof (rule cdc_ok_queue [OF assms more_same(1)])
  show "if initialized s then queues_ok (close_locked s)
    else dead (close_locked s) \<and> ring_buffer (close_locked s) = None \<and> tx_pending (close_locked s) = 0"
  proof (cases "initialized s")
    case True
    then show ?thesis using assms queues_close [of s] by (simp add: cdc_ok_def)
  next
    case False
    then show ?thesis using assms by (simp add: cdc_ok_def close_locked_def)
  qed
qed

lemma cdc_ok_deliver:
  assumes "cdc_ok s"
  shows "cdc_ok (deliver_packet (cdc_platform d R) p ep s)"
proof (cases "initialized s")
  case True
  then show ?thesis
    using assms by (intro cdc_ok_queue [OF assms more_same(3)]) (simp add: cdc_ok_def queues_deliver)
next
  case False
  then have "deliver_packet (cdc_platform d R) p ep s = s"
    using open_initialized by (auto simp: deliver_packet_def)
  with assms show ?thesis by simp
qed

lemma cdc_ok_enqueue:
  assumes "cdc_ok s" and e: "enqueue (cdc_platform d R) m log s = (r, t)"
  shows "cdc_ok t"
proof (cases "initialized s")
  case True
  then show ?thesis
    using assms by (intro cdc_ok_queue [OF assms(1) more_same(6) [OF e]])
      (auto simp: cdc_ok_def dest: queues_enqueue)
next
  case False
  then have "\<not> is_open (cdc_platform d R) s" using open_initialized by blast
  then have "t = s" using e by (auto simp: enqueue_def split: if_splits)
  with assms show ?thesis by simp
qed

lemma cdc_ok_read:
  assumes "cdc_ok s" and e: "read_poll (cdc_platform d R) s = (r, t)"
  shows "cdc_ok t"
proof (cases "is_open (cdc_platform d R) s")
  case True
  then have "initialized s" by (rule open_initialized)
  moreover have "packet_queue.more t = packet_queue.more s"
    using more_polls(1) [of "cdc_platform d R" s] e by simp
  ultimately show ?thesis
    using assms queues_read [of s "cdc_platform d R" r t] cdc_ok_queue [of s t] by (simp add: cdc_ok_def)
next
  case False
  then have "t = s" using e by (simp add: read_poll_def)
  with assms show ?thesis by simp
qed

lemma cdc_ok_end_read: "cdc_ok s \<Longrightarrow> cdc_ok (end_read b s)"
  by (rule cdc_ok_queue) (auto simp: more_same cdc_ok_def queues_ok_def end_read_def)

lemma cdc_ok_begin:
  assumes "cdc_ok s" and b: "begin_session (cdc_platform d R) s = (r, t)"
  shows "cdc_ok t"
proof (cases "r = ESP_OK")
  case False
  then show ?thesis using cdc.begin_session_refused [OF b] assms by simp
next
  case True
  then have i: "initialized s"
    using assms by (auto simp: begin_session_def cdc_ok_def split: if_splits)
  then have "queues_ok t"
    using cdc.begin_session_ok [of d R s t] b True assms(1) by (simp add: cdc_ok_def)
  then show ?thesis
    using assms i True
    by (auto simp: begin_session_def cdc_ok_def cdc_platform_def cdc_link_def
        cdc_reset_wire_buffers_def close_locked_def Let_def split: if_splits)
qed

lemma cdc_ok_finish: "cdc_ok s \<Longrightarrow> initialized s \<Longrightarrow> cdc_ok (tx_finish sent s)"
  by (rule cdc_ok_queue, assumption, rule more_same) (simp add: cdc_ok_def queues_finish)

lemma cdc_ok_service:
  assumes "cdc_ok s" and v: "service_tx (cdc_platform d R) s = Some (served, t)"
  shows "cdc_ok t"
proof (cases "tx_take (cdc_platform d R) s")
  case (Pair flight u)
  show ?thesis
  proof (cases flight)
    case None
    then have "t = s"
      using Pair v by (auto simp: service_tx_def tx_take_def Let_def split: if_splits option.splits list.splits)
    with assms show ?thesis by simp
  next
    case (Some fl)
    then obtain f log sent w where fl: "fl = (f, log)"
      and d: "cdc_deliver_tx_frame d R f log u = Some (sent, w)" and t: "t = tx_finish sent w"
      using Pair v by (auto simp: service_tx_def cdc_platform_def split: prod.splits option.splits)
    have "is_open (cdc_platform d R) s"
      using Pair Some by (auto simp: tx_take_def split: if_splits)
    then have i: "initialized s" by (rule open_initialized)
    have q: "queues_ok s" using assms i by (simp add: cdc_ok_def)
    have u: "cdc_ok u"
      using cdc_ok_queue [OF assms(1) more_same(7) [OF Pair]] queues_take [OF q Pair] i by simp
    have iu: "initialized u" using more_same(7) [OF Pair] i by (cases s; cases u) simp
    have "length f \<le> MAX_FRAME_SIZE" using take_short [OF q] Pair Some fl by blast
    then have "tx_sound w" "packet_queue.truncate w = packet_queue.truncate u" "rx_part w = rx_part u"
      using deliver_kept [OF d] u iu by (auto simp: cdc_ok_live tx_sound_def)
    then have "cdc_ok w" "initialized w"
      using u iu queues_truncate [of w u]
      by (auto simp: cdc_ok_def rx_part_def tx_sound_def tx_ready_def)
    then show ?thesis using t cdc_ok_finish by simp
  qed
qed


lemma consume_fields:
  assumes "consume_input_byte b s = (c, t)"
  shows "packet_queue.truncate t = packet_queue.truncate s" "tx_buffer t = tx_buffer s"
    "tx_size t = tx_size s" "initialized t = initialized s"
  using assms
  by (auto simp: consume_input_byte_def reset_frame_state_def append_decoded_byte_def truncate_eq_iff
      Let_def split: if_splits option.splits)

lemma cdc_ok_reset: "cdc_ok (reset_frame_state s) = cdc_ok s" if "cdc_ok s"
  using that by (simp add: cdc_ok_def reset_frame_state_def)

lemma cdc_ok_consume:
  assumes "cdc_ok s" and "initialized s" and c: "consume_input_byte b s = (c, t)"
  shows "cdc_ok t \<and> initialized t"
proof -
  have "rx_ready s" "tx_sound s" "queues_ok s" using assms by (simp_all add: cdc_ok_live)
  moreover from this have "rx_ready t"
    using consume_refines [of s b] c by (simp add: refines_byte_def split: prod.splits)
  ultimately show ?thesis
    using consume_fields [OF c] assms(2) queues_truncate [of t s]
    by (auto simp: cdc_ok_live tx_sound_def tx_ready_def rx_ready_def)
qed

lemma cdc_ok_feed:
  "cdc_ok s \<Longrightarrow> initialized s \<Longrightarrow> cdc_ok (feed_bytes (cdc_platform d R) ep bs s) \<and>
    initialized (feed_bytes (cdc_platform d R) ep bs s)"
proof (induction bs arbitrary: s)
  case (Cons b bs)
  obtain c t where c: "consume_input_byte b s = (c, t)" by force
  note t = cdc_ok_consume [OF Cons.prems c]
  have "cdc_ok (reset_frame_state (deliver_packet (cdc_platform d R) p ep t))" for p
    using t cdc_ok_deliver cdc_ok_reset by blast
  moreover have "initialized (reset_frame_state (deliver_packet (cdc_platform d R) p ep t))" for p
    using t by (simp add: reset_frame_state_def)
  ultimately show ?case using Cons.IH t c by (cases c) (simp_all add: Let_def)
qed simp

lemma cdc_ok_usb [simp]: "cdc_ok (s\<lparr>usb := w\<rparr>) = cdc_ok s"
  by (simp add: cdc_ok_def queues_ok_def)

definition feeds_ok :: "'w cdc_transport platform \<Rightarrow> u32 \<Rightarrow> bool" where
  "feeds_ok R ep \<longleftrightarrow> (\<forall>bs s. cdc_ok s \<and> initialized s \<longrightarrow>
     cdc_ok (feed_bytes R ep bs s) \<and> initialized (feed_bytes R ep bs s))"

lemma cdc_ok_chunks:
  assumes "read_chunks d R ep s = Some t"
  shows "cdc_ok s \<longrightarrow> initialized s \<longrightarrow> feeds_ok R ep \<longrightarrow> cdc_ok t"
proof (rule read_chunks.raw_induct [where P = "\<lambda>d R ep s t. cdc_ok s \<longrightarrow> initialized s \<longrightarrow>
      feeds_ok R ep \<longrightarrow> cdc_ok t", OF _ assms])
  fix go and d :: "'a usb_driver" and R ep s t
  assume IH: "\<And>d R ep s t. go d R ep s = Some t \<Longrightarrow> cdc_ok s \<longrightarrow> initialized s \<longrightarrow> feeds_ok R ep \<longrightarrow> cdc_ok t"
    and body: "(case cdcacm_read d (cdc_port s) RX_READ_CHUNK_SIZE (usb s) of
        ((result, chunk), w) \<Rightarrow> let s = s\<lparr>usb := w\<rparr> in if result \<noteq> ESP_OK \<or> chunk = [] then Some s
             else go d R ep (feed_bytes R ep chunk s)) = Some t"
  obtain r chunk w where rd: "cdcacm_read d (cdc_port s) RX_READ_CHUNK_SIZE (usb s) = ((r, chunk), w)"
    by (metis surj_pair)
  show "cdc_ok s \<longrightarrow> initialized s \<longrightarrow> feeds_ok R ep \<longrightarrow> cdc_ok t"
  proof (intro impI)
    assume s: "cdc_ok s" "initialized s" and fd: "feeds_ok R ep"
    have "cdc_ok (s\<lparr>usb := w\<rparr>)" "initialized (s\<lparr>usb := w\<rparr>)" using s by simp_all
    moreover from this have "cdc_ok (feed_bytes R ep chunk (s\<lparr>usb := w\<rparr>))"
        "initialized (feed_bytes R ep chunk (s\<lparr>usb := w\<rparr>))"
      using fd unfolding feeds_ok_def by blast+
    ultimately show "cdc_ok t"
      using body rd IH [of d R ep "feed_bytes R ep chunk (s\<lparr>usb := w\<rparr>)" t] fd
      by (auto simp: Let_def split: if_splits)
  qed
qed

lemma feeds_ok_cdc: "feeds_ok (cdc_platform d R) ep"
  using cdc_ok_feed unfolding feeds_ok_def by blast

lemma cdc_ok_drain:
  assumes "cdc_ok s" and "drain_cdc_input d R s = Some t"
  shows "cdc_ok t"
proof -
  define u where "u = (if decoder_epoch s \<noteq> epoch s \<or> \<not> is_open (cdc_platform d R) s
    then (reset_frame_state s)\<lparr>receiving_frame := False, decoder_epoch := epoch s\<rparr> else s)"
  have u: "cdc_ok u" using assms(1) by (auto simp: u_def cdc_ok_def reset_frame_state_def)
  show ?thesis
  proof (cases "is_open (cdc_platform d R) u")
    case True
    then show ?thesis
      using assms(2) cdc_ok_chunks [THEN mp, THEN mp, THEN mp, OF _ u open_initialized [OF True] feeds_ok_cdc]
      unfolding drain_cdc_input_def Let_def u_def [symmetric] by simp
  next
    case False
    then show ?thesis
      using assms(2) u cdc_ok_usb unfolding drain_cdc_input_def Let_def u_def [symmetric] by auto
  qed
qed

lemma cdc_ok_link:
  assumes "cdc_ok s" and "initialized s"
  shows "cdc_ok ((reset_frame_state (link_changed up (s\<lparr>dtr := b\<rparr>)))\<lparr>receiving_frame := False\<rparr>)"
proof -
  have "cdc_ok (s\<lparr>dtr := b\<rparr>)" using assms by (simp add: cdc_ok_def queues_ok_def)
  then have "cdc_ok (link_changed up (s\<lparr>dtr := b\<rparr>))"
    using assms by (intro cdc_ok_queue [OF _ more_same(5)]) (simp_all add: cdc_ok_def queues_link)
  then show ?thesis by (simp add: cdc_ok_def reset_frame_state_def)
qed

lemma cdc_ok_teardown: "cdc_ok s \<Longrightarrow> dead s \<Longrightarrow> tx_pending s = 0 \<Longrightarrow> cdc_ok (cdc_teardown s)"
  by (simp add: cdc_ok_def cdc_teardown_def destroy_queues_def)

lemma cdc_ok_start:
  assumes "cdc_ok v" "dead v" "tx_pending v = 0" and "cdc_start d R v = (r, t)"
  shows "cdc_ok t"
proof -
  obtain ir w where i: "cdcacm_init d (cdc_port v) (usb v) = (ir, w)" by force
  obtain tr x where x: "spawn_tx_task R (v\<lparr>usb := w\<rparr>) = (tr, x)" by force
  have xo: "cdc_ok x" "dead x" "tx_pending x = 0"
    using x assms by (auto simp: spawn_tx_task_def cdc_ok_def split: if_splits)
  have "t = cdc_teardown (v\<lparr>usb := w\<rparr>) \<or> t = x \<or>
      t = cdc_teardown (x\<lparr>usb := unregister_callbacks d (cdc_port x) (usb x)\<rparr>)"
    using assms(4) i x by (auto simp: cdc_start_def Let_def split: if_splits)
  moreover have "cdc_ok (v\<lparr>usb := w\<rparr>)" using assms by simp
  moreover have "cdc_ok (x\<lparr>usb := unregister_callbacks d (cdc_port x) (usb x)\<rparr>)" using xo by simp
  ultimately show ?thesis using assms xo by (auto intro: cdc_ok_teardown)
qed

lemma cdc_ok_init:
  assumes "cdc_ok s" and "cdc_init d R port s = (r, t)"
  shows "cdc_ok t"
proof (cases "initialized s \<or> port < 0 \<or> port \<ge> port_count d \<or> \<not> heap_available d (usb s)")
  case True
  then show ?thesis using assms by (auto simp: cdc_init_def split: if_splits)
next
  case False
  obtain qr u where q: "create_queues R s = (qr, u)" by force
  have idle: "dead s" "tx_pending s = 0" "ring_buffer s = None"
    using cdc_ok_dead [OF assms(1)] False by auto
  note u = create_outcome [OF q idle] more_fields [OF create_outcome(1) [OF q idle]]
  show ?thesis
  proof (cases "qr = ESP_OK")
    case bad: False
    then have "t = u" using False assms(2) q by (simp add: cdc_init_def Let_def)
    moreover have "cdc_ok u" using cdc_ok_queue [OF assms(1) u(1)] u bad False by simp
    ultimately show ?thesis by simp
  next
    case ok: True
    let ?buffers = "map (heap_byte d (usb s)) [0..<MAX_FRAME_SIZE + MAX_ENCODED_FRAME_SIZE]"
    let ?v = "u\<lparr>cdc_port := port, frame_buffer := Some (take MAX_FRAME_SIZE ?buffers),
      tx_buffer := Some (drop MAX_FRAME_SIZE ?buffers), initialized := True\<rparr>"
    have "cdc_ok ?v" "dead ?v" "tx_pending ?v = 0"
      using u ok False assms(1) by (simp_all add: cdc_ok_def)
    moreover have "cdc_start d R ?v = (r, t)"
      using False assms(2) q ok by (simp add: cdc_init_def Let_def)
    ultimately show ?thesis by (rule cdc_ok_start)
  qed
qed

theorem cdc_ok_run: "cdc_run d R s \<Longrightarrow> cdc_ok s"
proof (induction rule: cdc_run.induct)
  case (run_new w)
  then show ?case by (simp add: cdc_ok_def new_cdc_def new_queue_def cdc_transport.defs)
next
  case (run_device s device)
  then show ?case using cdc_ok_link by (auto simp: device_event_callback_def split: option.splits)
next
  case (run_port s itf event t)
  then show ?case
    using cdc_ok_link cdc_ok_drain
    by (auto simp: cdc_event_callback_def split: option.splits if_splits port_event.splits)
qed (rule cdc_ok_usb [THEN iffD2] cdc_ok_init cdc_ok_begin cdc_ok_close [folded close_session_def]
    cdc_ok_enqueue cdc_ok_read cdc_ok_end_read cdc_ok_service; assumption)+


section \<open>Sending returns\<close>

text \<open>
  What the loops of \<open>deliver_tx_frame\<close> need of the clock: a flush takes at least a microsecond,
  time does not go back, and no call takes more than \<open>late\<close>.
\<close>

definition usb_timely :: "'w usb_driver \<Rightarrow> int \<Rightarrow> bool" where
  "usb_timely d late \<longleftrightarrow>
     (\<forall>p b w. timer_us d w \<le> timer_us d (snd (write_queue d p b w)) \<and>
        timer_us d (snd (write_queue d p b w)) \<le> timer_us d w + late) \<and>
     (\<forall>p n w. timer_us d w < timer_us d (snd (write_flush d p n w)) \<and>
        timer_us d (snd (write_flush d p n w)) \<le> timer_us d w + late)"

abbreviation time :: "'w usb_driver \<Rightarrow> 'w cdc_transport \<Rightarrow> int" where
  "time d s \<equiv> timer_us d (usb s)"

text \<open>The microsecond at which a deadline has passed, and one the millisecond counter can express.\<close>

definition expiry :: "int \<Rightarrow> u32 \<Rightarrow> int" where
  "expiry start timeout = (start div 1000 + uint timeout) * 1000"

definition expressible :: "int \<Rightarrow> int \<Rightarrow> deadline \<Rightarrow> bool" where
  "expressible late start dl \<longleftrightarrow> timeout_ms dl \<noteq> WAIT_FOREVER \<and>
     started_at dl = word_of_int (start div 1000) \<and>
     expiry start (timeout_ms dl) + 3 * late < start + 2 ^ 32 * 1000 - 1000"

lemma remaining_zero_iff:
  assumes "expressible late start dl" and "start \<le> time d s"
    and "time d s \<le> expiry start (timeout_ms dl) + 3 * late"
  shows "remaining_timeout d dl s = 0 \<longleftrightarrow> expiry start (timeout_ms dl) \<le> time d s"
proof -
  let ?e = "time d s div 1000 - start div 1000"
  have e: "0 \<le> ?e" "?e < 2 ^ 32" using assms by (auto simp: expressible_def)
  have "now_ms d s - started_at dl = word_of_int ?e"
    using assms(1) by (simp add: expressible_def now_ms_def)
  then have "uint (now_ms d s - started_at dl) = ?e"
    using e by (simp only: uint_word_of_int) simp
  moreover have "remaining_timeout d dl s = 0 \<longleftrightarrow> timeout_ms dl \<le> now_ms d s - started_at dl"
    using assms(1) by (auto simp: expressible_def remaining_timeout_def Let_def not_less)
  ultimately have "remaining_timeout d dl s = 0 \<longleftrightarrow> uint (timeout_ms dl) \<le> ?e"
    by (simp add: word_le_def)
  also have "\<dots> \<longleftrightarrow> expiry start (timeout_ms dl) \<le> time d s"
  proof -
    have "a \<le> t div 1000 - b \<longleftrightarrow> (b + a) * 1000 \<le> t" for a b t :: int
      using div_mult_mod_eq [of t 1000] pos_mod_bound [of 1000 t] pos_mod_sign [of 1000 t] by auto
    then show ?thesis by (simp only: expiry_def)
  qed
  finally show ?thesis .
qed

lemma timely_late: "usb_timely d late \<Longrightarrow> 0 < late"
proof -
  assume "usb_timely d late"
  then have "timer_us d w < timer_us d (snd (write_flush d 0 0 w)) \<and>
      timer_us d (snd (write_flush d 0 0 w)) \<le> timer_us d w + late" for w
    unfolding usb_timely_def by blast
  from this [of undefined] show ?thesis by linarith
qed

lemma timely_write:
  assumes "usb_timely d late" and "write_queue d p b w = (n, w')"
  shows "timer_us d w \<le> timer_us d w'" "timer_us d w' \<le> timer_us d w + late"
proof -
  have "timer_us d w \<le> timer_us d (snd (write_queue d p b w)) \<and>
      timer_us d (snd (write_queue d p b w)) \<le> timer_us d w + late"
    using assms(1) unfolding usb_timely_def by blast
  with assms(2) show "timer_us d w \<le> timer_us d w'" "timer_us d w' \<le> timer_us d w + late" by simp_all
qed

lemma flush_time:
  assumes "usb_timely d late" and "flush_cdc_once d R dl s = (r, t)"
  shows "tx_size t = tx_size s" "tx_offset t = tx_offset s" "time d s \<le> time d t"
    "time d t \<le> time d s + late" "r = ESP_OK \<or> r = ESP_ERR_NOT_FINISHED \<Longrightarrow> time d s < time d t"
    "r = ESP_ERR_NOT_FINISHED \<Longrightarrow> timeout_ms dl \<noteq> WAIT_FOREVER \<Longrightarrow> remaining_timeout d dl t \<noteq> 0"
proof -
  have "timer_us d w < timer_us d (snd (write_flush d p n w))"
    "timer_us d (snd (write_flush d p n w)) \<le> timer_us d w + late" for p n w
    using assms(1) by (simp_all add: usb_timely_def)
  then have f: "timer_us d w < timer_us d w'" "timer_us d w' \<le> timer_us d w + late"
    if "write_flush d p n w = (x, w')" for p n w x w'
    using that by (metis snd_conv)+
  show "tx_size t = tx_size s" "tx_offset t = tx_offset s" "time d s \<le> time d t"
    "time d t \<le> time d s + late" "r = ESP_OK \<or> r = ESP_ERR_NOT_FINISHED \<Longrightarrow> time d s < time d t"
    "r = ESP_ERR_NOT_FINISHED \<Longrightarrow> timeout_ms dl \<noteq> WAIT_FOREVER \<Longrightarrow> remaining_timeout d dl t \<noteq> 0"
    using assms(2) f timely_late [OF assms(1)]
    by (auto simp: flush_cdc_once_def map_esp_error_def Let_def less_imp_le split: if_splits prod.splits)
qed


lemma round_time:
  assumes timely: "usb_timely d late" and dl: "expressible late start dl"
    and s: "start \<le> time d s" "time d s \<le> expiry start (timeout_ms dl) + 2 * late"
    and r: "push_round d R dl s = (pushed, t)"
  shows "start \<le> time d t" "time d t \<le> expiry start (timeout_ms dl) + 2 * late"
    and "pushed = None \<Longrightarrow> nat (expiry start (timeout_ms dl) - time d t) + (tx_size t - tx_offset t) <
      nat (expiry start (timeout_ms dl) - time d s) + (tx_size s - tx_offset s)"
proof -
  let ?x = "expiry start (timeout_ms dl)"
  have late: "0 < late" by (rule timely_late [OF timely])
  have chk: "time d (check_unsent s) = time d s" "tx_size (check_unsent s) = tx_size s"
    "tx_offset (check_unsent s) = tx_offset s"
    by (auto simp: check_unsent_def split: option.splits)
  have "start \<le> time d t \<and> time d t \<le> ?x + 2 * late \<and>
    (pushed = None \<longrightarrow> nat (?x - time d t) + (tx_size t - tx_offset t) < nat (?x - time d s) + (tx_size s - tx_offset s))"
  proof (cases "tx_offset s < tx_size s \<and> is_open (cdc_link d R) s \<and> remaining_timeout d dl s \<noteq> 0")
    case False
    then show ?thesis using r s by (auto simp: push_round_def forget_frame_def split: if_splits)
  next
    case True
    have before: "time d s < ?x"
      using remaining_zero_iff [OF dl s(1)] True s(2) late by simp
    obtain n w where q: "write_queue d (cdc_port (check_unsent s)) (unsent (check_unsent s)) (usb (check_unsent s)) = (n, w)"
      by force
    have w: "time d s \<le> timer_us d w" "timer_us d w \<le> time d s + late"
      using timely_write [OF timely q] chk(1) by simp_all
    show ?thesis
    proof (cases "n = 0")
      case False
      then show ?thesis using r True q w before s late chk by (auto simp: push_round_def Let_def)
    next
      case zero: True
      obtain fr u where f: "flush_cdc_once d R dl ((check_unsent s)\<lparr>usb := w\<rparr>) = (fr, u)" by force
      note u = flush_time [OF timely f]
      show ?thesis
        using r True q zero f u w before s chk
        by (auto simp: push_round_def Let_def forget_frame_def split: if_splits)
    qed
  qed
  then show "start \<le> time d t" "time d t \<le> ?x + 2 * late"
    "pushed = None \<Longrightarrow> nat (?x - time d t) + (tx_size t - tx_offset t) < nat (?x - time d s) + (tx_size s - tx_offset s)"
    by simp_all
qed


lemma push_returns:
  assumes timely: "usb_timely d late" and dl: "expressible late start dl"
    and "start \<le> time d s" "time d s \<le> expiry start (timeout_ms dl) + 2 * late"
  shows "\<exists>b t. push_tx d R dl s = Some (b, t) \<and> start \<le> time d t \<and>
    time d t \<le> expiry start (timeout_ms dl) + 2 * late"
  using assms(3,4)
proof (induction "nat (expiry start (timeout_ms dl) - time d s) + (tx_size s - tx_offset s)"
    arbitrary: s rule: less_induct)
  case less
  obtain pushed t where p: "push_round d R dl s = (pushed, t)" by force
  note step = round_time [OF timely dl less.prems p]
  show ?case
  proof (cases pushed)
    case None
    then have "\<exists>b u. push_tx d R dl t = Some (b, u) \<and> start \<le> time d u \<and>
        time d u \<le> expiry start (timeout_ms dl) + 2 * late"
      using less.hyps step by blast
    with None p show ?thesis by (subst push_tx.simps) simp
  next
    case (Some b)
    then show ?thesis using p step by (subst push_tx.simps) simp
  qed
qed

lemma drain_tx_returns:
  assumes timely: "usb_timely d late" and dl: "expressible late start dl"
    and "start \<le> time d s" "time d s \<le> expiry start (timeout_ms dl) + 2 * late"
  shows "\<exists>b t. drain_tx d R dl s = Some (b, t)"
  using assms(3,4)
proof (induction "nat (expiry start (timeout_ms dl) - time d s)" arbitrary: s rule: less_induct)
  case less
  obtain r t where f: "flush_cdc_once d R dl s = (r, t)" by force
  note step = flush_time [OF timely f]
  show ?case
  proof (cases "r = ESP_ERR_NOT_FINISHED")
    case True
    have "remaining_timeout d dl t \<noteq> 0" using step(6) True dl by (simp add: expressible_def)
    then have "time d t < expiry start (timeout_ms dl)"
      using remaining_zero_iff [OF dl, of d t] step(3,4) less.prems by linarith
    moreover have "time d s < time d t" using step(5) True by simp
    ultimately have "\<exists>b u. drain_tx d R dl t = Some (b, u)"
      using less.hyps [of t] less.prems timely_late [OF timely] by simp
    with True f show ?thesis by (subst drain_tx.simps) simp
  next
    case False
    then show ?thesis using f by (subst drain_tx.simps) simp
  qed
qed

lemma deliver_returns:
  assumes timely: "usb_timely d late" and late: "late \<le> 60000000"
  shows "cdc_deliver_tx_frame d R f log s \<noteq> None"
proof (cases "is_open (cdc_link d R) s")
  case False
  then show ?thesis by (simp add: cdc_deliver_tx_frame_def)
next
  case True
  let ?e = "encode_message f s" and ?ms = "if log then 20 else TX_SEND_TIMEOUT_MS"
  let ?dl = "\<lparr>started_at = now_ms d ?e, timeout_ms = ?ms\<rparr>"
  have "time d ?e div 1000 * 1000 \<le> time d ?e"
    using div_mult_mod_eq [of "time d ?e" 1000] pos_mod_sign [of 1000 "time d ?e"] by linarith
  then have dl: "expressible late (time d ?e) ?dl"
    using late by (auto simp: expressible_def expiry_def now_ms_def)
  have "time d ?e < expiry (time d ?e) (timeout_ms ?dl)"
    using div_mult_mod_eq [of "time d ?e" 1000] pos_mod_bound [of 1000 "time d ?e"] by (auto simp: expiry_def)
  then have "time d ?e \<le> expiry (time d ?e) (timeout_ms ?dl) + 2 * late"
    using timely_late [OF timely] by linarith
  then obtain b t where p: "push_tx d R ?dl ?e = Some (b, t)" "time d ?e \<le> time d t"
      "time d t \<le> expiry (time d ?e) (timeout_ms ?dl) + 2 * late"
    using push_returns [OF timely dl] by blast
  then obtain c u where "drain_tx d R ?dl t = Some (c, u)"
    using drain_tx_returns [OF timely dl] by blast
  with p(1) True show ?thesis by (cases b) (simp_all add: cdc_deliver_tx_frame_def Let_def)
qed

section \<open>Properties\<close>

text \<open>C12. Whatever sequence of initialisations, USB events, received bytes, writes, reads and sends a
  CDC transport goes through, over any driver and RTOS, no store has left the 8192-byte frame
  buffer or the encoded-frame buffer, and an initialised transport has both buffers and queues.\<close>

theorem cdc_memory_safe:
  assumes "cdc_run d R s"
  shows "\<not> overrun s \<and> frame_size s \<le> MAX_FRAME_SIZE \<and> tx_size s \<le> MAX_ENCODED_FRAME_SIZE \<and>
    (initialized s \<longrightarrow> frame_buffer s \<noteq> None \<and> tx_buffer s \<noteq> None \<and> ring_buffer s \<noteq> None \<and>
      tx_ring s \<noteq> None \<and> log_ring s \<noteq> None) \<and>
    (\<not> initialized s \<longrightarrow> dead s)"
  using cdc_ok_run [OF assms] by (auto simp: cdc_ok_def queues_ok_def)

theorem cdc_memory_safe_witness:
  "\<not> overrun (device_event_callback (Some TINYUSB_EVENT_DETACHED) (snd (cdc_init loop_driver loop_rtos 0 (new_cdc ([], [], 0)))))"
proof -
  have "cdc_run loop_driver loop_rtos (snd (cdc_init loop_driver loop_rtos 0 (new_cdc ([], [], 0))))"
    by (rule run_init [OF run_new]) (rule surjective_pairing)
  then show ?thesis using cdc_memory_safe [OF run_device] by blast
qed

text \<open>C23. The TX task always gets back to waiting: with a clock that ticks during a flush and no USB
  call longer than a minute, every send ends by its deadline, so \<open>service_tx\<close> runs out of frames;
  then nothing is in flight, and if the connection is still open both queues are empty.\<close>

theorem cdc_tx_drains:
  assumes "usb_timely d late" and "late \<le> 60000000" and "cdc_run d R s" and "initialized s" and "\<not> tx_busy s"
  shows "\<exists>t. tx_drain (cdc_platform d R) s = Some t \<and> \<not> tx_busy t \<and>
    (is_open (cdc_platform d R) t \<longrightarrow> tx_ring t = Some [] \<and> log_ring t = Some [] \<and> tx_pending t = 0)"
proof -
  have "queues_ok s" using cdc_ok_run [OF assms(3)] assms(4) by (simp add: cdc_ok_live)
  then obtain t where "tx_drain (cdc_platform d R) s = Some t" "queues_ok t" "\<not> tx_busy t"
      "is_open (cdc_platform d R) t \<longrightarrow> tx_ring t = Some [] \<and> log_ring t = Some []"
    using cdc.drain_returns [of s d R] assms(5) deliver_returns [OF assms(1,2)]
    by (auto simp: cdc_platform_def)
  then show ?thesis by (auto simp: queues_ok_def)
qed

lemma loop_timely: "usb_timely loop_driver 1"
  by (simp add: usb_timely_def loop_driver_def split: prod.splits)

theorem cdc_tx_drains_witness:
  "\<exists>t. tx_drain (cdc_platform loop_driver loop_rtos) (snd (cdc_init loop_driver loop_rtos 0 (new_cdc ([], [], 0)))) = Some t \<and> \<not> tx_busy t"
proof -
  let ?s = "snd (cdc_init loop_driver loop_rtos 0 (new_cdc ([], [], 0)))"
  have "cdc_run loop_driver loop_rtos ?s"
    by (rule run_init [OF run_new]) (rule surjective_pairing)
  moreover have "initialized ?s" "\<not> tx_busy ?s"
    by (simp_all add: cdc_init_def cdc_start_def create_queues_def spawn_tx_task_def new_cdc_def
        new_queue_def loop_driver_def loop_rtos_def cdc_transport.defs Let_def)
  ultimately show ?thesis using cdc_tx_drains [OF loop_timely] by fastforce
qed


text \<open>C20. The queues in every interleaving of the tasks: only packets of protocol version 1 with a
  verifying CRC reach the reader, only log frames of bounded size the log queue, the pending
  count is exact, \<open>tx_busy\<close> means a frame is in flight, a closed session holds no frame, and an
  open one belongs to the current physical link.\<close>

theorem queue_state_invariant:
  assumes "reached (cdc_platform d R) c"
  shows "\<exists>rx tx lg. ring_buffer (obj c) = Some rx \<and> tx_ring (obj c) = Some tx \<and> log_ring (obj c) = Some lg \<and>
    (\<forall>p \<in> set rx \<union> set (borrowed c). is_valid_message_size (length p) \<and> verify_message_crc p \<and>
       p ! 0 = PROTOCOL_VERSION) \<and>
    (\<forall>f \<in> set lg. length f \<le> MAX_LOG_FRAME_SIZE \<and> hdr_kind (dec_msg_header f) = KIND_LOG_STREAM) \<and>
    tx_pending (obj c) = of_nat (length tx + length lg) \<and>
    tx_busy (obj c) = (in_flight c \<noteq> None) \<and> rx_borrowed (obj c) = of_nat (length (borrowed c)) \<and>
    (dead (obj c) \<longrightarrow> rx = [] \<and> tx = [] \<and> lg = []) \<and>
    (\<not> dead (obj c) \<longrightarrow> connected (obj c) \<and> accepted_link_serial (obj c) = link_serial (obj c))"
proof -
  have "activity_ok c" by (rule cdc.activity_reached [OF assms])
  then show ?thesis
    unfolding activity_ok_def queues_ok_def list_all_iff rx_ok_def log_ok_def by auto
qed

text \<open>C14. Control frames are sent exactly once and in order: those on the wire are a prefix of those
  written to the session, while it is open the rest are the one in flight and the queue, and when
  \<open>flush_write\<close> reports success every frame written is on the wire.\<close>

theorem control_frames_in_order:
  assumes "reached (cdc_platform d R) c"
  shows "prefix (wired c) (written c) \<and>
    (\<not> dead (obj c) \<longrightarrow> written c = wired c @ control (in_flight c) @ the (tx_ring (obj c))) \<and>
    (rings_bounded R \<and> flush_poll (cdc_platform d R) (obj c) = (Some ESP_OK, s) \<longrightarrow> wired c = written c)"
proof -
  have "rings_bounded (cdc_platform d R) = rings_bounded R"
    by (simp add: rings_bounded_def cdc_platform_def cdc_link_def)
  then show ?thesis
    using cdc.control_in_order [OF assms] cdc.activity_reached [OF assms] by (auto simp: activity_ok_def)
qed

text \<open>C24. A session begins with a clean slate: nothing in flight or borrowed from the one before, all
  queues empty, a new reception epoch, and a physical link not used by a session before; once it
  is closed, no session begins again on that link.\<close>

theorem session_starts_fresh:
  assumes "reached (cdc_platform d R) c" and "begin_session (cdc_platform d R) (obj c) = (ESP_OK, s)"
    and "length (borrowed c) < 2 ^ 32"
  shows "in_flight c = None \<and> borrowed c = [] \<and>
    ring_buffer s = Some [] \<and> tx_ring s = Some [] \<and> log_ring s = Some [] \<and>
    epoch s = epoch (obj c) + 1 \<and> link_serial (obj c) \<noteq> accepted_link_serial (obj c) \<and>
    fst (begin_session (cdc_platform d R) (close_session s)) = ESP_ERR_INVALID_STATE"
  using cdc.begin_session_fresh [OF assms] by blast

section \<open>A session of the loopback port\<close>

text \<open>The object with its queues, then with the link up, then with the session accepted.\<close>

definition loop_object :: "loop_state cdc_transport" where
  "loop_object = snd (create_queues (cdc_platform loop_driver loop_rtos)
     (new_queue (cdc_transport.fields 0 None None 0 0 0 False True 0 False False False ([], [], 0) False)))"

definition loop_idle :: "loop_state cdc_transport activity" where
  "loop_idle = \<lparr>obj = loop_object, in_flight = None, borrowed = [], written = [], wired = [], closings = 0\<rparr>"

definition loop_linked :: "loop_state cdc_transport activity" where
  "loop_linked = moved (link_changed True (obj loop_idle)) loop_idle"

definition loop_open :: "loop_state cdc_transport activity" where
  "loop_open = (moved (snd (begin_session (cdc_platform loop_driver loop_rtos) (obj loop_linked))) loop_linked)
     \<lparr>written := [], wired := []\<rparr>"

lemmas loop_defs = loop_open_def loop_linked_def loop_idle_def loop_object_def new_queue_def
  cdc_transport.defs cdc_platform_def cdc_link_def loop_rtos_def loop_driver_def

lemma loop_begins:
  "begin_session (cdc_platform loop_driver loop_rtos) (obj loop_linked) = (ESP_OK, obj loop_open)"
  by (simp add: loop_defs create_queues_def begin_session_def link_changed_def close_locked_def
      link_is_connected_def cdc_physical_link_open_def cdc_reset_wire_buffers_def Let_def)

lemma loop_reached:
  "reached (cdc_platform loop_driver loop_rtos) loop_linked" "reached (cdc_platform loop_driver loop_rtos) loop_open"
proof -
  have "reached (cdc_platform loop_driver loop_rtos) loop_idle"
    unfolding loop_idle_def
    by (rule reached_init) (simp add: loop_defs create_queues_def Let_def)
  then show l: "reached (cdc_platform loop_driver loop_rtos) loop_linked"
    unfolding loop_linked_def by (rule reached_link)
  show "reached (cdc_platform loop_driver loop_rtos) loop_open"
    unfolding loop_open_def
    by (rule reached_begin [OF l]) (simp only: loop_begins snd_conv)
qed

theorem queue_state_invariant_witness: "tx_busy (obj loop_open) = (in_flight loop_open \<noteq> None)"
  using queue_state_invariant [OF loop_reached(2)] by (elim exE conjE)

theorem control_frames_in_order_witness: "wired loop_open = written loop_open"
proof -
  have "rings_bounded loop_rtos" by (auto simp: rings_bounded_def loop_rtos_def)
  moreover have "flush_poll (cdc_platform loop_driver loop_rtos) (obj loop_open) = (Some ESP_OK, obj loop_open)"
    by (simp add: loop_defs create_queues_def begin_session_def link_changed_def close_locked_def
        link_is_connected_def cdc_physical_link_open_def cdc_reset_wire_buffers_def flush_poll_def
        is_open_def Let_def)
  ultimately show ?thesis using control_frames_in_order [OF loop_reached(2)] by blast
qed

theorem session_starts_fresh_witness: "epoch (obj loop_open) = epoch (obj loop_linked) + 1"
proof -
  have "length (borrowed loop_linked) < 2 ^ 32" by (simp add: loop_linked_def loop_idle_def)
  then show ?thesis using session_starts_fresh [OF loop_reached(1) loop_begins] by blast
qed

end
