(* ===== verification/Session_Link.thy ===== *)
theory Session_Link
  imports Mock_Session Transport_Cdc_Inv
begin

text \<open>
  The session over a CDC link: what \<open>sidp_session\<close> hands to its sink, the encoder of one
  \<open>cdc_slip_transport\<close> and the decoder and receive queue of another.
\<close>

definition frames_sent :: "'w session \<Rightarrow> bytes list" where
  "frames_sent s = concat (map (\<lambda>a. case a of Tx f _ \<Rightarrow> [f] | _ \<Rightarrow> []) (trace s))"

definition wire_bytes :: "'v cdc_transport \<Rightarrow> bytes list \<Rightarrow> bytes" where
  "wire_bytes t fs = concat (map (\<lambda>f. unsent (encode_message f t)) fs)"

text \<open>The receive queue of a transport has room for each frame after those before it.\<close>

definition received :: "bytes list \<Rightarrow> 'v cdc_transport \<Rightarrow> 'v cdc_transport" where
  "received fs p = p\<lparr>ring_buffer := map_option (\<lambda>items. items @ fs) (ring_buffer p)\<rparr>"

definition has_room :: "'v cdc_transport platform \<Rightarrow> bytes list \<Rightarrow> 'v cdc_transport \<Rightarrow> bool" where
  "has_room R fs p \<longleftrightarrow> (\<forall>gs f hs. fs = gs @ f # hs \<longrightarrow> ring_accepts R RX_RING f (received gs p))"

lemma frames_sent_ok: "wf e s \<Longrightarrow> f \<in> set (frames_sent s) \<Longrightarrow> frame_ok f"
  by (auto simp: frames_sent_def wf_def list_all_iff split: act.splits)

lemma received_append: "received gs (received fs p) = received (fs @ gs) p"
  by (simp add: received_def option.map_comp comp_def)

lemma undecoded_received: "undecoded (received fs p) = received fs (undecoded p)"
  by (simp add: undecoded_def received_def)

lemma received_nil [simp]: "received [] p = p"
  by (simp add: received_def option.map_ident)

lemma deliver_received:
  assumes "is_open P p" "frame_ok f" "ring_accepts P RX_RING f p" and ep: "ep = epoch p"
  shows "deliver_packet P f ep p = received [f] p"
proof -
  have n: "12 \<le> length f" using assms(2) by (simp add: frame_ok_def is_valid_message_size_def)
  have "f ! 0 = PROTOCOL_VERSION"
    using assms(2) n by (cases f) (simp_all add: frame_ok_def dec_msg_header_def slice_def)
  then show ?thesis
    using assms by (simp add: deliver_packet_def frame_ok_def received_def ring_push_def)
qed

lemma is_open_received: "is_open (cdc_platform d R) (received fs p) = is_open (cdc_platform d R) p"
  by (simp add: is_open_def link_is_connected_def received_def cdc_platform_def cdc_link_def cdc_physical_link_open_def)

lemma deliver_all:
  assumes "is_open (cdc_platform d R) p" "\<forall>f \<in> set fs. frame_ok f" "has_room R fs p" "ep = epoch p"
  shows "fold (\<lambda>f. deliver_packet (cdc_platform d R) f ep) fs p = received fs p"
  using assms
proof (induction fs arbitrary: p)
  case (Cons f fs)
  have "ring_accepts R RX_RING f p" using Cons.prems(3) by (fastforce simp: has_room_def)
  then have "deliver_packet (cdc_platform d R) f ep p = received [f] p"
    using Cons.prems by (intro deliver_received) (simp_all add: cdc_platform_def cdc_link_def)
  moreover have "has_room R fs (received [f] p)"
    unfolding has_room_def received_append
  proof (intro allI impI)
    fix gs g hs assume "fs = gs @ g # hs"
    then have "f # fs = ([f] @ gs) @ g # hs" by simp
    then show "ring_accepts R RX_RING g (received ([f] @ gs) p)" using Cons.prems(3) unfolding has_room_def by blast
  qed
  moreover have "is_open (cdc_platform d R) (received [f] p)" "ep = epoch (received [f] p)"
    using Cons.prems by (simp add: is_open_received, simp add: received_def)
  ultimately show ?case using Cons.IH [of "received [f] p"] Cons.prems(2) by (simp add: received_append)
qed simp

lemma encoded_frames:
  assumes "\<forall>f \<in> set fs. f \<noteq> [] \<and> length f \<le> MAX_FRAME_SIZE" "slip_out SLIP_END st = []"
  shows "slip_frames (concat (map slip_encode fs)) st = fs"
  using assms
proof (induction fs arbitrary: st)
  case (Cons f fs)
  then show ?case using slip_encode_decoded [of f st] by (simp add: slip_frames_append)
qed simp

text \<open>C11. Session and transports together: the frames a session has handed to its sink, encoded one after
  the other by one CDC transport and fed as bytes to the decoder of a peer that is open, between
  two frames and has room, arrive in the peer's receive queue complete, unchanged and in order, and
  nothing else of the peer changes.\<close>

theorem session_frames_cross_link:
  assumes "reachable e s" and "tx_ready t" and "ring_blind R" and "rx_ready p"
    and "slip_out SLIP_END (slip_state p) = []" and "is_open (cdc_platform d R) p" and "has_room R (frames_sent s) p"
  shows "undecoded (feed_bytes (cdc_platform d R) (epoch p) (wire_bytes t (frames_sent s)) p) =
    received (frames_sent s) (undecoded p)"
proof -
  have ok: "\<forall>f \<in> set (frames_sent s). frame_ok f" using frames_sent_ok [OF wf_reachable [OF assms(1)]] by blast
  then have size: "\<forall>f \<in> set (frames_sent s). f \<noteq> [] \<and> length f \<le> MAX_FRAME_SIZE"
    by (auto simp: frame_ok_def is_valid_message_size_def)
  then have wire: "wire_bytes t (frames_sent s) = concat (map slip_encode (frames_sent s))"
    using encode_message_spec [OF assms(2)] by (auto simp: wire_bytes_def intro!: arg_cong [where f = concat])
  have room: "has_room R (frames_sent s) (undecoded p)"
    using assms(3,7) unfolding has_room_def ring_blind_def undecoded_received [symmetric] by blast
  have "is_open (cdc_platform d R) (undecoded p)" "epoch p = epoch (undecoded p)"
    using assms(6) by (simp_all add: is_open_def link_is_connected_def undecoded_def cdc_platform_def cdc_link_def
      cdc_physical_link_open_def)
  then show ?thesis
    using feed_refines [OF assms(3,4), of d "epoch p" "wire_bytes t (frames_sent s)"]
      deliver_all [OF _ ok room] encoded_frames [OF size assms(5)] wire by simp
qed


lemma loop_room: "ring_buffer p = Some [] \<Longrightarrow> length f \<le> 8192 \<Longrightarrow> has_room loop_rtos [f] p"
  by (auto simp: has_room_def received_def loop_rtos_def Cons_eq_append_conv)

lemma refused_halt_frames:
  "\<exists>f. frames_sent (exec_st (handle_request mock_env (request OP_HALT [])) fresh) = [f] \<and> length f \<le> 8192"
proof -
  have "request_verdict fresh OP_HALT [] = Some STATUS_ERROR"
    by (simp add: request_verdict_def gate_column_def)
  then obtain f ok where "trace (exec_st (handle_request mock_env (request OP_HALT [])) fresh) = trace fresh @ [Tx f ok]"
    "frame_ok f"
    using request_refused [OF wf_reachable [OF reachable_fresh], of "request OP_HALT []" STATUS_ERROR]
    by (auto simp: accepted_request refused_def)
  moreover have "frames_sent fresh = []"
    by (simp add: frames_sent_def fresh_def exec_st_def init_def calloc_def mock_env_def new_session_def storage_ready_def)
  ultimately show ?thesis by (auto simp: frames_sent_def frame_ok_def is_valid_message_size_def)
qed

definition peer_cdc :: "loop_state cdc_transport" where
  "peer_cdc = loop_cdc\<lparr>dead := False, connected := True, ring_buffer := Some []\<rparr>"

lemma peer_open: "rx_ready peer_cdc" "slip_state peer_cdc = Hunting" "is_open (cdc_platform loop_driver loop_rtos) peer_cdc"
  by (simp_all add: peer_cdc_def loop_cdc_def new_cdc_def new_queue_def cdc_transport.defs loop_driver_def
      rx_ready_def slip_state_def is_open_def link_is_connected_def cdc_platform_def cdc_link_def
      cdc_physical_link_open_def)

theorem session_frames_cross_link_witness:
  "\<exists>f. undecoded (feed_bytes (cdc_platform loop_driver loop_rtos) (epoch peer_cdc)
      (wire_bytes loop_cdc (frames_sent (exec_st (handle_request mock_env (request OP_HALT [])) fresh))) peer_cdc) =
    received [f] (undecoded peer_cdc)"
proof -
  obtain f where f: "frames_sent (exec_st (handle_request mock_env (request OP_HALT [])) fresh) = [f]" "length f \<le> 8192"
    using refused_halt_frames by blast
  then have "has_room loop_rtos (frames_sent (exec_st (handle_request mock_env (request OP_HALT [])) fresh)) peer_cdc"
    using loop_room [of peer_cdc f] by (simp add: peer_cdc_def)
  then show ?thesis
    using session_frames_cross_link [OF reach_request [OF reachable_fresh] loop_ready(2) loop_blind peer_open(1) _ peer_open(3)]
      f(1) by (fastforce simp: peer_open(2))
qed

end
