(* ===== verification/Transport_Websocket.thy ===== *)
theory Transport_Websocket
  imports Transport_Queue
begin

text \<open>
  The WebSocket transport: \<open>websocket_transport\<close> (\<open>include/sidp_transport_websocket.hpp\<close>,
  \<open>sidp_transport_websocket.cpp\<close>). Its record extends that of the packet queues; Espressif's
  client is a parameter (\<open>ws_client\<close>) over a state \<open>net\<close>, which only its calls change. A copy into
  the staging buffer is checked: \<open>misplaced\<close> records one that left the buffer or read past the
  chunk.
\<close>

section \<open>State\<close>

abbreviation (input) WS_SEND_TIMEOUT_MS :: u32 where "WS_SEND_TIMEOUT_MS \<equiv> 5000"

text \<open>Opcodes of RFC 6455.\<close>

abbreviation (input) WS_TRANSPORT_OPCODES_CONT :: u8 where "WS_TRANSPORT_OPCODES_CONT \<equiv> 0"
abbreviation (input) WS_TRANSPORT_OPCODES_BINARY :: u8 where "WS_TRANSPORT_OPCODES_BINARY \<equiv> 2"

record 'w websocket_transport = packet_queue +
  client :: bool
  staging_buffer :: "bytes option"
  staging_received :: nat
  staging_epoch :: u32
  staging_active :: bool
  staging_discarded :: bool
  ws_initialized :: bool
  net :: 'w
  misplaced :: bool

definition new_websocket :: "'w \<Rightarrow> 'w websocket_transport" where
  "new_websocket w = new_queue
     (websocket_transport.fields False None 0 0 False False False w False)"

text \<open>The fields of the client configuration the code reads or sets.\<close>

record ws_config =
  disable_auto_reconnect :: bool
  enable_close_reconnect :: bool
  buffer_size :: int

text \<open>The client library and the heap; \<open>client_init\<close> returns whether it made a client.\<close>

record 'w ws_client =
  ws_heap_available :: "'w \<Rightarrow> bool"
  ws_heap_byte :: "'w \<Rightarrow> nat \<Rightarrow> u8"
  client_init :: "ws_config \<Rightarrow> 'w \<Rightarrow> bool \<times> 'w"
  client_destroy :: "'w \<Rightarrow> 'w"
  register_events :: "'w \<Rightarrow> esp_err \<times> 'w"
  unregister_events :: "'w \<Rightarrow> 'w"
  client_start :: "'w \<Rightarrow> esp_err \<times> 'w"
  client_stop :: "'w \<Rightarrow> esp_err \<times> 'w"
  client_is_connected :: "'w \<Rightarrow> bool"
  send_bin :: "bytes \<Rightarrow> u32 \<Rightarrow> 'w \<Rightarrow> int \<times> 'w"

text \<open>A data event of the client: one chunk of one WebSocket frame. \<open>data_ptr = None\<close> is null.\<close>

record ws_data =
  payload_len :: int
  payload_offset :: int
  data_len :: int
  data_ptr :: "bytes option"
  op_code :: u8
  fin :: bool

datatype ws_event =
    WEBSOCKET_EVENT_CONNECTED
  | WEBSOCKET_EVENT_CLOSED
  | WEBSOCKET_EVENT_FINISH
  | WEBSOCKET_EVENT_DISCONNECTED
  | WEBSOCKET_EVENT_ERROR
  | WEBSOCKET_EVENT_DATA "ws_data option"
  | WEBSOCKET_EVENT_OTHER

section \<open>The link\<close>

definition ws_physical_link_open :: "'w ws_client \<Rightarrow> 'w websocket_transport \<Rightarrow> bool" where
  "ws_physical_link_open d s \<longleftrightarrow> ws_initialized s \<and> client_is_connected d (net s)"

text \<open>The platform with the override that \<open>is_open\<close> needs; \<open>R\<close> is the RTOS.\<close>

definition ws_link ::
  "'w ws_client \<Rightarrow> 'w websocket_transport platform \<Rightarrow> 'w websocket_transport platform" where
  "ws_link d R = R\<lparr>physical_link_open := ws_physical_link_open d, reset_wire_buffers := (\<lambda>s. s)\<rparr>"

definition ws_deliver_tx_frame ::
  "'w ws_client \<Rightarrow> 'w websocket_transport platform \<Rightarrow> bytes \<Rightarrow> bool \<Rightarrow> 'w websocket_transport \<Rightarrow>
   (bool \<times> 'w websocket_transport) option" where
  "ws_deliver_tx_frame d R frame log s =
     (if \<not> is_open (ws_link d R) s then Some (False, s)
      else case send_bin d frame (timeout_to_ticks (tick_rate_hz R) (if log then 20 else WS_SEND_TIMEOUT_MS)) (net s) of
        (sent, w) \<Rightarrow> Some (sent = int (length frame), s\<lparr>net := w\<rparr>))"

definition ws_platform ::
  "'w ws_client \<Rightarrow> 'w websocket_transport platform \<Rightarrow> 'w websocket_transport platform" where
  "ws_platform d R = (ws_link d R)\<lparr>deliver_tx_frame := ws_deliver_tx_frame d R\<rparr>"

section \<open>Receiving\<close>

definition reset_staging :: "'w websocket_transport \<Rightarrow> 'w websocket_transport" where
  "reset_staging s = s\<lparr>staging_received := 0, staging_active := False, staging_discarded := False\<rparr>"

text \<open>The copy of one chunk: \<open>memcpy(staging_buffer + staging_received, data_ptr, chunk_size)\<close>.\<close>

definition stage_chunk :: "bytes \<Rightarrow> nat \<Rightarrow> 'w websocket_transport \<Rightarrow> 'w websocket_transport" where
  "stage_chunk source chunk_size s =
     (case staging_buffer s of
        None \<Rightarrow> s\<lparr>misplaced := True\<rparr>
      | Some buf \<Rightarrow>
          if chunk_size \<le> length source \<and> staging_received s + chunk_size \<le> length buf
          then s\<lparr>staging_buffer := Some (splice (staging_received s) (take chunk_size source) buf)\<rparr>
          else s\<lparr>misplaced := True\<rparr>)"

definition add_chunk :: "bytes \<Rightarrow> nat \<Rightarrow> 'w websocket_transport \<Rightarrow> 'w websocket_transport" where
  "add_chunk source chunk_size s =
     (let s = (if chunk_size \<noteq> 0 \<and> \<not> staging_discarded s
               then if chunk_size > MAX_FRAME_SIZE - staging_received s then s\<lparr>staging_discarded := True\<rparr>
                    else stage_chunk source chunk_size s
               else s)
      in if \<not> staging_discarded s then s\<lparr>staging_received := staging_received s + chunk_size\<rparr> else s)"

definition finish_message ::
  "'w websocket_transport platform \<Rightarrow> u32 \<Rightarrow> 'w websocket_transport \<Rightarrow> 'w websocket_transport" where
  "finish_message P current_epoch s =
     (let message = take (staging_received s) (case staging_buffer s of None \<Rightarrow> [] | Some buf \<Rightarrow> buf);
          s = (if \<not> staging_discarded s then deliver_packet P message current_epoch s else s)
      in reset_staging s)"

text \<open>\<open>handle_data\<close> for an event that is part of a message.\<close>

definition handle_chunk ::
  "'w websocket_transport platform \<Rightarrow> u32 \<Rightarrow> ws_data \<Rightarrow> 'w websocket_transport \<Rightarrow> 'w websocket_transport" where
  "handle_chunk P current_epoch data s =
     (let frame_size = nat (payload_len data);
          frame_offset = nat (payload_offset data);
          chunk_size = nat (data_len data);
          starts = (frame_offset = 0 \<and> op_code data = WS_TRANSPORT_OPCODES_BINARY)
      in if \<not> starts \<and> \<not> staging_active s then s
         else
           let s = (if starts then (reset_staging s)\<lparr>staging_active := True\<rparr> else s)
           in if frame_offset > frame_size \<or> chunk_size > frame_size - frame_offset
              then reset_staging s
              else
                let s = add_chunk (case data_ptr data of None \<Rightarrow> [] | Some source \<Rightarrow> source) chunk_size s;
                    frame_complete = (frame_offset + chunk_size \<ge> frame_size)
                in if \<not> fin data \<or> \<not> frame_complete then s
                   else finish_message P current_epoch s)"

definition handle_data ::
  "'w websocket_transport platform \<Rightarrow> ws_data \<Rightarrow> 'w websocket_transport \<Rightarrow> 'w websocket_transport" where
  "handle_data P data s =
     (let current_epoch = epoch s;
          s = (if staging_epoch s \<noteq> current_epoch \<or> \<not> is_open P s
               then (reset_staging s)\<lparr>staging_epoch := current_epoch\<rparr> else s)
      in if \<not> is_open P s then s
         else if payload_len data < 0 \<or> payload_offset data < 0 \<or> data_len data < 0 \<or>
             data_len data \<noteq> 0 \<and> data_ptr data = None then s
         else if op_code data \<noteq> WS_TRANSPORT_OPCODES_BINARY \<and> op_code data \<noteq> WS_TRANSPORT_OPCODES_CONT
         then s
         else handle_chunk P current_epoch data s)"

text \<open>\<open>null_arg\<close>: the handler was registered without an object.\<close>

definition websocket_event_handler ::
  "'w websocket_transport platform \<Rightarrow> bool \<Rightarrow> ws_event \<Rightarrow> 'w websocket_transport \<Rightarrow> 'w websocket_transport" where
  "websocket_event_handler P null_arg event s =
     (if null_arg then s
      else case event of
        WEBSOCKET_EVENT_CONNECTED \<Rightarrow> reset_staging (link_changed True s)
      | WEBSOCKET_EVENT_CLOSED \<Rightarrow> reset_staging (link_changed False s)
      | WEBSOCKET_EVENT_FINISH \<Rightarrow> reset_staging (link_changed False s)
      | WEBSOCKET_EVENT_DISCONNECTED \<Rightarrow> reset_staging (link_changed False s)
      | WEBSOCKET_EVENT_ERROR \<Rightarrow> reset_staging (link_changed False s)
      | WEBSOCKET_EVENT_DATA (Some data) \<Rightarrow> handle_data P data s
      | WEBSOCKET_EVENT_DATA None \<Rightarrow> s
      | WEBSOCKET_EVENT_OTHER \<Rightarrow> s)"

section \<open>Initialization and reconnection\<close>

definition reconnect :: "'w ws_client \<Rightarrow> 'w websocket_transport \<Rightarrow> esp_err \<times> 'w websocket_transport" where
  "reconnect d s =
     (let s = close_session s
      in if \<not> ws_initialized s \<or> \<not> tx_idle s then (ESP_ERR_INVALID_STATE, s)
         else case client_stop d (net s) of
           (stopped, w) \<Rightarrow>
             let s = s\<lparr>net := w\<rparr>
             in if stopped \<noteq> ESP_OK \<and> stopped \<noteq> ESP_FAIL then (stopped, s)
                else case client_start d (net s) of (started, w) \<Rightarrow> (started, s\<lparr>net := w\<rparr>))"

definition ws_teardown :: "'w websocket_transport \<Rightarrow> 'w websocket_transport" where
  "ws_teardown s = destroy_queues (s\<lparr>ws_initialized := False, client := False, staging_buffer := None\<rparr>)"

text \<open>The configuration \<open>init\<close> hands to the client.\<close>

definition client_config_of :: "ws_config \<Rightarrow> ws_config" where
  "client_config_of config =
     config\<lparr>disable_auto_reconnect := True, enable_close_reconnect := False,
       buffer_size := (if buffer_size config < int MAX_FRAME_SIZE then int MAX_FRAME_SIZE else buffer_size config)\<rparr>"

text \<open>\<open>init\<close> from the start of the client on.\<close>

definition ws_start ::
  "'w ws_client \<Rightarrow> 'w websocket_transport platform \<Rightarrow> 'w websocket_transport \<Rightarrow> esp_err \<times> 'w websocket_transport" where
  "ws_start d R s =
     (case client_start d (net s) of
        (started, w) \<Rightarrow>
          let s = s\<lparr>net := w\<rparr>
          in if started \<noteq> ESP_OK
             then (ESP_FAIL, ws_teardown (s\<lparr>net := client_destroy d (unregister_events d (net s))\<rparr>))
             else case spawn_tx_task R s of
               (task_result, s) \<Rightarrow>
                 if task_result \<noteq> ESP_OK
                 then (task_result, ws_teardown
                   (s\<lparr>net := client_destroy d (unregister_events d (snd (client_stop d (net s))))\<rparr>))
                 else (ESP_OK, s))"

definition ws_init ::
  "'w ws_client \<Rightarrow> 'w websocket_transport platform \<Rightarrow> ws_config \<Rightarrow> 'w websocket_transport \<Rightarrow>
   esp_err \<times> 'w websocket_transport" where
  "ws_init d R config s =
     (if ws_initialized s then (ESP_ERR_INVALID_STATE, s)
      else if \<not> ws_heap_available d (net s) then (ESP_ERR_NO_MEM, s)
      else
        let input_buffer = map (ws_heap_byte d (net s)) [0..<MAX_FRAME_SIZE]
        in case create_queues R s of
             (queue_result, s) \<Rightarrow>
               if queue_result \<noteq> ESP_OK then (queue_result, s)
               else case client_init d (client_config_of config) (net s) of
                 (made, w) \<Rightarrow>
                   let s = s\<lparr>net := w\<rparr>
                   in if \<not> made then (ESP_ERR_INVALID_ARG, destroy_queues s)
                      else case register_events d (net s) of
                        (registered, w) \<Rightarrow>
                          let s = s\<lparr>net := w\<rparr>
                          in if registered \<noteq> ESP_OK
                             then (ESP_FAIL, destroy_queues (s\<lparr>net := client_destroy d (net s)\<rparr>))
                             else ws_start d R
                               (s\<lparr>client := True, staging_buffer := Some input_buffer,
                                  ws_initialized := True\<rparr>))"

end
