(* ===== verification/Transport_Websocket_Inv.thy ===== *)
theory Transport_Websocket_Inv
  imports Transport_Websocket Transport_Queue_Inv
begin

text \<open>
  The WebSocket transport as a whole: its virtual methods keep the contract of the packet queues
  (interpretation \<open>ws\<close>), its handler of data events refines a reassembly automaton
  (\<open>handle_data_refines\<close>) that puts any split of a message together again (\<open>message_machine\<close>), every
  run of the object keeps its buffer (\<open>ws_ok_run\<close>), and over a reliable client everything queued is
  sent (\<open>ws_serve_all\<close>).
\<close>

section \<open>The contract of the packet queues\<close>

interpretation ws: wire "ws_platform d R" for d R
proof
  show "packet_queue.truncate (reset_wire_buffers (ws_platform d R) s) = packet_queue.truncate s" for s
    by (simp add: ws_platform_def ws_link_def)
  show "deliver_tx_frame (ws_platform d R) f log s = Some (sent, t) \<Longrightarrow>
      packet_queue.truncate t = packet_queue.truncate s" for f log s sent t
    by (auto simp: ws_platform_def ws_deliver_tx_frame_def truncate_eq_iff split: if_splits prod.splits)
qed

section \<open>The reassembly automaton\<close>

text \<open>Nothing staged, a message being dropped, or the bytes of one so far.\<close>

datatype stage = Empty | Dropping | Staged bytes

fun add_bytes :: "bytes \<Rightarrow> stage \<Rightarrow> stage" where
  "add_bytes c (Staged b) = (if length b + length c \<le> MAX_FRAME_SIZE then Staged (b @ c) else Dropping)"
| "add_bytes c st = st"

definition is_data :: "ws_data \<Rightarrow> bool" where
  "is_data e \<longleftrightarrow> op_code e = WS_TRANSPORT_OPCODES_BINARY \<or> op_code e = WS_TRANSPORT_OPCODES_CONT"

definition malformed :: "ws_data \<Rightarrow> bool" where
  "malformed e \<longleftrightarrow> payload_len e < 0 \<or> payload_offset e < 0 \<or> data_len e < 0 \<or>
     data_len e \<noteq> 0 \<and> data_ptr e = None"

definition starts :: "ws_data \<Rightarrow> bool" where
  "starts e \<longleftrightarrow> payload_offset e = 0 \<and> op_code e = WS_TRANSPORT_OPCODES_BINARY"

definition chunk :: "ws_data \<Rightarrow> bytes" where
  "chunk e = (case data_ptr e of None \<Rightarrow> [] | Some source \<Rightarrow> take (nat (data_len e)) source)"

text \<open>One event of an open session: the stage after it and the messages it completes.\<close>

definition stage_step :: "ws_data \<Rightarrow> stage \<Rightarrow> stage \<times> bytes list" where
  "stage_step e st =
     (if malformed e \<or> \<not> is_data e then (st, [])
      else let st = (if starts e then Staged [] else st)
        in if st = Empty \<or> payload_offset e + data_len e > payload_len e then (Empty, [])
           else let st = add_bytes (chunk e) st
             in if \<not> fin e \<or> payload_offset e + data_len e < payload_len e then (st, [])
                else (Empty, case st of Staged m \<Rightarrow> [m] | _ \<Rightarrow> []))"

text \<open>
  The object without its staging fields, and those fields as a stage: what is staged in an earlier
  session counts as nothing. The machine runs the automaton beside the rest of the object.
\<close>

definition unstaged :: "'w websocket_transport \<Rightarrow> 'w websocket_transport" where
  "unstaged s = s\<lparr>staging_buffer := None, staging_received := 0, staging_epoch := 0,
     staging_active := False, staging_discarded := False, misplaced := False\<rparr>"

definition staged :: "'w websocket_transport platform \<Rightarrow> 'w websocket_transport \<Rightarrow> stage" where
  "staged P s =
     (if \<not> is_open P s \<or> staging_epoch s \<noteq> epoch s \<or> \<not> staging_active s then Empty
      else if staging_discarded s then Dropping
      else Staged (take (staging_received s) (the (staging_buffer s))))"

definition stage_machine ::
  "'w websocket_transport platform \<Rightarrow> ws_data \<Rightarrow> 'w websocket_transport \<times> stage \<Rightarrow> 'w websocket_transport \<times> stage" where
  "stage_machine P e = (\<lambda>(u, st).
     if \<not> is_open P u then (u, Empty)
     else case stage_step e st of
       (st, out) \<Rightarrow> (fold (\<lambda>m u. deliver_packet P m (epoch u) u) out u, st))"

text \<open>
  The buffer is there; an event's pointer covers its length; a ring buffer does not look at the
  staging fields when it accepts an item.
\<close>

definition ws_ready :: "'w websocket_transport \<Rightarrow> bool" where
  "ws_ready s \<longleftrightarrow> (\<exists>buf. staging_buffer s = Some buf \<and> length buf = MAX_FRAME_SIZE) \<and>
     staging_received s \<le> MAX_FRAME_SIZE \<and> \<not> misplaced s"

definition sound_event :: "ws_data \<Rightarrow> bool" where
  "sound_event e \<longleftrightarrow> (\<forall>source. data_ptr e = Some source \<longrightarrow> data_len e \<le> int (length source))"

definition ws_blind :: "'w websocket_transport platform \<Rightarrow> bool" where
  "ws_blind R \<longleftrightarrow> (\<forall>r p s. ring_accepts R r p s = ring_accepts R r p (unstaged s))"

lemma unstaged_sel [simp]:
  "dead (unstaged s) = dead s" "connected (unstaged s) = connected s" "epoch (unstaged s) = epoch s"
  "ring_buffer (unstaged s) = ring_buffer s" "ws_initialized (unstaged s) = ws_initialized s"
  "net (unstaged s) = net s"
  by (simp_all add: unstaged_def)

lemma unstaged_link [simp]: "is_open (ws_platform d R) (unstaged s) = is_open (ws_platform d R) s"
  by (simp add: is_open_def link_is_connected_def ws_platform_def ws_link_def ws_physical_link_open_def)

lemma unstaged_deliver:
  assumes "ws_blind R"
  shows "unstaged (deliver_packet (ws_platform d R) p ep s) =
    deliver_packet (ws_platform d R) p ep (unstaged s)"
proof -
  have r: "ring_accepts (ws_platform d R) RX_RING p (unstaged s) = ring_accepts (ws_platform d R) RX_RING p s"
    using assms by (simp add: ws_blind_def ws_platform_def ws_link_def)
  show ?thesis
    by (simp add: deliver_packet_def r) (simp add: unstaged_def close_locked_def)
qed

text \<open>The link does not depend on the staging fields.\<close>

lemma open_staging [simp]:
  "is_open (ws_platform d R) (s\<lparr>staging_received := n\<rparr>) = is_open (ws_platform d R) s"
  "is_open (ws_platform d R) (s\<lparr>staging_active := b\<rparr>) = is_open (ws_platform d R) s"
  "is_open (ws_platform d R) (s\<lparr>staging_discarded := b\<rparr>) = is_open (ws_platform d R) s"
  "is_open (ws_platform d R) (s\<lparr>staging_epoch := e\<rparr>) = is_open (ws_platform d R) s"
  "is_open (ws_platform d R) (s\<lparr>staging_buffer := buf\<rparr>) = is_open (ws_platform d R) s"
  "is_open (ws_platform d R) (s\<lparr>misplaced := b\<rparr>) = is_open (ws_platform d R) s"
  by (simp_all add: is_open_def link_is_connected_def ws_platform_def ws_link_def ws_physical_link_open_def)

lemma open_reset [simp]: "is_open (ws_platform d R) (reset_staging s) = is_open (ws_platform d R) s"
  by (simp add: reset_staging_def)

lemma reset_sel [simp]:
  "unstaged (reset_staging s) = unstaged s" "staging_epoch (reset_staging s) = staging_epoch s"
  "epoch (reset_staging s) = epoch s" "staged P (reset_staging s) = Empty"
  "staging_active (reset_staging s) = False" "staging_discarded (reset_staging s) = False"
  "staging_received (reset_staging s) = 0" "staging_buffer (reset_staging s) = staging_buffer s"
  by (simp_all add: reset_staging_def unstaged_def staged_def)

lemma ready_reset [simp]: "ws_ready s \<Longrightarrow> ws_ready (reset_staging s)"
  by (simp add: ws_ready_def reset_staging_def)

text \<open>One chunk, staged.\<close>

definition live :: "'w websocket_transport platform \<Rightarrow> 'w websocket_transport \<Rightarrow> bool" where
  "live P s \<longleftrightarrow> is_open P s \<and> staging_epoch s = epoch s \<and> ws_ready s"

lemma add_chunk_stages:
  assumes "live (ws_platform d R) s" and "staging_active s" and "n \<le> length source"
  shows "live (ws_platform d R) (add_chunk source n s) \<and> staging_active (add_chunk source n s) \<and>
    unstaged (add_chunk source n s) = unstaged s \<and> epoch (add_chunk source n s) = epoch s \<and>
    staged (ws_platform d R) (add_chunk source n s) = add_bytes (take n source) (staged (ws_platform d R) s)"
proof -
  obtain buf where s: "is_open (ws_platform d R) s" "staging_epoch s = epoch s" "staging_buffer s = Some buf"
      "length buf = MAX_FRAME_SIZE" "staging_received s \<le> MAX_FRAME_SIZE" "\<not> misplaced s"
    using assms(1) by (auto simp: live_def ws_ready_def)
  note [simp] = s(1-3)
  show ?thesis
  proof (cases "staging_discarded s")
    case True
    then show ?thesis using assms s by (auto simp: add_chunk_def staged_def)
  next
    case False
    show ?thesis
    proof (cases "n > MAX_FRAME_SIZE - staging_received s")
      case True
      then show ?thesis
        using assms s False by (auto simp: add_chunk_def staged_def live_def ws_ready_def unstaged_def)
    next
      case fits: False
      have "take (staging_received s + n) (splice (staging_received s) (take n source) buf) =
          take (staging_received s) buf @ take n source"
        using s fits assms(3) by (simp add: splice_def)
      then show ?thesis
        using assms s False fits
        by (auto simp: add_chunk_def stage_chunk_def staged_def live_def ws_ready_def unstaged_def)
    qed
  qed
qed


definition ws_abs :: "'w websocket_transport platform \<Rightarrow> 'w websocket_transport \<Rightarrow>
    'w websocket_transport \<times> stage" where
  "ws_abs P s = (unstaged s, staged P s)"

text \<open>\<open>handle_data\<close> from the chunk on, with its message already chosen.\<close>

lemma chunk_refines:
  assumes "ws_blind R" and "live (ws_platform d R) s" and "staging_active s" and "n \<le> length source"
  defines "t \<equiv> add_chunk source n s"
  shows "ws_ready (finish_message (ws_platform d R) (epoch s) t) \<and>
    unstaged (finish_message (ws_platform d R) (epoch s) t) =
      (case add_bytes (take n source) (staged (ws_platform d R) s) of
         Staged m \<Rightarrow> deliver_packet (ws_platform d R) m (epoch s) (unstaged s)
       | _ \<Rightarrow> unstaged s) \<and>
    staged (ws_platform d R) (finish_message (ws_platform d R) (epoch s) t) = Empty"
proof -
  have t: "live (ws_platform d R) t" "staging_active t" "unstaged t = unstaged s" "epoch t = epoch s"
    "staged (ws_platform d R) t = add_bytes (take n source) (staged (ws_platform d R) s)"
    using add_chunk_stages [OF assms(2-4)] by (simp_all add: t_def)
  then have st: "staged (ws_platform d R) t =
      (if staging_discarded t then Dropping else Staged (take (staging_received t) (the (staging_buffer t))))"
    by (simp add: staged_def live_def)
  obtain buf where buf: "staging_buffer t = Some buf" using t(1) by (auto simp: live_def ws_ready_def)
  have r: "ws_ready (deliver_packet (ws_platform d R) p ep t)" for p ep
    using t(1) by (simp add: live_def ws_ready_def deliver_packet_def close_locked_def)
  show ?thesis
    unfolding t(5) [symmetric] st
    using t(1-4) buf r unstaged_deliver [OF assms(1)]
    by (auto simp: finish_message_def Let_def live_def)
qed

lemma handle_chunk_refines:
  assumes blind: "ws_blind R" and live: "live (ws_platform d R) u" and "sound_event e"
    and good: "\<not> malformed e" "is_data e"
  shows "ws_ready (handle_chunk (ws_platform d R) (epoch u) e u) \<and>
    ws_abs (ws_platform d R) (handle_chunk (ws_platform d R) (epoch u) e u) =
      stage_machine (ws_platform d R) e (ws_abs (ws_platform d R) u)"
proof -
  let ?P = "ws_platform d R"
  have lens: "0 \<le> payload_len e" "0 \<le> payload_offset e" "0 \<le> data_len e"
    using good(1) by (auto simp: malformed_def)
  define v where "v = (if starts e then (reset_staging u)\<lparr>staging_active := True\<rparr> else u)"
  have v: "live ?P v" "unstaged v = unstaged u" "epoch v = epoch u"
    "staged ?P v = (if starts e then Staged [] else staged ?P u)"
    using live by (auto simp: v_def live_def reset_staging_def ws_ready_def unstaged_def staged_def)
  have act: "staging_active v \<longleftrightarrow> staged ?P v \<noteq> Empty"
    using v(1) by (auto simp: staged_def live_def)
  let ?source = "case data_ptr e of None \<Rightarrow> [] | Some source \<Rightarrow> source"
  let ?w = "add_chunk ?source (nat (data_len e)) v"
  have n: "nat (data_len e) \<le> length ?source" "take (nat (data_len e)) ?source = chunk e"
    using good(1) assms(3) by (auto simp: malformed_def sound_event_def chunk_def split: option.splits)
  have c: "(nat (payload_offset e) = 0 \<and> op_code e = WS_TRANSPORT_OPCODES_BINARY) = starts e"
    "(nat (payload_offset e) > nat (payload_len e) \<or>
      nat (data_len e) > nat (payload_len e) - nat (payload_offset e)) =
     (payload_offset e + data_len e > payload_len e)"
    "(nat (payload_offset e) + nat (data_len e) \<ge> nat (payload_len e)) =
     (\<not> payload_offset e + data_len e < payload_len e)"
    using lens by (auto simp: starts_def)
  have hd: "handle_chunk ?P (epoch u) e u =
    (if \<not> staging_active v then v
     else if payload_offset e + data_len e > payload_len e then reset_staging v
     else if \<not> fin e \<or> payload_offset e + data_len e < payload_len e then ?w
     else finish_message ?P (epoch v) ?w)"
    unfolding handle_chunk_def Let_def c v(3) v_def by (simp add: reset_staging_def)
  have sm: "stage_machine ?P e (ws_abs ?P u) =
    (case (if staged ?P v = Empty \<or> payload_offset e + data_len e > payload_len e then (Empty, [])
       else if \<not> fin e \<or> payload_offset e + data_len e < payload_len e then (add_bytes (chunk e) (staged ?P v), [])
       else (Empty, case add_bytes (chunk e) (staged ?P v) of Staged m \<Rightarrow> [m] | _ \<Rightarrow> [])) of
     (st, out) \<Rightarrow> (fold (\<lambda>m u. deliver_packet ?P m (epoch u) u) out (unstaged u), st))"
    using live good v(4) by (simp add: stage_machine_def ws_abs_def stage_step_def live_def Let_def)
  show ?thesis
  proof (cases "staging_active v \<and> \<not> payload_offset e + data_len e > payload_len e")
    case False
    then show ?thesis
      unfolding hd sm using v act by (auto simp: ws_abs_def live_def)
  next
    case True
    note w = add_chunk_stages [OF v(1) _ n(1), unfolded n(2)] chunk_refines [OF blind v(1) _ n(1), unfolded n(2)]
    show ?thesis
      unfolding hd sm using True v w act
      by (auto simp: ws_abs_def live_def split: stage.splits)
  qed
qed

lemma handle_data_refines:
  assumes "ws_blind R" and "ws_ready s" and "sound_event e"
  shows "ws_ready (handle_data (ws_platform d R) e s) \<and>
    ws_abs (ws_platform d R) (handle_data (ws_platform d R) e s) =
      stage_machine (ws_platform d R) e (ws_abs (ws_platform d R) s)"
proof -
  let ?P = "ws_platform d R"
  define u where "u = (if staging_epoch s \<noteq> epoch s \<or> \<not> is_open ?P s
    then (reset_staging s)\<lparr>staging_epoch := epoch s\<rparr> else s)"
  have u: "ws_ready u" "unstaged u = unstaged s" "epoch u = epoch s" "staging_epoch u = epoch u"
    "is_open ?P u = is_open ?P s" "staged ?P u = staged ?P s"
    using assms(2)
    by (auto simp: u_def reset_staging_def ws_ready_def unstaged_def staged_def)
  have h: "handle_data ?P e s =
      (if \<not> is_open ?P u \<or> malformed e \<or> \<not> is_data e then u else handle_chunk ?P (epoch u) e u)"
    unfolding handle_data_def Let_def u_def [symmetric] malformed_def is_data_def u(3) by simp
  show ?thesis
  proof (cases "is_open ?P u \<and> \<not> malformed e \<and> is_data e")
    case False
    then have "handle_data ?P e s = u" unfolding h by argo
    moreover have "stage_machine ?P e (ws_abs ?P s) = ws_abs ?P s"
      using False u(5) by (auto simp: stage_machine_def ws_abs_def stage_step_def staged_def)
    ultimately show ?thesis using u by (simp add: ws_abs_def)
  next
    case True
    then have "handle_data ?P e s = handle_chunk ?P (epoch u) e u" unfolding h by argo
    moreover have "live ?P u" using True u by (simp add: live_def)
    then have "ws_ready (handle_chunk ?P (epoch u) e u) \<and>
        ws_abs ?P (handle_chunk ?P (epoch u) e u) = stage_machine ?P e (ws_abs ?P u)"
      using True assms(1,3) by (intro handle_chunk_refines) auto
    ultimately show ?thesis using u by (simp add: ws_abs_def)
  qed
qed


lemma handle_all_refines:
  assumes "ws_blind R" and "ws_ready s" and "\<forall>e \<in> set es. sound_event e"
  shows "ws_ready (fold (handle_data (ws_platform d R)) es s) \<and>
    ws_abs (ws_platform d R) (fold (handle_data (ws_platform d R)) es s) =
      fold (stage_machine (ws_platform d R)) es (ws_abs (ws_platform d R) s)"
  using assms(2,3)
proof (induction es arbitrary: s)
  case (Cons e es)
  then show ?case
    using handle_data_refines [OF assms(1) Cons.prems(1), of e d] Cons.IH [of "handle_data (ws_platform d R) e s"]
    by simp
qed simp

section \<open>Messages\<close>

text \<open>
  How a message reaches the code: the peer splits it into WebSocket frames, the first binary, the
  others continuations, the last with FIN; the client splits a frame into chunks, an empty frame
  into one empty chunk.
\<close>

fun frame_events :: "u8 \<Rightarrow> bool \<Rightarrow> nat \<Rightarrow> nat \<Rightarrow> bytes list \<Rightarrow> ws_data list" where
  "frame_events opc final whole off [] = []"
| "frame_events opc final whole off (c # cs) =
     \<lparr>payload_len = int whole, payload_offset = int off, data_len = int (length c), data_ptr = Some c,
      op_code = opc, fin = final\<rparr> # frame_events opc final whole (off + length c) cs"

fun message_events :: "u8 \<Rightarrow> bytes list list \<Rightarrow> ws_data list" where
  "message_events opc [] = []"
| "message_events opc (f # fs) =
     frame_events opc (fs = []) (length (concat f)) 0 f @ message_events WS_TRANSPORT_OPCODES_CONT fs"

definition chunked :: "bytes list \<Rightarrow> bool" where
  "chunked cs \<longleftrightarrow> cs = [[]] \<or> cs \<noteq> [] \<and> [] \<notin> set cs"

definition enter :: "u8 \<Rightarrow> nat \<Rightarrow> stage \<Rightarrow> stage" where
  "enter opc off st = (if opc = WS_TRANSPORT_OPCODES_BINARY \<and> off = 0 then Staged [] else st)"

definition completed :: "'w websocket_transport platform \<Rightarrow> bool \<Rightarrow> stage \<Rightarrow> 'w websocket_transport \<Rightarrow>
    'w websocket_transport \<times> stage" where
  "completed P final st u =
     (if \<not> final then (u, st)
      else (case st of Staged m \<Rightarrow> deliver_packet P m (epoch u) u | _ \<Rightarrow> u, Empty))"

lemma add_bytes_append: "add_bytes (c @ d) st = add_bytes d (add_bytes c st)"
  by (cases st) auto

lemma add_bytes_empty: "add_bytes c st = Empty \<longleftrightarrow> st = Empty"
  by (cases st) auto

lemma frame_machine:
  assumes "is_open P u" and "opc = WS_TRANSPORT_OPCODES_BINARY \<or> opc = WS_TRANSPORT_OPCODES_CONT"
    and "cs \<noteq> []" "tl cs = [] \<or> [] \<notin> set cs" and "enter opc off st \<noteq> Empty" and "off + length (concat cs) = whole"
  shows "fold (stage_machine P) (frame_events opc final whole off cs) (u, st) =
    completed P final (add_bytes (concat cs) (enter opc off st)) u"
  using assms(3-)
proof (induction cs arbitrary: off st)
  case (Cons c cs)
  let ?e = "\<lparr>payload_len = int whole, payload_offset = int off, data_len = int (length c), data_ptr = Some c,
      op_code = opc, fin = final\<rparr>"
  have e: "\<not> malformed ?e" "is_data ?e" "starts ?e = (opc = WS_TRANSPORT_OPCODES_BINARY \<and> off = 0)" "chunk ?e = c"
    using assms(2) by (auto simp: malformed_def is_data_def starts_def chunk_def)
  show ?case
  proof (cases "cs = []")
    case True
    then have "stage_step ?e st = (if \<not> final then (add_bytes c (enter opc off st), [])
        else (Empty, case add_bytes c (enter opc off st) of Staged m \<Rightarrow> [m] | _ \<Rightarrow> []))"
      using e Cons.prems by (simp add: stage_step_def enter_def Let_def)
    with True assms(1) show ?thesis
      by (simp add: stage_machine_def completed_def split: stage.split)
  next
    case False
    then have ne: "c \<noteq> []" "[] \<notin> set cs" "concat cs \<noteq> []"
      using Cons.prems(2) by (cases cs; auto)+
    have "0 < length (concat cs)" using ne(3) by (rule length_greater_0_conv [THEN iffD2])
    moreover have "whole = off + length c + length (concat cs)" using Cons.prems(4) by simp
    ultimately have "int off + int (length c) < int whole" by linarith
    then have "stage_step ?e st = (add_bytes c (enter opc off st), [])"
      using e Cons.prems(3) by (simp add: stage_step_def enter_def Let_def)
    moreover have "enter opc (off + length c) st' = st'" for st'
      using ne(1) by (simp add: enter_def)
    ultimately show ?thesis
      using Cons.IH [of "off + length c" "add_bytes c (enter opc off st)"] Cons.prems False ne assms(1)
      by (simp add: stage_machine_def add_bytes_append add_bytes_empty)
  qed
qed simp

lemma message_machine:
  assumes "is_open P u" and "opc = WS_TRANSPORT_OPCODES_BINARY \<or> opc = WS_TRANSPORT_OPCODES_CONT"
    and "fs \<noteq> []" and "\<forall>f \<in> set fs. chunked f" and "enter opc 0 st \<noteq> Empty"
  shows "fold (stage_machine P) (message_events opc fs) (u, st) =
    completed P True (add_bytes (concat (concat fs)) (enter opc 0 st)) u"
  using assms(2-)
proof (induction fs arbitrary: opc st)
  case (Cons f fs)
  have f: "fold (stage_machine P) (frame_events opc (fs = []) (length (concat f)) 0 f) (u, st) =
      completed P (fs = []) (add_bytes (concat f) (enter opc 0 st)) u"
    using Cons.prems by (intro frame_machine [OF assms(1)]) (auto simp: chunked_def)
  show ?case
  proof (cases "fs = []")
    case True
    with f show ?thesis by simp
  next
    case False
    then show ?thesis
      using f Cons.IH [of WS_TRANSPORT_OPCODES_CONT "add_bytes (concat f) (enter opc 0 st)"] Cons.prems
      by (simp add: completed_def enter_def add_bytes_append add_bytes_empty)
  qed
qed simp

text \<open>Control frames between the chunks change nothing.\<close>

lemma machine_control:
  assumes "\<not> is_open P u \<longrightarrow> st = Empty"
  shows "fold (stage_machine P) es (u, st) = fold (stage_machine P) (filter is_data es) (u, st)"
  using assms
proof (induction es arbitrary: u st)
  case (Cons e es)
  have same: "stage_machine P e (u, st) = (u, st)" if "\<not> is_data e"
    using that Cons.prems by (auto simp: stage_machine_def stage_step_def)
  obtain v st' where m: "stage_machine P e (u, st) = (v, st')" by force
  have "\<not> is_open P v \<longrightarrow> st' = Empty"
    using m Cons.prems
    by (auto simp: stage_machine_def stage_step_def Let_def split: if_splits stage.splits)
  then show ?case using Cons.IH [of v st'] Cons.IH [of u st] Cons.prems same m by auto
qed simp


section \<open>Runs of the whole object\<close>

text \<open>Any sequence of the operations; the client's data events describe the memory they point to.\<close>

inductive ws_run :: "'w ws_client \<Rightarrow> 'w websocket_transport platform \<Rightarrow> 'w websocket_transport \<Rightarrow> bool"
  for d R where
  ws_run_new: "ws_run d R (new_websocket w)"
| ws_run_net: "ws_run d R s \<Longrightarrow> ws_run d R (s\<lparr>net := w\<rparr>)"
| ws_run_init: "ws_run d R s \<Longrightarrow> ws_init d R config s = (r, t) \<Longrightarrow> ws_run d R t"
| ws_run_event: "ws_run d R s \<Longrightarrow> \<forall>e. event = WEBSOCKET_EVENT_DATA (Some e) \<longrightarrow> sound_event e \<Longrightarrow>
    ws_run d R (websocket_event_handler (ws_platform d R) null_arg event s)"
| ws_run_reconnect: "ws_run d R s \<Longrightarrow> reconnect d s = (r, t) \<Longrightarrow> ws_run d R t"
| ws_run_begin: "ws_run d R s \<Longrightarrow> begin_session (ws_platform d R) s = (r, t) \<Longrightarrow> ws_run d R t"
| ws_run_close: "ws_run d R s \<Longrightarrow> ws_run d R (close_session s)"
| ws_run_enqueue: "ws_run d R s \<Longrightarrow> enqueue (ws_platform d R) m log s = (e, t) \<Longrightarrow> ws_run d R t"
| ws_run_read: "ws_run d R s \<Longrightarrow> read_poll (ws_platform d R) s = (p, t) \<Longrightarrow> ws_run d R t"
| ws_run_end_read: "ws_run d R s \<Longrightarrow> ws_run d R (end_read null_buf s)"
| ws_run_service: "ws_run d R s \<Longrightarrow> service_tx (ws_platform d R) s = Some (served, t) \<Longrightarrow> ws_run d R t"

definition ws_ok :: "'w websocket_transport \<Rightarrow> bool" where
  "ws_ok s \<longleftrightarrow> \<not> misplaced s \<and> staging_received s \<le> MAX_FRAME_SIZE \<and>
     (if ws_initialized s
      then queues_ok s \<and> (\<exists>buf. staging_buffer s = Some buf \<and> length buf = MAX_FRAME_SIZE)
      else dead s \<and> ring_buffer s = None \<and> tx_pending s = 0)"

lemma ws_queues_derived [simp]:
  "queues_ok (s\<lparr>client := a\<rparr>) = queues_ok s" "queues_ok (s\<lparr>staging_buffer := b\<rparr>) = queues_ok s"
  "queues_ok (s\<lparr>staging_received := n\<rparr>) = queues_ok s" "queues_ok (s\<lparr>staging_epoch := e\<rparr>) = queues_ok s"
  "queues_ok (s\<lparr>staging_active := a\<rparr>) = queues_ok s" "queues_ok (s\<lparr>staging_discarded := a\<rparr>) = queues_ok s"
  "queues_ok (s\<lparr>ws_initialized := a\<rparr>) = queues_ok s" "queues_ok (s\<lparr>net := w\<rparr>) = queues_ok s"
  "queues_ok (s\<lparr>misplaced := a\<rparr>) = queues_ok s" "queues_ok (s\<lparr>tx_task_handle := a\<rparr>) = queues_ok s"
  by (simp_all add: queues_ok_def)

lemma ws_open_initialized: "is_open (ws_platform d R) s \<Longrightarrow> ws_initialized s"
  by (simp add: is_open_def link_is_connected_def ws_platform_def ws_link_def ws_physical_link_open_def)

lemma ws_more_fields:
  assumes "packet_queue.more t = packet_queue.more s"
  shows "staging_buffer t = staging_buffer s" "staging_received t = staging_received s"
    "ws_initialized t = ws_initialized s" "misplaced t = misplaced s"
  using assms by (cases s; cases t; simp)+

lemma ws_ok_queue:
  assumes "ws_ok s" and "packet_queue.more t = packet_queue.more s"
    and "ws_initialized s \<Longrightarrow> queues_ok s \<Longrightarrow> queues_ok t"
    and "\<not> ws_initialized s \<Longrightarrow> dead s \<Longrightarrow> ring_buffer s = None \<Longrightarrow> tx_pending s = 0 \<Longrightarrow>
      dead t \<and> ring_buffer t = None \<and> tx_pending t = 0"
  shows "ws_ok t"
  using assms(1,3,4) ws_more_fields [OF assms(2)] by (auto simp: ws_ok_def split: if_splits)

lemma ws_ok_close: "ws_ok s \<Longrightarrow> ws_ok (close_locked s)"
  by (rule ws_ok_queue, assumption, rule more_same) (simp_all add: queues_close, simp add: close_locked_def)

lemma ws_ok_link: "ws_ok s \<Longrightarrow> ws_ok (reset_staging (link_changed up s))"
proof -
  assume "ws_ok s"
  then have "ws_ok (link_changed up s)"
    by (rule ws_ok_queue [OF _ more_same(5)])
      (simp_all add: queues_link, simp add: link_changed_def close_locked_def Let_def)
  then show ?thesis by (simp add: ws_ok_def reset_staging_def)
qed

lemma ws_ok_closed:
  assumes "ws_ok s" and "\<not> is_open (ws_platform d R) s \<Longrightarrow> t = s"
    and "packet_queue.more t = packet_queue.more s" and "queues_ok s \<Longrightarrow> queues_ok t"
  shows "ws_ok t"
proof (cases "ws_initialized s")
  case True
  then show ?thesis using assms by (intro ws_ok_queue [OF assms(1,3)]) auto
next
  case False
  then show ?thesis using assms(1,2) ws_open_initialized by blast
qed

lemma ws_ok_enqueue:
  assumes "ws_ok s" and e: "enqueue (ws_platform d R) m log s = (r, t)"
  shows "ws_ok t"
proof (rule ws_ok_closed [OF assms(1)])
  show "packet_queue.more t = packet_queue.more s" by (rule more_same(6) [OF e])
  show "queues_ok s \<Longrightarrow> queues_ok t" using queues_enqueue [OF _ e] by blast
  show "\<not> is_open (ws_platform d R) s \<Longrightarrow> t = s" using e by (auto simp: enqueue_def split: if_splits)
qed

lemma ws_ok_read:
  assumes "ws_ok s" and r: "read_poll (ws_platform d R) s = (r, t)"
  shows "ws_ok t"
proof (rule ws_ok_closed [OF assms(1)])
  show "packet_queue.more t = packet_queue.more s" using more_polls(1) [of "ws_platform d R" s] r by simp
  show "queues_ok s \<Longrightarrow> queues_ok t" using queues_read [OF _ r] by blast
  show "\<not> is_open (ws_platform d R) s \<Longrightarrow> t = s" using r by (simp add: read_poll_def)
qed

lemma ws_ok_end_read: "ws_ok s \<Longrightarrow> ws_ok (end_read b s)"
  by (rule ws_ok_queue, assumption, rule more_same) (auto simp: queues_ok_def end_read_def)

lemma ws_ok_begin:
  assumes "ws_ok s" and b: "begin_session (ws_platform d R) s = (r, t)"
  shows "ws_ok t"
proof (cases "r = ESP_OK")
  case False
  then show ?thesis using ws.begin_session_refused [OF b] assms by simp
next
  case True
  then have i: "ws_initialized s"
    using assms by (auto simp: begin_session_def ws_ok_def split: if_splits)
  then have "queues_ok t"
    using ws.begin_session_ok [of d R s t] b True assms(1) by (simp add: ws_ok_def)
  then show ?thesis
    using assms i True
    by (auto simp: begin_session_def ws_ok_def ws_platform_def ws_link_def close_locked_def Let_def
        split: if_splits)
qed

lemma ws_ok_service:
  assumes "ws_ok s" and v: "service_tx (ws_platform d R) s = Some (served, t)"
  shows "ws_ok t"
proof (cases "tx_take (ws_platform d R) s")
  case (Pair flight u)
  have u: "ws_ok u"
  proof (rule ws_ok_closed [OF assms(1)])
    show "packet_queue.more u = packet_queue.more s" by (rule more_same(7) [OF Pair])
    show "queues_ok s \<Longrightarrow> queues_ok u" using queues_take [OF _ Pair] by blast
    show "\<not> is_open (ws_platform d R) s \<Longrightarrow> u = s" using Pair by (simp add: tx_take_def)
  qed
  show ?thesis
  proof (cases flight)
    case None
    then show ?thesis using Pair v u by (simp add: service_tx_def)
  next
    case (Some fl)
    then obtain f log sent w where fl: "fl = (f, log)"
      and d: "ws_deliver_tx_frame d R f log u = Some (sent, w)" and t: "t = tx_finish sent w"
      using Pair v by (auto simp: service_tx_def ws_platform_def split: prod.splits option.splits)
    have i: "ws_initialized s"
      using Pair Some ws_open_initialized by (auto simp: tx_take_def split: if_splits)
    then have iu: "ws_initialized u" using ws_more_fields(3) [OF more_same(7) [OF Pair]] by simp
    have "ws_ok w \<and> ws_initialized w"
      using d u iu by (auto simp: ws_deliver_tx_frame_def ws_ok_def split: if_splits prod.splits)
    then show ?thesis
      unfolding t by (intro ws_ok_queue [OF _ more_same(4)]) (auto simp: queues_finish)
  qed
qed

lemma ws_ok_staging [simp]:
  "ws_ok s \<Longrightarrow> ws_ok (reset_staging s)" "ws_ok (s\<lparr>staging_epoch := e\<rparr>) = ws_ok s"
  "ws_ok (s\<lparr>staging_active := b\<rparr>) = ws_ok s" "ws_ok (s\<lparr>net := w\<rparr>) = ws_ok s"
  by (simp_all add: ws_ok_def reset_staging_def)

lemma ws_ok_add:
  assumes "ws_ok s" and "ws_initialized s" and "n \<le> length source"
  shows "ws_ok (add_chunk source n s)"
proof -
  obtain buf where buf: "staging_buffer s = Some buf" "length buf = MAX_FRAME_SIZE"
    and r: "staging_received s \<le> MAX_FRAME_SIZE"
    using assms by (auto simp: ws_ok_def)
  consider "staging_discarded s \<or> n = 0" | "\<not> staging_discarded s" "n > MAX_FRAME_SIZE - staging_received s"
    | "\<not> staging_discarded s" "staging_received s + n \<le> MAX_FRAME_SIZE" "0 < n"
    using r by linarith
  then show ?thesis
    using assms buf r by cases (auto simp: ws_ok_def add_chunk_def stage_chunk_def Let_def)
qed

lemma ws_ok_finish: "ws_ok s \<Longrightarrow> ws_ok (finish_message (ws_platform d R) ep s)"
proof -
  assume s: "ws_ok s"
  have "ws_ok (deliver_packet (ws_platform d R) p ep s)" for p
  proof (rule ws_ok_closed [OF s])
    show "packet_queue.more (deliver_packet (ws_platform d R) p ep s) = packet_queue.more s"
      by (rule more_same)
    show "\<not> is_open (ws_platform d R) s \<Longrightarrow> deliver_packet (ws_platform d R) p ep s = s"
      by (simp add: deliver_packet_def)
  qed (rule queues_deliver)
  then show ?thesis using s by (simp add: finish_message_def Let_def)
qed

lemma handle_chunk_cases:
  fixes e defines "source \<equiv> case data_ptr e of None \<Rightarrow> [] | Some source \<Rightarrow> source"
  shows "handle_chunk P ep e u = u \<or>
    (\<exists>v. (v = u \<or> v = (reset_staging u)\<lparr>staging_active := True\<rparr>) \<and>
      (handle_chunk P ep e u = reset_staging v \<or>
       handle_chunk P ep e u = add_chunk source (nat (data_len e)) v \<or>
       handle_chunk P ep e u = finish_message P ep (add_chunk source (nat (data_len e)) v)))"
proof (cases "nat (payload_offset e) = 0 \<and> op_code e = WS_TRANSPORT_OPCODES_BINARY")
  case True
  then show ?thesis
    unfolding handle_chunk_def Let_def source_def
    by (intro disjI2 exI [of _ "(reset_staging u)\<lparr>staging_active := True\<rparr>"]) simp
next
  case False
  then have b: "(nat (payload_offset e) = 0 \<and> op_code e = WS_TRANSPORT_OPCODES_BINARY) = False" by blast
  show ?thesis
    unfolding handle_chunk_def Let_def source_def b
    by (cases "staging_active u") (intro disjI2 exI [of _ u], simp_all)
qed

lemma ws_ok_data:
  assumes "ws_ok s" and "sound_event e"
  shows "ws_ok (handle_data (ws_platform d R) e s)"
proof -
  let ?P = "ws_platform d R"
  define u where "u = (if staging_epoch s \<noteq> epoch s \<or> \<not> is_open ?P s
    then (reset_staging s)\<lparr>staging_epoch := epoch s\<rparr> else s)"
  have u: "ws_ok u" using assms(1) by (simp add: u_def)
  have h: "handle_data ?P e s =
      (if \<not> is_open ?P u \<or> malformed e \<or> \<not> is_data e then u else handle_chunk ?P (epoch s) e u)"
    unfolding handle_data_def Let_def u_def [symmetric] malformed_def is_data_def by simp
  show ?thesis
  proof (cases "\<not> is_open ?P u \<or> malformed e \<or> \<not> is_data e")
    case True
    then show ?thesis unfolding h using u by simp
  next
    case False
    then have i: "ws_initialized u" using ws_open_initialized by blast
    let ?source = "case data_ptr e of None \<Rightarrow> [] | Some source \<Rightarrow> source"
    have n: "nat (data_len e) \<le> length ?source"
      using False assms(2) by (auto simp: malformed_def sound_event_def split: option.splits)
    have v: "ws_ok v \<and> ws_initialized v" if "v = u \<or> v = (reset_staging u)\<lparr>staging_active := True\<rparr>" for v
      using that u i by (auto simp: ws_ok_def reset_staging_def)
    then have a: "ws_ok (add_chunk ?source (nat (data_len e)) v)"
      if "v = u \<or> v = (reset_staging u)\<lparr>staging_active := True\<rparr>" for v
      using that n ws_ok_add by blast
    have "ws_ok (handle_chunk ?P (epoch s) e u)"
      using handle_chunk_cases [of ?P "epoch s" e u] u v a ws_ok_finish ws_ok_staging(1) by metis
    then show ?thesis using h u by (simp split: if_splits)
  qed
qed

lemma ws_ok_event:
  assumes "ws_ok s" and "\<forall>e. event = WEBSOCKET_EVENT_DATA (Some e) \<longrightarrow> sound_event e"
  shows "ws_ok (websocket_event_handler (ws_platform d R) null_arg event s)"
  using assms ws_ok_link ws_ok_data
  by (auto simp: websocket_event_handler_def split: ws_event.split option.split)

lemma ws_ok_reconnect: "ws_ok s \<Longrightarrow> reconnect d s = (r, t) \<Longrightarrow> ws_ok t"
  using ws_ok_close [of s]
  by (auto simp: reconnect_def close_session_def Let_def split: if_splits prod.splits)

lemma ws_ok_teardown: "ws_ok s \<Longrightarrow> dead s \<Longrightarrow> tx_pending s = 0 \<Longrightarrow> ws_ok (ws_teardown s)"
  by (simp add: ws_ok_def ws_teardown_def destroy_queues_def)

lemma ws_ok_start:
  assumes "ws_ok v" "dead v" "tx_pending v = 0" and "ws_start d R v = (r, t)"
  shows "ws_ok t"
proof -
  obtain sr w where i: "client_start d (net v) = (sr, w)" by force
  obtain tr x where x: "spawn_tx_task R (v\<lparr>net := w\<rparr>) = (tr, x)" by force
  have xo: "ws_ok x" "dead x" "tx_pending x = 0"
    using x assms by (auto simp: spawn_tx_task_def ws_ok_def split: if_splits)
  have "(\<exists>w. t = ws_teardown (v\<lparr>net := w\<rparr>)) \<or> t = x \<or> (\<exists>w. t = ws_teardown (x\<lparr>net := w\<rparr>))"
    using assms(4) i x by (auto simp: ws_start_def Let_def split: if_splits)
  then show ?thesis using assms xo by (auto intro: ws_ok_teardown)
qed

lemma ws_ok_init:
  assumes "ws_ok s" and "ws_init d R config s = (r, t)"
  shows "ws_ok t"
proof (cases "ws_initialized s \<or> \<not> ws_heap_available d (net s)")
  case True
  then show ?thesis using assms by (auto simp: ws_init_def split: if_splits)
next
  case False
  obtain qr u where q: "create_queues R s = (qr, u)" by force
  have idle: "dead s" "tx_pending s = 0" "ring_buffer s = None"
    using assms(1) False by (auto simp: ws_ok_def)
  note u = create_outcome [OF q idle] ws_more_fields [OF create_outcome(1) [OF q idle]]
  have gone: "ws_ok (destroy_queues (u\<lparr>net := w\<rparr>))" for w
    using u assms(1) False by (simp add: ws_ok_def destroy_queues_def)
  show ?thesis
  proof (cases "qr = ESP_OK")
    case bad: False
    then have "t = u" using False assms(2) q by (simp add: ws_init_def Let_def)
    with u bad assms(1) False show ?thesis by (simp add: ws_ok_def)
  next
    case ok: True
    obtain made w where m: "client_init d (client_config_of config) (net u) = (made, w)" by force
    obtain rr x where x: "register_events d w = (rr, x)" by force
    let ?v = "u\<lparr>net := x, client := True,
      staging_buffer := Some (map (ws_heap_byte d (net s)) [0..<MAX_FRAME_SIZE]), ws_initialized := True\<rparr>"
    have v: "ws_ok ?v" "dead ?v" "tx_pending ?v = 0"
      using u ok False assms(1) by (simp_all add: ws_ok_def)
    have "(\<exists>w. t = destroy_queues (u\<lparr>net := w\<rparr>)) \<or> ws_start d R ?v = (r, t)"
      using assms(2) False q ok m x
      by (auto simp: ws_init_def Let_def split: if_splits)
    then show ?thesis using gone ws_ok_start [OF v] by blast
  qed
qed

lemma ws_ok_run: "ws_run d R s \<Longrightarrow> ws_ok s"
proof (induction rule: ws_run.induct)
  case (ws_run_new w)
  then show ?case by (simp add: ws_ok_def new_websocket_def new_queue_def websocket_transport.defs)
qed (rule ws_ok_staging(4) [THEN iffD2] ws_ok_init ws_ok_event ws_ok_reconnect ws_ok_begin
    ws_ok_close [folded close_session_def] ws_ok_enqueue ws_ok_read ws_ok_end_read ws_ok_service; assumption)+


section \<open>Sending over a reliable client\<close>

text \<open>
  A client that, while connected, sends every frame whole and stays connected; \<open>sent\<close> reads the
  frames it has sent.
\<close>

definition reliable :: "'w ws_client \<Rightarrow> ('w \<Rightarrow> bytes list) \<Rightarrow> bool" where
  "reliable d sent \<longleftrightarrow> (\<forall>f ticks w. client_is_connected d w \<longrightarrow>
     (case send_bin d f ticks w of (n, w') \<Rightarrow>
        n = int (length f) \<and> client_is_connected d w' \<and> sent w' = sent w @ [f]))"

lemma ws_send:
  assumes "reliable d sent" and "is_open (ws_platform d R) s"
  shows "\<exists>w. ws_deliver_tx_frame d R f log s = Some (True, s\<lparr>net := w\<rparr>) \<and>
    client_is_connected d w \<and> sent w = sent (net s) @ [f]"
proof -
  have s: "is_open (ws_link d R) s" "client_is_connected d (net s)"
    using assms(2)
    by (simp_all add: is_open_def link_is_connected_def ws_platform_def ws_link_def ws_physical_link_open_def)
  obtain n w where w: "send_bin d f (timeout_to_ticks (tick_rate_hz R) (if log then 20 else WS_SEND_TIMEOUT_MS)) (net s) = (n, w)"
    by force
  then have "n = int (length f) \<and> client_is_connected d w \<and> sent w = sent (net s) @ [f]"
    using assms(1) [unfolded reliable_def, rule_format, OF s(2), of f
        "timeout_to_ticks (tick_rate_hz R) (if log then 20 else WS_SEND_TIMEOUT_MS)"] by simp
  then show ?thesis using s(1) w by (intro exI [of _ w]) (simp add: ws_deliver_tx_frame_def)
qed

lemma ws_serve_one:
  assumes "reliable d sent" and "is_open (ws_platform d R) s" "\<not> tx_busy s"
    and "tx_ring s = Some tx" "log_ring s = Some lg" and "tx @ lg = f # rest"
  shows "\<exists>t tx' lg'. service_tx (ws_platform d R) s = Some (True, t) \<and> is_open (ws_platform d R) t \<and>
    \<not> tx_busy t \<and> tx_ring t = Some tx' \<and> log_ring t = Some lg' \<and> tx' @ lg' = rest \<and>
    sent (net t) = sent (net s) @ [f]"
proof -
  obtain log u tx' lg' where u: "tx_take (ws_platform d R) s = (Some (f, log), u)" "tx_ring u = Some tx'"
      "log_ring u = Some lg'" "tx' @ lg' = rest" "net u = net s" "is_open (ws_platform d R) u"
  proof (cases tx)
    case Nil
    then show ?thesis
      using assms that [of True "s\<lparr>log_ring := Some rest, tx_pending := tx_pending s - 1, tx_busy := True\<rparr>" "[]" rest]
      by (simp add: tx_take_def Let_def is_open_def link_is_connected_def ws_platform_def ws_link_def
          ws_physical_link_open_def)
  next
    case (Cons g gs)
    then show ?thesis
      using assms that [of False "s\<lparr>tx_ring := Some gs, tx_pending := tx_pending s - 1, tx_busy := True\<rparr>" gs lg]
      by (simp add: tx_take_def Let_def is_open_def link_is_connected_def ws_platform_def ws_link_def
          ws_physical_link_open_def)
  qed
  obtain w where w: "ws_deliver_tx_frame d R f log u = Some (True, u\<lparr>net := w\<rparr>)"
      "client_is_connected d w" "sent w = sent (net u) @ [f]"
    using ws_send [OF assms(1) u(6)] by blast
  have "service_tx (ws_platform d R) s = Some (True, tx_finish True (u\<lparr>net := w\<rparr>))"
    using u(1) w(1) by (simp add: service_tx_def ws_platform_def)
  moreover have "is_open (ws_platform d R) (tx_finish True (u\<lparr>net := w\<rparr>))"
    using u(6) w(2)
    by (simp add: is_open_def link_is_connected_def ws_platform_def ws_link_def ws_physical_link_open_def
        tx_finish_def)
  ultimately show ?thesis using u w(3) by (simp add: tx_finish_def)
qed

lemma ws_serve_all:
  assumes "reliable d sent" and "is_open (ws_platform d R) s" "\<not> tx_busy s"
    and "tx_ring s = Some tx" "log_ring s = Some lg"
  shows "\<exists>t. tx_drain (ws_platform d R) s = Some t \<and> is_open (ws_platform d R) t \<and>
    tx_ring t = Some [] \<and> log_ring t = Some [] \<and> sent (net t) = sent (net s) @ tx @ lg"
  using assms(2-)
proof (induction "tx @ lg" arbitrary: s tx lg)
  case Nil
  then have "service_tx (ws_platform d R) s = Some (False, s)"
    by (simp add: service_tx_def tx_take_def Let_def)
  then show ?case using Nil by (subst tx_drain.simps) simp
next
  case (Cons f rest)
  obtain t tx' lg' where t: "service_tx (ws_platform d R) s = Some (True, t)" "is_open (ws_platform d R) t"
      "\<not> tx_busy t" "tx_ring t = Some tx'" "log_ring t = Some lg'" "tx' @ lg' = rest"
      "sent (net t) = sent (net s) @ [f]"
    using ws_serve_one [OF assms(1) Cons.prems Cons.hyps(2) [symmetric]] by blast
  then obtain u where u: "tx_drain (ws_platform d R) t = Some u" "is_open (ws_platform d R) u"
      "tx_ring u = Some []" "log_ring u = Some []" "sent (net u) = sent (net t) @ tx' @ lg'"
    using Cons.hyps(1) [of tx' lg' t] by auto
  have "tx_drain (ws_platform d R) s = Some u" using t(1) u(1) by (subst tx_drain.simps) simp
  moreover have "sent (net u) = sent (net s) @ tx @ lg"
    using u(5) t(6,7) Cons.hyps(2) by (metis append.assoc append_Cons append_Nil)
  ultimately show ?case using u by blast
qed

section \<open>A loopback client\<close>

text \<open>A concrete client, always connected, whose state is the frames sent, and an RTOS beside it.\<close>

definition loop_client :: "bytes list ws_client" where
  "loop_client = \<lparr>ws_heap_available = \<lambda>w. True, ws_heap_byte = \<lambda>w i. 0xA5,
     client_init = \<lambda>c w. (True, w), client_destroy = \<lambda>w. w, register_events = \<lambda>w. (ESP_OK, w),
     unregister_events = \<lambda>w. w, client_start = \<lambda>w. (ESP_OK, w), client_stop = \<lambda>w. (ESP_OK, w),
     client_is_connected = \<lambda>w. True, send_bin = \<lambda>f ticks w. (int (length f), w @ [f])\<rparr>"

definition loop_tasks :: "bytes list websocket_transport platform" where
  "loop_tasks = \<lparr>physical_link_open = \<lambda>s. False, reset_wire_buffers = \<lambda>s. s,
     deliver_tx_frame = \<lambda>f log s. None, ring_accepts = \<lambda>r item s. True,
     mutex_available = \<lambda>s. True, ring_available = \<lambda>r n s. True, task_available = \<lambda>s. True,
     tick_count = \<lambda>s. 0, task_delay = \<lambda>d s. s, tick_rate_hz = 100\<rparr>"

definition loop_config :: ws_config where
  "loop_config = \<lparr>disable_auto_reconnect = False, enable_close_reconnect = True, buffer_size = 1024\<rparr>"

text \<open>A session on it: initialised, connected, accepted.\<close>

definition loop_ready_ws :: "bytes list websocket_transport" where
  "loop_ready_ws = snd (ws_init loop_client loop_tasks loop_config (new_websocket []))"

definition loop_connected :: "bytes list websocket_transport" where
  "loop_connected = websocket_event_handler (ws_platform loop_client loop_tasks) False WEBSOCKET_EVENT_CONNECTED loop_ready_ws"

definition loop_session :: "bytes list websocket_transport" where
  "loop_session = snd (begin_session (ws_platform loop_client loop_tasks) loop_connected)"

lemma loop_ws_run: "ws_run loop_client loop_tasks loop_session"
proof -
  have "ws_run loop_client loop_tasks loop_ready_ws"
    unfolding loop_ready_ws_def by (rule ws_run_init [OF ws_run_new surjective_pairing])
  then have "ws_run loop_client loop_tasks loop_connected"
    unfolding loop_connected_def by (rule ws_run_event) simp
  then show ?thesis
    unfolding loop_session_def by (rule ws_run_begin [OF _ surjective_pairing])
qed

lemmas loop_ws_defs = loop_session_def loop_connected_def loop_ready_ws_def loop_client_def loop_tasks_def
  ws_init_def ws_start_def new_websocket_def new_queue_def websocket_transport.defs create_queues_def
  spawn_tx_task_def websocket_event_handler_def link_changed_def close_locked_def reset_staging_def
  begin_session_def link_is_connected_def is_open_def ws_platform_def ws_link_def ws_physical_link_open_def
  Let_def

lemma loop_session_open:
  "is_open (ws_platform loop_client loop_tasks) loop_session" "\<not> tx_busy loop_session"
  "tx_ring loop_session = Some []" "log_ring loop_session = Some []" "net loop_session = []"
  by (simp_all add: loop_ws_defs)


section \<open>Properties\<close>

text \<open>C22. Whatever sequence of initialisations, client events, reconnections, writes, reads and sends
  a WebSocket transport goes through, over any client and RTOS, no copy has left the 8192-byte
  staging buffer or its chunk, and an initialised transport has its buffer and queues.\<close>

theorem ws_memory_safe:
  assumes "ws_run d R s"
  shows "\<not> misplaced s \<and> staging_received s \<le> MAX_FRAME_SIZE \<and>
    (ws_initialized s \<longrightarrow> staging_buffer s \<noteq> None \<and> ring_buffer s \<noteq> None \<and> tx_ring s \<noteq> None \<and>
      log_ring s \<noteq> None) \<and>
    (\<not> ws_initialized s \<longrightarrow> dead s)"
  using ws_ok_run [OF assms] by (auto simp: ws_ok_def queues_ok_def)

theorem ws_memory_safe_witness: "\<not> misplaced loop_session"
  using ws_memory_safe [OF loop_ws_run] by blast

text \<open>C30. The handler of data events refines the reassembly automaton: for any sequence of events, of
  any opcode, length and offset, from any state, the packets delivered and the message staged
  afterwards are the automaton's, and it is reset with the session.\<close>

theorem ws_handler_refines:
  assumes "ws_blind R" and "ws_ready s" and "\<forall>e \<in> set es. sound_event e"
  shows "ws_abs (ws_platform d R) (fold (handle_data (ws_platform d R)) es s) =
    fold (stage_machine (ws_platform d R)) es (ws_abs (ws_platform d R) s)"
  using handle_all_refines [OF assms] by blast

lemma loop_tasks_blind: "ws_blind loop_tasks"
  by (simp add: ws_blind_def loop_tasks_def)

lemma loop_session_ready: "ws_ready loop_session"
  using ws_ok_run [OF loop_ws_run] ws_open_initialized [OF loop_session_open(1)]
  by (simp add: ws_ok_def ws_ready_def)

theorem ws_handler_refines_witness:
  "staged (ws_platform loop_client loop_tasks) (fold (handle_data (ws_platform loop_client loop_tasks))
     (frame_events WS_TRANSPORT_OPCODES_BINARY False 3 0 [[1], [2]]) loop_session) = Staged [1, 2]"
proof -
  define es where "es = frame_events WS_TRANSPORT_OPCODES_BINARY False 3 0 [[1], [2]]"
  have "staged (ws_platform loop_client loop_tasks) loop_session = Empty"
    by (simp add: staged_def loop_ws_defs)
  then have "fold (stage_machine (ws_platform loop_client loop_tasks)) es
      (ws_abs (ws_platform loop_client loop_tasks) loop_session) = (unstaged loop_session, Staged [1, 2])"
    using loop_session_open(1)
    by (simp add: es_def ws_abs_def stage_machine_def stage_step_def malformed_def is_data_def starts_def
        chunk_def)
  moreover have "\<forall>e \<in> set es. sound_event e"
    by (simp add: es_def sound_event_def)
  ultimately show ?thesis
    using ws_handler_refines [OF loop_tasks_blind loop_session_ready, of es loop_client]
    unfolding es_def [symmetric] by (simp add: ws_abs_def)
qed

text \<open>C21. Reassembly: a message split into WebSocket frames, the frames into chunks, with control
  frames between the chunks anywhere, is delivered once, whole, when it has at most 8192 bytes,
  and dropped without a trace when it is longer; nothing is staged afterwards.\<close>

theorem ws_reassembly:
  assumes "ws_blind R" and "ws_ready s" and "\<forall>e \<in> set es. sound_event e"
    and "is_open (ws_platform d R) s" and "fs \<noteq> []" and "\<forall>f \<in> set fs. chunked f"
    and "filter is_data es = message_events WS_TRANSPORT_OPCODES_BINARY fs"
  shows "let t = fold (handle_data (ws_platform d R)) es s; m = concat (concat fs) in
    unstaged t = (if length m \<le> MAX_FRAME_SIZE
      then deliver_packet (ws_platform d R) m (epoch s) (unstaged s) else unstaged s) \<and>
    staged (ws_platform d R) t = Empty"
proof -
  let ?P = "ws_platform d R"
  have "ws_abs ?P (fold (handle_data ?P) es s) = fold (stage_machine ?P) (filter is_data es) (ws_abs ?P s)"
    using handle_all_refines [OF assms(1-3), of d] assms(4)
      machine_control [of ?P "unstaged s" "staged ?P s" es] by (simp add: ws_abs_def)
  also have "\<dots> = completed ?P True (add_bytes (concat (concat fs)) (Staged [])) (unstaged s)"
    using assms(4-6) by (simp add: assms(7) ws_abs_def message_machine enter_def)
  finally have "ws_abs ?P (fold (handle_data ?P) es s) =
      completed ?P True (add_bytes (concat (concat fs)) (Staged [])) (unstaged s)" .
  then show ?thesis
    by (cases "length (concat (concat fs)) \<le> MAX_FRAME_SIZE") (simp_all add: ws_abs_def completed_def Let_def)
qed

theorem ws_reassembly_witness:
  "unstaged (fold (handle_data (ws_platform loop_client loop_tasks))
     [\<lparr>payload_len = 2, payload_offset = 0, data_len = 2, data_ptr = Some [7, 8], op_code = 2, fin = False\<rparr>,
      \<lparr>payload_len = 0, payload_offset = 0, data_len = 0, data_ptr = None, op_code = 9, fin = True\<rparr>,
      \<lparr>payload_len = 1, payload_offset = 0, data_len = 1, data_ptr = Some [9], op_code = 0, fin = True\<rparr>] loop_session) =
   deliver_packet (ws_platform loop_client loop_tasks) [7, 8, 9] (epoch loop_session) (unstaged loop_session)"
proof -
  define es :: "ws_data list" where "es =
     [\<lparr>payload_len = 2, payload_offset = 0, data_len = 2, data_ptr = Some [7, 8], op_code = 2, fin = False\<rparr>,
      \<lparr>payload_len = 0, payload_offset = 0, data_len = 0, data_ptr = None, op_code = 9, fin = True\<rparr>,
      \<lparr>payload_len = 1, payload_offset = 0, data_len = 1, data_ptr = Some [9], op_code = 0, fin = True\<rparr>]"
  have "\<forall>e \<in> set es. sound_event e"
    "filter is_data es = message_events WS_TRANSPORT_OPCODES_BINARY [[[7, 8]], [[9]]]"
    "\<forall>f \<in> set [[[7, 8]], [[9 :: u8]]]. chunked f"
    by (simp_all add: es_def sound_event_def is_data_def chunked_def)
  then show ?thesis
    using ws_reassembly [OF loop_tasks_blind loop_session_ready _ loop_session_open(1),
        of es "[[[7, 8]], [[9]]]"]
    unfolding es_def [symmetric] by (simp add: Let_def)
qed

text \<open>C31. Sending makes progress: over a reliable client the TX task sends every queued frame, whole
  and once, control frames before logs and each kind in the order written, and stays connected.\<close>

theorem ws_tx_delivers:
  assumes "reliable d sent" and "is_open (ws_platform d R) s" and "\<not> tx_busy s"
    and "tx_ring s = Some tx" and "log_ring s = Some lg"
  shows "\<exists>t. tx_drain (ws_platform d R) s = Some t \<and> is_open (ws_platform d R) t \<and>
    tx_ring t = Some [] \<and> log_ring t = Some [] \<and> sent (net t) = sent (net s) @ tx @ lg"
  using ws_serve_all [OF assms] .

theorem ws_tx_delivers_witness:
  "\<exists>t. tx_drain (ws_platform loop_client loop_tasks)
      (loop_session\<lparr>tx_ring := Some [[1], [2]], log_ring := Some [[3]]\<rparr>) = Some t \<and> net t = [[1], [2], [3]]"
proof -
  have "reliable loop_client (\<lambda>w. w)" by (simp add: reliable_def loop_client_def)
  moreover have "is_open (ws_platform loop_client loop_tasks)
      (loop_session\<lparr>tx_ring := Some [[1], [2]], log_ring := Some [[3]]\<rparr>)"
    using loop_session_open(1)
    by (simp add: is_open_def link_is_connected_def ws_platform_def ws_link_def ws_physical_link_open_def)
  ultimately show ?thesis
    using ws_tx_delivers [of loop_client "\<lambda>w. w" loop_tasks
        "loop_session\<lparr>tx_ring := Some [[1], [2]], log_ring := Some [[3]]\<rparr>" "[[1], [2]]" "[[3]]"]
      loop_session_open by auto
qed



end
