(* ===== verification/Nanopb_Machine.thy ===== *)
theory Nanopb_Machine
  imports Prelude
begin

text \<open>
  The machine the vendored protobuf runtime (\<open>nanopb/\<close>) runs on: a byte memory that holds the
  message structs, one current input stream (\<open>pb_istream_t\<close>), one current output stream
  (\<open>pb_ostream_t\<close>) and the state of the user's callbacks. Substreams are local variables in the
  code; here \<open>on_istream\<close> and \<open>on_ostream\<close> run a computation with another stream as the current
  one. The configuration is the one the component is built with (no \<open>PB_*\<close> macro is defined):
  64-bit integers, error messages, 16-bit \<open>pb_size_t\<close>, no \<open>malloc\<close>; \<open>size_t\<close> and pointers have 32
  bits. Address 0 is the null pointer. The flag \<open>pb_ub\<close> records that an access left its buffer,
  that an array of constants was indexed past its end or that a loop or the call stack exceeded
  the bound the model gives it: proving that it stays unset proves all of these absent.
  \<open>pb_fixed_count\<close> is \<open>fixed_count_size\<close>, the one local variable of the decoder that is reached
  through a pointer.
\<close>

section \<open>Streams\<close>

text \<open>
  \<open>pb_istream_t\<close> with the callback \<open>buf_read\<close>: \<open>is_buf\<close> is the caller's buffer, \<open>is_state\<close> the
  position of the \<open>state\<close> pointer in it. \<open>pb_ostream_t\<close>: \<open>sizing\<close> is \<open>callback == NULL\<close>, otherwise
  the callback is \<open>buf_write\<close>, \<open>os_buf\<close> the destination and \<open>os_state\<close> the position in it.
\<close>

record pb_istream =
  is_buf :: bytes
  is_state :: nat
  bytes_left :: u32
  is_errmsg :: "string option"

record pb_ostream =
  sizing :: bool
  os_buf :: bytes
  os_state :: nat
  max_size :: u32
  bytes_written :: u32
  os_errmsg :: "string option"

record 'w pb =
  pb_mem :: bytes
  pb_in :: pb_istream
  pb_out :: pb_ostream
  pb_fixed_count :: u16
  pb_world :: 'w
  pb_ub :: bool

definition pb_istream_from_buffer :: "bytes \<Rightarrow> u32 \<Rightarrow> pb_istream" where
  "pb_istream_from_buffer buf msglen =
     \<lparr>is_buf = buf, is_state = 0, bytes_left = msglen, is_errmsg = None\<rparr>"

definition PB_ISTREAM_EMPTY :: pb_istream where
  "PB_ISTREAM_EMPTY = \<lparr>is_buf = [], is_state = 0, bytes_left = 0, is_errmsg = None\<rparr>"

definition pb_ostream_from_buffer :: "bytes \<Rightarrow> u32 \<Rightarrow> pb_ostream" where
  "pb_ostream_from_buffer buf bufsize =
     \<lparr>sizing = False, os_buf = buf, os_state = 0, max_size = bufsize, bytes_written = 0,
      os_errmsg = None\<rparr>"

definition PB_OSTREAM_SIZING :: pb_ostream where
  "PB_OSTREAM_SIZING =
     \<lparr>sizing = True, os_buf = [], os_state = 0, max_size = 0, bytes_written = 0,
      os_errmsg = None\<rparr>"

section \<open>Control\<close>

definition fault :: "'a \<Rightarrow> ('w pb, 'a) st" where
  "fault a = do { modify (\<lambda>s. s\<lparr>pb_ub := True\<rparr>); return a }"

definition require :: "bool \<Rightarrow> ('w pb, unit) st" where
  "require c = (if c then return () else fault ())"

text \<open>\<open>if (!m) return false; k\<close>, for a call that returns \<open>bool\<close> and one with an out parameter.\<close>

definition and_then :: "('s, bool) st \<Rightarrow> ('s, bool) st \<Rightarrow> ('s, bool) st" where
  "and_then m k = do { ok \<leftarrow> m; if ok then k else return False }"

definition with_value ::
  "('s, 'a option) st \<Rightarrow> ('a \<Rightarrow> ('s, bool) st) \<Rightarrow> ('s, bool) st" where
  "with_value m k =
     do { r \<leftarrow> m; case r of None \<Rightarrow> return False | Some v \<Rightarrow> k v }"

definition map_value ::
  "('s, 'a option) st \<Rightarrow> ('a \<Rightarrow> ('s, 'b option) st) \<Rightarrow> ('s, 'b option) st" where
  "map_value m k =
     do { r \<leftarrow> m; case r of None \<Rightarrow> return None | Some v \<Rightarrow> k v }"

text \<open>
  \<open>PB_SET_ERROR\<close> keeps the first message; \<open>PB_RETURN_ERROR\<close> sets it and returns false. The
  versions with a suffix are for functions with an out parameter, whose value is \<open>None\<close> then.
\<close>

definition keep_first :: "'a option \<Rightarrow> 'a \<Rightarrow> 'a option" where
  "keep_first e msg = (case e of None \<Rightarrow> Some msg | Some m \<Rightarrow> Some m)"

definition set_in_error :: "string \<Rightarrow> ('w pb, unit) st" where
  "set_in_error msg =
     modify (\<lambda>s. s\<lparr>pb_in := (pb_in s)\<lparr>is_errmsg := keep_first (is_errmsg (pb_in s)) msg\<rparr>\<rparr>)"

definition in_error :: "string \<Rightarrow> ('w pb, bool) st" where
  "in_error msg = do { set_in_error msg; return False }"

definition in_error_v :: "string \<Rightarrow> ('w pb, 'a option) st" where
  "in_error_v msg = do { set_in_error msg; return None }"

definition set_out_error :: "string \<Rightarrow> ('w pb, unit) st" where
  "set_out_error msg =
     modify (\<lambda>s. s\<lparr>pb_out := (pb_out s)\<lparr>os_errmsg := keep_first (os_errmsg (pb_out s)) msg\<rparr>\<rparr>)"

definition out_error :: "string \<Rightarrow> ('w pb, bool) st" where
  "out_error msg = do { set_out_error msg; return False }"

section \<open>Substreams\<close>

definition on_istream :: "pb_istream \<Rightarrow> ('w pb, 'a) st \<Rightarrow> ('w pb, 'a \<times> pb_istream) st" where
  "on_istream sub m = do {
     outer \<leftarrow> gets pb_in;
     modify (\<lambda>s. s\<lparr>pb_in := sub\<rparr>);
     a \<leftarrow> m;
     sub' \<leftarrow> gets pb_in;
     modify (\<lambda>s. s\<lparr>pb_in := outer\<rparr>);
     return (a, sub')
   }"

definition on_ostream :: "pb_ostream \<Rightarrow> ('w pb, 'a) st \<Rightarrow> ('w pb, 'a \<times> pb_ostream) st" where
  "on_ostream sub m = do {
     outer \<leftarrow> gets pb_out;
     modify (\<lambda>s. s\<lparr>pb_out := sub\<rparr>);
     a \<leftarrow> m;
     sub' \<leftarrow> gets pb_out;
     modify (\<lambda>s. s\<lparr>pb_out := outer\<rparr>);
     return (a, sub')
   }"

section \<open>Memory\<close>

text \<open>Reads and writes of message memory; \<open>p\<close> is an address, null is not readable.\<close>

definition in_mem :: "nat \<Rightarrow> nat \<Rightarrow> 'w pb \<Rightarrow> bool" where
  "in_mem p n s \<longleftrightarrow> n = 0 \<or> p \<noteq> 0 \<and> p + n \<le> length (pb_mem s)"

definition msg_read :: "nat \<Rightarrow> nat \<Rightarrow> ('w pb, bytes) st" where
  "msg_read p n = do {
     s \<leftarrow> State_Monad.get;
     if in_mem p n s then return (slice p n (pb_mem s))
     else fault (replicate n 0)
   }"

definition msg_write :: "nat \<Rightarrow> bytes \<Rightarrow> ('w pb, unit) st" where
  "msg_write p bs = do {
     s \<leftarrow> State_Monad.get;
     if in_mem p (length bs) s then modify (\<lambda>s. s\<lparr>pb_mem := splice p bs (pb_mem s)\<rparr>)
     else fault ()
   }"

definition mem_set :: "nat \<Rightarrow> u8 \<Rightarrow> nat \<Rightarrow> ('w pb, unit) st" where
  "mem_set p b n = msg_write p (replicate n b)"

definition read_u8 :: "nat \<Rightarrow> ('w pb, u8) st" where
  "read_u8 p = do { bs \<leftarrow> msg_read p 1; return (le_word bs) }"

definition read_u16 :: "nat \<Rightarrow> ('w pb, u16) st" where
  "read_u16 p = do { bs \<leftarrow> msg_read p 2; return (le_word bs) }"

definition read_u32 :: "nat \<Rightarrow> ('w pb, u32) st" where
  "read_u32 p = do { bs \<leftarrow> msg_read p 4; return (le_word bs) }"

definition read_u64 :: "nat \<Rightarrow> ('w pb, u64) st" where
  "read_u64 p = do { bs \<leftarrow> msg_read p 8; return (le_word bs) }"

end
