(* ===== verification/Nanopb_Stream.thy ===== *)
theory Nanopb_Stream
  imports Nanopb_Machine
begin

text \<open>
  The stream layer of nanopb: reading and writing of byte buffers, variable-length integers,
  zigzag and fixed-width integers, field tags, length-prefixed strings and the skipping of
  fields (\<open>nanopb/pb_encode.c\<close> up to \<open>pb_write\<close> and its section \<open>Helper functions\<close>,
  \<open>nanopb/pb_decode.c\<close> up to \<open>pb_close_string_substream\<close> and the functions \<open>pb_decode_*\<close>).
\<close>

abbreviation (input) PB_WT_VARINT :: u8 where "PB_WT_VARINT \<equiv> 0"
abbreviation (input) PB_WT_64BIT :: u8 where "PB_WT_64BIT \<equiv> 1"
abbreviation (input) PB_WT_STRING :: u8 where "PB_WT_STRING \<equiv> 2"
abbreviation (input) PB_WT_32BIT :: u8 where "PB_WT_32BIT \<equiv> 5"
abbreviation (input) PB_WT_PACKED :: u8 where "PB_WT_PACKED \<equiv> 255"

section \<open>Output\<close>

definition buf_write :: "bytes option \<Rightarrow> u32 \<Rightarrow> ('w pb, bool) st" where
  "buf_write buf count = do {
     o1 \<leftarrow> gets pb_out;
     require (os_state o1 + unat count \<le> length (os_buf o1));
     modify (\<lambda>s. s\<lparr>pb_out := (pb_out s)\<lparr>os_state := os_state o1 + unat count\<rparr>\<rparr>);
     (case buf of
        None \<Rightarrow> return ()
      | Some bs \<Rightarrow> modify (\<lambda>s. s\<lparr>pb_out := (pb_out s)\<lparr>os_buf :=
            splice (os_state o1) (take (unat count) bs) (os_buf o1)\<rparr>\<rparr>));
     return True
   }"

definition pb_write :: "bytes option \<Rightarrow> u32 \<Rightarrow> ('w pb, bool) st" where
  "pb_write buf count = do {
     o1 \<leftarrow> gets pb_out;
     ok \<leftarrow> (if count > 0 \<and> \<not> sizing o1
           then if bytes_written o1 + count < bytes_written o1
                   \<or> bytes_written o1 + count > max_size o1
                then out_error ''stream full''
                else do {
                  w \<leftarrow> buf_write buf count;
                  if \<not> w then out_error ''io error'' else return True
                }
           else return True);
     if \<not> ok then return False
     else do {
       modify (\<lambda>s. s\<lparr>pb_out := (pb_out s)\<lparr>bytes_written := bytes_written (pb_out s) + count\<rparr>\<rparr>);
       return True
     }
   }"

definition write_bytes :: "bytes \<Rightarrow> ('w pb, bool) st" where
  "write_bytes bs = pb_write (Some bs) (of_nat (length bs))"

section \<open>Encoding of integers\<close>

text \<open>
  \<open>pb_encode_varint_32\<close>: the first loop emits up to four groups of the low half
  (\<open>while (i < 4 && (low != 0 || high != 0))\<close>), the second the rest of the high half.
\<close>

fun varint_low :: "nat \<Rightarrow> u8 \<Rightarrow> u32 \<Rightarrow> u32 \<Rightarrow> bytes \<times> u8" where
  "varint_low 0 byte low high = ([], byte)"
| "varint_low (Suc k) byte low high =
     (if low \<noteq> 0 \<or> high \<noteq> 0
      then (case varint_low k (ucast (low AND 0x7F)) (drop_bit 7 low) high of
              (bs, b) \<Rightarrow> ((byte OR 0x80) # bs, b))
      else ([], byte))"

function varint_high :: "u8 \<Rightarrow> u32 \<Rightarrow> bytes \<times> u8" where
  "varint_high byte high =
     (if high \<noteq> 0
      then (case varint_high (ucast (high AND 0x7F)) (drop_bit 7 high) of
              (bs, b) \<Rightarrow> ((byte OR 0x80) # bs, b))
      else ([], byte))"
  by pat_completeness auto

lemma unat_drop_bit: "unat (drop_bit n (w :: 'a::len word)) = unat w div 2 ^ n"
  by (metis drop_bit_eq_div unat_drop_bit_eq)

termination varint_high
  by (relation "measure (\<lambda>(byte, high). unat high)")
    (auto simp: unat_drop_bit unat_gt_0 intro!: div_less_dividend)

declare varint_high.simps [simp del]

definition varint_32_bytes :: "u32 \<Rightarrow> u32 \<Rightarrow> bytes" where
  "varint_32_bytes low high =
     (case varint_low 4 (ucast (low AND 0x7F)) (drop_bit 7 low) high of (bs, byte) \<Rightarrow>
        if high \<noteq> 0
        then (case varint_high (byte OR ucast (push_bit 4 (high AND 0x07))) (drop_bit 3 high) of
                (cs, byte) \<Rightarrow> bs @ cs @ [byte])
        else bs @ [byte])"

definition pb_encode_varint_32 :: "u32 \<Rightarrow> u32 \<Rightarrow> ('w pb, bool) st" where
  "pb_encode_varint_32 low high = do {
     require (length (varint_32_bytes low high) \<le> 10);
     write_bytes (varint_32_bytes low high)
   }"

definition pb_encode_varint :: "u64 \<Rightarrow> ('w pb, bool) st" where
  "pb_encode_varint value =
     (if value \<le> 0x7F then write_bytes [ucast value]
      else pb_encode_varint_32 (ucast value) (ucast (drop_bit 32 value)))"

definition zigzag :: "u64 \<Rightarrow> u64" where
  "zigzag value =
     (let mask = drop_bit 1 (- 1)
      in if value <s 0 then NOT (push_bit 1 (value AND mask)) else push_bit 1 value)"

definition pb_encode_svarint :: "u64 \<Rightarrow> ('w pb, bool) st" where
  "pb_encode_svarint value = pb_encode_varint (zigzag value)"

definition pb_encode_fixed32 :: "u32 \<Rightarrow> ('w pb, bool) st" where
  "pb_encode_fixed32 val = write_bytes (le_bytes 4 val)"

definition pb_encode_fixed64 :: "u64 \<Rightarrow> ('w pb, bool) st" where
  "pb_encode_fixed64 val = write_bytes (le_bytes 8 val)"

definition pb_encode_tag :: "u8 \<Rightarrow> u32 \<Rightarrow> ('w pb, bool) st" where
  "pb_encode_tag wiretype field_number =
     pb_encode_varint (push_bit 3 (ucast field_number) OR ucast wiretype)"

definition pb_encode_string :: "bytes option \<Rightarrow> u32 \<Rightarrow> ('w pb, bool) st" where
  "pb_encode_string buffer count =
     and_then (pb_encode_varint (ucast count)) (pb_write buffer count)"

section \<open>Input\<close>

definition buf_read :: "u32 \<Rightarrow> ('w pb, bytes) st" where
  "buf_read count = do {
     i \<leftarrow> gets pb_in;
     require (is_state i + unat count \<le> length (is_buf i));
     modify (\<lambda>s. s\<lparr>pb_in := (pb_in s)\<lparr>is_state := is_state i + unat count\<rparr>\<rparr>);
     return (slice (is_state i) (unat count) (is_buf i))
   }"

text \<open>The bytes go to the destination buffer, which is where the caller puts the value.\<close>

definition pb_read :: "u32 \<Rightarrow> ('w pb, bytes option) st" where
  "pb_read count =
     (if count = 0 then return (Some [])
      else do {
        i \<leftarrow> gets pb_in;
        if bytes_left i < count then in_error_v ''end-of-stream''
        else do {
          bs \<leftarrow> buf_read count;
          modify (\<lambda>s. s\<lparr>pb_in := (pb_in s)\<lparr>bytes_left :=
              if bytes_left (pb_in s) < count then 0 else bytes_left (pb_in s) - count\<rparr>\<rparr>);
          return (Some bs)
        }
      })"

definition pb_readbyte :: "('w pb, u8 option) st" where
  "pb_readbyte = do {
     i \<leftarrow> gets pb_in;
     if bytes_left i = 0 then in_error_v ''end-of-stream''
     else do {
       bs \<leftarrow> buf_read 1;
       modify (\<lambda>s. s\<lparr>pb_in := (pb_in s)\<lparr>bytes_left := bytes_left (pb_in s) - 1\<rparr>\<rparr>);
       return (Some (le_word bs))
     }
   }"

section \<open>Decoding of integers\<close>

fun varint32_loop :: "nat \<Rightarrow> nat \<Rightarrow> u32 \<Rightarrow> ('w pb, u32 option) st" where
  "varint32_loop 0 bitpos result = fault None"
| "varint32_loop (Suc n) bitpos result =
     map_value pb_readbyte (\<lambda>byte.
       map_value
         (if bitpos \<ge> 32 then
            let sign_extension = (if bitpos < 63 then 0xFF else 0x01);
                valid_extension = (byte AND 0x7F = 0
                  \<or> drop_bit 31 result \<noteq> 0 \<and> byte = sign_extension)
            in if bitpos \<ge> 64 \<or> \<not> valid_extension then in_error_v ''varint overflow''
               else return (Some result)
          else if bitpos = 28 then
            if byte AND 0x70 \<noteq> 0 \<and> byte AND 0x78 \<noteq> 0x78 then in_error_v ''varint overflow''
            else return (Some (result OR push_bit bitpos (ucast (byte AND 0x0F))))
          else return (Some (result OR push_bit bitpos (ucast (byte AND 0x7F)))))
         (\<lambda>result. if byte AND 0x80 \<noteq> 0 then varint32_loop n (bitpos + 7) result
                   else return (Some result)))"

text \<open>The second component is what the code leaves in \<open>*eof\<close> (set, or left as it was).\<close>

definition pb_decode_varint32_eof :: "('w pb, u32 option \<times> bool) st" where
  "pb_decode_varint32_eof = do {
     r \<leftarrow> pb_readbyte;
     case r of
       None \<Rightarrow> do { left \<leftarrow> gets (\<lambda>s. bytes_left (pb_in s)); return (None, left = 0) }
     | Some byte \<Rightarrow>
         if byte AND 0x80 = 0 then return (Some (ucast byte), False)
         else do { v \<leftarrow> varint32_loop 10 7 (ucast (byte AND 0x7F)); return (v, False) }
   }"

definition pb_decode_varint32 :: "('w pb, u32 option) st" where
  "pb_decode_varint32 = do { (v, eof) \<leftarrow> pb_decode_varint32_eof; return v }"

fun varint_loop :: "nat \<Rightarrow> nat \<Rightarrow> u64 \<Rightarrow> ('w pb, u64 option) st" where
  "varint_loop 0 bitpos result = fault None"
| "varint_loop (Suc n) bitpos result =
     map_value pb_readbyte (\<lambda>byte.
       if bitpos \<ge> 63 \<and> byte AND 0xFE \<noteq> 0 then in_error_v ''varint overflow''
       else let result = result OR push_bit bitpos (ucast (byte AND 0x7F))
            in if byte AND 0x80 \<noteq> 0 then varint_loop n (bitpos + 7) result
               else return (Some result))"

definition pb_decode_varint :: "('w pb, u64 option) st" where
  "pb_decode_varint = varint_loop 10 0 0"

definition unzigzag :: "u64 \<Rightarrow> u64" where
  "unzigzag value = (if value AND 1 \<noteq> 0 then NOT (drop_bit 1 value) else drop_bit 1 value)"

definition pb_decode_svarint :: "('w pb, u64 option) st" where
  "pb_decode_svarint = map_value pb_decode_varint (\<lambda>value. return (Some (unzigzag value)))"

definition pb_decode_bool :: "('w pb, bool option) st" where
  "pb_decode_bool = map_value pb_decode_varint32 (\<lambda>value. return (Some (value \<noteq> 0)))"

definition pb_decode_fixed32 :: "('w pb, u32 option) st" where
  "pb_decode_fixed32 = map_value (pb_read 4) (\<lambda>bs. return (Some (le_word bs)))"

definition pb_decode_fixed64 :: "('w pb, u64 option) st" where
  "pb_decode_fixed64 = map_value (pb_read 8) (\<lambda>bs. return (Some (le_word bs)))"

section \<open>Fields: tags, skipping, substreams\<close>

text \<open>
  \<open>pb_decode_tag\<close>: \<open>Some (wire_type, tag)\<close> when it returns true (both are 0 otherwise), and
  \<open>*eof\<close>.
\<close>

definition pb_decode_tag :: "('w pb, (u8 \<times> u32) option \<times> bool) st" where
  "pb_decode_tag = do {
     (r, eof) \<leftarrow> pb_decode_varint32_eof;
     case r of
       None \<Rightarrow> return (None, eof)
     | Some temp \<Rightarrow> return (Some (ucast (temp AND 7), drop_bit 3 temp), eof)
   }"

fun skip_varint_loop :: "nat \<Rightarrow> ('w pb, bool) st" where
  "skip_varint_loop 0 = fault False"
| "skip_varint_loop (Suc n) =
     with_value (pb_read 1) (\<lambda>bs.
       if hd bs AND 0x80 \<noteq> 0 then skip_varint_loop n else return True)"

definition pb_skip_varint :: "('w pb, bool) st" where
  "pb_skip_varint = do {
     left \<leftarrow> gets (\<lambda>s. bytes_left (pb_in s));
     skip_varint_loop (Suc (unat left))
   }"

definition pb_skip :: "u32 \<Rightarrow> ('w pb, bool) st" where
  "pb_skip count = with_value (pb_read count) (\<lambda>_. return True)"

definition pb_skip_string :: "('w pb, bool) st" where
  "pb_skip_string = with_value pb_decode_varint32 pb_skip"

definition pb_skip_field :: "u8 \<Rightarrow> ('w pb, bool) st" where
  "pb_skip_field wire_type =
     (if wire_type = PB_WT_VARINT then pb_skip_varint
      else if wire_type = PB_WT_64BIT then pb_skip 8
      else if wire_type = PB_WT_STRING then pb_skip_string
      else if wire_type = PB_WT_32BIT then pb_skip 4
      else in_error ''invalid wire_type'')"

fun raw_varint_loop :: "nat \<Rightarrow> ('w pb, bytes option) st" where
  "raw_varint_loop 0 = in_error_v ''varint overflow''"
| "raw_varint_loop (Suc room) =
     map_value (pb_read 1) (\<lambda>bs.
       if hd bs AND 0x80 \<noteq> 0
       then map_value (raw_varint_loop room) (\<lambda>cs. return (Some (hd bs # cs)))
       else return (Some [hd bs]))"

definition read_raw_value :: "u8 \<Rightarrow> nat \<Rightarrow> ('w pb, bytes option) st" where
  "read_raw_value wire_type room =
     (if wire_type = PB_WT_VARINT then raw_varint_loop room
      else if wire_type = PB_WT_64BIT then pb_read 8
      else if wire_type = PB_WT_32BIT then pb_read 4
      else in_error_v ''invalid wire_type'')"

definition pb_make_string_substream :: "('w pb, pb_istream option) st" where
  "pb_make_string_substream =
     map_value pb_decode_varint32 (\<lambda>count. do {
       i \<leftarrow> gets pb_in;
       if bytes_left i < count then in_error_v ''parent stream too short''
       else do {
         modify (\<lambda>s. s\<lparr>pb_in := i\<lparr>bytes_left := bytes_left i - count\<rparr>\<rparr>);
         return (Some (i\<lparr>bytes_left := count\<rparr>))
       }
     })"

definition pb_close_string_substream :: "pb_istream \<Rightarrow> ('w pb, bool) st" where
  "pb_close_string_substream sub = do {
     (ok, sub') \<leftarrow> (if bytes_left sub \<noteq> 0 then on_istream sub (pb_skip (bytes_left sub))
                   else return (True, sub));
     if \<not> ok then return False
     else do {
       modify (\<lambda>s. s\<lparr>pb_in := (pb_in s)\<lparr>is_state := is_state sub', is_errmsg := is_errmsg sub'\<rparr>\<rparr>);
       return True
     }
   }"

end
