(* ===== verification/Nanopb_Stream_Spec.thy ===== *)
theory Nanopb_Stream_Spec
  imports Nanopb_Stream
begin

section \<open>Machine\<close>

lemma run_fault [simp]: "run_state (fault a) s = (a, s\<lparr>pb_ub := True\<rparr>)"
  by (simp add: fault_def)

lemma run_require [simp]:
  "run_state (require c) s = ((), if c then s else s\<lparr>pb_ub := True\<rparr>)"
  by (simp add: require_def)

lemma run_and_then:
  "run_state (and_then m k) s = (case run_state m s of (ok, t) \<Rightarrow> if ok then run_state k t else (False, t))"
  by (simp add: and_then_def split: prod.split)

lemma run_with_value:
  "run_state (with_value m k) s =
     (case run_state m s of (None, t) \<Rightarrow> (False, t) | (Some v, t) \<Rightarrow> run_state (k v) t)"
  by (simp add: with_value_def split: prod.split option.split)

lemma run_map_value:
  "run_state (map_value m k) s =
     (case run_state m s of (None, t) \<Rightarrow> (None, t) | (Some v, t) \<Rightarrow> run_state (k v) t)"
  by (simp add: map_value_def split: prod.split option.split)

lemma run_on_istream:
  "run_state (on_istream sub m) s = (case run_state m (s\<lparr>pb_in := sub\<rparr>) of (a, t) \<Rightarrow>
     ((a, pb_in t), t\<lparr>pb_in := pb_in s\<rparr>))"
  by (simp add: on_istream_def split: prod.split)

lemma run_on_ostream:
  "run_state (on_ostream sub m) s = (case run_state m (s\<lparr>pb_out := sub\<rparr>) of (a, t) \<Rightarrow>
     ((a, pb_out t), t\<lparr>pb_out := pb_out s\<rparr>))"
  by (simp add: on_ostream_def split: prod.split)

section \<open>Input\<close>

text \<open>What is left to read of an input stream, and the stream after \<open>n\<close> bytes of it.\<close>

definition in_ok :: "pb_istream \<Rightarrow> bool" where
  "in_ok i \<longleftrightarrow> is_state i + unat (bytes_left i) \<le> length (is_buf i)"

definition avail :: "pb_istream \<Rightarrow> bytes" where
  "avail i = slice (is_state i) (unat (bytes_left i)) (is_buf i)"

definition consume :: "nat \<Rightarrow> pb_istream \<Rightarrow> pb_istream" where
  "consume n i = i\<lparr>is_state := is_state i + n, bytes_left := bytes_left i - of_nat n\<rparr>"

lemma length_avail: "in_ok i \<Longrightarrow> length (avail i) = unat (bytes_left i)"
  by (simp add: in_ok_def avail_def)

lemma consume_0 [simp]: "consume 0 i = i"
  by (simp add: consume_def)

lemma consume_consume [simp]: "consume m (consume n i) = consume (n + m) i"
  by (simp add: consume_def algebra_simps)

lemma unat_of_nat_le:
  assumes "n \<le> unat (w :: 'a::len word)"
  shows "unat (of_nat n :: 'a word) = n"
proof -
  have "n < 2 ^ LENGTH('a)" using assms unsigned_less [of w] by (rule order_le_less_trans)
  then show ?thesis by (simp add: unat_of_nat)
qed

lemma unat_minus_of_nat:
  assumes "n \<le> unat (w :: 'a::len word)"
  shows "unat (w - of_nat n) = unat w - n"
  using assms by (simp add: unat_sub_if_size unat_of_nat_le)

lemma unat_bytes_left_consume:
  "n \<le> unat (bytes_left i) \<Longrightarrow> unat (bytes_left (consume n i)) = unat (bytes_left i) - n"
  by (simp add: consume_def unat_minus_of_nat)

lemma in_ok_consume:
  "in_ok i \<Longrightarrow> n \<le> unat (bytes_left i) \<Longrightarrow> in_ok (consume n i)"
  using unat_bytes_left_consume [of n i] by (simp add: in_ok_def consume_def)

lemma avail_consume:
  "n \<le> unat (bytes_left i) \<Longrightarrow> avail (consume n i) = drop n (avail i)"
  using unat_bytes_left_consume [of n i]
  by (simp add: avail_def consume_def slice_def drop_take add.commute)

text \<open>The effect of a read of \<open>n\<close> bytes and of a failed one.\<close>

definition eat :: "nat \<Rightarrow> 'w pb \<Rightarrow> 'w pb" where
  "eat n s = s\<lparr>pb_in := consume n (pb_in s)\<rparr>"

definition fail_in :: "string \<Rightarrow> 'w pb \<Rightarrow> 'w pb" where
  "fail_in msg s = s\<lparr>pb_in := (pb_in s)\<lparr>is_errmsg := keep_first (is_errmsg (pb_in s)) msg\<rparr>\<rparr>"

lemma eat_0 [simp]: "eat 0 s = s"
  by (simp add: eat_def)

lemma eat_eat [simp]: "eat m (eat n s) = eat (n + m) s"
  by (simp add: eat_def)

lemma pb_in_eat [simp]: "pb_in (eat n s) = consume n (pb_in s)"
  by (simp add: eat_def)

lemma run_set_in_error [simp]: "run_state (set_in_error msg) s = ((), fail_in msg s)"
  by (simp add: set_in_error_def fail_in_def)

lemma run_in_error [simp]: "run_state (in_error msg) s = (False, fail_in msg s)"
  by (simp add: in_error_def)

lemma run_in_error_v [simp]: "run_state (in_error_v msg) s = (None, fail_in msg s)"
  by (simp add: in_error_v_def)

lemma run_buf_read:
  assumes "in_ok (pb_in s)" "n \<le> bytes_left (pb_in s)"
  shows "run_state (buf_read n) s =
    (take (unat n) (avail (pb_in s)), s\<lparr>pb_in := (pb_in s)\<lparr>is_state := is_state (pb_in s) + unat n\<rparr>\<rparr>)"
  using assms
  by (simp add: buf_read_def in_ok_def avail_def slice_def word_le_nat_alt min_def)

lemma run_pb_read:
  assumes "in_ok (pb_in s)"
  shows "run_state (pb_read n) s =
    (if n \<le> bytes_left (pb_in s) then (Some (take (unat n) (avail (pb_in s))), eat (unat n) s)
     else (None, fail_in ''end-of-stream'' s))"
proof (cases "n = 0")
  case True
  then show ?thesis by (simp add: pb_read_def)
next
  case False
  have "consume (unat n) (pb_in s) =
    (pb_in s)\<lparr>is_state := is_state (pb_in s) + unat n, bytes_left := bytes_left (pb_in s) - n\<rparr>"
    by (simp add: consume_def)
  with False assms show ?thesis
    by (simp add: pb_read_def run_buf_read eat_def linorder_not_le [symmetric])
qed

lemma run_pb_readbyte:
  assumes "in_ok (pb_in s)"
  shows "run_state pb_readbyte s =
    (case avail (pb_in s) of [] \<Rightarrow> (None, fail_in ''end-of-stream'' s) | b # _ \<Rightarrow> (Some b, eat 1 s))"
proof (cases "bytes_left (pb_in s) = 0")
  case True
  then show ?thesis by (simp add: pb_readbyte_def avail_def slice_def)
next
  case False
  then have "1 \<le> bytes_left (pb_in s)" by (simp add: word_le_nat_alt unat_gt_0 Suc_le_eq)
  moreover obtain b bs where "avail (pb_in s) = b # bs"
    using False length_avail [OF assms] by (cases "avail (pb_in s)") (auto simp: unat_eq_0)
  ultimately show ?thesis
    using False assms by (simp add: pb_readbyte_def run_buf_read eat_def consume_def)
qed

text \<open>
  \<open>parses m bs v\<close>: on any stream that starts with \<open>bs\<close>, \<open>m\<close> returns \<open>v\<close> and has read exactly
  \<open>bs\<close>.
\<close>

definition parses :: "('w pb, 'a option) st \<Rightarrow> bytes \<Rightarrow> 'a \<Rightarrow> bool" where
  "parses m bs v \<longleftrightarrow> (\<forall>s rest. in_ok (pb_in s) \<longrightarrow> avail (pb_in s) = bs @ rest \<longrightarrow>
     run_state m s = (Some v, eat (length bs) s))"

lemma parsesD:
  "parses m bs v \<Longrightarrow> in_ok (pb_in s) \<Longrightarrow> avail (pb_in s) = bs @ rest \<Longrightarrow>
   run_state m s = (Some v, eat (length bs) s)"
  by (simp add: parses_def)

lemma avail_le_bytes_left:
  "in_ok i \<Longrightarrow> avail i = bs @ rest \<Longrightarrow> length bs \<le> unat (bytes_left i)"
  using length_avail [of i] by simp

lemma parses_return: "parses (return (Some v)) [] v"
  by (simp add: parses_def)

lemma parses_map_value:
  fixes m :: "('w pb, 'a option) st"
  assumes "parses m bs v" "parses (k v) cs w"
  shows "parses (map_value m k) (bs @ cs) w"
  unfolding parses_def
proof (intro allI impI)
  fix s :: "'w pb" and rest assume ok: "in_ok (pb_in s)" and av: "avail (pb_in s) = (bs @ cs) @ rest"
  have le: "length bs \<le> unat (bytes_left (pb_in s))"
    using avail_le_bytes_left [OF ok, of bs "cs @ rest"] av by simp
  then have "in_ok (pb_in (eat (length bs) s))" "avail (pb_in (eat (length bs) s)) = cs @ rest"
    using ok av by (simp_all add: in_ok_consume avail_consume)
  then show "run_state (map_value m k) s = (Some w, eat (length (bs @ cs)) s)"
    using parsesD [OF assms(1) ok, of "cs @ rest"] parsesD [OF assms(2)] av
    by (simp add: run_map_value)
qed

lemma parses_readbyte: "parses pb_readbyte [b] b"
  by (simp add: parses_def run_pb_readbyte)

lemma parses_pb_read:
  assumes "unat n = length bs"
  shows "parses (pb_read n :: ('w pb, bytes option) st) bs bs"
  unfolding parses_def
proof (intro allI impI)
  fix s :: "'w pb" and rest assume ok: "in_ok (pb_in s)" and av: "avail (pb_in s) = bs @ rest"
  then have "n \<le> bytes_left (pb_in s)"
    using avail_le_bytes_left [OF ok av] assms by (simp add: word_le_nat_alt)
  then show "run_state (pb_read n) s = (Some bs, eat (length bs) s)"
    using ok av assms by (simp add: run_pb_read)
qed

end
