(* ===== verification/Nanopb_Varint.thy ===== *)
theory Nanopb_Varint
  imports Nanopb_Stream_Spec
begin

fun leb128 :: "nat \<Rightarrow> bytes" where
  "leb128 n = (if n < 128 then [of_nat n] else of_nat (n mod 128 + 128) # leb128 (n div 128))"

declare leb128.simps [simp del]

lemma byte_and_7F: "b AND 0x7F = of_nat (unat b mod 128)" for b :: u8
proof -
  have "b AND 0x7F = take_bit 7 b" by (simp add: take_bit_eq_mask mask_eq_exp_minus_1)
  also have "\<dots> = of_nat (unat b mod 128)"
    by (rule word_unat_eq_iff [THEN iffD2])
      (simp add: unat_of_nat unsigned_take_bit_eq take_bit_eq_mod [of 7 "unat b"])
  finally show ?thesis .
qed

lemma byte_and_80: "b AND 0x80 = 0 \<longleftrightarrow> unat b < 128" for b :: u8
proof -
  have "b AND 0x80 \<noteq> 0 \<longleftrightarrow> bit b 7"
    by (simp add: bit_iff_and_push_bit_not_eq_0 push_bit_eq_mult)
  also have "\<dots> \<longleftrightarrow> odd (unat b div 128)"
    using bit_unsigned_iff [of b 7, where ?'a = nat] by (simp add: bit_iff_odd)
  also have "\<dots> \<longleftrightarrow> 128 \<le> unat b"
    using unat_byte_less [of b] by (cases "unat b < 128") (auto simp: div_nat_eqI [of 128 1 "unat b"])
  finally show ?thesis by auto
qed

lemma unat_leb_last: "n < 128 \<Longrightarrow> unat (of_nat n :: u8) = n"
  by (simp add: unat_of_nat)

lemma unat_leb_more: "unat (of_nat (n mod 128 + 128) :: u8) = n mod 128 + 128"
  by (simp add: unat_of_nat del: of_nat_add)

lemma or_push_bit_group:
  fixes r :: "'a::len word"
  shows "(r OR push_bit bp (of_nat (n mod 128))) OR push_bit (bp + 7) (of_nat (n div 128)) =
    r OR push_bit bp (of_nat n)"
proof (rule bit_word_eqI)
  fix i assume "i < LENGTH('a)"
  then have l: "i - k < LENGTH('a)" for k by simp
  have m: "bit (n mod 128) j \<longleftrightarrow> j < 7 \<and> bit n j" for j
    by (simp add: take_bit_eq_mod [of 7, simplified, symmetric] bit_take_bit_iff)
  have d: "bit (n div 128) j \<longleftrightarrow> bit n (7 + j)" for j
    by (simp add: drop_bit_eq_div [of 7, simplified, symmetric] bit_drop_bit_eq)
  show "bit ((r OR push_bit bp (of_nat (n mod 128))) OR push_bit (bp + 7) (of_nat (n div 128))) i
    \<longleftrightarrow> bit (r OR push_bit bp (of_nat n)) i"
    by (cases "i < bp + 7") (auto simp: bit_or_iff bit_push_bit_iff bit_of_nat_iff m d l)
qed

lemma or_of_nat_eq_0_push: "0 OR push_bit 0 w = w" for w :: "'a::len word"
  by simp

lemma parses_readbyte_then: "parses (k b) cs w \<Longrightarrow> parses (map_value pb_readbyte k) (b # cs) w"
  using parses_map_value [OF parses_readbyte, of k b cs w] by simp

lemma parses_varint_loop:
  assumes "bp + 7 * k = 70" "0 < k" "n * 2 ^ bp < 2 ^ 64"
  shows "parses (varint_loop k bp r :: ('w pb, u64 option) st) (leb128 n) (r OR push_bit bp (of_nat n))"
  using assms
proof (induction n arbitrary: k bp r rule: leb128.induct)
  case (1 n)
  from "1.prems" obtain k' where k: "k = Suc k'" by (cases k) auto
  have top: "n \<le> 1" if "63 \<le> bp"
  proof (rule ccontr)
    assume "\<not> n \<le> 1"
    then have "2 * 2 ^ 63 \<le> n * 2 ^ bp"
      using that by (intro mult_le_mono power_increasing) auto
    with "1.prems" show False by simp
  qed
  show ?case
  proof (cases "n < 128")
    case True
    let ?b = "of_nat n :: u8"
    have u: "unat ?b = n" using True by (rule unat_leb_last)
    have "?b AND 0x7F = ?b" using u True by (simp add: byte_and_7F)
    moreover have "?b AND 0x80 = 0" using u True by (simp add: byte_and_80)
    moreover have "(ucast ?b :: u64) = of_nat n"
      by (rule word_unat_eq_iff [THEN iffD2]) (use True in \<open>simp add: unat_ucast_up unat_of_nat\<close>)
    moreover have "\<not> (63 \<le> bp \<and> ?b AND 0xFE \<noteq> 0)"
      using top by (auto simp: le_Suc_eq)
    ultimately have "parses (varint_loop k bp r :: ('w pb, u64 option) st) (?b # []) (r OR push_bit bp (of_nat n))"
      unfolding k varint_loop.simps
      by (intro parses_readbyte_then) (auto simp add: Let_def parses_return)
    then show ?thesis using True by (simp add: leb128.simps [of n])
  next
    case False
    let ?b = "of_nat (n mod 128 + 128) :: u8"
    have u: "unat ?b = n mod 128 + 128" by (rule unat_leb_more)
    have "?b AND 0x7F = of_nat (n mod 128)" using u by (simp add: byte_and_7F)
    moreover have "?b AND 0x80 \<noteq> 0" using u by (simp add: byte_and_80)
    moreover have "(ucast (of_nat (n mod 128) :: u8) :: u64) = of_nat (n mod 128)"
      by (rule word_unat_eq_iff [THEN iffD2]) (simp add: unat_ucast_up unat_of_nat)
    moreover have bp: "bp < 63" using top False by (cases "bp < 63") auto
    moreover have "parses (varint_loop k' (bp + 7) (r OR push_bit bp (of_nat (n mod 128)))
          :: ('w pb, u64 option) st)
        (leb128 (n div 128)) (r OR push_bit bp (of_nat n))"
    proof -
      have "(n div 128) * 2 ^ (bp + 7) \<le> n * 2 ^ bp"
        by (simp add: power_add)
      then show ?thesis
        using "1.IH" [OF False, of "bp + 7" k' "r OR push_bit bp (of_nat (n mod 128))"] "1.prems" False bp
        by (simp add: k or_push_bit_group)
    qed
    ultimately have "parses (varint_loop k bp r :: ('w pb, u64 option) st) (?b # leb128 (n div 128))
        (r OR push_bit bp (of_nat n))"
      unfolding k varint_loop.simps
      by (intro parses_readbyte_then) (simp add: Let_def del: of_nat_add)
    then show ?thesis using False by (simp add: leb128.simps [of n])
  qed
qed

lemma parses_pb_decode_varint: "parses pb_decode_varint (leb128 (unat v)) v"
proof -
  have "unat v * 2 ^ 0 < 2 ^ 64" using unsigned_less [of v, where ?'a = nat] by simp
  then show ?thesis
    using parses_varint_loop [of 0 10 "unat v" 0] by (simp add: pb_decode_varint_def)
qed
lemma unat_or_80:
  assumes "unat (b :: u8) < 128"
  shows "b OR 0x80 = of_nat (unat b + 128)"
proof -
  have "b AND 0x80 = 0" using assms by (simp add: byte_and_80)
  then have "b OR 0x80 = b + 0x80" by (simp add: disjunctive_add_eq_or)
  then show ?thesis by simp
qed

lemma unat_ucast_and_7F: "unat (ucast (w AND 0x7F) :: u8) = unat w mod 128" for w :: u32
proof -
  have "w AND 0x7F = take_bit 7 w" by (simp add: take_bit_eq_mask mask_eq_exp_minus_1)
  then show ?thesis
    by (simp add: unsigned_ucast_eq unsigned_take_bit_eq take_bit_take_bit)
      (simp add: take_bit_eq_mod)
qed

lemma leb128_byte: "unat (b :: u8) < 128 \<Longrightarrow> leb128 (unat b) = [b]"
  by (simp add: leb128.simps)

lemma leb128_group:
  "unat (b :: u8) < 128 \<Longrightarrow> m \<noteq> 0 \<Longrightarrow> leb128 (unat b + 128 * m) = (b OR 0x80) # leb128 m"
  by (subst leb128.simps) (simp add: unat_or_80)

lemma varint_low_split:
  assumes "high \<noteq> 0" "N mod (128 ^ k * 16) = unat byte + 128 * unat low" "unat byte < 128"
    and "128 ^ k \<le> N" "varint_low k byte low high = (bs, b)"
  shows "leb128 N = bs @ leb128 (N div 128 ^ k)" and "unat b = N div 128 ^ k mod 16"
    and "length bs = k"
proof -
  have "leb128 N = bs @ leb128 (N div 128 ^ k) \<and> unat b = N div 128 ^ k mod 16 \<and> length bs = k"
    using assms
  proof (induction k arbitrary: N byte low bs b)
    case 0
    then have "unat low = 0" by simp
    with 0 show ?case by simp
  next
    case (Suc k)
    obtain bs' where bs: "bs = (byte OR 0x80) # bs'"
      and low: "varint_low k (ucast (low AND 0x7F)) (drop_bit 7 low) high = (bs', b)"
      using Suc.prems by (auto split: prod.splits)
    have byte: "N mod 128 = unat byte"
    proof -
      have "N mod (128 ^ Suc k * 16) mod 128 = N mod 128"
        by (rule mod_mod_cancel) (simp add: mult.assoc)
      with Suc.prems show ?thesis by simp
    qed
    have rest: "N div 128 mod (128 ^ k * 16) = unat low"
    proof -
      have "N mod (128 * (128 ^ k * 16)) = 128 * (N div 128 mod (128 ^ k * 16)) + N mod 128"
        by (rule mod_mult2_eq)
      with Suc.prems byte show ?thesis by (simp add: mult.assoc)
    qed
    have "N div 128 mod (128 ^ k * 16) =
      unat (ucast (low AND 0x7F) :: u8) + 128 * unat (drop_bit 7 low)"
      by (simp add: rest unat_ucast_and_7F unat_drop_bit)
    moreover have "128 ^ k \<le> N div 128"
      using Suc.prems by (simp add: less_eq_div_iff_mult_less_eq mult.commute)
    ultimately have IH: "leb128 (N div 128) = bs' @ leb128 (N div 128 div 128 ^ k)"
      "unat b = N div 128 div 128 ^ k mod 16" "length bs' = k"
      using Suc.IH [OF Suc.prems(1) _ _ _ low] by (simp_all add: unat_ucast_and_7F)
    have "128 * 1 \<le> 128 * (128 :: nat) ^ k" by (intro mult_le_mono) simp_all
    then have "\<not> N < 128" using Suc.prems(4) unfolding power_Suc by linarith
    then have "leb128 N = (byte OR 0x80) # leb128 (N div 128)"
      using byte Suc.prems(3) by (simp add: leb128.simps [of N] unat_or_80)
    with IH bs show ?case by (simp add: div_mult2_eq)
  qed
  then show "leb128 N = bs @ leb128 (N div 128 ^ k)" "unat b = N div 128 ^ k mod 16" "length bs = k"
    by auto
qed

lemma varint_low_only:
  assumes "unat low < 128 ^ k" "unat byte < 128" "varint_low k byte low 0 = (bs, b)"
  shows "bs @ [b] = leb128 (unat byte + 128 * unat low)"
  using assms
proof (induction k arbitrary: byte low bs b)
  case 0
  then show ?case by (auto simp add: leb128_byte)
next
  case (Suc k)
  show ?case
  proof (cases "low = 0")
    case True
    with Suc.prems show ?thesis by (auto simp add: leb128_byte)
  next
    case False
    then obtain bs' where bs: "bs = (byte OR 0x80) # bs'"
      and low: "varint_low k (ucast (low AND 0x7F)) (drop_bit 7 low) 0 = (bs', b)"
      using Suc.prems by (auto split: prod.splits)
    have "unat low div 128 < 128 ^ k"
      using Suc.prems(1) by (simp add: div_less_iff_less_mult mult.commute)
    then have "bs' @ [b] = leb128 (unat low)"
      using Suc.IH [OF _ _ low] by (simp add: unat_ucast_and_7F unat_drop_bit)
    then show ?thesis
      using bs Suc.prems(2) False by (simp add: leb128_group unat_eq_0)
  qed
qed

lemma varint_high_leb:
  assumes "unat byte < 128" "varint_high byte high = (bs, b)"
  shows "bs @ [b] = leb128 (unat byte + 128 * unat high)"
  using assms
proof (induction byte high arbitrary: bs b rule: varint_high.induct)
  case (1 byte high)
  show ?case
  proof (cases "high = 0")
    case True
    with "1.prems" show ?thesis by (auto simp add: varint_high.simps leb128_byte)
  next
    case False
    then obtain bs' where bs: "bs = (byte OR 0x80) # bs'"
      and high: "varint_high (ucast (high AND 0x7F)) (drop_bit 7 high) = (bs', b)"
      using "1.prems" by (auto simp: varint_high.simps [of byte high] split: prod.splits)
    then have "bs' @ [b] = leb128 (unat high)"
      using "1.IH" [OF False _ high] by (simp add: unat_ucast_and_7F unat_drop_bit)
    then show ?thesis
      using bs "1.prems"(1) False by (simp add: leb128_group unat_eq_0)
  qed
qed

lemma or_high_bits:
  assumes "unat (b :: u8) < 16"
  shows "unat (b OR ucast (push_bit 4 (high AND 0x07))) = unat b + 16 * (unat (high :: u32) mod 8)"
proof -
  have h: "push_bit 4 (high AND 0x07) = of_nat (16 * (unat high mod 8))"
  proof -
    have "high AND 0x07 = take_bit 3 high" by (simp add: take_bit_eq_mask mask_eq_exp_minus_1)
    then show ?thesis
      by (intro word_unat_eq_iff [THEN iffD2])
        (simp add: push_bit_eq_mult unat_word_ariths unsigned_take_bit_eq take_bit_eq_mod unat_of_nat
          del: of_nat_mult)
  qed
  let ?c = "of_nat (16 * (unat high mod 8)) :: u8"
  have u: "unat ?c = 16 * (unat high mod 8)" by (simp add: unat_of_nat del: of_nat_mult)
  have c: "ucast (push_bit 4 (high AND 0x07)) = ?c"
    unfolding h by (intro word_unat_eq_iff [THEN iffD2])
      (simp add: unsigned_ucast_eq unat_of_nat take_bit_eq_mod del: of_nat_mult)
  have "b AND ?c = 0"
  proof (rule bit_word_eqI)
    fix i assume "i < LENGTH(8)"
    have "\<not> bit b i" if "4 \<le> i"
    proof -
      have "b = take_bit 4 b"
        using assms by (intro word_unat_eq_iff [THEN iffD2]) (simp add: unsigned_take_bit_eq take_bit_nat_eq_self)
      then show ?thesis using that by (metis bit_take_bit_iff not_less)
    qed
    moreover have "\<not> bit ?c i" if "i < 4"
    proof -
      have "?c = push_bit 4 (of_nat (unat high mod 8))"
        by (simp add: push_bit_eq_mult)
      then show ?thesis using that by (simp add: bit_push_bit_iff)
    qed
    ultimately show "bit (b AND ?c) i \<longleftrightarrow> bit (0 :: u8) i"
      by (cases "4 \<le> i") (auto simp: bit_and_iff not_le)
  qed
  then have "b OR ?c = b + ?c" by (simp add: disjunctive_add_eq_or)
  moreover have "unat (b + ?c) = unat b + 16 * (unat high mod 8)"
    using assms u by (simp add: unat_word_ariths del: of_nat_mult)
  ultimately show ?thesis unfolding c by (simp only:)
qed

lemma varint_32_bytes_leb128: "varint_32_bytes low high = leb128 (unat low + 2 ^ 32 * unat high)"
proof -
  obtain bs b where l: "varint_low 4 (ucast (low AND 0x7F)) (drop_bit 7 low) high = (bs, b)"
    by (metis surj_pair)
  have split: "unat low = unat (ucast (low AND 0x7F) :: u8) + 128 * unat (drop_bit 7 low)"
    by (simp add: unat_ucast_and_7F unat_drop_bit)
  show ?thesis
  proof (cases "high = 0")
    case True
    have "unat (drop_bit 7 low) < 128 ^ 4"
      using unsigned_less [of low, where ?'a = nat] by (simp add: unat_drop_bit div_less_iff_less_mult)
    with True l split show ?thesis
      using varint_low_only [of "drop_bit 7 low" 4 "ucast (low AND 0x7F)" bs b]
      by (simp add: varint_32_bytes_def unat_ucast_and_7F)
  next
    case False
    define N where "N = unat low + 2 ^ 32 * unat high"
    obtain cs c where h: "varint_high (b OR ucast (push_bit 4 (high AND 0x07))) (drop_bit 3 high) = (cs, c)"
      by (metis surj_pair)
    have low: "unat low < 2 ^ 32" using unsigned_less [of low, where ?'a = nat] by simp
    have N: "N mod (128 ^ 4 * 16) = unat low" using low by (simp add: N_def)
    have "1 \<le> unat high" using False by (simp add: Suc_le_eq unat_gt_0)
    then have ge: "128 ^ 4 \<le> N" by (simp add: N_def)
    have byte: "unat (ucast (low AND 0x7F) :: u8) < 128" by (simp add: unat_ucast_and_7F)
    note s = varint_low_split [OF False trans [OF N split] byte ge l]
    have div: "N div 128 ^ 4 = unat low div 128 ^ 4 + 16 * unat high"
      by (simp add: N_def)
    have "unat low div 128 ^ 4 < 16" using low by (simp add: div_less_iff_less_mult)
    with s(2) div have b: "unat b = unat low div 128 ^ 4" "unat b < 16" by simp_all
    have "unat b + 16 * (unat high mod 8) < 128"
      using b(2) mod_less_divisor [of 8 "unat high"] by linarith
    then have "cs @ [c] = leb128 (unat b + 16 * (unat high mod 8) + 128 * (unat high div 8))"
      using varint_high_leb [OF _ h] unfolding or_high_bits [OF b(2)] by (simp add: unat_drop_bit)
    moreover have "unat b + 16 * (unat high mod 8) + 128 * (unat high div 8) = N div 128 ^ 4"
      unfolding div b(1) using mult_div_mod_eq [of 8 "unat high"] by linarith
    ultimately have "cs @ [c] = leb128 (N div 128 ^ 4)" by (simp only:)
    moreover have "varint_32_bytes low high = bs @ cs @ [c]"
      using False l h by (simp add: varint_32_bytes_def)
    ultimately show ?thesis using s(1) unfolding N_def by (simp only:)
  qed
qed

end
