(* ===== verification/Nanopb_Output.thy ===== *)
theory Nanopb_Output
  imports Nanopb_Varint
begin

section \<open>Output\<close>

text \<open>
  \<open>out_ok\<close>: the stream's limit lies within the destination and no error is recorded.
  \<open>emits mem m bs\<close>: with message memory \<open>mem\<close>, \<open>m\<close> writes exactly \<open>bs\<close> if they fit, and returns
  false with \<open>stream full\<close> if they do not; \<open>rejects mem m\<close>: it returns false on every stream.
  In all cases only the output stream changes and it stays within its limit.
\<close>

definition out_ok :: "pb_ostream \<Rightarrow> bool" where
  "out_ok o1 \<longleftrightarrow> os_errmsg o1 = None \<and> (\<not> sizing o1 \<longrightarrow> bytes_written o1 \<le> max_size o1
     \<and> os_state o1 + (unat (max_size o1) - unat (bytes_written o1)) \<le> length (os_buf o1))"

definition fits :: "bytes \<Rightarrow> pb_ostream \<Rightarrow> bool" where
  "fits bs o1 \<longleftrightarrow> sizing o1 \<or> unat (bytes_written o1) + length bs \<le> unat (max_size o1)"

definition put :: "bytes \<Rightarrow> pb_ostream \<Rightarrow> pb_ostream" where
  "put bs o1 = (if sizing o1 then o1\<lparr>bytes_written := bytes_written o1 + of_nat (length bs)\<rparr>
     else o1\<lparr>bytes_written := bytes_written o1 + of_nat (length bs),
             os_state := os_state o1 + length bs,
             os_buf := splice (os_state o1) bs (os_buf o1)\<rparr>)"

text \<open>A failed run: only the output stream differs, and it stays within its limit.\<close>

definition out_failed :: "'w pb \<Rightarrow> 'w pb \<Rightarrow> bool" where
  "out_failed s t \<longleftrightarrow> (\<exists>o'. t = s\<lparr>pb_out := o'\<rparr> \<and> sizing o' = sizing (pb_out s)
     \<and> max_size o' = max_size (pb_out s) \<and> length (os_buf o') = length (os_buf (pb_out s))
     \<and> (\<not> sizing o' \<longrightarrow> bytes_written o' \<le> max_size o')
     \<and> os_errmsg o' \<noteq> None)"

definition emits :: "bytes \<Rightarrow> ('w pb, bool) st \<Rightarrow> bytes \<Rightarrow> bool" where
  "emits mem m bs \<longleftrightarrow> (\<forall>s. pb_mem s = mem \<longrightarrow> out_ok (pb_out s) \<longrightarrow>
     (if fits bs (pb_out s) then run_state m s = (True, s\<lparr>pb_out := put bs (pb_out s)\<rparr>)
      else \<exists>t. run_state m s = (False, t) \<and> out_failed s t))"

definition rejects :: "bytes \<Rightarrow> ('w pb, bool) st \<Rightarrow> bool" where
  "rejects mem m \<longleftrightarrow> (\<forall>s. pb_mem s = mem \<longrightarrow> out_ok (pb_out s) \<longrightarrow>
     (\<exists>t. run_state m s = (False, t) \<and> out_failed s t))"

lemma emitsD:
  assumes "emits mem m bs" "pb_mem s = mem" "out_ok (pb_out s)"
  shows "fits bs (pb_out s) \<Longrightarrow> run_state m s = (True, s\<lparr>pb_out := put bs (pb_out s)\<rparr>)"
    and "\<not> fits bs (pb_out s) \<Longrightarrow> \<exists>t. run_state m s = (False, t) \<and> out_failed s t"
  using assms by (auto simp: emits_def split: if_splits)

lemma put_Nil [simp]: "put [] o1 = o1"
  by (simp add: put_def)

lemma sizing_put [simp]: "sizing (put bs o1) = sizing o1" "max_size (put bs o1) = max_size o1"
  by (simp_all add: put_def)

lemma os_errmsg_put [simp]: "os_errmsg (put bs o1) = os_errmsg o1"
  by (simp add: put_def)

lemma unat_add_of_nat:
  assumes "unat (w :: 'a::len word) + n \<le> unat (m :: 'a word)"
  shows "unat (w + of_nat n) = unat w + n"
proof -
  have "unat w + n < 2 ^ LENGTH('a)"
    using assms unsigned_less [of m] by (rule order_le_less_trans)
  then show ?thesis by (simp add: unat_word_ariths unat_of_nat mod_add_right_eq)
qed

lemma splice_splice_adjacent:
  "off + length xs + length ys \<le> length buf \<Longrightarrow>
   splice (off + length xs) ys (splice off xs buf) = splice off (xs @ ys) buf"
  by (auto intro!: nth_equalityI simp: nth_splice nth_append)

lemma put_within:
  assumes "out_ok o1" "fits bs o1" "\<not> sizing o1"
  shows "os_state o1 + length bs \<le> length (os_buf o1)"
  using assms by (auto simp: out_ok_def fits_def word_le_nat_alt)

lemma length_os_buf_put:
  assumes "out_ok o1" "fits bs o1"
  shows "length (os_buf (put bs o1)) = length (os_buf o1)"
  using put_within [OF assms] by (simp add: put_def)

lemma out_ok_put:
  assumes "out_ok o1" "fits bs o1"
  shows "out_ok (put bs o1)"
proof (cases "sizing o1")
  case True
  with assms show ?thesis by (simp add: out_ok_def put_def)
next
  case False
  with assms have le: "unat (bytes_written o1) + length bs \<le> unat (max_size o1)"
    by (simp add: fits_def)
  with False assms show ?thesis
    using unat_add_of_nat [OF le] length_os_buf_put [OF assms]
    by (simp add: out_ok_def put_def word_le_nat_alt)
qed

lemma put_put:
  assumes "out_ok o1" "fits (as @ bs) o1"
  shows "put bs (put as o1) = put (as @ bs) o1"
  using put_within [OF assms] by (simp add: put_def splice_splice_adjacent add.assoc)

lemma fits_append:
  assumes "out_ok o1"
  shows "fits (as @ bs) o1 \<longleftrightarrow> fits as o1 \<and> fits bs (put as o1)"
  using unat_add_of_nat [of "bytes_written o1" "length as" "max_size o1"]
  by (auto simp: fits_def put_def)

lemma out_failed_trans_put:
  assumes "out_ok (pb_out s)" "fits as (pb_out s)"
    and "out_failed (s\<lparr>pb_out := put as (pb_out s)\<rparr>) t"
  shows "out_failed s t"
  using assms(3) length_os_buf_put [OF assms(1,2)] by (auto simp: out_failed_def)

lemma emits_and_then:
  assumes "emits mem m as" "emits mem k bs"
  shows "emits mem (and_then m k) (as @ bs)"
  unfolding emits_def
proof (intro allI impI)
  fix s :: "'a pb"
  assume mem: "pb_mem s = mem" and ok: "out_ok (pb_out s)"
  let ?s = "s\<lparr>pb_out := put as (pb_out s)\<rparr>"
  show "if fits (as @ bs) (pb_out s)
    then run_state (and_then m k) s = (True, s\<lparr>pb_out := put (as @ bs) (pb_out s)\<rparr>)
    else \<exists>t. run_state (and_then m k) s = (False, t) \<and> out_failed s t"
  proof (cases "fits as (pb_out s)")
    case True
    note m = emitsD(1) [OF assms(1) mem ok True]
    have ok': "out_ok (pb_out ?s)" and mem': "pb_mem ?s = mem"
      using out_ok_put [OF ok True] mem by simp_all
    show ?thesis
    proof (cases "fits bs (pb_out ?s)")
      case fb: True
      then have "fits (as @ bs) (pb_out s)" using True fits_append [OF ok] by simp
      with emitsD(1) [OF assms(2) mem' ok' fb] m put_put [OF ok] show ?thesis
        by (simp add: run_and_then)
    next
      case False
      then have "\<not> fits (as @ bs) (pb_out s)" using fits_append [OF ok] by simp
      with emitsD(2) [OF assms(2) mem' ok' False] m out_failed_trans_put [OF ok True] show ?thesis
        by (auto simp: run_and_then)
    qed
  next
    case False
    then have "\<not> fits (as @ bs) (pb_out s)" using fits_append [OF ok] by simp
    with emitsD(2) [OF assms(1) mem ok False] show ?thesis by (auto simp: run_and_then)
  qed
qed

lemma emits_rejects:
  assumes "emits mem m as" "rejects mem k"
  shows "rejects mem (and_then m k)"
  unfolding rejects_def
proof (intro allI impI)
  fix s :: "'a pb"
  assume mem: "pb_mem s = mem" and ok: "out_ok (pb_out s)"
  let ?s = "s\<lparr>pb_out := put as (pb_out s)\<rparr>"
  show "\<exists>t. run_state (and_then m k) s = (False, t) \<and> out_failed s t"
  proof (cases "fits as (pb_out s)")
    case True
    have "out_ok (pb_out ?s)" "pb_mem ?s = mem" using out_ok_put [OF ok True] mem by simp_all
    then obtain t where "run_state k ?s = (False, t)" "out_failed ?s t"
      using assms(2) unfolding rejects_def by blast
    with emitsD(1) [OF assms(1) mem ok True] out_failed_trans_put [OF ok True] show ?thesis
      by (auto simp: run_and_then)
  next
    case False
    with emitsD(2) [OF assms(1) mem ok] show ?thesis by (auto simp: run_and_then)
  qed
qed

lemma rejects_and_then: "rejects mem m \<Longrightarrow> rejects mem (and_then m k)"
  by (fastforce simp: rejects_def run_and_then)

lemma emits_return [intro!]: "emits mem (return True) []"
  by (simp add: emits_def fits_def out_ok_def word_le_nat_alt)

lemma run_set_out_error [simp]:
  "run_state (set_out_error msg) s =
    ((), s\<lparr>pb_out := (pb_out s)\<lparr>os_errmsg := keep_first (os_errmsg (pb_out s)) msg\<rparr>\<rparr>)"
  by (simp add: set_out_error_def)

lemma rejects_out_error [intro!]: "rejects mem (out_error msg)"
  by (auto simp: rejects_def out_error_def out_failed_def out_ok_def keep_first_def split: option.split)

lemma emits_pb_write:
  assumes "length bs = unat n"
  shows "emits mem (pb_write (Some bs) n) bs"
  unfolding emits_def
proof (intro allI impI)
  fix s :: "'a pb"
  assume "pb_mem s = mem" and ok: "out_ok (pb_out s)"
  let ?o = "pb_out s"
  have n: "of_nat (length bs) = n" using assms by simp
  have n0: "n > 0 \<longleftrightarrow> bs \<noteq> []" using assms by (auto simp: word_gt_0 unat_eq_0)
  show "if fits bs ?o then run_state (pb_write (Some bs) n) s = (True, s\<lparr>pb_out := put bs ?o\<rparr>)
    else \<exists>t. run_state (pb_write (Some bs) n) s = (False, t) \<and> out_failed s t"
  proof (cases "sizing ?o \<or> bs = []")
    case True
    then show ?thesis
      using ok n n0 by (auto simp: pb_write_def fits_def put_def out_ok_def word_le_nat_alt)
  next
    case False
    then have le: "unat (bytes_written ?o) \<le> unat (max_size ?o)"
      and room: "os_state ?o + (unat (max_size ?o) - unat (bytes_written ?o)) \<le> length (os_buf ?o)"
      using ok unfolding out_ok_def word_le_nat_alt by blast+
    have full: "bytes_written ?o + n < bytes_written ?o \<or> bytes_written ?o + n > max_size ?o
        \<longleftrightarrow> \<not> unat (bytes_written ?o) + length bs \<le> unat (max_size ?o)"
    proof (cases "unat (bytes_written ?o) + unat n < 2 ^ 32")
      case True
      then have "unat (bytes_written ?o + n) = unat (bytes_written ?o) + unat n"
        by (simp add: unat_word_ariths)
      then show ?thesis using assms by (auto simp: word_less_nat_alt)
    next
      case f: False
      have "unat (bytes_written ?o + n) < unat (bytes_written ?o)"
        using f unsigned_less [of "bytes_written ?o", where ?'a = nat] unsigned_less [of n, where ?'a = nat]
        by (simp add: unat_word_ariths mod_if) linarith
      moreover have "\<not> unat (bytes_written ?o) + length bs \<le> unat (max_size ?o)"
        using f assms unsigned_less [of "max_size ?o", where ?'a = nat] by simp
      ultimately show ?thesis by (simp add: word_less_nat_alt)
    qed
    show ?thesis
    proof (cases "unat (bytes_written ?o) + length bs \<le> unat (max_size ?o)")
      case True
      then have "os_state ?o + unat n \<le> length (os_buf ?o)" using room le assms by simp
      with True False full n n0 assms show ?thesis
        by (simp add: pb_write_def fits_def put_def buf_write_def)
    next
      case f: False
      with False full n0 ok show ?thesis
        by (auto simp: pb_write_def fits_def out_error_def out_failed_def keep_first_def out_ok_def)
    qed
  qed
qed

end
