(* ===== verification/Nanopb_Codec.thy ===== *)
theory Nanopb_Codec
  imports Nanopb_Output
begin

lemma length_leb128:
  assumes "n < 128 ^ k" "0 < k"
  shows "length (leb128 n) \<le> k"
  using assms
proof (induction k arbitrary: n)
  case 0
  then show ?case by simp
next
  case (Suc k)
  show ?case
  proof (cases "n < 128")
    case True
    then show ?thesis by (simp add: leb128.simps [of n])
  next
    case False
    with Suc.prems have "0 < k" by (cases k) auto
    moreover have "n div 128 < 128 ^ k"
      using Suc.prems(1) by (simp add: div_less_iff_less_mult mult.commute)
    ultimately show ?thesis using Suc.IH False by (simp add: leb128.simps [of n])
  qed
qed

lemma length_leb128_u64: "length (leb128 (unat (v :: u64))) \<le> 10"
proof (rule length_leb128)
  have "unat v < 2 ^ 64" using unsigned_less [of v, where ?'a = nat] by simp
  also have "\<dots> < 128 ^ 10" by simp
  finally show "unat v < 128 ^ 10" .
qed simp

lemma length_leb128_u32: "length (leb128 (unat (v :: u32))) \<le> 5"
proof (rule length_leb128)
  have "unat v < 2 ^ 32" using unsigned_less [of v, where ?'a = nat] by simp
  also have "\<dots> < 128 ^ 5" by simp
  finally show "unat v < 128 ^ 5" .
qed simp

lemma emits_write_bytes: "length bs < 2 ^ 32 \<Longrightarrow> emits mem (write_bytes bs) bs"
  unfolding write_bytes_def by (rule emits_pb_write) (simp add: unat_of_nat)

lemma emits_require: "c \<Longrightarrow> emits mem m bs \<Longrightarrow> emits mem (do { require c; m }) bs"
  by (simp add: emits_def)

lemma split_u64: "unat (ucast v :: u32) + 2 ^ 32 * unat (ucast (drop_bit 32 v) :: u32) = unat (v :: u64)"
proof -
  have "unat (ucast v :: u32) = unat v mod 2 ^ 32"
    by (simp add: unsigned_ucast_eq take_bit_eq_mod)
  moreover have "unat (ucast (drop_bit 32 v) :: u32) = unat v div 2 ^ 32"
  proof -
    have "unat v div 2 ^ 32 < 2 ^ 32"
      using unsigned_less [of v, where ?'a = nat] by (simp add: div_less_iff_less_mult)
    then show ?thesis by (simp add: unsigned_ucast_eq unat_drop_bit take_bit_nat_eq_self)
  qed
  ultimately show ?thesis using mod_mult_div_eq [of "unat v" "2 ^ 32"] by simp
qed

lemma emits_pb_encode_varint: "emits mem (pb_encode_varint v) (leb128 (unat v))"
proof (cases "v \<le> 0x7F")
  case True
  then have v: "unat v < 128" by (simp add: word_le_nat_alt)
  then have "leb128 (unat v) = [ucast v]"
    by (simp add: leb128.simps [of "unat v"])
  then show ?thesis
    using True by (simp add: pb_encode_varint_def emits_write_bytes)
next
  case False
  have b: "varint_32_bytes (ucast v) (ucast (drop_bit 32 v)) = leb128 (unat v)"
    by (simp only: varint_32_bytes_leb128 split_u64)
  show ?thesis
    using False length_leb128_u64 [of v]
    by (simp add: pb_encode_varint_def pb_encode_varint_32_def b emits_require emits_write_bytes)
qed

lemma emits_pb_encode_svarint: "emits mem (pb_encode_svarint v) (leb128 (unat (zigzag v)))"
  by (simp add: pb_encode_svarint_def emits_pb_encode_varint)

lemma unzigzag_zigzag: "unzigzag (zigzag v) = v"
proof -
  have neg: "v <s 0 \<longleftrightarrow> bit v 63"
    using bit_last_iff [of v] by (simp add: word_sless_alt)
  have odd: "w AND 1 \<noteq> 0 \<longleftrightarrow> bit w 0" for w :: u64
    by (simp add: bit_iff_and_push_bit_not_eq_0)
  have top: "bit v n \<Longrightarrow> n < 64" for n
    using bit_imp_le_length [of v n] by simp
  show ?thesis
  proof (cases "bit v 63")
    case True
    then have z: "zigzag v = NOT (push_bit 1 (v AND drop_bit 1 (- 1)))"
      by (simp add: zigzag_def neg)
    have "bit (zigzag v) 0" unfolding z by (simp only: bit_not_iff bit_push_bit_iff) simp
    then have "unzigzag (zigzag v) = NOT (drop_bit 1 (zigzag v))"
      by (simp add: unzigzag_def odd)
    also have "\<dots> = v"
    proof (rule bit_word_eqI)
      fix i assume "i < LENGTH(64)"
      then show "bit (NOT (drop_bit 1 (zigzag v))) i \<longleftrightarrow> bit v i"
        using True unfolding z
        by (cases "i = 63") (auto simp: bit_not_iff bit_drop_bit_eq bit_push_bit_iff bit_and_iff bit_mask_iff
              simp del: push_bit_Suc One_nat_def)
    qed
    finally show ?thesis .
  next
    case False
    then have z: "zigzag v = push_bit 1 v" by (simp add: zigzag_def neg)
    have "\<not> bit (push_bit 1 v) 0" by (simp only: bit_push_bit_iff) simp
    then have "unzigzag (zigzag v) = drop_bit 1 (push_bit 1 v)"
      unfolding z unzigzag_def odd by (simp only: if_False)
    also have "\<dots> = v"
    proof (rule bit_word_eqI)
      fix i assume "i < LENGTH(64)"
      then show "bit (drop_bit 1 (push_bit 1 v)) i \<longleftrightarrow> bit v i"
        using False by (cases "i = 63") (auto simp: bit_drop_bit_eq bit_push_bit_iff
              simp del: push_bit_Suc One_nat_def dest: top)
    qed
    finally show ?thesis .
  qed
qed

lemma parses_pb_decode_svarint: "parses pb_decode_svarint (leb128 (unat (zigzag v))) v"
  using parses_map_value [OF parses_pb_decode_varint, of "\<lambda>x. return (Some (unzigzag x))" "zigzag v" "[]" v]
  by (simp add: pb_decode_svarint_def parses_return unzigzag_zigzag)

lemma emits_pb_encode_fixed32: "emits mem (pb_encode_fixed32 v) (le_bytes 4 v)"
  by (simp add: pb_encode_fixed32_def emits_write_bytes)

lemma emits_pb_encode_fixed64: "emits mem (pb_encode_fixed64 v) (le_bytes 8 v)"
  by (simp add: pb_encode_fixed64_def emits_write_bytes)

lemma parses_pb_decode_fixed32: "parses pb_decode_fixed32 (le_bytes 4 v) v"
  using parses_map_value [OF parses_pb_read, of 4 "le_bytes 4 v" "\<lambda>bs. return (Some (le_word bs))" "[]" v]
  by (simp add: pb_decode_fixed32_def parses_return)

lemma parses_pb_decode_fixed64: "parses pb_decode_fixed64 (le_bytes 8 v) v"
  using parses_map_value [OF parses_pb_read, of 8 "le_bytes 8 v" "\<lambda>bs. return (Some (le_word bs))" "[]" v]
  by (simp add: pb_decode_fixed64_def parses_return)

lemma unat_tag:
  assumes "unat wt < 8"
  shows "unat (push_bit 3 (ucast field) OR ucast (wt :: u8) :: u64) = 8 * unat (field :: u32) + unat wt"
proof -
  let ?a = "push_bit 3 (ucast field) :: u64" and ?b = "ucast wt :: u64"
  have b: "?b = take_bit 3 ?b"
    using assms by (intro word_unat_eq_iff [THEN iffD2])
      (simp add: unsigned_take_bit_eq take_bit_nat_eq_self unat_ucast_up)
  have "?a AND ?b = 0"
    by (rule bit_word_eqI, subst b) (auto simp: bit_and_iff bit_push_bit_iff bit_take_bit_iff)
  then have "?a OR ?b = ?a + ?b" by (simp add: disjunctive_add_eq_or)
  moreover have "unat ?a = 8 * unat field"
    using unsigned_less [of field, where ?'a = nat]
    by (simp add: push_bit_eq_mult unat_word_ariths unat_ucast_up)
  ultimately show ?thesis
    using unsigned_less [of field, where ?'a = nat] assms
    by (simp add: unat_word_ariths unat_ucast_up)
qed

lemma emits_pb_encode_tag:
  "unat wt < 8 \<Longrightarrow> emits mem (pb_encode_tag wt field) (leb128 (8 * unat field + unat wt))"
  using emits_pb_encode_varint [of mem "push_bit 3 (ucast field) OR ucast wt"]
  by (simp add: pb_encode_tag_def unat_tag)

lemma emits_pb_encode_string:
  "length bs = unat n \<Longrightarrow> emits mem (pb_encode_string (Some bs) n) (leb128 (unat n) @ bs)"
  using emits_and_then [OF emits_pb_encode_varint [of mem "ucast n"] emits_pb_write [of bs n mem]]
  by (simp add: pb_encode_string_def unat_ucast_up)

lemma word_and_70_0F:
  assumes "n < 16"
  shows "(of_nat n :: u8) AND 0x70 = 0" and "(of_nat n :: u8) AND 0x0F = of_nat n"
proof -
  have "\<forall>n \<in> set [0..<16]. (of_nat n :: u8) AND 0x70 = 0 \<and> (of_nat n :: u8) AND 0x0F = of_nat n"
    by code_simp
  with assms show "(of_nat n :: u8) AND 0x70 = 0" "(of_nat n :: u8) AND 0x0F = of_nat n"
    by simp_all
qed

lemma parses_varint32_loop:
  assumes "bp = 7 \<or> bp = 14 \<or> bp = 21 \<or> bp = 28" "bp + 7 * k \<ge> 35" "n * 2 ^ bp < 2 ^ 32"
  shows "parses (varint32_loop k bp r :: ('w pb, u32 option) st) (leb128 n) (r OR push_bit bp (of_nat n))"
  using assms
proof (induction n arbitrary: k bp r rule: leb128.induct)
  case (1 n)
  from "1.prems" obtain k' where k: "k = Suc k'" by (cases k) auto
  have top: "n < 16" if "bp = 28" using "1.prems"(3) that by simp
  show ?case
  proof (cases "n < 128")
    case True
    let ?b = "of_nat n :: u8"
    have u: "unat ?b = n" using True by (rule unat_leb_last)
    have b7: "?b AND 0x7F = ?b" using u True by (simp add: byte_and_7F)
    have b8: "?b AND 0x80 = 0" using u True by (simp add: byte_and_80)
    have c: "(ucast ?b :: u32) = of_nat n"
      by (rule word_unat_eq_iff [THEN iffD2]) (use True in \<open>simp add: unat_ucast_up unat_of_nat\<close>)
    have "parses (varint32_loop k bp r :: ('w pb, u32 option) st) (?b # []) (r OR push_bit bp (of_nat n))"
      unfolding k varint32_loop.simps
      by (intro parses_readbyte_then)
        (use "1.prems"(1) top in \<open>auto simp: b7 b8 c word_and_70_0F map_value_def parses_return\<close>)
    then show ?thesis using True by (simp add: leb128.simps [of n])
  next
    case False
    let ?b = "of_nat (n mod 128 + 128) :: u8"
    have u: "unat ?b = n mod 128 + 128" by (rule unat_leb_more)
    have b7: "?b AND 0x7F = of_nat (n mod 128)" using u by (simp add: byte_and_7F)
    have b8: "?b AND 0x80 \<noteq> 0" using u by (simp add: byte_and_80)
    have c: "(ucast (of_nat (n mod 128) :: u8) :: u32) = of_nat (n mod 128)"
      by (rule word_unat_eq_iff [THEN iffD2]) (simp add: unat_ucast_up unat_of_nat)
    have bp: "bp = 7 \<or> bp = 14 \<or> bp = 21" using top False "1.prems"(1) by auto
    have "(n div 128) * 2 ^ (bp + 7) \<le> n * 2 ^ bp" by (simp add: power_add)
    then have IH: "parses (varint32_loop k' (bp + 7) (r OR push_bit bp (of_nat (n mod 128)))
          :: ('w pb, u32 option) st) (leb128 (n div 128)) (r OR push_bit bp (of_nat n))"
      using "1.IH" [OF False, of "bp + 7" k' "r OR push_bit bp (of_nat (n mod 128))"] "1.prems" bp
      by (auto simp add: k or_push_bit_group)
    have "parses (varint32_loop k bp r :: ('w pb, u32 option) st) (?b # leb128 (n div 128))
        (r OR push_bit bp (of_nat n))"
      unfolding k varint32_loop.simps
      by (intro parses_readbyte_then)
        (use bp b8 IH in \<open>auto simp: b7 c map_value_def simp del: of_nat_add\<close>)
    then show ?thesis using False by (simp add: leb128.simps [of n])
  qed
qed

lemma run_varint32_eof:
  assumes "in_ok (pb_in s)" "avail (pb_in s) = leb128 (unat n) @ rest"
  shows "run_state pb_decode_varint32_eof s = ((Some n, False), eat (length (leb128 (unat n))) s)"
proof (cases "unat n < 128")
  case True
  let ?b = "of_nat (unat n) :: u8"
  have u: "unat ?b = unat n" using True by (rule unat_leb_last)
  then have "?b AND 0x80 = 0" using True by (simp add: byte_and_80)
  moreover have "(ucast ?b :: u32) = n"
    using u by (simp add: word_unat_eq_iff unat_ucast_up)
  ultimately show ?thesis
    using assms True
    by (simp add: pb_decode_varint32_eof_def run_pb_readbyte leb128.simps [of "unat n"])
next
  case False
  let ?m = "unat n"
  let ?b = "of_nat (?m mod 128 + 128) :: u8"
  have u: "unat ?b = ?m mod 128 + 128" by (rule unat_leb_more)
  have b7: "?b AND 0x7F = of_nat (?m mod 128)" using u by (simp add: byte_and_7F)
  have b8: "?b AND 0x80 \<noteq> 0" using u by (simp add: byte_and_80)
  have c: "(ucast (of_nat (?m mod 128) :: u8) :: u32) = of_nat (?m mod 128)"
    by (rule word_unat_eq_iff [THEN iffD2]) (simp add: unat_ucast_up unat_of_nat)
  have l: "leb128 ?m = ?b # leb128 (?m div 128)" using False by (simp add: leb128.simps [of ?m])
  have "?m div 128 * 2 ^ 7 \<le> ?m" by simp
  then have "?m div 128 * 2 ^ 7 < 2 ^ 32"
    using unsigned_less [of n, where ?'a = nat] by simp
  then have p: "parses (varint32_loop 10 7 (of_nat (?m mod 128)) :: ('a pb, u32 option) st)
      (leb128 (?m div 128)) (of_nat (?m mod 128) OR push_bit 7 (of_nat (?m div 128)))"
    by (intro parses_varint32_loop) simp_all
  have v: "of_nat (?m mod 128) OR push_bit 7 (of_nat (?m div 128)) = n"
    using or_push_bit_group [of "0 :: u32" 0 ?m] by simp
  have le: "1 \<le> unat (bytes_left (pb_in s))"
    using length_avail [OF assms(1)] assms(2) l by simp
  have "in_ok (pb_in (eat 1 s))" "avail (pb_in (eat 1 s)) = leb128 (?m div 128) @ rest"
    using assms le l by (simp_all add: in_ok_consume avail_consume)
  from parsesD [OF p this] show ?thesis
    using assms b8 by (simp add: pb_decode_varint32_eof_def run_pb_readbyte l b7 c v del: of_nat_add)
qed

section \<open>Tags, lengths and skipping\<close>

lemma parses_pb_decode_varint32: "parses pb_decode_varint32 (leb128 (unat n)) n"
  by (simp add: parses_def pb_decode_varint32_def run_varint32_eof)

lemma run_pb_decode_tag:
  assumes "in_ok (pb_in s)" "avail (pb_in s) = leb128 (8 * f + w) @ rest" "w < 8" "f < 2 ^ 29"
  shows "run_state pb_decode_tag s =
    ((Some (of_nat w, of_nat f), False), eat (length (leb128 (8 * f + w))) s)"
proof -
  let ?n = "of_nat (8 * f + w) :: u32"
  have lt: "8 * f + w < 2 ^ 32" using assms(3,4) by simp
  then have u: "unat ?n = 8 * f + w" by (simp add: unat_of_nat del: of_nat_add of_nat_mult)
  have d: "drop_bit 3 ?n = of_nat f"
    using assms(3,4)
    by (intro word_unat_eq_iff [THEN iffD2])
      (simp add: unat_drop_bit u unat_of_nat del: of_nat_add of_nat_mult)
  have m: "?n AND 7 = take_bit 3 ?n" by (simp add: take_bit_eq_mask mask_eq_exp_minus_1)
  have "unat (?n AND 7) = w"
    unfolding m unsigned_take_bit_eq u using assms(3) by (simp add: take_bit_eq_mod)
  then have "(ucast (?n AND 7) :: u8) = of_nat w"
    unfolding word_unat_eq_iff using assms(3)
    by (simp add: unsigned_ucast_eq unat_of_nat take_bit_eq_mod del: of_nat_add of_nat_mult)
  with d show ?thesis
    using run_varint32_eof [OF assms(1), of ?n rest] assms(2) u
    by (simp add: pb_decode_tag_def del: of_nat_add of_nat_mult)
qed

text \<open>The bytes of one field after its tag, as any protobuf encoder may write them.\<close>

definition varint_bytes :: "bytes \<Rightarrow> bool" where
  "varint_bytes bs \<longleftrightarrow> bs \<noteq> [] \<and> last bs AND 0x80 = 0 \<and> (\<forall>b \<in> set (butlast bs). b AND 0x80 \<noteq> 0)"

definition field_payload :: "u8 \<Rightarrow> bytes \<Rightarrow> bool" where
  "field_payload wire_type bs \<longleftrightarrow>
     wire_type = PB_WT_VARINT \<and> varint_bytes bs
   \<or> wire_type = PB_WT_64BIT \<and> length bs = 8
   \<or> wire_type = PB_WT_STRING \<and>
       (\<exists>n. bs = leb128 (unat (n :: u32)) @ drop (length (leb128 (unat n))) bs
          \<and> length bs = length (leb128 (unat n)) + unat n)
   \<or> wire_type = PB_WT_32BIT \<and> length bs = 4"

lemma run_pb_skip:
  assumes "in_ok (pb_in s)" "avail (pb_in s) = bs @ rest" "length bs = unat n"
  shows "run_state (pb_skip n) s = (True, eat (length bs) s)"
  using parsesD [OF parses_pb_read [OF assms(3) [symmetric]] assms(1,2)]
  by (simp add: pb_skip_def run_with_value)

lemma run_skip_varint_loop:
  assumes "in_ok (pb_in s)" "avail (pb_in s) = bs @ rest" "varint_bytes bs" "length bs \<le> n"
  shows "run_state (skip_varint_loop n) s = (True, eat (length bs) s)"
  using assms
proof (induction bs arbitrary: n s)
  case Nil
  then show ?case by (simp add: varint_bytes_def)
next
  case (Cons b bs)
  obtain n' where n: "n = Suc n'" using Cons.prems(4) by (cases n) auto
  have r: "run_state (pb_read 1) s = (Some [b], eat 1 s)"
    using parsesD [OF parses_pb_read [of 1 "[b]"] Cons.prems(1), of "bs @ rest"] Cons.prems(2) by simp
  show ?case
  proof (cases "bs = []")
    case True
    with Cons.prems r n show ?thesis by (simp add: varint_bytes_def run_with_value)
  next
    case False
    have "1 \<le> unat (bytes_left (pb_in s))"
      using length_avail [OF Cons.prems(1)] Cons.prems(2) by simp
    then have "in_ok (pb_in (eat 1 s))" "avail (pb_in (eat 1 s)) = bs @ rest"
      using Cons.prems(1,2) by (simp_all add: in_ok_consume avail_consume)
    moreover have "varint_bytes bs" "b AND 0x80 \<noteq> 0" "length bs \<le> n'"
      using Cons.prems(3,4) False n by (auto simp: varint_bytes_def split: if_splits)
    ultimately show ?thesis using Cons.IH r n by (simp add: run_with_value)
  qed
qed

lemma run_pb_skip_field:
  assumes ok: "in_ok (pb_in s)" and av: "avail (pb_in s) = bs @ rest" and p: "field_payload wt bs"
  shows "run_state (pb_skip_field wt) s = (True, eat (length bs) s)"
proof -
  consider "wt = PB_WT_VARINT" "varint_bytes bs" | "wt = PB_WT_64BIT" "length bs = 8"
    | n where "wt = PB_WT_STRING" "bs = leb128 (unat (n :: u32)) @ drop (length (leb128 (unat n))) bs"
        "length bs = length (leb128 (unat n)) + unat n"
    | "wt = PB_WT_32BIT" "length bs = 4"
    using p unfolding field_payload_def by blast
  then show ?thesis
  proof cases
    case 1
    have "length bs \<le> Suc (unat (bytes_left (pb_in s)))"
      using avail_le_bytes_left [OF ok av] by simp
    with 1 run_skip_varint_loop [OF ok av] show ?thesis
      by (simp add: pb_skip_field_def pb_skip_varint_def del: skip_varint_loop.simps)
  next
    case 2
    with run_pb_skip [OF ok av, of 8] show ?thesis by (simp add: pb_skip_field_def)
  next
    case 3
    let ?l = "leb128 (unat n)" and ?d = "drop (length (leb128 (unat n))) bs"
    have r: "run_state pb_decode_varint32 s = (Some n, eat (length ?l) s)"
      using parsesD [OF parses_pb_decode_varint32 ok, of n "?d @ rest"] av 3(2)
      by (metis append.assoc)
    have "length ?l \<le> unat (bytes_left (pb_in s))"
      using avail_le_bytes_left [OF ok av] 3(3) by simp
    moreover have "drop (length ?l) (bs @ rest) = ?d @ rest" using 3(3) by simp
    ultimately have "in_ok (pb_in (eat (length ?l) s))" "avail (pb_in (eat (length ?l) s)) = ?d @ rest"
      using ok av by (simp_all add: in_ok_consume avail_consume)
    from run_pb_skip [OF this, of n] 3(1,3) r show ?thesis
      by (simp add: pb_skip_field_def pb_skip_string_def run_with_value)
  next
    case 4
    with run_pb_skip [OF ok av, of 4] show ?thesis by (simp add: pb_skip_field_def)
  qed
qed

section \<open>The two varint decoders\<close>

lemma ucast_or_group:
  fixes r :: u64 and b :: u8
  shows "bp < 28 \<Longrightarrow> (ucast (r OR push_bit bp (ucast (b AND 0x7F))) :: u32) =
      ucast r OR push_bit bp (ucast (b AND 0x7F))"
    and "(ucast (r OR push_bit 28 (ucast (b AND 0x7F))) :: u32) =
      ucast r OR push_bit 28 (ucast (b AND 0x0F))"
    and "32 \<le> bp \<Longrightarrow> (ucast (r OR push_bit bp (ucast (b AND 0x7F))) :: u32) = ucast r"
proof -
  have m: "b AND 0x7F = take_bit 7 b" "b AND 0x0F = take_bit 4 b"
    by (simp_all add: take_bit_eq_mask mask_eq_exp_minus_1)
  show "(ucast (r OR push_bit bp (ucast (b AND 0x7F))) :: u32) =
      ucast r OR push_bit bp (ucast (b AND 0x7F))" if "bp < 28"
    unfolding m by (rule bit_word_eqI)
      (auto simp: bit_ucast_iff bit_or_iff bit_push_bit_iff bit_take_bit_iff dest: bit_imp_le_length)
  show "(ucast (r OR push_bit 28 (ucast (b AND 0x7F))) :: u32) =
      ucast r OR push_bit 28 (ucast (b AND 0x0F))"
    unfolding m by (rule bit_word_eqI)
      (auto simp: bit_ucast_iff bit_or_iff bit_push_bit_iff bit_take_bit_iff dest: bit_imp_le_length)
  show "(ucast (r OR push_bit bp (ucast (b AND 0x7F))) :: u32) = ucast r" if "32 \<le> bp"
    unfolding m by (rule bit_word_eqI)
      (use that in \<open>auto simp: bit_ucast_iff bit_or_iff bit_push_bit_iff\<close>)
qed

lemma varint32_loop_past_end:
  assumes "in_ok (pb_in s)" "64 \<le> bp" "0 < k"
  shows "fst (run_state (varint32_loop k bp r) s) = None"
  using assms
  by (cases k) (auto simp: run_map_value run_pb_readbyte Let_def split: list.splits)

lemma varint_loops_agree:
  assumes "in_ok (pb_in s)" "run_state (varint32_loop k bp (ucast r)) s = (Some x, t)"
    and "7 dvd bp" "bp + 7 * j = 70" "0 < j" "j < k"
  shows "\<exists>v. run_state (varint_loop j bp r) s = (Some v, t) \<and> ucast v = x"
  using assms
proof (induction k arbitrary: bp r j s)
  case 0
  then show ?case by simp
next
  case (Suc k)
  obtain j' where j: "j = Suc j'" using Suc.prems(5) by (cases j) auto
  have bp: "bp \<le> 63" using Suc.prems(4,5) by simp
  have dvd: "bp < 28 \<or> bp = 28 \<or> 32 \<le> bp" "bp < 63 \<longrightarrow> bp \<le> 56"
    using Suc.prems(3,4) by presburger+
  obtain b bs where av: "avail (pb_in s) = b # bs"
    using Suc.prems(1,2) by (cases "avail (pb_in s)") (auto simp: run_map_value run_pb_readbyte)
  have le: "1 \<le> unat (bytes_left (pb_in s))" using length_avail [OF Suc.prems(1)] av by simp
  have ok1: "in_ok (pb_in (eat 1 s))" using Suc.prems(1) le by (simp add: in_ok_consume)
  define r' where "r' = r OR push_bit bp (ucast (b AND 0x7F))"
  have step: "run_state (if b AND 0x80 \<noteq> 0 then varint32_loop k (bp + 7) (ucast r') else return (Some (ucast r')))
      (eat 1 s) = (Some x, t)" and ext: "32 \<le> bp \<Longrightarrow> b AND 0x7F = 0 \<or> b = (if bp < 63 then 0xFF else 1)"
    using Suc.prems(1,2) av dvd ucast_or_group(1) [of bp r b] ucast_or_group(2) [of r b] ucast_or_group(3) [of bp r b]
    by (auto simp: run_map_value run_pb_readbyte r'_def Let_def split: if_splits)
  show ?case
  proof (cases "b AND 0x80 = 0")
    case True
    have "\<not> (63 \<le> bp \<and> b AND 0xFE \<noteq> 0)"
    proof
      assume a: "63 \<le> bp \<and> b AND 0xFE \<noteq> 0"
      with bp ext have "b AND 0x7F = 0 \<or> b = 1" by auto
      moreover have "unat b < 128" using True by (simp add: byte_and_80)
      ultimately have "b = 0 \<or> b = 1"
        by (auto simp: byte_and_7F word_unat_eq_iff)
      with a show False by auto
    qed
    with True step av Suc.prems(1) show ?thesis
      by (auto simp: j run_map_value run_pb_readbyte r'_def Let_def)
  next
    case False
    have "bp < 63"
    proof (rule ccontr)
      assume "\<not> bp < 63"
      with bp have "bp = 63" by simp
      moreover have "0 < k" using Suc.prems(5,6) by simp
      ultimately show False
        using step False varint32_loop_past_end [OF ok1, of 70 k] by (auto dest: arg_cong [of _ _ fst])
    qed
    then have "0 < j'" "bp + 7 + 7 * j' = 70" "7 dvd bp + 7" using Suc.prems(3,4) j by auto
    moreover have "run_state (varint32_loop k (bp + 7) (ucast r')) (eat 1 s) = (Some x, t)"
      using step False by simp
    ultimately have "\<exists>v. run_state (varint_loop j' (bp + 7) r') (eat 1 s) = (Some v, t) \<and> ucast v = x"
      using Suc.IH [OF ok1] Suc.prems(6) j by simp
    with False \<open>bp < 63\<close> av Suc.prems(1) show ?thesis
      by (auto simp: j run_map_value run_pb_readbyte r'_def Let_def)
  qed
qed

lemma varint32_agrees:
  assumes "in_ok (pb_in s)" "run_state pb_decode_varint32 s = (Some x, t)"
  shows "\<exists>v. run_state pb_decode_varint s = (Some v, t) \<and> ucast v = x"
proof -
  obtain b bs where av: "avail (pb_in s) = b # bs"
    using assms by (cases "avail (pb_in s)")
      (auto simp: pb_decode_varint32_def pb_decode_varint32_eof_def run_pb_readbyte)
  have le: "1 \<le> unat (bytes_left (pb_in s))" using length_avail [OF assms(1)] av by simp
  have ok1: "in_ok (pb_in (eat 1 s))" using assms(1) le by (simp add: in_ok_consume)
  have "varint_loop (Suc 9) 0 0 = map_value pb_readbyte (\<lambda>b.
      if b AND 0x80 \<noteq> 0 then varint_loop 9 7 (ucast (b AND 0x7F))
      else return (Some (ucast (b AND 0x7F))))"
    unfolding varint_loop.simps by (simp add: Let_def cong: if_cong)
  then have ten: "pb_decode_varint = map_value pb_readbyte (\<lambda>b.
      if b AND 0x80 \<noteq> 0 then varint_loop 9 7 (ucast (b AND 0x7F))
      else return (Some (ucast (b AND 0x7F))))"
    by (simp add: pb_decode_varint_def)
  have uu: "(ucast (ucast c :: u64) :: u32) = ucast c" for c :: u8
    by (rule bit_word_eqI) (auto simp: bit_ucast_iff)
  have b7: "b AND 0x7F = b" if "b AND 0x80 = 0"
    using that unfolding byte_and_80 by (simp add: byte_and_7F word_unat_eq_iff unat_of_nat)
  show ?thesis
  proof (cases "b AND 0x80 = 0")
    case True
    with assms av have "x = ucast b" "t = eat 1 s"
      by (auto simp: pb_decode_varint32_def pb_decode_varint32_eof_def run_pb_readbyte)
    with True assms(1) av show ?thesis
      unfolding ten
      by (auto simp: run_map_value run_pb_readbyte Let_def b7 uu)
  next
    case False
    with assms av have "run_state (varint32_loop 10 7 (ucast (b AND 0x7F))) (eat 1 s) = (Some x, t)"
      by (auto simp: pb_decode_varint32_def pb_decode_varint32_eof_def run_pb_readbyte split: prod.splits)
    moreover have "(ucast (b AND 0x7F) :: u32) = ucast (ucast (b AND 0x7F) :: u64)"
      by (simp only: uu)
    ultimately have "\<exists>v. run_state (varint_loop 9 7 (ucast (b AND 0x7F))) (eat 1 s) = (Some v, t) \<and> ucast v = x"
      using varint_loops_agree [OF ok1, of 10 7 "ucast (b AND 0x7F)" x t 9] by simp
    with False assms(1) av show ?thesis
      unfolding ten
      by (auto simp: run_map_value run_pb_readbyte Let_def)
  qed
qed

end
