(* ===== verification/Nanopb_Field.thy ===== *)
theory Nanopb_Field
  imports Nanopb_Stream
begin

text \<open>
  Message descriptors and the field iterator: the type codes and the packed field information of
  \<open>nanopb/pb.h\<close> (\<open>PB_FIELDINFO_1/2/4/8\<close> with their static assertions), \<open>pb_msgdesc_t\<close>,
  \<open>pb_field_iter_t\<close> and the functions of \<open>nanopb/pb_common.c\<close>. Message descriptors are constants
  that only point to descriptors defined before them, so they are a datatype.
\<close>

section \<open>Type codes\<close>

abbreviation (input) PB_LTYPE_BOOL :: u8 where "PB_LTYPE_BOOL \<equiv> 0x00"
abbreviation (input) PB_LTYPE_VARINT :: u8 where "PB_LTYPE_VARINT \<equiv> 0x01"
abbreviation (input) PB_LTYPE_UVARINT :: u8 where "PB_LTYPE_UVARINT \<equiv> 0x02"
abbreviation (input) PB_LTYPE_SVARINT :: u8 where "PB_LTYPE_SVARINT \<equiv> 0x03"
abbreviation (input) PB_LTYPE_FIXED32 :: u8 where "PB_LTYPE_FIXED32 \<equiv> 0x04"
abbreviation (input) PB_LTYPE_FIXED64 :: u8 where "PB_LTYPE_FIXED64 \<equiv> 0x05"
abbreviation (input) PB_LTYPE_LAST_PACKABLE :: u8 where "PB_LTYPE_LAST_PACKABLE \<equiv> 0x05"
abbreviation (input) PB_LTYPE_BYTES :: u8 where "PB_LTYPE_BYTES \<equiv> 0x06"
abbreviation (input) PB_LTYPE_STRING :: u8 where "PB_LTYPE_STRING \<equiv> 0x07"
abbreviation (input) PB_LTYPE_SUBMESSAGE :: u8 where "PB_LTYPE_SUBMESSAGE \<equiv> 0x08"
abbreviation (input) PB_LTYPE_SUBMSG_W_CB :: u8 where "PB_LTYPE_SUBMSG_W_CB \<equiv> 0x09"
abbreviation (input) PB_LTYPE_EXTENSION :: u8 where "PB_LTYPE_EXTENSION \<equiv> 0x0A"
abbreviation (input) PB_LTYPE_FIXED_LENGTH_BYTES :: u8 where "PB_LTYPE_FIXED_LENGTH_BYTES \<equiv> 0x0B"
abbreviation (input) PB_LTYPE_MASK :: u8 where "PB_LTYPE_MASK \<equiv> 0x0F"

abbreviation (input) PB_HTYPE_REQUIRED :: u8 where "PB_HTYPE_REQUIRED \<equiv> 0x00"
abbreviation (input) PB_HTYPE_OPTIONAL :: u8 where "PB_HTYPE_OPTIONAL \<equiv> 0x10"
abbreviation (input) PB_HTYPE_SINGULAR :: u8 where "PB_HTYPE_SINGULAR \<equiv> 0x10"
abbreviation (input) PB_HTYPE_REPEATED :: u8 where "PB_HTYPE_REPEATED \<equiv> 0x20"
abbreviation (input) PB_HTYPE_ONEOF :: u8 where "PB_HTYPE_ONEOF \<equiv> 0x30"
abbreviation (input) PB_HTYPE_MASK :: u8 where "PB_HTYPE_MASK \<equiv> 0x30"

abbreviation (input) PB_ATYPE_STATIC :: u8 where "PB_ATYPE_STATIC \<equiv> 0x00"
abbreviation (input) PB_ATYPE_POINTER :: u8 where "PB_ATYPE_POINTER \<equiv> 0x80"
abbreviation (input) PB_ATYPE_CALLBACK :: u8 where "PB_ATYPE_CALLBACK \<equiv> 0x40"
abbreviation (input) PB_ATYPE_MASK :: u8 where "PB_ATYPE_MASK \<equiv> 0xC0"

definition PB_ATYPE :: "u8 \<Rightarrow> u8" where "PB_ATYPE x = x AND PB_ATYPE_MASK"
definition PB_HTYPE :: "u8 \<Rightarrow> u8" where "PB_HTYPE x = x AND PB_HTYPE_MASK"
definition PB_LTYPE :: "u8 \<Rightarrow> u8" where "PB_LTYPE x = x AND PB_LTYPE_MASK"

definition PB_LTYPE_IS_SUBMSG :: "u8 \<Rightarrow> bool" where
  "PB_LTYPE_IS_SUBMSG x \<longleftrightarrow> PB_LTYPE x = PB_LTYPE_SUBMESSAGE \<or> PB_LTYPE x = PB_LTYPE_SUBMSG_W_CB"

section \<open>Packed field information\<close>

text \<open>
  The macro arguments are C integers; the model takes them converted to \<open>uint32_t\<close>, as every
  use in the macros converts them (\<open>size_offset\<close> may be negative before that).
\<close>

definition PB_FIELDINFO_1 :: "u32 \<Rightarrow> u8 \<Rightarrow> u32 \<Rightarrow> u32 \<Rightarrow> u32 \<Rightarrow> u32 \<Rightarrow> u32 list" where
  "PB_FIELDINFO_1 tag type data_offset data_size size_offset array_size =
     [0 OR (push_bit 2 tag AND 0xFF) OR push_bit 8 (ucast type) OR push_bit 16 (data_offset AND 0xFF)
      OR push_bit 24 (size_offset AND 0x0F) OR push_bit 28 (data_size AND 0x0F)]"

definition PB_FIELDINFO_2 :: "u32 \<Rightarrow> u8 \<Rightarrow> u32 \<Rightarrow> u32 \<Rightarrow> u32 \<Rightarrow> u32 \<Rightarrow> u32 list" where
  "PB_FIELDINFO_2 tag type data_offset data_size size_offset array_size =
     [1 OR (push_bit 2 tag AND 0xFF) OR push_bit 8 (ucast type) OR push_bit 16 (array_size AND 0xFFF)
      OR push_bit 28 (size_offset AND 0x0F),
      (data_offset AND 0xFFFF) OR push_bit 16 (data_size AND 0xFFF) OR push_bit 22 (tag AND 0x3C0)]"

definition PB_FIELDINFO_4 :: "u32 \<Rightarrow> u8 \<Rightarrow> u32 \<Rightarrow> u32 \<Rightarrow> u32 \<Rightarrow> u32 \<Rightarrow> u32 list" where
  "PB_FIELDINFO_4 tag type data_offset data_size size_offset array_size =
     [2 OR (push_bit 2 tag AND 0xFF) OR push_bit 8 (ucast type) OR push_bit 16 (array_size AND 0xFFFF),
      scast (ucast size_offset :: u8) OR (push_bit 2 tag AND 0xFFFFFF00),
      data_offset, data_size]"

definition PB_FIELDINFO_8 :: "u32 \<Rightarrow> u8 \<Rightarrow> u32 \<Rightarrow> u32 \<Rightarrow> u32 \<Rightarrow> u32 \<Rightarrow> u32 list" where
  "PB_FIELDINFO_8 tag type data_offset data_size size_offset array_size =
     [3 OR (push_bit 2 tag AND 0xFF) OR push_bit 8 (ucast type),
      scast (ucast size_offset :: u8) OR (push_bit 2 tag AND 0xFFFFFF00),
      data_offset, data_size, array_size, 0, 0, 0]"

definition PB_FITS :: "u32 \<Rightarrow> nat \<Rightarrow> bool" where
  "PB_FITS value bits \<longleftrightarrow> value < push_bit bits 1"

definition PB_FIELDINFO_ASSERT_1 :: "u32 \<Rightarrow> u32 \<Rightarrow> u32 \<Rightarrow> u32 \<Rightarrow> u32 \<Rightarrow> bool" where
  "PB_FIELDINFO_ASSERT_1 tag data_offset data_size size_offset array_size \<longleftrightarrow>
     PB_FITS tag 6 \<and> PB_FITS data_offset 8 \<and> PB_FITS size_offset 4 \<and> PB_FITS data_size 4
     \<and> PB_FITS array_size 1"

definition PB_FIELDINFO_ASSERT_2 :: "u32 \<Rightarrow> u32 \<Rightarrow> u32 \<Rightarrow> u32 \<Rightarrow> u32 \<Rightarrow> bool" where
  "PB_FIELDINFO_ASSERT_2 tag data_offset data_size size_offset array_size \<longleftrightarrow>
     PB_FITS tag 10 \<and> PB_FITS data_offset 16 \<and> PB_FITS size_offset 4 \<and> PB_FITS data_size 12
     \<and> PB_FITS array_size 12"

definition PB_FIELDINFO_ASSERT_4 :: "u32 \<Rightarrow> u32 \<Rightarrow> u32 \<Rightarrow> u32 \<Rightarrow> u32 \<Rightarrow> bool" where
  "PB_FIELDINFO_ASSERT_4 tag data_offset data_size size_offset array_size \<longleftrightarrow>
     PB_FITS tag 16 \<and> PB_FITS data_offset 16 \<and> PB_FITS (scast (ucast size_offset :: u8)) 8
     \<and> PB_FITS data_size 16 \<and> PB_FITS array_size 16"

definition PB_FIELDINFO_ASSERT_8 :: "u32 \<Rightarrow> u32 \<Rightarrow> u32 \<Rightarrow> u32 \<Rightarrow> u32 \<Rightarrow> bool" where
  "PB_FIELDINFO_ASSERT_8 tag data_offset data_size size_offset array_size \<longleftrightarrow>
     PB_FITS tag 16 \<and> PB_FITS data_offset 16 \<and> PB_FITS (scast (ucast size_offset :: u8)) 8
     \<and> PB_FITS data_size 16 \<and> PB_FITS array_size 16"

section \<open>Descriptors and the iterator\<close>

text \<open>
  \<open>field_callback\<close> is null or the library's \<open>pb_default_field_callback\<close>, the two values the
  generator emits for this repository's schemas.
\<close>

datatype pb_field_callback = NO_FIELD_CALLBACK | DEFAULT_FIELD_CALLBACK

datatype pb_msgdesc = PbMsgdesc
  (field_info: "u32 list")
  (submsg_info: "pb_msgdesc option list")
  (default_value: "bytes option")
  (field_callback: pb_field_callback)
  (field_count: u16)
  (required_field_count: u16)
  (largest_tag: u16)

text \<open>
  \<open>pSize\<close> points to a count, has or which member of the struct, to the iterator's own
  \<open>array_size\<close> (arrays of fixed count) or to the local \<open>fixed_count_size\<close> of \<open>pb_decode_inner\<close>.
\<close>

datatype pb_psize = PS_NULL | PS_AT nat | PS_ARRAY_SIZE | PS_FIXED_COUNT

record pb_field_iter =
  it_descriptor :: pb_msgdesc
  it_message :: nat
  it_index :: u16
  it_field_info_index :: u16
  it_required_field_index :: u16
  it_submessage_index :: u16
  it_tag :: u16
  it_data_size :: u16
  it_array_size :: u16
  it_type :: u8
  it_pField :: nat
  it_pData :: nat
  it_pSize :: pb_psize
  it_submsg_desc :: "pb_msgdesc option"

definition const_u32 :: "u32 list \<Rightarrow> nat \<Rightarrow> ('w pb, u32) st" where
  "const_u32 xs i = (if i < length xs then return (xs ! i) else fault 0)"

definition const_submsg ::
  "pb_msgdesc option list \<Rightarrow> nat \<Rightarrow> ('w pb, pb_msgdesc option) st" where
  "const_submsg xs i = (if i < length xs then return (xs ! i) else fault None)"

text \<open>The words of a field description as \<open>load_descriptor_values\<close> takes them apart.\<close>

record pb_field_values =
  fv_array_size :: u16
  fv_tag :: u16
  fv_size_offset :: u8
  fv_data_offset :: u32
  fv_data_size :: u16

definition unpack_1 :: "u32 \<Rightarrow> pb_field_values" where
  "unpack_1 word0 = \<lparr>
     fv_array_size = 1,
     fv_tag = ucast (drop_bit 2 word0 AND 0x3F),
     fv_size_offset = ucast (drop_bit 24 word0 AND 0x0F),
     fv_data_offset = drop_bit 16 word0 AND 0xFF,
     fv_data_size = ucast (drop_bit 28 word0 AND 0x0F)\<rparr>"

definition unpack_2 :: "u32 \<Rightarrow> u32 \<Rightarrow> pb_field_values" where
  "unpack_2 word0 word1 = \<lparr>
     fv_array_size = ucast (drop_bit 16 word0 AND 0x0FFF),
     fv_tag = ucast ((drop_bit 2 word0 AND 0x3F) OR push_bit 6 (drop_bit 28 word1)),
     fv_size_offset = ucast (drop_bit 28 word0 AND 0x0F),
     fv_data_offset = word1 AND 0xFFFF,
     fv_data_size = ucast (drop_bit 16 word1 AND 0x0FFF)\<rparr>"

definition unpack_4 :: "u32 \<Rightarrow> u32 \<Rightarrow> u32 \<Rightarrow> u32 \<Rightarrow> pb_field_values" where
  "unpack_4 word0 word1 word2 word3 = \<lparr>
     fv_array_size = ucast (drop_bit 16 word0),
     fv_tag = ucast ((drop_bit 2 word0 AND 0x3F) OR push_bit 6 (drop_bit 8 word1)),
     fv_size_offset = ucast (word1 AND 0xFF),
     fv_data_offset = word2,
     fv_data_size = ucast word3\<rparr>"

definition unpack_8 :: "u32 \<Rightarrow> u32 \<Rightarrow> u32 \<Rightarrow> u32 \<Rightarrow> u32 \<Rightarrow> pb_field_values" where
  "unpack_8 word0 word1 word2 word3 word4 = \<lparr>
     fv_array_size = ucast word4,
     fv_tag = ucast ((drop_bit 2 word0 AND 0x3F) OR push_bit 6 (drop_bit 8 word1)),
     fv_size_offset = ucast (word1 AND 0xFF),
     fv_data_offset = word2,
     fv_data_size = ucast word3\<rparr>"

definition unpack_field :: "u32 list \<Rightarrow> nat \<Rightarrow> ('w pb, pb_field_values) st" where
  "unpack_field fi i = do {
     word0 \<leftarrow> const_u32 fi i;
     if word0 AND 3 = 0 then return (unpack_1 word0)
     else if word0 AND 3 = 1 then do {
       word1 \<leftarrow> const_u32 fi (i + 1);
       return (unpack_2 word0 word1)
     }
     else do {
       word1 \<leftarrow> const_u32 fi (i + 1);
       word2 \<leftarrow> const_u32 fi (i + 2);
       word3 \<leftarrow> const_u32 fi (i + 3);
       if word0 AND 3 = 2 then return (unpack_4 word0 word1 word2 word3)
       else do {
         word4 \<leftarrow> const_u32 fi (i + 4);
         return (unpack_8 word0 word1 word2 word3 word4)
       }
     }
   }"

text \<open>The pointers of the iterator, for a message that is not null.\<close>

definition field_pSize :: "u8 \<Rightarrow> nat \<Rightarrow> u8 \<Rightarrow> pb_psize" where
  "field_pSize type pField size_offset =
     (if size_offset \<noteq> 0 then PS_AT (nat (int pField - sint size_offset))
      else if PB_HTYPE type = PB_HTYPE_REPEATED
           \<and> (PB_ATYPE type = PB_ATYPE_STATIC \<or> PB_ATYPE type = PB_ATYPE_POINTER)
      then PS_ARRAY_SIZE
      else PS_NULL)"

definition load_descriptor_values :: "pb_field_iter \<Rightarrow> ('w pb, bool \<times> pb_field_iter) st" where
  "load_descriptor_values iter =
     (if it_index iter \<ge> field_count (it_descriptor iter) then return (False, iter)
      else do {
        word0 \<leftarrow> const_u32 (field_info (it_descriptor iter)) (unat (it_field_info_index iter));
        v \<leftarrow> unpack_field (field_info (it_descriptor iter)) (unat (it_field_info_index iter));
        iter \<leftarrow> return (iter\<lparr>it_type := ucast (drop_bit 8 word0 AND 0xFF),
          it_array_size := fv_array_size v, it_tag := fv_tag v, it_data_size := fv_data_size v\<rparr>);
        iter \<leftarrow>
          (if it_message iter = 0
           then return (iter\<lparr>it_pField := 0, it_pSize := PS_NULL\<rparr>)
           else do {
             iter \<leftarrow> return (iter\<lparr>it_pField := it_message iter + unat (fv_data_offset v)\<rparr>);
             iter \<leftarrow> return (iter\<lparr>it_pSize :=
               field_pSize (it_type iter) (it_pField iter) (fv_size_offset v)\<rparr>);
             if PB_ATYPE (it_type iter) = PB_ATYPE_POINTER \<and> it_pField iter \<noteq> 0
             then do {
               p \<leftarrow> read_u32 (it_pField iter);
               return (iter\<lparr>it_pData := unat p\<rparr>)
             }
             else return (iter\<lparr>it_pData := it_pField iter\<rparr>)
           });
        sub \<leftarrow>
          (if PB_LTYPE_IS_SUBMSG (it_type iter)
           then const_submsg (submsg_info (it_descriptor iter)) (unat (it_submessage_index iter))
           else return None);
        return (True, iter\<lparr>it_submsg_desc := sub\<rparr>)
      })"

definition advance_iterator :: "pb_field_iter \<Rightarrow> ('w pb, pb_field_iter) st" where
  "advance_iterator iter = do {
     iter \<leftarrow> return (iter\<lparr>it_index := it_index iter + 1\<rparr>);
     if it_index iter \<ge> field_count (it_descriptor iter)
     then return (iter\<lparr>it_index := 0, it_field_info_index := 0, it_submessage_index := 0,
       it_required_field_index := 0\<rparr>)
     else do {
       prev_descriptor \<leftarrow>
         const_u32 (field_info (it_descriptor iter)) (unat (it_field_info_index iter));
       let prev_type = ucast (drop_bit 8 prev_descriptor AND 0xFF);
           descriptor_len = push_bit (unat (prev_descriptor AND 3)) 1
       in return (iter\<lparr>
         it_field_info_index := it_field_info_index iter + descriptor_len,
         it_required_field_index := it_required_field_index iter
           + of_bool (PB_HTYPE prev_type = PB_HTYPE_REQUIRED),
         it_submessage_index := it_submessage_index iter
           + of_bool (PB_LTYPE_IS_SUBMSG prev_type)\<rparr>)
     }
   }"

definition zero_iter :: "pb_msgdesc \<Rightarrow> nat \<Rightarrow> pb_field_iter" where
  "zero_iter desc message = \<lparr>it_descriptor = desc, it_message = message, it_index = 0,
     it_field_info_index = 0, it_required_field_index = 0, it_submessage_index = 0, it_tag = 0,
     it_data_size = 0, it_array_size = 0, it_type = 0, it_pField = 0, it_pData = 0,
     it_pSize = PS_NULL, it_submsg_desc = None\<rparr>"

definition pb_field_iter_begin ::
  "pb_msgdesc \<Rightarrow> nat \<Rightarrow> ('w pb, bool \<times> pb_field_iter) st" where
  "pb_field_iter_begin desc message = load_descriptor_values (zero_iter desc message)"

definition pb_field_iter_next :: "pb_field_iter \<Rightarrow> ('w pb, bool \<times> pb_field_iter) st" where
  "pb_field_iter_next iter = do {
     iter \<leftarrow> advance_iterator iter;
     (_, iter) \<leftarrow> load_descriptor_values iter;
     return (it_index iter \<noteq> 0, iter)
   }"

text \<open>The search loops: at most one turn through all fields.\<close>

fun find_loop ::
  "nat \<Rightarrow> u16 \<Rightarrow> u32 \<Rightarrow> pb_field_iter \<Rightarrow> ('w pb, bool \<times> pb_field_iter) st" where
  "find_loop 0 start tag iter = fault (False, iter)"
| "find_loop (Suc n) start tag iter = do {
     iter \<leftarrow> advance_iterator iter;
     fieldinfo \<leftarrow>
       const_u32 (field_info (it_descriptor iter)) (unat (it_field_info_index iter));
     (found, iter) \<leftarrow>
       (if drop_bit 2 fieldinfo AND 0x3F = tag AND 0x3F
        then do {
          (_, iter) \<leftarrow> load_descriptor_values iter;
          return (ucast (it_tag iter) = tag
            \<and> PB_LTYPE (it_type iter) \<noteq> PB_LTYPE_EXTENSION, iter)
        }
        else return (False, iter));
     if found then return (True, iter)
     else if it_index iter \<noteq> start then find_loop n start tag iter
     else do {
       (_, iter) \<leftarrow> load_descriptor_values iter;
       return (False, iter)
     }
   }"

definition pb_field_iter_find ::
  "pb_field_iter \<Rightarrow> u32 \<Rightarrow> ('w pb, bool \<times> pb_field_iter) st" where
  "pb_field_iter_find iter tag =
     (if ucast (it_tag iter) = tag then return (True, iter)
      else if tag > ucast (largest_tag (it_descriptor iter)) then return (False, iter)
      else
        let start = it_index iter;
            iter = (if tag < ucast (it_tag iter)
                    then iter\<lparr>it_index := field_count (it_descriptor iter)\<rparr> else iter)
        in find_loop (Suc (unat (field_count (it_descriptor iter)))) start tag iter)"

fun find_extension_loop ::
  "nat \<Rightarrow> u16 \<Rightarrow> pb_field_iter \<Rightarrow> ('w pb, bool \<times> pb_field_iter) st" where
  "find_extension_loop 0 start iter = fault (False, iter)"
| "find_extension_loop (Suc n) start iter = do {
     iter \<leftarrow> advance_iterator iter;
     fieldinfo \<leftarrow>
       const_u32 (field_info (it_descriptor iter)) (unat (it_field_info_index iter));
     if PB_LTYPE (ucast (drop_bit 8 fieldinfo AND 0xFF)) = PB_LTYPE_EXTENSION
     then load_descriptor_values iter
     else if it_index iter \<noteq> start then find_extension_loop n start iter
     else do {
       (_, iter) \<leftarrow> load_descriptor_values iter;
       return (False, iter)
     }
   }"

definition pb_field_iter_find_extension ::
  "pb_field_iter \<Rightarrow> ('w pb, bool \<times> pb_field_iter) st" where
  "pb_field_iter_find_extension iter =
     (if PB_LTYPE (it_type iter) = PB_LTYPE_EXTENSION then return (True, iter)
      else find_extension_loop (Suc (unat (field_count (it_descriptor iter)))) (it_index iter) iter)"

section \<open>Callbacks of the user\<close>

text \<open>
  \<open>pb_callback_t\<close> in a struct is a function pointer and an argument pointer. What the functions
  do is the user's code: a parameter of the model, applied to the function pointer, the field and
  the address of the argument member.
\<close>

abbreviation (input) SIZEOF_pb_callback_t :: nat where "SIZEOF_pb_callback_t \<equiv> 8"

record 'w pb_user =
  u_decode :: "u32 \<Rightarrow> pb_field_iter \<Rightarrow> nat \<Rightarrow> ('w pb, bool) st"
  u_encode :: "u32 \<Rightarrow> pb_field_iter \<Rightarrow> nat \<Rightarrow> ('w pb, bool) st"

definition pb_default_field_callback ::
  "'w pb_user \<Rightarrow> bool \<Rightarrow> pb_field_iter \<Rightarrow> ('w pb, bool) st" where
  "pb_default_field_callback u decoding field =
     (if unat (it_data_size field) = SIZEOF_pb_callback_t \<and> it_pData field \<noteq> 0 then do {
        f \<leftarrow> read_u32 (it_pData field);
        if decoding \<and> f \<noteq> 0 then u_decode u f field (it_pData field + 4)
        else if \<not> decoding \<and> f \<noteq> 0 then u_encode u f field (it_pData field + 4)
        else return True
      }
      else return True)"

end
