(* ===== verification/Nanopb_Encode.thy ===== *)
theory Nanopb_Encode
  imports Nanopb_Field
begin

text \<open>
  The message encoder (\<open>nanopb/pb_encode.c\<close>). The functions are mutually recursive through
  \<open>pb_encode_submessage\<close>; they take the encoder of submessages as the argument \<open>rec\<close>, and
  \<open>encode_depth\<close> ties the knot with a bound on the depth of the call stack, which the depth of
  the descriptor satisfies. Extensions are linked lists the user builds; no schema of this
  repository has an extension range, and a list that is not empty is outside of the model.
\<close>

section \<open>Reading the struct\<close>

definition safe_read_bool :: "nat \<Rightarrow> ('w pb, bool) st" where
  "safe_read_bool p = do { b \<leftarrow> read_u8 p; return (b \<noteq> 0) }"

text \<open>\<open>pSize\<close> as an address, and the \<open>pb_size_t\<close> it points to.\<close>

definition psize_addr :: "pb_psize \<Rightarrow> ('w pb, nat) st" where
  "psize_addr p = (case p of PS_AT a \<Rightarrow> return a | _ \<Rightarrow> fault 0)"

definition read_psize :: "pb_field_iter \<Rightarrow> ('w pb, u16) st" where
  "read_psize field = (case it_pSize field of
     PS_AT a \<Rightarrow> read_u16 a
   | PS_ARRAY_SIZE \<Rightarrow> return (it_array_size field)
   | PS_FIXED_COUNT \<Rightarrow> gets pb_fixed_count
   | PS_NULL \<Rightarrow> fault 0)"

definition next_item :: "pb_field_iter \<Rightarrow> pb_field_iter" where
  "next_item field = field\<lparr>it_pData := it_pData field + unat (it_data_size field)\<rparr>"

section \<open>Field encoders\<close>

definition pb_encode_tag_for_field :: "pb_field_iter \<Rightarrow> ('w pb, bool) st" where
  "pb_encode_tag_for_field field =
     (let ltype = PB_LTYPE (it_type field); tag = ucast (it_tag field) in
      if ltype = PB_LTYPE_BOOL \<or> ltype = PB_LTYPE_VARINT \<or> ltype = PB_LTYPE_UVARINT
         \<or> ltype = PB_LTYPE_SVARINT
      then pb_encode_tag PB_WT_VARINT tag
      else if ltype = PB_LTYPE_FIXED32 then pb_encode_tag PB_WT_32BIT tag
      else if ltype = PB_LTYPE_FIXED64 then pb_encode_tag PB_WT_64BIT tag
      else if ltype = PB_LTYPE_BYTES \<or> ltype = PB_LTYPE_STRING \<or> ltype = PB_LTYPE_SUBMESSAGE
         \<or> ltype = PB_LTYPE_SUBMSG_W_CB \<or> ltype = PB_LTYPE_FIXED_LENGTH_BYTES
      then pb_encode_tag PB_WT_STRING tag
      else out_error ''invalid field type'')"

definition pb_enc_bool :: "pb_field_iter \<Rightarrow> ('w pb, bool) st" where
  "pb_enc_bool field = do {
     b \<leftarrow> safe_read_bool (it_pData field);
     pb_encode_varint (if b then 1 else 0)
   }"

definition pb_enc_varint :: "pb_field_iter \<Rightarrow> ('w pb, bool) st" where
  "pb_enc_varint field =
     (let p = it_pData field; n = it_data_size field in
      if PB_LTYPE (it_type field) = PB_LTYPE_UVARINT then
        if n = 1 then do { v \<leftarrow> read_u8 p; pb_encode_varint (ucast v) }
        else if n = 2 then do { v \<leftarrow> read_u16 p; pb_encode_varint (ucast v) }
        else if n = 4 then do { v \<leftarrow> read_u32 p; pb_encode_varint (ucast v) }
        else if n = 8 then do { v \<leftarrow> read_u64 p; pb_encode_varint v }
        else out_error ''invalid data_size''
      else
        with_value
          (if n = 1 then do { v \<leftarrow> read_u8 p; return (Some (scast v)) }
           else if n = 2 then do { v \<leftarrow> read_u16 p; return (Some (scast v)) }
           else if n = 4 then do { v \<leftarrow> read_u32 p; return (Some (scast v)) }
           else if n = 8 then do { v \<leftarrow> read_u64 p; return (Some v) }
           else do { set_out_error ''invalid data_size''; return None })
          (\<lambda>value. if PB_LTYPE (it_type field) = PB_LTYPE_SVARINT then pb_encode_svarint value
                    else pb_encode_varint value))"

definition pb_enc_fixed :: "pb_field_iter \<Rightarrow> ('w pb, bool) st" where
  "pb_enc_fixed field =
     (if it_data_size field = 4 then do { v \<leftarrow> read_u32 (it_pData field); pb_encode_fixed32 v }
      else if it_data_size field = 8 then do { v \<leftarrow> read_u64 (it_pData field); pb_encode_fixed64 v }
      else out_error ''invalid data_size'')"

definition pb_enc_bytes :: "pb_field_iter \<Rightarrow> ('w pb, bool) st" where
  "pb_enc_bytes field =
     (if it_pData field = 0 then pb_encode_string None 0
      else do {
        n \<leftarrow> read_u16 (it_pData field);
        if PB_ATYPE (it_type field) = PB_ATYPE_STATIC
           \<and> (ucast n :: u32) > ucast (it_data_size field) - 2
        then out_error ''bytes size exceeded''
        else do {
          bs \<leftarrow> msg_read (it_pData field + 2) (unat n);
          pb_encode_string (Some bs) (ucast n)
        }
      })"

text \<open>\<open>while (size < max_size && *p != 0)\<close>; the first argument is \<open>max_size - size\<close>.\<close>

fun string_length :: "nat \<Rightarrow> nat \<Rightarrow> nat \<Rightarrow> ('w pb, nat) st" where
  "string_length 0 p n = return n"
| "string_length (Suc k) p n = do {
     c \<leftarrow> read_u8 p;
     if c \<noteq> 0 then string_length k (p + 1) (n + 1) else return n
   }"

definition pb_enc_string :: "pb_field_iter \<Rightarrow> ('w pb, bool) st" where
  "pb_enc_string field =
     (if PB_ATYPE (it_type field) \<noteq> PB_ATYPE_POINTER \<and> it_data_size field = 0
      then out_error ''zero-length string''
      else
        let max_size = (if PB_ATYPE (it_type field) = PB_ATYPE_POINTER then unat (- 1 :: u32)
                        else unat (it_data_size field) - 1);
            str = it_pData field
        in if str = 0 then pb_encode_string None 0
           else do {
             n \<leftarrow> string_length max_size str 0;
             c \<leftarrow> read_u8 (str + n);
             if c \<noteq> 0 then out_error ''unterminated string''
             else do {
               bs \<leftarrow> msg_read str n;
               pb_encode_string (Some bs) (of_nat n)
             }
           })"

definition pb_enc_fixed_length_bytes :: "pb_field_iter \<Rightarrow> ('w pb, bool) st" where
  "pb_enc_fixed_length_bytes field = do {
     bs \<leftarrow> msg_read (it_pData field) (unat (it_data_size field));
     pb_encode_string (Some bs) (ucast (it_data_size field))
   }"

section \<open>Submessages\<close>

definition pb_encode_submessage ::
  "(pb_msgdesc \<Rightarrow> nat \<Rightarrow> ('w pb, bool) st) \<Rightarrow> pb_msgdesc \<Rightarrow> nat \<Rightarrow> ('w pb, bool) st" where
  "pb_encode_submessage rec desc src_struct = do {
     (ok, substream) \<leftarrow> on_ostream PB_OSTREAM_SIZING (rec desc src_struct);
     if \<not> ok then do {
       modify (\<lambda>s. s\<lparr>pb_out := (pb_out s)\<lparr>os_errmsg := os_errmsg substream\<rparr>\<rparr>);
       return False
     }
     else
       let n = bytes_written substream in
       and_then (pb_encode_varint (ucast n)) (do {
         stream \<leftarrow> gets pb_out;
         if sizing stream then pb_write None n
         else if bytes_written stream + n > max_size stream then out_error ''stream full''
         else do {
           (status, substream) \<leftarrow>
             on_ostream (stream\<lparr>max_size := n, bytes_written := 0, os_errmsg := None\<rparr>)
               (rec desc src_struct);
           modify (\<lambda>s. s\<lparr>pb_out := stream\<lparr>
             bytes_written := bytes_written stream + bytes_written substream,
             os_state := os_state substream, os_buf := os_buf substream,
             os_errmsg := os_errmsg substream\<rparr>\<rparr>);
           if bytes_written substream \<noteq> n then out_error ''submsg size changed''
           else return status
         }
       })
   }"

definition pb_enc_submessage ::
  "'w pb_user \<Rightarrow> (pb_msgdesc \<Rightarrow> nat \<Rightarrow> ('w pb, bool) st) \<Rightarrow> pb_field_iter \<Rightarrow> ('w pb, bool) st" where
  "pb_enc_submessage u rec field = (case it_submsg_desc field of
     None \<Rightarrow> out_error ''invalid field descriptor''
   | Some desc \<Rightarrow>
       and_then
         (if PB_LTYPE (it_type field) = PB_LTYPE_SUBMSG_W_CB \<and> it_pSize field \<noteq> PS_NULL then do {
            a \<leftarrow> psize_addr (it_pSize field);
            f \<leftarrow> read_u32 (a - 8);
            if f \<noteq> 0 then u_encode u f field (a - 4) else return True
          }
          else return True)
         (pb_encode_submessage rec desc (it_pData field)))"

section \<open>Fields\<close>

definition encode_basic_field ::
  "'w pb_user \<Rightarrow> (pb_msgdesc \<Rightarrow> nat \<Rightarrow> ('w pb, bool) st) \<Rightarrow> pb_field_iter \<Rightarrow> ('w pb, bool) st" where
  "encode_basic_field u rec field =
     (if it_pData field = 0 then return True
      else and_then (pb_encode_tag_for_field field)
        (let ltype = PB_LTYPE (it_type field) in
         if ltype = PB_LTYPE_BOOL then pb_enc_bool field
         else if ltype = PB_LTYPE_VARINT \<or> ltype = PB_LTYPE_UVARINT \<or> ltype = PB_LTYPE_SVARINT
         then pb_enc_varint field
         else if ltype = PB_LTYPE_FIXED32 \<or> ltype = PB_LTYPE_FIXED64 then pb_enc_fixed field
         else if ltype = PB_LTYPE_BYTES then pb_enc_bytes field
         else if ltype = PB_LTYPE_STRING then pb_enc_string field
         else if ltype = PB_LTYPE_SUBMESSAGE \<or> ltype = PB_LTYPE_SUBMSG_W_CB
         then pb_enc_submessage u rec field
         else if ltype = PB_LTYPE_FIXED_LENGTH_BYTES then pb_enc_fixed_length_bytes field
         else out_error ''invalid field type''))"

text \<open>The loops of \<open>encode_array\<close> over \<open>count\<close> items.\<close>

fun encode_items ::
  "nat \<Rightarrow> (pb_field_iter \<Rightarrow> ('w pb, bool) st) \<Rightarrow> pb_field_iter \<Rightarrow> ('w pb, bool) st" where
  "encode_items 0 enc field = return True"
| "encode_items (Suc n) enc field = and_then (enc field) (encode_items n enc (next_item field))"

definition packed_size :: "nat \<Rightarrow> pb_field_iter \<Rightarrow> ('w pb, u32 option) st" where
  "packed_size count field =
     (if PB_LTYPE (it_type field) = PB_LTYPE_FIXED32 then return (Some (4 * of_nat count))
      else if PB_LTYPE (it_type field) = PB_LTYPE_FIXED64 then return (Some (8 * of_nat count))
      else do {
        (ok, sizestream) \<leftarrow> on_ostream PB_OSTREAM_SIZING (encode_items count pb_enc_varint field);
        if \<not> ok then do {
          set_out_error (case os_errmsg sizestream of None \<Rightarrow> ''(none)'' | Some m \<Rightarrow> m);
          return None
        }
        else return (Some (bytes_written sizestream))
      })"

definition encode_array ::
  "'w pb_user \<Rightarrow> (pb_msgdesc \<Rightarrow> nat \<Rightarrow> ('w pb, bool) st) \<Rightarrow> pb_field_iter \<Rightarrow> ('w pb, bool) st" where
  "encode_array u rec field = do {
     count \<leftarrow> read_psize field;
     if count = 0 then return True
     else if PB_ATYPE (it_type field) \<noteq> PB_ATYPE_POINTER \<and> count > it_array_size field
     then out_error ''array max size exceeded''
     else if PB_LTYPE (it_type field) \<le> PB_LTYPE_LAST_PACKABLE then
       and_then (pb_encode_tag PB_WT_STRING (ucast (it_tag field)))
         (with_value (packed_size (unat count) field) (\<lambda>n.
           and_then (pb_encode_varint (ucast n)) (do {
             stream \<leftarrow> gets pb_out;
             if sizing stream then pb_write None n
             else encode_items (unat count)
               (if PB_LTYPE (it_type field) = PB_LTYPE_FIXED32
                   \<or> PB_LTYPE (it_type field) = PB_LTYPE_FIXED64
                then pb_enc_fixed else pb_enc_varint) field
           })))
     else encode_items (unat count)
       (\<lambda>field.
          if PB_ATYPE (it_type field) = PB_ATYPE_POINTER
             \<and> (PB_LTYPE (it_type field) = PB_LTYPE_STRING
                \<or> PB_LTYPE (it_type field) = PB_LTYPE_BYTES)
          then do {
            p \<leftarrow> read_u32 (it_pData field);
            if p = 0 then and_then (pb_encode_tag_for_field field) (pb_encode_varint 0)
            else encode_basic_field u rec (field\<lparr>it_pData := unat p\<rparr>)
          }
          else encode_basic_field u rec field)
       field
   }"

text \<open>
  \<open>do { body } while (pb_field_iter_next(&iter))\<close>, which leaves when the body returns false: at
  most one turn per field.
\<close>

fun each_field ::
  "nat \<Rightarrow> (pb_field_iter \<Rightarrow> ('w pb, bool) st) \<Rightarrow> pb_field_iter \<Rightarrow> ('w pb, bool) st" where
  "each_field 0 body iter = fault False"
| "each_field (Suc n) body iter =
     and_then (body iter) (do {
       (more, iter) \<leftarrow> pb_field_iter_next iter;
       if more then each_field n body iter else return True
     })"

definition all_zero :: "bytes \<Rightarrow> bool" where
  "all_zero bs \<longleftrightarrow> (\<forall>b \<in> set bs. b = 0)"

text \<open>The test of \<open>pb_check_proto3_default_value\<close>; \<open>rec\<close> tests all fields of a submessage.\<close>

definition pb_check_proto3_default_value ::
  "(pb_msgdesc \<Rightarrow> nat \<Rightarrow> ('w pb, bool) st) \<Rightarrow> pb_field_iter \<Rightarrow> ('w pb, bool) st" where
  "pb_check_proto3_default_value rec field =
     (let type = it_type field; ltype = PB_LTYPE type; htype = PB_HTYPE type; p = it_pData field in
      if PB_ATYPE type = PB_ATYPE_STATIC then
        if htype = PB_HTYPE_REQUIRED then return False
        else if htype = PB_HTYPE_REPEATED then do { n \<leftarrow> read_psize field; return (n = 0) }
        else if htype = PB_HTYPE_ONEOF then do { n \<leftarrow> read_psize field; return (n = 0) }
        else if htype = PB_HTYPE_OPTIONAL \<and> it_pSize field \<noteq> PS_NULL
        then do { a \<leftarrow> psize_addr (it_pSize field); b \<leftarrow> safe_read_bool a; return (\<not> b) }
        else if default_value (it_descriptor field) \<noteq> None then return False
        else if ltype \<le> PB_LTYPE_LAST_PACKABLE
        then do { bs \<leftarrow> msg_read p (unat (it_data_size field)); return (all_zero bs) }
        else if ltype = PB_LTYPE_BYTES then do { n \<leftarrow> read_u16 p; return (n = 0) }
        else if ltype = PB_LTYPE_STRING then do { c \<leftarrow> read_u8 p; return (c = 0) }
        else if ltype = PB_LTYPE_FIXED_LENGTH_BYTES then return (it_data_size field = 0)
        else if PB_LTYPE_IS_SUBMSG type then
          (case it_submsg_desc field of None \<Rightarrow> fault True | Some desc \<Rightarrow> rec desc p)
        else return False
      else if PB_ATYPE type = PB_ATYPE_POINTER then return (p = 0)
      else if PB_ATYPE type = PB_ATYPE_CALLBACK then
        if ltype = PB_LTYPE_EXTENSION then do { e \<leftarrow> read_u32 p; return (e = 0) }
        else if field_callback (it_descriptor field) = DEFAULT_FIELD_CALLBACK
        then do { f \<leftarrow> read_u32 p; return (f = 0) }
        else return (field_callback (it_descriptor field) = NO_FIELD_CALLBACK)
      else return False)"

primrec default_depth :: "nat \<Rightarrow> pb_msgdesc \<Rightarrow> nat \<Rightarrow> ('w pb, bool) st" where
  "default_depth 0 desc p = fault True"
| "default_depth (Suc n) desc p = do {
     (ok, iter) \<leftarrow> pb_field_iter_begin desc p;
     if ok then each_field (unat (field_count desc))
       (pb_check_proto3_default_value (default_depth n)) iter
     else return True
   }"

definition encode_callback_field :: "'w pb_user \<Rightarrow> pb_field_iter \<Rightarrow> ('w pb, bool) st" where
  "encode_callback_field u field =
     (if field_callback (it_descriptor field) \<noteq> NO_FIELD_CALLBACK then do {
        ok \<leftarrow> pb_default_field_callback u False field;
        if \<not> ok then out_error ''callback error'' else return True
      }
      else return True)"

definition encode_field ::
  "'w pb_user \<Rightarrow> (pb_msgdesc \<Rightarrow> nat \<Rightarrow> ('w pb, bool) st) \<Rightarrow>
   (pb_msgdesc \<Rightarrow> nat \<Rightarrow> ('w pb, bool) st) \<Rightarrow> pb_field_iter \<Rightarrow> ('w pb, bool) st" where
  "encode_field u rec_default rec field = do {
     absent \<leftarrow>
       (if PB_HTYPE (it_type field) = PB_HTYPE_ONEOF then do {
          which \<leftarrow> read_psize field;
          return (which \<noteq> it_tag field)
        }
        else if PB_HTYPE (it_type field) = PB_HTYPE_OPTIONAL then
          if it_pSize field \<noteq> PS_NULL then do {
            a \<leftarrow> psize_addr (it_pSize field);
            b \<leftarrow> safe_read_bool a;
            return (\<not> b)
          }
          else if PB_ATYPE (it_type field) = PB_ATYPE_STATIC
          then pb_check_proto3_default_value rec_default field
          else return False
        else return False);
     if absent then return True
     else if it_pData field = 0 then
       if PB_HTYPE (it_type field) = PB_HTYPE_REQUIRED then out_error ''missing required field''
       else return True
     else if PB_ATYPE (it_type field) = PB_ATYPE_CALLBACK then encode_callback_field u field
     else if PB_HTYPE (it_type field) = PB_HTYPE_REPEATED then encode_array u rec field
     else encode_basic_field u rec field
   }"

definition encode_extension_field :: "pb_field_iter \<Rightarrow> ('w pb, bool) st" where
  "encode_extension_field field = do {
     e \<leftarrow> read_u32 (it_pData field);
     if e = 0 then return True else fault False
   }"

section \<open>Messages\<close>

primrec encode_depth :: "nat \<Rightarrow> 'w pb_user \<Rightarrow> pb_msgdesc \<Rightarrow> nat \<Rightarrow> ('w pb, bool) st" where
  "encode_depth 0 u desc src_struct = fault False"
| "encode_depth (Suc n) u desc src_struct = do {
     (ok, iter) \<leftarrow> pb_field_iter_begin desc src_struct;
     if \<not> ok then return True
     else each_field (unat (field_count desc))
       (\<lambda>iter. if PB_LTYPE (it_type iter) = PB_LTYPE_EXTENSION then encode_extension_field iter
                else encode_field u (default_depth n) (encode_depth n u) iter)
       iter
   }"

fun desc_depth :: "pb_msgdesc \<Rightarrow> nat" where
  "desc_depth (PbMsgdesc fi subs dv cb fc rc lt) =
     Suc (foldr max (map (\<lambda>d. case d of None \<Rightarrow> 0 | Some d \<Rightarrow> desc_depth d) subs) 0)"

definition pb_encode :: "'w pb_user \<Rightarrow> pb_msgdesc \<Rightarrow> nat \<Rightarrow> ('w pb, bool) st" where
  "pb_encode u desc src_struct = encode_depth (desc_depth desc) u desc src_struct"

abbreviation (input) PB_ENCODE_DELIMITED :: u32 where "PB_ENCODE_DELIMITED \<equiv> 0x02"
abbreviation (input) PB_ENCODE_NULLTERMINATED :: u32 where "PB_ENCODE_NULLTERMINATED \<equiv> 0x04"

definition pb_encode_ex ::
  "'w pb_user \<Rightarrow> pb_msgdesc \<Rightarrow> nat \<Rightarrow> u32 \<Rightarrow> ('w pb, bool) st" where
  "pb_encode_ex u desc src_struct flags =
     (if flags AND PB_ENCODE_DELIMITED \<noteq> 0 then pb_encode_submessage (pb_encode u) desc src_struct
      else if flags AND PB_ENCODE_NULLTERMINATED \<noteq> 0
      then and_then (pb_encode u desc src_struct) (write_bytes [0])
      else pb_encode u desc src_struct)"

definition pb_get_encoded_size ::
  "'w pb_user \<Rightarrow> pb_msgdesc \<Rightarrow> nat \<Rightarrow> ('w pb, u32 option) st" where
  "pb_get_encoded_size u desc src_struct = do {
     (ok, stream) \<leftarrow> on_ostream PB_OSTREAM_SIZING (pb_encode u desc src_struct);
     return (if ok then Some (bytes_written stream) else None)
   }"

end
