(* ===== verification/Nanopb_Decode.thy ===== *)
theory Nanopb_Decode
  imports Nanopb_Encode
begin

text \<open>
  The message decoder (\<open>nanopb/pb_decode.c\<close>). Like the encoder it is recursive through
  submessages: \<open>pb_rec\<close> holds the two functions on submessages (setting defaults, decoding) and
  \<open>decode_depth\<close> ties the knot. A function that takes \<open>pb_field_iter_t *\<close> and changes it returns
  the iterator beside its result.
\<close>

record 'w pb_rec =
  rec_defaults :: "pb_msgdesc \<Rightarrow> nat \<Rightarrow> ('w pb, bool) st"
  rec_decode :: "pb_msgdesc \<Rightarrow> nat \<Rightarrow> u32 \<Rightarrow> ('w pb, bool) st"

abbreviation (input) PB_DECODE_NOINIT :: u32 where "PB_DECODE_NOINIT \<equiv> 0x01"
abbreviation (input) PB_DECODE_DELIMITED :: u32 where "PB_DECODE_DELIMITED \<equiv> 0x02"
abbreviation (input) PB_DECODE_NULLTERMINATED :: u32 where "PB_DECODE_NULLTERMINATED \<equiv> 0x04"
abbreviation (input) PB_SIZE_MAX :: u16 where "PB_SIZE_MAX \<equiv> - 1"
abbreviation (input) PB_MAX_REQUIRED_FIELDS :: u16 where "PB_MAX_REQUIRED_FIELDS \<equiv> 64"

section \<open>Writing through \<open>pSize\<close>\<close>

definition write_psize :: "u16 \<Rightarrow> pb_field_iter \<Rightarrow> ('w pb, pb_field_iter) st" where
  "write_psize v field = (case it_pSize field of
     PS_AT a \<Rightarrow> do { msg_write a (le_bytes 2 v); return field }
   | PS_ARRAY_SIZE \<Rightarrow> return (field\<lparr>it_array_size := v\<rparr>)
   | PS_FIXED_COUNT \<Rightarrow> do { modify (\<lambda>s. s\<lparr>pb_fixed_count := v\<rparr>); return field }
   | PS_NULL \<Rightarrow> fault field)"

definition write_has :: "bool \<Rightarrow> pb_field_iter \<Rightarrow> ('w pb, unit) st" where
  "write_has b field = do {
     a \<leftarrow> psize_addr (it_pSize field);
     msg_write a [of_bool b]
   }"

section \<open>Field decoders\<close>

definition pb_dec_bool :: "pb_field_iter \<Rightarrow> ('w pb, bool) st" where
  "pb_dec_bool field = with_value pb_decode_bool (\<lambda>b. do {
     msg_write (it_pData field) [of_bool b];
     return True
   })"

definition pb_dec_varint :: "pb_field_iter \<Rightarrow> ('w pb, bool) st" where
  "pb_dec_varint field =
     (let n = it_data_size field;
          store = (\<lambda>w clamped value. do {
            msg_write (it_pData field) (le_bytes w (value :: u64));
            if clamped \<noteq> value then in_error ''integer too large'' else return True
          })
      in if PB_LTYPE (it_type field) = PB_LTYPE_UVARINT then
           with_value pb_decode_varint (\<lambda>value.
             if n = 8 then store 8 value value
             else if n = 4 then store 4 (ucast (ucast value :: u32)) value
             else if n = 2 then store 2 (ucast (ucast value :: u16)) value
             else if n = 1 then store 1 (ucast (ucast value :: u8)) value
             else in_error ''invalid data_size'')
         else
           with_value
             (if PB_LTYPE (it_type field) = PB_LTYPE_SVARINT then pb_decode_svarint
              else map_value pb_decode_varint (\<lambda>value.
                return (Some (if n = 8 then value else scast (ucast value :: u32)))))
             (\<lambda>svalue.
               if n = 8 then store 8 svalue svalue
               else if n = 4 then store 4 (scast (ucast svalue :: u32)) svalue
               else if n = 2 then store 2 (scast (ucast svalue :: u16)) svalue
               else if n = 1 then store 1 (scast (ucast svalue :: u8)) svalue
               else in_error ''invalid data_size''))"

definition pb_dec_bytes :: "pb_field_iter \<Rightarrow> ('w pb, bool) st" where
  "pb_dec_bytes field = with_value pb_decode_varint32 (\<lambda>n.
     let alloc_size = n + 2 in
     if n > ucast PB_SIZE_MAX then in_error ''bytes overflow''
     else if n > alloc_size then in_error ''size too large''
     else if PB_ATYPE (it_type field) = PB_ATYPE_POINTER then in_error ''no malloc support''
     else if alloc_size > ucast (it_data_size field) then in_error ''bytes overflow''
     else do {
       msg_write (it_pData field) (le_bytes 2 (ucast n :: u16));
       with_value (pb_read n) (\<lambda>bs. do {
         msg_write (it_pData field + 2) bs;
         return True
       })
     })"

definition pb_dec_string :: "pb_field_iter \<Rightarrow> ('w pb, bool) st" where
  "pb_dec_string field = with_value pb_decode_varint32 (\<lambda>n.
     if n = - 1 then in_error ''size too large''
     else
       let alloc_size = n + 1 in
       if alloc_size < n then in_error ''size too large''
       else if PB_ATYPE (it_type field) = PB_ATYPE_POINTER then in_error ''no malloc support''
       else if alloc_size > ucast (it_data_size field) then in_error ''string overflow''
       else do {
         msg_write (it_pData field + unat n) [0];
         with_value (pb_read n) (\<lambda>bs. do {
           msg_write (it_pData field) bs;
           return True
         })
       })"

definition pb_dec_fixed_length_bytes :: "pb_field_iter \<Rightarrow> ('w pb, bool) st" where
  "pb_dec_fixed_length_bytes field = with_value pb_decode_varint32 (\<lambda>n.
     if n > ucast PB_SIZE_MAX then in_error ''bytes overflow''
     else if n = 0 then do {
       mem_set (it_pData field) 0 (unat (it_data_size field));
       return True
     }
     else if n \<noteq> ucast (it_data_size field) then in_error ''incorrect fixed length bytes size''
     else with_value (pb_read (ucast (it_data_size field))) (\<lambda>bs. do {
       msg_write (it_pData field) bs;
       return True
     }))"

definition pb_dec_submessage ::
  "'w pb_user \<Rightarrow> 'w pb_rec \<Rightarrow> pb_field_iter \<Rightarrow> ('w pb, bool) st" where
  "pb_dec_submessage u rec field = with_value pb_make_string_substream (\<lambda>substream.
     case it_submsg_desc field of
       None \<Rightarrow> in_error ''invalid field descriptor''
     | Some desc \<Rightarrow> do {
         (status, substream) \<leftarrow> on_istream substream (do {
           (status, consumed) \<leftarrow>
             (if PB_LTYPE (it_type field) = PB_LTYPE_SUBMSG_W_CB \<and> it_pSize field \<noteq> PS_NULL then do {
                a \<leftarrow> psize_addr (it_pSize field);
                f \<leftarrow> read_u32 (a - 8);
                if f \<noteq> 0 then do {
                  status \<leftarrow> u_decode u f field (a - 4);
                  left \<leftarrow> gets (\<lambda>s. bytes_left (pb_in s));
                  return (status, left = 0)
                }
                else return (True, False)
              }
              else return (True, False));
           if status \<and> \<not> consumed
           then rec_decode rec desc (it_pData field)
             (if PB_ATYPE (it_type field) = PB_ATYPE_STATIC
                 \<and> PB_HTYPE (it_type field) \<noteq> PB_HTYPE_REPEATED
              then PB_DECODE_NOINIT else 0)
           else return status
         });
         and_then (pb_close_string_substream substream) (return status)
       })"

definition decode_basic_field ::
  "'w pb_user \<Rightarrow> 'w pb_rec \<Rightarrow> u8 \<Rightarrow> pb_field_iter \<Rightarrow> ('w pb, bool) st" where
  "decode_basic_field u rec wire_type field =
     (let ltype = PB_LTYPE (it_type field);
          expect = (\<lambda>c k. if c then k else in_error ''wrong wire type'')
      in
      if ltype = PB_LTYPE_BOOL
      then expect (wire_type = PB_WT_VARINT \<or> wire_type = PB_WT_PACKED) (pb_dec_bool field)
      else if ltype = PB_LTYPE_VARINT \<or> ltype = PB_LTYPE_UVARINT \<or> ltype = PB_LTYPE_SVARINT
      then expect (wire_type = PB_WT_VARINT \<or> wire_type = PB_WT_PACKED) (pb_dec_varint field)
      else if ltype = PB_LTYPE_FIXED32
      then expect (wire_type = PB_WT_32BIT \<or> wire_type = PB_WT_PACKED)
        (with_value pb_decode_fixed32
          (\<lambda>v. do { msg_write (it_pData field) (le_bytes 4 v); return True }))
      else if ltype = PB_LTYPE_FIXED64
      then expect (wire_type = PB_WT_64BIT \<or> wire_type = PB_WT_PACKED)
        (with_value pb_decode_fixed64
          (\<lambda>v. do { msg_write (it_pData field) (le_bytes 8 v); return True }))
      else if ltype = PB_LTYPE_BYTES
      then expect (wire_type = PB_WT_STRING) (pb_dec_bytes field)
      else if ltype = PB_LTYPE_STRING
      then expect (wire_type = PB_WT_STRING) (pb_dec_string field)
      else if ltype = PB_LTYPE_SUBMESSAGE \<or> ltype = PB_LTYPE_SUBMSG_W_CB
      then expect (wire_type = PB_WT_STRING) (pb_dec_submessage u rec field)
      else if ltype = PB_LTYPE_FIXED_LENGTH_BYTES
      then expect (wire_type = PB_WT_STRING) (pb_dec_fixed_length_bytes field)
      else in_error ''invalid field type'')"

section \<open>Static fields\<close>

definition item_at :: "u16 \<Rightarrow> pb_field_iter \<Rightarrow> pb_field_iter" where
  "item_at i field =
     field\<lparr>it_pData := it_pField field + unat (it_data_size field) * unat i\<rparr>"

text \<open>\<open>while (substream.bytes_left > 0 && *size < field->array_size)\<close>, on the substream.\<close>

fun packed_loop ::
  "nat \<Rightarrow> (pb_field_iter \<Rightarrow> ('w pb, bool) st) \<Rightarrow> pb_field_iter \<Rightarrow>
   ('w pb, bool \<times> pb_field_iter) st" where
  "packed_loop 0 dec field = fault (False, field)"
| "packed_loop (Suc n) dec field = do {
     left \<leftarrow> gets (\<lambda>s. bytes_left (pb_in s));
     count \<leftarrow> read_psize field;
     if left > 0 \<and> count < it_array_size field then do {
       ok \<leftarrow> dec field;
       if \<not> ok then return (False, field)
       else do {
         count \<leftarrow> read_psize field;
         field \<leftarrow> write_psize (count + 1) field;
         packed_loop n dec (next_item field)
       }
     }
     else return (True, field)
   }"

text \<open>\<open>submsg_desc->default_value\<close>, \<open>field_callback\<close> or \<open>submsg_info[0]\<close> is not null.\<close>

definition needs_defaults :: "pb_msgdesc \<Rightarrow> ('w pb, bool) st" where
  "needs_defaults desc =
     (if default_value desc \<noteq> None \<or> field_callback desc \<noteq> NO_FIELD_CALLBACK then return True
      else do { sub \<leftarrow> const_submsg (submsg_info desc) 0; return (sub \<noteq> None) })"

definition decode_static_field ::
  "'w pb_user \<Rightarrow> 'w pb_rec \<Rightarrow> u8 \<Rightarrow> pb_field_iter \<Rightarrow> ('w pb, bool \<times> pb_field_iter) st" where
  "decode_static_field u rec wire_type field =
     (let htype = PB_HTYPE (it_type field) in
      if htype = PB_HTYPE_REQUIRED then do {
        ok \<leftarrow> decode_basic_field u rec wire_type field;
        return (ok, field)
      }
      else if htype = PB_HTYPE_OPTIONAL then do {
        (if it_pSize field \<noteq> PS_NULL then write_has True field else return ());
        ok \<leftarrow> decode_basic_field u rec wire_type field;
        return (ok, field)
      }
      else if htype = PB_HTYPE_REPEATED then do {
        count \<leftarrow> read_psize field;
        field \<leftarrow> return (item_at count field);
        if wire_type = PB_WT_STRING \<and> PB_LTYPE (it_type field) \<le> PB_LTYPE_LAST_PACKABLE then do {
          sub \<leftarrow> pb_make_string_substream;
          case sub of
            None \<Rightarrow> return (False, field)
          | Some substream \<Rightarrow> do {
              ((status, field), substream) \<leftarrow> on_istream substream
                (packed_loop (Suc (unat (bytes_left substream)))
                  (decode_basic_field u rec PB_WT_PACKED) field);
              if bytes_left substream \<noteq> 0 then do {
                _ \<leftarrow> in_error ''array overflow'';
                return (False, field)
              }
              else do {
                ok \<leftarrow> pb_close_string_substream substream;
                return (ok \<and> status, field)
              }
            }
        }
        else do {
          field \<leftarrow> write_psize (count + 1) field;
          if count \<ge> it_array_size field then do {
            _ \<leftarrow> in_error ''array overflow'';
            return (False, field)
          }
          else do {
            ok \<leftarrow> decode_basic_field u rec wire_type field;
            return (ok, field)
          }
        }
      }
      else do {
        which \<leftarrow> read_psize field;
        ok \<leftarrow>
          (if PB_LTYPE_IS_SUBMSG (it_type field) \<and> which \<noteq> it_tag field then do {
             mem_set (it_pData field) 0 (unat (it_data_size field));
             case it_submsg_desc field of
               None \<Rightarrow> fault False
             | Some desc \<Rightarrow> do {
                 d \<leftarrow> needs_defaults desc;
                 if d then do {
                   ok \<leftarrow> rec_defaults rec desc (it_pData field);
                   if \<not> ok then in_error ''failed to set defaults'' else return True
                 }
                 else return True
               }
           }
           else return True);
        if \<not> ok then return (False, field)
        else do {
          field \<leftarrow> write_psize (it_tag field) field;
          ok \<leftarrow> decode_basic_field u rec wire_type field;
          return (ok, field)
        }
      })"

section \<open>Callback fields\<close>

fun callback_loop :: "nat \<Rightarrow> ('w pb, bool) st \<Rightarrow> ('w pb, bool) st" where
  "callback_loop 0 cb = fault False"
| "callback_loop (Suc n) cb = do {
     prev_bytes_left \<leftarrow> gets (\<lambda>s. bytes_left (pb_in s));
     ok \<leftarrow> cb;
     if \<not> ok then return False
     else do {
       left \<leftarrow> gets (\<lambda>s. bytes_left (pb_in s));
       if left > 0 \<and> left < prev_bytes_left then callback_loop n cb else return True
     }
   }"

definition substream_error :: "pb_istream \<Rightarrow> string \<Rightarrow> ('w pb, bool) st" where
  "substream_error substream msg =
     in_error (case is_errmsg substream of None \<Rightarrow> msg | Some m \<Rightarrow> m)"

definition decode_callback_field ::
  "'w pb_user \<Rightarrow> u8 \<Rightarrow> pb_field_iter \<Rightarrow> ('w pb, bool \<times> pb_field_iter) st" where
  "decode_callback_field u wire_type field = do {
     field \<leftarrow>
       (if PB_HTYPE (it_type field) = PB_HTYPE_ONEOF then do {
          which \<leftarrow> read_psize field;
          (if which \<noteq> 0 \<and> which \<noteq> it_tag field
           then mem_set (it_pData field) 0 (unat (it_data_size field)) else return ());
          write_psize (it_tag field) field
        }
        else return field);
     if field_callback (it_descriptor field) = NO_FIELD_CALLBACK then do {
       ok \<leftarrow> pb_skip_field wire_type;
       return (ok, field)
     }
     else if wire_type = PB_WT_STRING then do {
       sub \<leftarrow> pb_make_string_substream;
       case sub of
         None \<Rightarrow> return (False, field)
       | Some substream \<Rightarrow> do {
           ((ok, field), substream) \<leftarrow>
             (if PB_LTYPE (it_type field) = PB_LTYPE_SUBMSG_W_CB \<and> it_pSize field \<noteq> PS_NULL then do {
                field \<leftarrow> write_psize (it_tag field) field;
                a \<leftarrow> psize_addr (it_pSize field);
                f \<leftarrow> read_u32 (a - 8);
                on_istream substream (do {
                  ok \<leftarrow> (if f \<noteq> 0 then u_decode u f field (a - 4) else return True);
                  return (ok, field)
                })
              }
              else return ((True, field), substream));
           if \<not> ok then do {
             _ \<leftarrow> substream_error substream ''submsg callback failed'';
             return (False, field)
           }
           else do {
             (ok, substream) \<leftarrow> on_istream substream
               (callback_loop (Suc (unat (bytes_left substream)))
                 (pb_default_field_callback u True field));
             if \<not> ok then do {
               _ \<leftarrow> substream_error substream ''callback failed'';
               return (False, field)
             }
             else do {
               ok \<leftarrow> pb_close_string_substream substream;
               return (ok, field)
             }
           }
         }
     }
     else do {
       raw \<leftarrow> read_raw_value wire_type 10;
       case raw of
         None \<Rightarrow> return (False, field)
       | Some buffer \<Rightarrow> do {
           (ok, _) \<leftarrow> on_istream (pb_istream_from_buffer buffer (of_nat (length buffer)))
             (pb_default_field_callback u True field);
           return (ok, field)
         }
     }
   }"

definition decode_pointer_field ::
  "u8 \<Rightarrow> pb_field_iter \<Rightarrow> ('w pb, bool \<times> pb_field_iter) st" where
  "decode_pointer_field wire_type field = do {
     ok \<leftarrow> in_error ''no malloc support'';
     return (ok, field)
   }"

definition decode_field ::
  "'w pb_user \<Rightarrow> 'w pb_rec \<Rightarrow> u8 \<Rightarrow> pb_field_iter \<Rightarrow> ('w pb, bool \<times> pb_field_iter) st" where
  "decode_field u rec wire_type field =
     (if PB_ATYPE (it_type field) = PB_ATYPE_STATIC then decode_static_field u rec wire_type field
      else if PB_ATYPE (it_type field) = PB_ATYPE_POINTER then decode_pointer_field wire_type field
      else if PB_ATYPE (it_type field) = PB_ATYPE_CALLBACK
      then decode_callback_field u wire_type field
      else do { ok \<leftarrow> in_error ''invalid field type''; return (ok, field) })"

section \<open>Default values\<close>

definition pb_field_set_to_default ::
  "'w pb_rec \<Rightarrow> pb_field_iter \<Rightarrow> ('w pb, bool \<times> pb_field_iter) st" where
  "pb_field_set_to_default rec field =
     (let type = it_type field; htype = PB_HTYPE type in
      if PB_LTYPE type = PB_LTYPE_EXTENSION then do {
        e \<leftarrow> read_u32 (it_pData field);
        if e = 0 then return (True, field) else fault (False, field)
      }
      else if PB_ATYPE type = PB_ATYPE_STATIC then do {
        (init_data, field) \<leftarrow>
          (if htype = PB_HTYPE_OPTIONAL \<and> it_pSize field \<noteq> PS_NULL then do {
             write_has False field;
             return (True, field)
           }
           else if htype = PB_HTYPE_REPEATED \<or> htype = PB_HTYPE_ONEOF then do {
             field \<leftarrow> write_psize 0 field;
             return (False, field)
           }
           else return (True, field));
        if \<not> init_data then return (True, field)
        else do {
          d \<leftarrow> (if PB_LTYPE_IS_SUBMSG type
                then (case it_submsg_desc field of
                        None \<Rightarrow> fault None
                      | Some desc \<Rightarrow> do {
                          d \<leftarrow> needs_defaults desc;
                          return (if d then Some desc else None)
                        })
                else return None);
          case d of
            Some desc \<Rightarrow> do {
              ok \<leftarrow> rec_defaults rec desc (it_pData field);
              return (ok, field)
            }
          | None \<Rightarrow> do {
              mem_set (it_pData field) 0 (unat (it_data_size field));
              return (True, field)
            }
        }
      }
      else if PB_ATYPE type = PB_ATYPE_POINTER then do {
        mem_set (it_pField field) 0 4;
        field \<leftarrow> (if htype = PB_HTYPE_REPEATED \<or> htype = PB_HTYPE_ONEOF
                  then write_psize 0 field else return field);
        return (True, field)
      }
      else return (True, field))"

text \<open>
  The loop of \<open>pb_message_set_to_defaults\<close>; \<open>defs\<close> is the stream of default values with the wire
  type and the tag read last (0: there is none).
\<close>

fun defaults_loop ::
  "nat \<Rightarrow> 'w pb_user \<Rightarrow> 'w pb_rec \<Rightarrow> pb_istream \<Rightarrow> u8 \<Rightarrow> u32 \<Rightarrow> pb_field_iter \<Rightarrow>
   ('w pb, bool \<times> pb_field_iter) st" where
  "defaults_loop 0 u rec defs wire_type tag iter = fault (False, iter)"
| "defaults_loop (Suc n) u rec defs wire_type tag iter = do {
     (ok, iter) \<leftarrow> pb_field_set_to_default rec iter;
     if \<not> ok then return (False, iter)
     else do {
       (ok, defs, wire_type, tag, iter) \<leftarrow>
         (if tag \<noteq> 0 \<and> ucast (it_tag iter) = tag then do {
            ((ok, iter), defs) \<leftarrow> on_istream defs (decode_field u rec wire_type iter);
            if \<not> ok then return (False, defs, wire_type, tag, iter)
            else do {
              ((r, eof), defs) \<leftarrow> on_istream defs pb_decode_tag;
              case r of
                None \<Rightarrow> return (False, defs, 0, 0, iter)
              | Some (wire_type, tag) \<Rightarrow> do {
                  (if it_pSize iter \<noteq> PS_NULL then write_has False iter else return ());
                  return (True, defs, wire_type, tag, iter)
                }
            }
          }
          else return (True, defs, wire_type, tag, iter));
       if \<not> ok then return (False, iter)
       else do {
         (more, iter) \<leftarrow> pb_field_iter_next iter;
         if more then defaults_loop n u rec defs wire_type tag iter else return (True, iter)
       }
     }
   }"

definition pb_message_set_to_defaults ::
  "'w pb_user \<Rightarrow> 'w pb_rec \<Rightarrow> pb_field_iter \<Rightarrow> ('w pb, bool \<times> pb_field_iter) st" where
  "pb_message_set_to_defaults u rec iter = do {
     (r, defs) \<leftarrow>
       (case default_value (it_descriptor iter) of
          None \<Rightarrow> return (Some (PB_WT_VARINT, 0), PB_ISTREAM_EMPTY)
        | Some bytes \<Rightarrow> do {
            ((r, eof), defs) \<leftarrow> on_istream (pb_istream_from_buffer bytes (- 1)) pb_decode_tag;
            return (r, defs)
          });
     case r of
       None \<Rightarrow> return (False, iter)
     | Some (wire_type, tag) \<Rightarrow>
         defaults_loop (unat (field_count (it_descriptor iter))) u rec defs wire_type tag iter
   }"

section \<open>Messages\<close>

text \<open>
  The local variables of \<open>pb_decode_inner\<close> that its loop carries (\<open>fixed_count_size\<close> is
  \<open>pb_fixed_count\<close> of the machine, since the iterator points to it).
\<close>

record dec_locals =
  extension_range_start :: u32
  extensions :: u32
  fixed_count_field :: u16
  fixed_count_total_size :: u16
  fields_seen :: "u32 list"

definition dec_locals_init :: dec_locals where
  "dec_locals_init = \<lparr>extension_range_start = 0, extensions = 0, fixed_count_field = PB_SIZE_MAX,
     fixed_count_total_size = 0, fields_seen = [0, 0]\<rparr>"

text \<open>A field without a match: extensions first, then it is skipped.\<close>

definition decode_unknown ::
  "u32 \<Rightarrow> u8 \<Rightarrow> pb_field_iter \<Rightarrow> dec_locals \<Rightarrow> ('w pb, bool \<times> pb_field_iter \<times> dec_locals) st" where
  "decode_unknown tag wire_type iter l = do {
     (iter, l) \<leftarrow>
       (if extension_range_start l = 0 then do {
          (found, iter) \<leftarrow> pb_field_iter_find_extension iter;
          l \<leftarrow> (if found then do {
                  e \<leftarrow> read_u32 (it_pData iter);
                  return (l\<lparr>extensions := e, extension_range_start := ucast (it_tag iter)\<rparr>)
                }
                else return l);
          return (iter, if extensions l = 0 then l\<lparr>extension_range_start := - 1\<rparr> else l)
        }
        else return (iter, l));
     if tag \<ge> extension_range_start l \<and> extensions l \<noteq> 0 then fault (False, iter, l)
     else do {
       ok \<leftarrow> pb_skip_field wire_type;
       return (ok, iter, l)
     }
   }"

definition fixed_count_mismatch :: "dec_locals \<Rightarrow> ('w pb, bool) st" where
  "fixed_count_mismatch l = do {
     n \<leftarrow> gets pb_fixed_count;
     return (fixed_count_field l \<noteq> PB_SIZE_MAX \<and> n \<noteq> fixed_count_total_size l)
   }"

definition enter_fixed_count ::
  "pb_field_iter \<Rightarrow> dec_locals \<Rightarrow> ('w pb, bool \<times> pb_field_iter \<times> dec_locals) st" where
  "enter_fixed_count iter l =
     (if PB_HTYPE (it_type iter) = PB_HTYPE_REPEATED \<and> it_pSize iter = PS_ARRAY_SIZE then do {
        (ok, l) \<leftarrow>
          (if fixed_count_field l \<noteq> it_index iter then do {
             bad \<leftarrow> fixed_count_mismatch l;
             if bad then do {
               ok \<leftarrow> in_error ''wrong size for fixed count field'';
               return (ok, l)
             }
             else do {
               modify (\<lambda>s. s\<lparr>pb_fixed_count := 0\<rparr>);
               return (True, l\<lparr>fixed_count_field := it_index iter,
                 fixed_count_total_size := it_array_size iter\<rparr>)
             }
           }
           else return (True, l));
        return (ok, if ok then iter\<lparr>it_pSize := PS_FIXED_COUNT\<rparr> else iter, l)
      }
      else return (True, iter, l))"

definition mark_seen :: "pb_field_iter \<Rightarrow> dec_locals \<Rightarrow> dec_locals" where
  "mark_seen iter l =
     (if PB_HTYPE (it_type iter) = PB_HTYPE_REQUIRED
         \<and> it_required_field_index iter < PB_MAX_REQUIRED_FIELDS
      then let tmp = push_bit (unat (it_required_field_index iter AND 31)) 1;
               i = unat (drop_bit 5 (it_required_field_index iter))
           in l\<lparr>fields_seen := (fields_seen l)[i := fields_seen l ! i OR tmp]\<rparr>
      else l)"

text \<open>One field of the input, after its tag.\<close>

definition decode_one ::
  "'w pb_user \<Rightarrow> 'w pb_rec \<Rightarrow> u8 \<Rightarrow> u32 \<Rightarrow> pb_field_iter \<Rightarrow> dec_locals \<Rightarrow>
   ('w pb, bool \<times> pb_field_iter \<times> dec_locals) st" where
  "decode_one u rec wire_type tag iter l = do {
     (found, iter) \<leftarrow> pb_field_iter_find iter tag;
     (if \<not> found \<or> PB_LTYPE (it_type iter) = PB_LTYPE_EXTENSION
      then decode_unknown tag wire_type iter l
      else do {
        (ok, iter, l) \<leftarrow> enter_fixed_count iter l;
        if \<not> ok then return (False, iter, l)
        else do {
          l \<leftarrow> return (mark_seen iter l);
          (ok, iter) \<leftarrow> decode_field u rec wire_type iter;
          return (ok, iter, l)
        }
      })
   }"

text \<open>The result of the loop: returned false, or left it with the locals.\<close>

fun decode_loop ::
  "nat \<Rightarrow> 'w pb_user \<Rightarrow> 'w pb_rec \<Rightarrow> u32 \<Rightarrow> pb_field_iter \<Rightarrow> dec_locals \<Rightarrow>
   ('w pb, dec_locals option) st" where
  "decode_loop 0 u rec flags iter l = fault None"
| "decode_loop (Suc n) u rec flags iter l = do {
     left \<leftarrow> gets (\<lambda>s. bytes_left (pb_in s));
     if left = 0 then return (Some l)
     else do {
       (r, eof) \<leftarrow> pb_decode_tag;
       case r of
         None \<Rightarrow> return (if eof then Some l else None)
       | Some (wire_type, tag) \<Rightarrow>
           if tag = 0 then
             if flags AND PB_DECODE_NULLTERMINATED \<noteq> 0 then return (Some l)
             else in_error_v ''zero tag''
           else do {
             (ok, iter, l) \<leftarrow> decode_one u rec wire_type tag iter l;
             if \<not> ok then return None else decode_loop n u rec flags iter l
           }
     }
   }"

text \<open>The check that all required fields were present.\<close>

definition required_seen :: "u16 \<Rightarrow> u32 list \<Rightarrow> bool" where
  "required_seen required seen =
     (let req_field_count =
            (if required > PB_MAX_REQUIRED_FIELDS then PB_MAX_REQUIRED_FIELDS else required);
          whole = unat (drop_bit 5 req_field_count)
      in (\<forall>i < whole. seen ! i = - 1)
         \<and> (req_field_count AND 31 \<noteq> 0 \<longrightarrow>
              seen ! whole = drop_bit (unat (32 - (req_field_count AND 31))) (- 1)))"

definition decode_checks :: "pb_msgdesc \<Rightarrow> dec_locals \<Rightarrow> ('w pb, bool) st" where
  "decode_checks desc l = do {
     bad \<leftarrow> fixed_count_mismatch l;
     if bad then in_error ''wrong size for fixed count field''
     else if required_field_count desc > 0
          \<and> \<not> required_seen (required_field_count desc) (fields_seen l)
     then in_error ''missing required field''
     else return True
   }"

definition decode_inner ::
  "'w pb_user \<Rightarrow> 'w pb_rec \<Rightarrow> pb_msgdesc \<Rightarrow> nat \<Rightarrow> u32 \<Rightarrow> ('w pb, bool) st" where
  "decode_inner u rec desc dest_struct flags = do {
     outer \<leftarrow> gets pb_fixed_count;
     modify (\<lambda>s. s\<lparr>pb_fixed_count := 0\<rparr>);
     (ok, iter) \<leftarrow> pb_field_iter_begin desc dest_struct;
     (ok, iter) \<leftarrow>
       (if ok \<and> flags AND PB_DECODE_NOINIT = 0 then do {
          (ok, iter) \<leftarrow> pb_message_set_to_defaults u rec iter;
          if \<not> ok then do {
            ok \<leftarrow> in_error ''failed to set defaults'';
            return (ok, iter)
          }
          else return (True, iter)
        }
        else return (True, iter));
     ok \<leftarrow>
       (if \<not> ok then return False
        else do {
          left \<leftarrow> gets (\<lambda>s. bytes_left (pb_in s));
          with_value (decode_loop (Suc (unat left)) u rec flags iter dec_locals_init)
            (decode_checks desc)
        });
     modify (\<lambda>s. s\<lparr>pb_fixed_count := outer\<rparr>);
     return ok
   }"

text \<open>
  \<open>pb_field_iter_begin\<close> followed by \<open>pb_message_set_to_defaults\<close>, as the callers do it for a
  submessage; an empty message type has nothing to set.
\<close>

definition submsg_defaults ::
  "'w pb_user \<Rightarrow> 'w pb_rec \<Rightarrow> pb_msgdesc \<Rightarrow> nat \<Rightarrow> ('w pb, bool) st" where
  "submsg_defaults u rec desc p = do {
     (ok, iter) \<leftarrow> pb_field_iter_begin desc p;
     if ok then do { (ok, _) \<leftarrow> pb_message_set_to_defaults u rec iter; return ok }
     else return True
   }"

primrec decode_depth :: "nat \<Rightarrow> 'w pb_user \<Rightarrow> 'w pb_rec" where
  "decode_depth 0 u =
     \<lparr>rec_defaults = (\<lambda>_ _. fault False), rec_decode = (\<lambda>_ _ _. fault False)\<rparr>"
| "decode_depth (Suc n) u =
     \<lparr>rec_defaults = submsg_defaults u (decode_depth n u),
      rec_decode = decode_inner u (decode_depth n u)\<rparr>"

definition pb_decode_inner ::
  "'w pb_user \<Rightarrow> pb_msgdesc \<Rightarrow> nat \<Rightarrow> u32 \<Rightarrow> ('w pb, bool) st" where
  "pb_decode_inner u desc dest_struct flags =
     rec_decode (decode_depth (desc_depth desc) u) desc dest_struct flags"

definition pb_decode_ex ::
  "'w pb_user \<Rightarrow> pb_msgdesc \<Rightarrow> nat \<Rightarrow> u32 \<Rightarrow> ('w pb, bool) st" where
  "pb_decode_ex u desc dest_struct flags =
     (if flags AND PB_DECODE_DELIMITED = 0 then pb_decode_inner u desc dest_struct flags
      else with_value pb_make_string_substream (\<lambda>substream. do {
        (status, substream) \<leftarrow> on_istream substream (pb_decode_inner u desc dest_struct flags);
        ok \<leftarrow> pb_close_string_substream substream;
        return (ok \<and> status)
      }))"

definition pb_decode :: "'w pb_user \<Rightarrow> pb_msgdesc \<Rightarrow> nat \<Rightarrow> ('w pb, bool) st" where
  "pb_decode u desc dest_struct = pb_decode_inner u desc dest_struct 0"

end
