(* ===== verification/Nanopb_Iter.thy ===== *)
theory Nanopb_Iter
  imports Nanopb_Codec Nanopb_Decode
begin

section \<open>The fields of a descriptor\<close>

text \<open>
  The position of field \<open>i\<close> in the constant arrays, as counted by the iterator, and what the
  iterator holds when it is at field \<open>i\<close> of a message at address \<open>base\<close>.
\<close>

primrec fi_index :: "pb_msgdesc \<Rightarrow> nat \<Rightarrow> nat" where
  "fi_index d 0 = 0"
| "fi_index d (Suc i) =
     fi_index d i + 2 ^ unat (field_info d ! fi_index d i AND 3)"

definition f_word :: "pb_msgdesc \<Rightarrow> nat \<Rightarrow> u32" where
  "f_word d i = field_info d ! fi_index d i"

definition f_type :: "pb_msgdesc \<Rightarrow> nat \<Rightarrow> u8" where
  "f_type d i = ucast (drop_bit 8 (f_word d i) AND 0xFF)"

primrec sub_index :: "pb_msgdesc \<Rightarrow> nat \<Rightarrow> nat" where
  "sub_index d 0 = 0"
| "sub_index d (Suc i) = sub_index d i + of_bool (PB_LTYPE_IS_SUBMSG (f_type d i))"

primrec req_index :: "pb_msgdesc \<Rightarrow> nat \<Rightarrow> nat" where
  "req_index d 0 = 0"
| "req_index d (Suc i) = req_index d i + of_bool (PB_HTYPE (f_type d i) = PB_HTYPE_REQUIRED)"

definition unpack_at :: "u32 list \<Rightarrow> nat \<Rightarrow> pb_field_values" where
  "unpack_at fi i =
     (if fi ! i AND 3 = 0 then unpack_1 (fi ! i)
      else if fi ! i AND 3 = 1 then unpack_2 (fi ! i) (fi ! (i + 1))
      else if fi ! i AND 3 = 2 then unpack_4 (fi ! i) (fi ! (i + 1)) (fi ! (i + 2)) (fi ! (i + 3))
      else unpack_8 (fi ! i) (fi ! (i + 1)) (fi ! (i + 2)) (fi ! (i + 3)) (fi ! (i + 4)))"

definition f_values :: "pb_msgdesc \<Rightarrow> nat \<Rightarrow> pb_field_values" where
  "f_values d i = unpack_at (field_info d) (fi_index d i)"

definition f_submsg :: "pb_msgdesc \<Rightarrow> nat \<Rightarrow> pb_msgdesc option" where
  "f_submsg d i =
     (if PB_LTYPE_IS_SUBMSG (f_type d i) then submsg_info d ! sub_index d i else None)"

definition iter_at :: "pb_msgdesc \<Rightarrow> nat \<Rightarrow> nat \<Rightarrow> pb_field_iter" where
  "iter_at d base i = (let p = base + unat (fv_data_offset (f_values d i)) in
     \<lparr>it_descriptor = d, it_message = base, it_index = of_nat i,
      it_field_info_index = of_nat (fi_index d i),
      it_required_field_index = of_nat (req_index d i),
      it_submessage_index = of_nat (sub_index d i),
      it_tag = fv_tag (f_values d i), it_data_size = fv_data_size (f_values d i),
      it_array_size = fv_array_size (f_values d i), it_type = f_type d i,
      it_pField = p, it_pData = p,
      it_pSize = field_pSize (f_type d i) p (fv_size_offset (f_values d i)),
      it_submsg_desc = f_submsg d i\<rparr>)"

abbreviation n_fields :: "pb_msgdesc \<Rightarrow> nat" where
  "n_fields d \<equiv> unat (field_count d)"

text \<open>The constant arrays are as long as their use requires; no field is a pointer.\<close>

definition desc_arrays :: "pb_msgdesc \<Rightarrow> bool" where
  "desc_arrays d \<longleftrightarrow> n_fields d < 2 ^ 16 - 1 \<and> fi_index d (n_fields d) < 2 ^ 16
     \<and> fi_index d (n_fields d) < length (field_info d)
     \<and> sub_index d (n_fields d) < 2 ^ 16
     \<and> sub_index d (n_fields d) < length (submsg_info d)
     \<and> (\<forall>i < n_fields d. PB_ATYPE (f_type d i) \<noteq> PB_ATYPE_POINTER)"

lemma fi_index_mono: "i \<le> j \<Longrightarrow> fi_index d i \<le> fi_index d j"
  by (induction j) (auto simp: le_Suc_eq)

lemma sub_index_mono: "i \<le> j \<Longrightarrow> sub_index d i \<le> sub_index d j"
  by (induction j) (auto simp: le_Suc_eq)

lemma req_index_le: "req_index d i \<le> i"
  by (induction i) auto

lemma run_const_u32 [simp]:
  "run_state (const_u32 xs i) s = (if i < length xs then (xs ! i, s) else (0, s\<lparr>pb_ub := True\<rparr>))"
  by (simp add: const_u32_def)

lemma run_const_submsg [simp]:
  "run_state (const_submsg xs i) s =
    (if i < length xs then (xs ! i, s) else (None, s\<lparr>pb_ub := True\<rparr>))"
  by (simp add: const_submsg_def)

lemma and_3_cases: "w AND 3 = 0 \<or> w AND 3 = 1 \<or> w AND 3 = 2 \<or> w AND 3 = (3 :: u32)"
proof -
  have "w AND 3 = take_bit 2 w" by (simp add: take_bit_eq_mask mask_eq_exp_minus_1)
  then have "unat (w AND 3) < 4"
    by (simp add: unsigned_take_bit_eq take_bit_nat_less_exp [where n = 2, simplified])
  then have "unat (w AND 3) = 0 \<or> unat (w AND 3) = 1 \<or> unat (w AND 3) = 2 \<or> unat (w AND 3) = 3"
    by auto
  then show ?thesis by (auto simp: word_unat_eq_iff)
qed

lemma run_unpack_field:
  assumes "i + 2 ^ unat (fi ! i AND 3) \<le> length fi"
  shows "run_state (unpack_field fi i) s = (unpack_at fi i, s)"
  using and_3_cases [of "fi ! i"] assms
  by (elim disjE) (simp_all add: unpack_field_def unpack_at_def)

text \<open>The iterator stands at field \<open>i\<close>, whatever it holds of the field.\<close>

definition it_pos :: "pb_msgdesc \<Rightarrow> nat \<Rightarrow> nat \<Rightarrow> pb_field_iter \<Rightarrow> bool" where
  "it_pos d base i it \<longleftrightarrow> it_descriptor it = d \<and> it_message it = base \<and> it_index it = of_nat i
     \<and> it_field_info_index it = of_nat (fi_index d i)
     \<and> it_required_field_index it = of_nat (req_index d i)
     \<and> it_submessage_index it = of_nat (sub_index d i)"

lemma it_pos_iter_at [simp]: "it_pos d base i (iter_at d base i)"
  by (simp add: it_pos_def iter_at_def Let_def)

lemma iter_at_sel [simp]:
  "it_descriptor (iter_at d base i) = d" "it_type (iter_at d base i) = f_type d i"
  "it_tag (iter_at d base i) = fv_tag (f_values d i)"
  "it_data_size (iter_at d base i) = fv_data_size (f_values d i)"
  "it_array_size (iter_at d base i) = fv_array_size (f_values d i)"
  "it_pField (iter_at d base i) = base + unat (fv_data_offset (f_values d i))"
  "it_pData (iter_at d base i) = base + unat (fv_data_offset (f_values d i))"
  "it_submsg_desc (iter_at d base i) = f_submsg d i"
  "it_index (iter_at d base i) = of_nat i"
  by (simp_all add: iter_at_def Let_def)

lemma run_load:
  assumes d: "desc_arrays d" and i: "i < n_fields d" and it: "it_pos d base i it" and base: "0 < base"
  shows "run_state (load_descriptor_values it) s = ((True, iter_at d base i), s)"
proof -
  have fin: "fi_index d (Suc i) \<le> fi_index d (n_fields d)"
    using i by (intro fi_index_mono) simp
  then have fi: "fi_index d i + 2 ^ unat (field_info d ! fi_index d i AND 3) \<le> length (field_info d)"
    and fi2: "fi_index d i < 2 ^ 16" and fi3: "fi_index d i < length (field_info d)"
    using d by (auto simp: desc_arrays_def)
  have sub: "sub_index d i \<le> sub_index d (n_fields d)"
    using i by (intro sub_index_mono) simp
  then have sub2: "sub_index d i < 2 ^ 16" "sub_index d i < length (submsg_info d)"
    using d by (auto simp: desc_arrays_def)
  have idx: "\<not> field_count (it_descriptor it) \<le> it_index it"
    using it i d by (simp add: it_pos_def word_le_nat_alt unat_of_nat desc_arrays_def)
  have ptr: "PB_ATYPE (ucast (drop_bit 8 (field_info d ! fi_index d i) AND 0xFF)) \<noteq> PB_ATYPE_POINTER"
    using d i by (simp add: desc_arrays_def f_type_def f_word_def)
  have u: "unat (it_field_info_index it) = fi_index d i" "unat (it_submessage_index it) = sub_index d i"
    using it fi2 sub2 by (simp_all add: it_pos_def unat_of_nat)
  show ?thesis
    unfolding load_descriptor_values_def
    using idx u fi fi3 sub2 it base ptr
    by (auto simp: run_unpack_field it_pos_def iter_at_def Let_def f_type_def f_word_def
        f_values_def f_submsg_def intro!: pb_field_iter.equality)
qed


lemma run_advance:
  assumes d: "desc_arrays d" and i: "i < n_fields d" and it: "it_pos d base i it"
  shows "\<exists>it'. run_state (advance_iterator it) s = (it', s) \<and> it_pos d base (Suc i mod n_fields d) it'"
proof -
  have n: "n_fields d < 2 ^ 16 - 1" using d by (simp add: desc_arrays_def)
  have "fi_index d (Suc i) \<le> fi_index d (n_fields d)"
    using i by (intro fi_index_mono) simp
  then have fi: "fi_index d i < 2 ^ 16" "fi_index d i < length (field_info d)"
    using d by (auto simp: desc_arrays_def)
  have idx: "it_index it + 1 = of_nat (Suc i)" and desc: "it_descriptor it = d"
    using it by (simp_all add: it_pos_def)
  have le: "field_count d \<le> it_index it + 1 \<longleftrightarrow> n_fields d \<le> Suc i"
    unfolding idx using i n by (simp add: word_le_nat_alt unat_of_nat del: of_nat_Suc)
  show ?thesis
  proof (cases "Suc i = n_fields d")
    case True
    then have "run_state (advance_iterator it) s = (it\<lparr>it_index := 0, it_field_info_index := 0,
        it_submessage_index := 0, it_required_field_index := 0\<rparr>, s)"
      by (simp add: advance_iterator_def desc le)
    with it True show ?thesis by (simp add: it_pos_def)
  next
    case False
    with i have lt: "Suc i < n_fields d" by simp
    have u: "unat (it_field_info_index it) = fi_index d i"
      using it fi by (simp add: it_pos_def unat_of_nat)
    have "run_state (advance_iterator it) s = (it\<lparr>it_index := it_index it + 1,
        it_field_info_index := it_field_info_index it + 2 ^ unat (f_word d i AND 3),
        it_required_field_index := it_required_field_index it
          + of_bool (PB_HTYPE (f_type d i) = PB_HTYPE_REQUIRED),
        it_submessage_index := it_submessage_index it
          + of_bool (PB_LTYPE_IS_SUBMSG (f_type d i))\<rparr>, s)"
      using lt fi by (simp add: advance_iterator_def desc le u f_word_def f_type_def Let_def)
    with it lt show ?thesis by (simp add: it_pos_def f_word_def)
  qed
qed

lemma run_advance_end:
  assumes "field_count (it_descriptor it) \<le> it_index it" "unat (it_index it) < 2 ^ 16 - 1"
    and "it_descriptor it = d" "it_message it = base"
  shows "\<exists>it'. run_state (advance_iterator it) s = (it', s) \<and> it_pos d base 0 it'"
proof -
  have "unat (it_index it + 1) = unat (it_index it) + 1"
    using assms(2) by (simp add: unat_word_ariths word_less_nat_alt)
  then have "field_count (it_descriptor it) \<le> it_index it + 1"
    using assms(1) by (simp add: word_le_nat_alt)
  with assms show ?thesis by (auto simp: advance_iterator_def it_pos_def)
qed

lemma run_iter_next:
  assumes "desc_arrays d" "i < n_fields d" "it_pos d base i it" "0 < base"
  shows "run_state (pb_field_iter_next it) s =
    ((Suc i < n_fields d, iter_at d base (Suc i mod n_fields d)), s)"
proof -
  obtain it' where a: "run_state (advance_iterator it) s = (it', s)"
    "it_pos d base (Suc i mod n_fields d) it'"
    using run_advance [OF assms(1-3)] by blast
  have m: "Suc i mod n_fields d < n_fields d" using assms(2) by simp
  have n: "n_fields d < 2 ^ 16" using assms(1) by (simp add: desc_arrays_def)
  have "(of_nat (Suc i mod n_fields d) :: u16) = 0 \<longleftrightarrow> \<not> Suc i < n_fields d"
    using assms(2) n by (simp add: word_unat_eq_iff unat_of_nat mod_Suc)
  with a run_load [OF assms(1) m a(2) assms(4), of s] show ?thesis
    by (simp add: pb_field_iter_next_def)
qed

lemma run_iter_begin:
  assumes "desc_arrays d" "0 < base"
  shows "run_state (pb_field_iter_begin d base) s =
    (if 0 < n_fields d then ((True, iter_at d base 0), s) else ((False, zero_iter d base), s))"
proof (cases "0 < n_fields d")
  case True
  have "it_pos d base 0 (zero_iter d base)" by (simp add: it_pos_def zero_iter_def)
  with run_load [OF assms(1) True _ assms(2), of _ s] True show ?thesis
    by (simp add: pb_field_iter_begin_def)
next
  case False
  then have "field_count d = 0" by (simp add: unat_eq_0)
  then show ?thesis by (simp add: pb_field_iter_begin_def load_descriptor_values_def zero_iter_def)
qed

lemma tag_low_bits:
  "(ucast (fv_tag (unpack_at fi i)) :: u32) AND 0x3F = drop_bit 2 (fi ! i) AND 0x3F"
proof -
  have m: "w AND 0x3F = take_bit 6 w" for w :: u32
    by (simp add: take_bit_eq_mask mask_eq_exp_minus_1)
  show ?thesis
    unfolding m unpack_at_def
    by (rule bit_word_eqI)
      (auto simp: bit_simps unpack_1_def unpack_2_def unpack_4_def unpack_8_def m)
qed

section \<open>Search\<close>

definition f_tag :: "pb_msgdesc \<Rightarrow> nat \<Rightarrow> u32" where
  "f_tag d i = ucast (fv_tag (f_values d i))"

text \<open>No extension range, and for a message without fields nothing that looks like one.\<close>

definition no_extensions :: "pb_msgdesc \<Rightarrow> bool" where
  "no_extensions d \<longleftrightarrow> (\<forall>i < max 1 (n_fields d). PB_LTYPE (f_type d i) \<noteq> PB_LTYPE_EXTENSION)"

lemma of_nat_u16_eq:
  "i < 2 ^ 16 \<Longrightarrow> j < 2 ^ 16 \<Longrightarrow> (of_nat i :: u16) = of_nat j \<longleftrightarrow> i = j"
  by (simp add: word_unat_eq_iff unat_of_nat)

text \<open>One turn of the search loop, from an iterator that \<open>advance_iterator\<close> moves to \<open>j\<close>.\<close>

lemma run_find_turn:
  assumes d: "desc_arrays d" and e: "no_extensions d" and j: "j < n_fields d" and base: "0 < base"
    and a: "run_state (advance_iterator it) s = (it', s)" "it_pos d base j it'"
    and st: "st < n_fields d"
  shows "run_state (find_loop (Suc n) (of_nat st) tag it) s =
    (if f_tag d j = tag then ((True, iter_at d base j), s)
     else if j = st then ((False, iter_at d base j), s)
     else run_state (find_loop n (of_nat st) tag
       (if drop_bit 2 (f_word d j) AND 0x3F = tag AND 0x3F then iter_at d base j else it')) s)"
proof -
  have "fi_index d (Suc j) \<le> fi_index d (n_fields d)"
    using j by (intro fi_index_mono) simp
  then have fi: "fi_index d j < 2 ^ 16" "fi_index d j < length (field_info d)"
    using d by (auto simp: desc_arrays_def)
  have word: "run_state (const_u32 (field_info (it_descriptor it')) (unat (it_field_info_index it'))) s =
      (f_word d j, s)"
    using a(2) fi by (simp add: it_pos_def unat_of_nat f_word_def)
  have ext: "PB_LTYPE (f_type d j) \<noteq> PB_LTYPE_EXTENSION"
    using e j by (simp add: no_extensions_def)
  have n: "n_fields d < 2 ^ 16" using d by (simp add: desc_arrays_def)
  have idx: "it_index it' = of_nat j" using a(2) by (simp add: it_pos_def)
  have ne: "(of_nat j :: u16) \<noteq> of_nat st \<longleftrightarrow> j \<noteq> st"
    using of_nat_u16_eq [of j st] j st n by simp
  note load = run_load [OF d j a(2) base, of s] run_load [OF d j it_pos_iter_at base, of s]
  show ?thesis
  proof (cases "drop_bit 2 (f_word d j) AND 0x3F = tag AND 0x3F")
    case True
    with a(1) word load ext ne show ?thesis
      by (cases "j = st") (simp_all add: f_tag_def del: run_const_u32)
  next
    case False
    then have "f_tag d j \<noteq> tag"
      using tag_low_bits [of "field_info d" "fi_index d j"]
      by (auto simp: f_tag_def f_values_def f_word_def)
    with False a(1) word load idx ne show ?thesis
      by (simp del: run_const_u32)
  qed
qed

lemma run_find_loop:
  assumes d: "desc_arrays d" and e: "no_extensions d" and base: "0 < base"
    and a: "\<exists>it'. run_state (advance_iterator it) s = (it', s) \<and> it_pos d base j it'"
    and j: "j < n_fields d" and k: "k < m" "k < n_fields d" "st = (j + k) mod n_fields d"
  shows "\<exists>f q. run_state (find_loop m (of_nat st) tag it) s = ((f, iter_at d base q), s)
    \<and> q < n_fields d \<and> (f \<longrightarrow> f_tag d q = tag) \<and> (\<not> f \<longrightarrow> q = st)
    \<and> (\<not> f \<longrightarrow> (\<forall>l \<le> k. f_tag d ((j + l) mod n_fields d) \<noteq> tag))"
  using a j k
proof (induction k arbitrary: j m it)
  case 0
  then obtain m' it' where m: "m = Suc m'" and a: "run_state (advance_iterator it) s = (it', s)"
    "it_pos d base j it'" by (cases m) auto
  from 0 have "st = j" by simp
  with run_find_turn [OF d e \<open>j < n_fields d\<close> base a, of st m' tag] 0 m show ?case
    by auto
next
  case (Suc k)
  then obtain m' it' where m: "m = Suc m'" and a: "run_state (advance_iterator it) s = (it', s)"
    "it_pos d base j it'" by (cases m) auto
  have st: "st < n_fields d" using Suc.prems by simp
  have jst: "j \<noteq> st"
  proof
    assume "j = st"
    then have "(j + Suc k) mod n_fields d = (j + 0) mod n_fields d" using Suc.prems by simp
    then have "n_fields d dvd Suc k" using mod_eq_dvd_iff_nat [of j "j + Suc k" "n_fields d"] by simp
    with Suc.prems show False by (auto dest: dvd_imp_le)
  qed
  note turn = run_find_turn [OF d e \<open>j < n_fields d\<close> base a st, of m' tag]
  show ?case
  proof (cases "f_tag d j = tag")
    case True
    with turn m Suc.prems show ?thesis by auto
  next
    case False
    let ?it = "if drop_bit 2 (f_word d j) AND 0x3F = tag AND 0x3F then iter_at d base j else it'"
    have "it_pos d base j ?it" using a(2) by simp
    then have "\<exists>it'. run_state (advance_iterator ?it) s = (it', s)
        \<and> it_pos d base (Suc j mod n_fields d) it'"
      by (rule run_advance [OF d \<open>j < n_fields d\<close>])
    moreover have "Suc j mod n_fields d < n_fields d" using Suc.prems by simp
    moreover have "st = (Suc j mod n_fields d + k) mod n_fields d"
      using Suc.prems by (simp add: mod_add_left_eq)
    ultimately obtain f q where fq:
      "run_state (find_loop m' (of_nat st) tag ?it) s = ((f, iter_at d base q), s)"
      "q < n_fields d" "f \<longrightarrow> f_tag d q = tag" "\<not> f \<longrightarrow> q = st"
      "\<not> f \<longrightarrow> (\<forall>l \<le> k. f_tag d ((Suc j mod n_fields d + l) mod n_fields d) \<noteq> tag)"
      using Suc.IH [of ?it "Suc j mod n_fields d" m'] Suc.prems m by auto
    have "\<forall>l \<le> Suc k. f_tag d ((j + l) mod n_fields d) \<noteq> tag" if "\<not> f"
    proof (intro allI impI)
      fix l assume l: "l \<le> Suc k"
      show "f_tag d ((j + l) mod n_fields d) \<noteq> tag"
      proof (cases l)
        case 0
        with False \<open>j < n_fields d\<close> show ?thesis by simp
      next
        case (Suc l')
        then have "(j + l) mod n_fields d = (Suc j mod n_fields d + l') mod n_fields d"
          by (simp add: mod_add_left_eq)
        with that fq(5) l Suc show ?thesis by simp
      qed
    qed
    with fq turn False jst m show ?thesis by auto
  qed
qed

text \<open>Tags increase from field to field, and \<open>largest_tag\<close> is the last.\<close>

definition tags_sorted :: "pb_msgdesc \<Rightarrow> bool" where
  "tags_sorted d \<longleftrightarrow> (\<forall>i < n_fields d. \<forall>j < i. f_tag d j < f_tag d i)
     \<and> (\<forall>i < n_fields d. 0 < f_tag d i \<and> f_tag d i \<le> ucast (largest_tag d))
     \<and> (n_fields d = 0 \<longrightarrow> largest_tag d = 0)"

text \<open>The iterator as the decoder finds it between fields: at field \<open>i\<close>, except for two pointers.\<close>

definition it_live :: "pb_msgdesc \<Rightarrow> nat \<Rightarrow> nat \<Rightarrow> pb_field_iter \<Rightarrow> bool" where
  "it_live d base i it \<longleftrightarrow> (\<exists>pd ps. it = (iter_at d base i)\<lparr>it_pData := pd, it_pSize := ps\<rparr>
     \<and> (pd = it_pData (iter_at d base i)
        \<or> PB_HTYPE (f_type d i) = PB_HTYPE_REPEATED \<and> PB_ATYPE (f_type d i) = PB_ATYPE_STATIC)
     \<and> (ps = it_pSize (iter_at d base i)
        \<or> it_pSize (iter_at d base i) = PS_ARRAY_SIZE \<and> ps = PS_FIXED_COUNT))"

lemma it_live_iter_at [simp]: "it_live d base i (iter_at d base i)"
  unfolding it_live_def
  by (intro exI [of _ "it_pData (iter_at d base i)"] exI [of _ "it_pSize (iter_at d base i)"]) simp

lemma it_live_pos: "it_live d base i it \<Longrightarrow> it_pos d base i it"
  by (auto simp: it_live_def it_pos_def iter_at_def Let_def)

lemma it_live_sel:
  assumes "it_live d base i it"
  shows "it_descriptor it = d" "it_type it = f_type d i" "it_tag it = fv_tag (f_values d i)"
    "it_data_size it = fv_data_size (f_values d i)" "it_array_size it = fv_array_size (f_values d i)"
    "it_pField it = base + unat (fv_data_offset (f_values d i))" "it_submsg_desc it = f_submsg d i"
    "it_index it = of_nat i"
  using assms by (auto simp: it_live_def)

lemma run_iter_find:
  assumes d: "desc_arrays d" and e: "no_extensions d" and t: "tags_sorted d" and base: "0 < base"
    and i: "i < n_fields d" and it: "it_live d base i it"
  shows "\<exists>f q it'. run_state (pb_field_iter_find it tag) s = ((f, it'), s)
    \<and> q < n_fields d \<and> it_live d base q it' \<and> (it' = iter_at d base q \<or> it' = it \<and> q = i)
    \<and> (f \<longleftrightarrow> (\<exists>j < n_fields d. f_tag d j = tag)) \<and> (f \<longrightarrow> f_tag d q = tag)"
proof -
  have n: "n_fields d < 2 ^ 16 - 1" using d by (simp add: desc_arrays_def)
  have tag: "ucast (it_tag it) = f_tag d i" using it_live_sel [OF it] by (simp add: f_tag_def)
  have desc: "it_descriptor it = d" "it_message it = base" "it_index it = of_nat i"
    using it_live_pos [OF it] by (simp_all add: it_pos_def)
  consider "f_tag d i = tag" | "f_tag d i \<noteq> tag" "ucast (largest_tag d) < tag"
    | "tag < f_tag d i" "\<not> ucast (largest_tag d) < tag"
    | "f_tag d i < tag" "\<not> ucast (largest_tag d) < tag"
    using less_linear by blast
  then show ?thesis
  proof cases
    case 1
    with tag have "run_state (pb_field_iter_find it tag) s = ((True, it), s)"
      by (simp add: pb_field_iter_find_def)
    with 1 i it show ?thesis by auto
  next
    case 2
    then have "run_state (pb_field_iter_find it tag) s = ((False, it), s)"
      using tag desc by (simp add: pb_field_iter_find_def)
    moreover have "\<not> (\<exists>j < n_fields d. f_tag d j = tag)"
      using 2(2) t by (auto simp: tags_sorted_def not_le [symmetric])
    ultimately show ?thesis using i it by auto
  next
    case 3
    let ?it = "it\<lparr>it_index := field_count d\<rparr>"
    have a: "\<exists>it'. run_state (advance_iterator ?it) s = (it', s) \<and> it_pos d base 0 it'"
      by (rule run_advance_end) (use desc n in simp_all)
    obtain f q where fq: "run_state (find_loop (Suc (n_fields d)) (of_nat i) tag ?it) s =
        ((f, iter_at d base q), s)" "q < n_fields d" "f \<longrightarrow> f_tag d q = tag"
      "\<not> f \<longrightarrow> (\<forall>l \<le> i. f_tag d ((0 + l) mod n_fields d) \<noteq> tag)"
      using run_find_loop [OF d e base a, of i "Suc (n_fields d)" i tag] i by auto
    have "f_tag d i \<noteq> tag" using 3(1) by auto
    then have "run_state (pb_field_iter_find it tag) s = ((f, iter_at d base q), s)"
      using 3 tag desc fq(1) by (simp add: pb_field_iter_find_def Let_def del: find_loop.simps)
    moreover have "f \<longleftrightarrow> (\<exists>j < n_fields d. f_tag d j = tag)"
    proof
      assume "\<exists>j < n_fields d. f_tag d j = tag"
      then obtain j where j: "j < n_fields d" "f_tag d j = tag" by blast
      have "\<not> i < j"
      proof
        assume "i < j"
        then have "f_tag d i < f_tag d j" using t j unfolding tags_sorted_def by blast
        with 3 j show False by simp
      qed
      with fq(4) j i show f by (auto simp: not_less)
    qed (use fq in auto)
    ultimately show ?thesis using fq by auto
  next
    case 4
    have a: "\<exists>it'. run_state (advance_iterator it) s = (it', s)
        \<and> it_pos d base (Suc i mod n_fields d) it'"
      by (rule run_advance [OF d i it_live_pos [OF it]])
    have k: "n_fields d - 1 < Suc (n_fields d)" by linarith
    have "Suc i + (n_fields d - 1) = i + n_fields d" using i by simp
    then have st: "i = (Suc i mod n_fields d + (n_fields d - 1)) mod n_fields d"
      using i by (metis mod_add_left_eq mod_add_self2 mod_less)
    obtain f q where fq: "run_state (find_loop (Suc (n_fields d)) (of_nat i) tag it) s =
        ((f, iter_at d base q), s)" "q < n_fields d" "f \<longrightarrow> f_tag d q = tag"
      "\<not> f \<longrightarrow> (\<forall>l \<le> n_fields d - 1. f_tag d ((Suc i mod n_fields d + l) mod n_fields d) \<noteq> tag)"
      using run_find_loop [OF d e base a _ k _ st, of tag] i by (auto simp del: find_loop.simps)
    have "f_tag d i \<noteq> tag" "\<not> tag < f_tag d i" using 4(1) by auto
    then have "run_state (pb_field_iter_find it tag) s = ((f, iter_at d base q), s)"
      using 4 tag desc fq(1) by (simp add: pb_field_iter_find_def Let_def del: find_loop.simps)
    moreover have "f \<longleftrightarrow> (\<exists>j < n_fields d. f_tag d j = tag)"
    proof
      assume "\<exists>j < n_fields d. f_tag d j = tag"
      then obtain j where j: "j < n_fields d" "f_tag d j = tag" by blast
      let ?l = "(j + n_fields d - Suc i) mod n_fields d"
      have "(Suc i mod n_fields d + ?l) mod n_fields d = (Suc i + (j + n_fields d - Suc i)) mod n_fields d"
        by (rule mod_add_eq)
      also have "\<dots> = j" using i j by simp
      finally have "(Suc i mod n_fields d + ?l) mod n_fields d = j" .
      moreover have "?l \<le> n_fields d - 1"
        using mod_less_divisor [of "n_fields d" "j + n_fields d - Suc i"] i by linarith
      ultimately show f using fq(4) j by metis
    qed (use fq in auto)
    ultimately show ?thesis using fq by auto
  qed
qed

lemma run_iter_find_empty:
  assumes "tags_sorted d" "n_fields d = 0" "tag \<noteq> 0"
  shows "run_state (pb_field_iter_find (zero_iter d base) tag) s = ((False, zero_iter d base), s)"
  using assms by (simp add: pb_field_iter_find_def zero_iter_def tags_sorted_def word_gt_0)

section \<open>Search for an extension range\<close>

lemma run_find_extension_loop:
  assumes d: "desc_arrays d" and e: "no_extensions d" and base: "0 < base"
    and it: "it_pos d base i it" and i: "i < n_fields d"
    and k: "k < m" "k < n_fields d" "st = (Suc i + k) mod n_fields d"
  shows "run_state (find_extension_loop m (of_nat st) it) s = ((False, iter_at d base st), s)"
  using it i k
proof (induction k arbitrary: i m it)
  case (0 i)
  then obtain m' where m: "m = Suc m'" by (cases m) auto
  obtain it' where a: "run_state (advance_iterator it) s = (it', s)"
    "it_pos d base (Suc i mod n_fields d) it'"
    using run_advance [OF d 0(2,1)] by blast
  have st: "Suc i mod n_fields d = st" "st < n_fields d" using 0 by simp_all
  have "fi_index d (Suc st) \<le> fi_index d (n_fields d)"
    using st by (intro fi_index_mono) simp
  then have fi: "fi_index d st < 2 ^ 16" "fi_index d st < length (field_info d)"
    using d by (auto simp: desc_arrays_def)
  have "PB_LTYPE (f_type d st) \<noteq> PB_LTYPE_EXTENSION" using e st by (simp add: no_extensions_def)
  with a st fi run_load [OF d st(2) _ base, of it' s] m show ?case
    by (simp add: it_pos_def unat_of_nat f_type_def f_word_def)
next
  case (Suc k i)
  then obtain m' where m: "m = Suc m'" by (cases m) auto
  let ?j = "Suc i mod n_fields d"
  obtain it' where a: "run_state (advance_iterator it) s = (it', s)" "it_pos d base ?j it'"
    using run_advance [OF d Suc.prems(2,1)] by blast
  have j: "?j < n_fields d" using Suc.prems by simp
  have "fi_index d (Suc ?j) \<le> fi_index d (n_fields d)"
    using j by (intro fi_index_mono) simp
  then have fi: "fi_index d ?j < 2 ^ 16" "fi_index d ?j < length (field_info d)"
    using d by (auto simp: desc_arrays_def)
  have n: "n_fields d < 2 ^ 16" using d by (simp add: desc_arrays_def)
  have st: "st < n_fields d" "st = (?j + Suc k) mod n_fields d"
    using Suc.prems(2,5) by (simp, metis mod_add_left_eq)
  have "?j \<noteq> st"
  proof
    assume "?j = st"
    then have "(?j + Suc k) mod n_fields d = (?j + 0) mod n_fields d" using st j by simp
    then have "n_fields d dvd Suc k"
      using mod_eq_dvd_iff_nat [of ?j "?j + Suc k" "n_fields d"] by simp
    with Suc.prems show False by (auto dest: dvd_imp_le)
  qed
  moreover have "?j < 2 ^ 16" "st < 2 ^ 16"
    using j st(1) n by (meson order_less_trans)+
  ultimately have ne: "(of_nat ?j :: u16) \<noteq> of_nat st"
    using of_nat_u16_eq [of ?j st] by simp
  have "st = (Suc ?j + k) mod n_fields d" using st by simp
  then have IH: "run_state (find_extension_loop m' (of_nat st) it') s = ((False, iter_at d base st), s)"
    using Suc.IH [OF a(2) j, of m'] Suc.prems m by simp
  have "PB_LTYPE (f_type d ?j) \<noteq> PB_LTYPE_EXTENSION" using e j by (simp add: no_extensions_def)
  with a fi m ne IH show ?case
    by (simp add: it_pos_def unat_of_nat f_type_def f_word_def)
qed

lemma run_find_extension:
  assumes d: "desc_arrays d" and e: "no_extensions d" and base: "0 < base"
    and i: "i < n_fields d" and it: "it_live d base i it"
  shows "run_state (pb_field_iter_find_extension it) s = ((False, iter_at d base i), s)"
proof -
  have "PB_LTYPE (it_type it) \<noteq> PB_LTYPE_EXTENSION"
    using e i it_live_sel [OF it] by (simp add: no_extensions_def)
  moreover have "i = (Suc i + (n_fields d - 1)) mod n_fields d" using i by simp
  then have "run_state (find_extension_loop (Suc (n_fields d)) (of_nat i) it) s =
      ((False, iter_at d base i), s)"
    using run_find_extension_loop [OF d e base it_live_pos [OF it] i, of "n_fields d - 1" "Suc (n_fields d)" i s] i
    by (simp del: find_extension_loop.simps)
  ultimately show ?thesis
    using it_live_sel [OF it] by (simp add: pb_field_iter_find_extension_def del: find_extension_loop.simps)
qed

lemma run_find_extension_empty:
  assumes d: "desc_arrays d" and e: "no_extensions d" and n: "n_fields d = 0"
  shows "run_state (pb_field_iter_find_extension (zero_iter d base)) s = ((False, zero_iter d base), s)"
proof -
  have "field_count d = 0" using n by (simp add: unat_eq_0)
  moreover have "PB_LTYPE (f_type d 0) \<noteq> PB_LTYPE_EXTENSION" using e by (simp add: no_extensions_def)
  moreover have "0 < length (field_info d)" using d n by (simp add: desc_arrays_def)
  moreover have "PB_LTYPE 0 \<noteq> PB_LTYPE_EXTENSION" by (simp add: PB_LTYPE_def)
  ultimately show ?thesis
    by (simp add: pb_field_iter_find_extension_def advance_iterator_def load_descriptor_values_def
        zero_iter_def f_type_def f_word_def)
qed

end
