(* ===== verification/Nanopb_Schema.thy ===== *)
theory Nanopb_Schema
  imports Nanopb_Field
begin

text \<open>
  The generated message schemas (\<open>proto/job.pb.h\<close>, \<open>proto/manage.pb.h\<close>) and the macros of
  \<open>nanopb/pb.h\<close> that turn a field list into a message descriptor (\<open>PB_BIND\<close>). A schema is the
  list of the struct's members in declaration order; \<open>offsetof\<close> and \<open>sizeof\<close> are those of the
  target's C compiler (natural alignment, 32-bit pointers and enums).
\<close>

section \<open>Field lists\<close>

datatype pb_atype = AT_STATIC | AT_POINTER | AT_CALLBACK
datatype pb_htype = HT_REQUIRED | HT_SINGULAR | HT_OPTIONAL | HT_REPEATED | HT_FIXARRAY | HT_ONEOF
datatype pb_ltype = LT_BOOL | LT_BYTES | LT_DOUBLE | LT_ENUM | LT_UENUM | LT_FIXED32 | LT_FIXED64
  | LT_FLOAT | LT_INT32 | LT_INT64 | LT_MESSAGE | LT_MSG_W_CB | LT_SFIXED32 | LT_SFIXED64
  | LT_SINT32 | LT_SINT64 | LT_STRING | LT_UINT32 | LT_UINT64 | LT_EXTENSION
  | LT_FIXED_LENGTH_BYTES

definition atype_code :: "pb_atype \<Rightarrow> u8" where
  "atype_code a = (case a of AT_STATIC \<Rightarrow> PB_ATYPE_STATIC | AT_POINTER \<Rightarrow> PB_ATYPE_POINTER
     | AT_CALLBACK \<Rightarrow> PB_ATYPE_CALLBACK)"

definition htype_code :: "pb_htype \<Rightarrow> u8" where
  "htype_code h = (case h of HT_REQUIRED \<Rightarrow> PB_HTYPE_REQUIRED | HT_SINGULAR \<Rightarrow> PB_HTYPE_SINGULAR
     | HT_OPTIONAL \<Rightarrow> PB_HTYPE_OPTIONAL | HT_REPEATED \<Rightarrow> PB_HTYPE_REPEATED
     | HT_FIXARRAY \<Rightarrow> PB_HTYPE_REPEATED | HT_ONEOF \<Rightarrow> PB_HTYPE_ONEOF)"

definition PB_LTYPE_MAP :: "pb_ltype \<Rightarrow> u8" where
  "PB_LTYPE_MAP l = (case l of
     LT_BOOL \<Rightarrow> PB_LTYPE_BOOL
   | LT_BYTES \<Rightarrow> PB_LTYPE_BYTES
   | LT_DOUBLE \<Rightarrow> PB_LTYPE_FIXED64
   | LT_ENUM \<Rightarrow> PB_LTYPE_VARINT
   | LT_UENUM \<Rightarrow> PB_LTYPE_UVARINT
   | LT_FIXED32 \<Rightarrow> PB_LTYPE_FIXED32
   | LT_FIXED64 \<Rightarrow> PB_LTYPE_FIXED64
   | LT_FLOAT \<Rightarrow> PB_LTYPE_FIXED32
   | LT_INT32 \<Rightarrow> PB_LTYPE_VARINT
   | LT_INT64 \<Rightarrow> PB_LTYPE_VARINT
   | LT_MESSAGE \<Rightarrow> PB_LTYPE_SUBMESSAGE
   | LT_MSG_W_CB \<Rightarrow> PB_LTYPE_SUBMSG_W_CB
   | LT_SFIXED32 \<Rightarrow> PB_LTYPE_FIXED32
   | LT_SFIXED64 \<Rightarrow> PB_LTYPE_FIXED64
   | LT_SINT32 \<Rightarrow> PB_LTYPE_SVARINT
   | LT_SINT64 \<Rightarrow> PB_LTYPE_SVARINT
   | LT_STRING \<Rightarrow> PB_LTYPE_STRING
   | LT_UINT32 \<Rightarrow> PB_LTYPE_UVARINT
   | LT_UINT64 \<Rightarrow> PB_LTYPE_UVARINT
   | LT_EXTENSION \<Rightarrow> PB_LTYPE_EXTENSION
   | LT_FIXED_LENGTH_BYTES \<Rightarrow> PB_LTYPE_FIXED_LENGTH_BYTES)"

definition PB_FI_WIDTH_LTYPE :: "pb_ltype \<Rightarrow> nat" where
  "PB_FI_WIDTH_LTYPE l = (case l of
     LT_BYTES \<Rightarrow> 2 | LT_MESSAGE \<Rightarrow> 2 | LT_MSG_W_CB \<Rightarrow> 2 | LT_STRING \<Rightarrow> 2
   | LT_FIXED_LENGTH_BYTES \<Rightarrow> 2 | _ \<Rightarrow> 1)"

definition PB_FIELDINFO_WIDTH_AUTO :: "pb_atype \<Rightarrow> pb_htype \<Rightarrow> pb_ltype \<Rightarrow> nat" where
  "PB_FIELDINFO_WIDTH_AUTO a h l =
     (if a = AT_CALLBACK then 2
      else if h = HT_REPEATED \<or> h = HT_FIXARRAY then 2
      else PB_FI_WIDTH_LTYPE l)"

text \<open>The arguments of \<open>PB_FIELDINFO_*\<close> for one entry of a field list.\<close>

record pb_field_entry =
  fe_tag :: u32
  fe_atype :: pb_atype
  fe_htype :: pb_htype
  fe_ltype :: pb_ltype
  fe_data_offset :: u32
  fe_data_size :: u32
  fe_size_offset :: u32
  fe_array_size :: u32
  fe_submsg :: "pb_msgdesc option"

definition fe_type :: "pb_field_entry \<Rightarrow> u8" where
  "fe_type e = atype_code (fe_atype e) OR htype_code (fe_htype e) OR PB_LTYPE_MAP (fe_ltype e)"

definition PB_FIELDINFO :: "nat \<Rightarrow> pb_field_entry \<Rightarrow> u32 list" where
  "PB_FIELDINFO width e =
     (if width = 1 then PB_FIELDINFO_1 else if width = 2 then PB_FIELDINFO_2
      else if width = 4 then PB_FIELDINFO_4 else PB_FIELDINFO_8)
       (fe_tag e) (fe_type e) (fe_data_offset e) (fe_data_size e) (fe_size_offset e)
       (fe_array_size e)"

definition PB_FIELDINFO_ASSERT :: "nat \<Rightarrow> pb_field_entry \<Rightarrow> bool" where
  "PB_FIELDINFO_ASSERT width e =
     (if width = 1 then PB_FIELDINFO_ASSERT_1 else if width = 2 then PB_FIELDINFO_ASSERT_2
      else if width = 4 then PB_FIELDINFO_ASSERT_4 else PB_FIELDINFO_ASSERT_8)
       (fe_tag e) (fe_data_offset e) (fe_data_size e) (fe_size_offset e) (fe_array_size e)"

text \<open>\<open>None\<close> is the width \<open>AUTO\<close>.\<close>

definition entry_width :: "nat option \<Rightarrow> pb_field_entry \<Rightarrow> nat" where
  "entry_width width e = (case width of
     Some w \<Rightarrow> w
   | None \<Rightarrow> PB_FIELDINFO_WIDTH_AUTO (fe_atype e) (fe_htype e) (fe_ltype e))"

definition PB_GEN_SUBMSG_INFO :: "pb_field_entry \<Rightarrow> pb_msgdesc option list" where
  "PB_GEN_SUBMSG_INFO e =
     (if fe_ltype e = LT_MESSAGE \<or> fe_ltype e = LT_MSG_W_CB then [fe_submsg e] else [])"

definition PB_BIND :: "nat option \<Rightarrow> pb_field_callback \<Rightarrow> pb_field_entry list \<Rightarrow> pb_msgdesc" where
  "PB_BIND width cb es = PbMsgdesc
     (concat (map (\<lambda>e. PB_FIELDINFO (entry_width width e) e) es) @ [0])
     (concat (map PB_GEN_SUBMSG_INFO es) @ [None])
     None cb
     (of_nat (length es))
     (of_nat (length (filter (\<lambda>e. fe_htype e = HT_REQUIRED) es)))
     (foldl (\<lambda>acc e. acc * 0 + ucast (fe_tag e)) 0 es)"

definition PB_BIND_ASSERT :: "nat option \<Rightarrow> pb_field_entry list \<Rightarrow> bool" where
  "PB_BIND_ASSERT width es \<longleftrightarrow> list_all (\<lambda>e. PB_FIELDINFO_ASSERT (entry_width width e) e) es"

section \<open>Struct layout\<close>

text \<open>
  A member of a generated struct: item size and alignment, number of items and the message type
  of a submessage. A oneof is a \<open>which_\<close> member and a union.
\<close>

record pb_item =
  i_atype :: pb_atype
  i_htype :: pb_htype
  i_ltype :: pb_ltype
  i_tag :: nat
  i_size :: nat
  i_align :: nat
  i_count :: nat
  i_submsg :: "pb_msgdesc option"

datatype pb_member = Member pb_item | Oneof "pb_item list"

definition align_up :: "nat \<Rightarrow> nat \<Rightarrow> nat" where
  "align_up a n = (n + a - 1) div a * a"

definition entry_of :: "pb_item \<Rightarrow> nat \<Rightarrow> nat \<Rightarrow> pb_field_entry" where
  "entry_of i data_offset size_offset =
     \<lparr>fe_tag = of_nat (i_tag i), fe_atype = i_atype i, fe_htype = i_htype i, fe_ltype = i_ltype i,
      fe_data_offset = of_nat data_offset, fe_data_size = of_nat (i_size i),
      fe_size_offset = of_nat size_offset, fe_array_size = of_nat (i_count i),
      fe_submsg = i_submsg i\<rparr>"

definition max_of :: "nat list \<Rightarrow> nat" where
  "max_of ns = foldr max ns 1"

definition place_member :: "nat \<Rightarrow> pb_member \<Rightarrow> pb_field_entry list \<times> nat" where
  "place_member pos m = (case m of
     Member i \<Rightarrow>
       if i_atype i = AT_STATIC \<and> i_htype i = HT_OPTIONAL then
         let data = align_up (i_align i) (pos + 1)
         in ([entry_of i data (data - pos)], data + i_size i)
       else if i_atype i = AT_STATIC \<and> i_htype i = HT_REPEATED then
         let count = align_up 2 pos; data = align_up (i_align i) (count + 2)
         in ([entry_of i data (data - count)], data + i_size i * i_count i)
       else
         let data = align_up (i_align i) pos
         in ([entry_of i data 0], data + i_size i * i_count i)
   | Oneof is \<Rightarrow>
       let which = align_up 2 pos;
           data = align_up (max_of (map i_align is)) (which + 2)
       in (map (\<lambda>i. entry_of i data (data - which)) is, data + max_of (map i_size is)))"

fun place_members :: "nat \<Rightarrow> pb_member list \<Rightarrow> pb_field_entry list \<times> nat" where
  "place_members pos [] = ([], pos)"
| "place_members pos (m # ms) =
     (case place_member pos m of (es, pos) \<Rightarrow>
      case place_members pos ms of (fs, pos) \<Rightarrow> (es @ fs, pos))"

definition member_align :: "pb_member \<Rightarrow> nat" where
  "member_align m = (case m of
     Member i \<Rightarrow> if i_htype i = HT_REPEATED then max 2 (i_align i) else i_align i
   | Oneof is \<Rightarrow> max 2 (max_of (map i_align is)))"

record pb_type =
  t_desc :: pb_msgdesc
  t_size :: nat
  t_align :: nat
  t_entries :: "pb_field_entry list"
  t_width :: "nat option"

definition message_type ::
  "nat option \<Rightarrow> pb_field_callback \<Rightarrow> pb_member list \<Rightarrow> pb_type" where
  "message_type width cb ms =
     (case place_members 0 ms of (es, end) \<Rightarrow>
        let al = max_of (map member_align ms)
        in \<lparr>t_desc = PB_BIND width cb es, t_size = align_up al (max 1 end), t_align = al,
            t_entries = es, t_width = width\<rparr>)"

section \<open>Members\<close>

definition scalar :: "pb_htype \<Rightarrow> pb_ltype \<Rightarrow> nat \<Rightarrow> nat \<Rightarrow> pb_member" where
  "scalar h l sz tag = Member \<lparr>i_atype = AT_STATIC, i_htype = h, i_ltype = l, i_tag = tag,
     i_size = sz, i_align = sz, i_count = 1, i_submsg = None\<rparr>"

abbreviation "uint32_m \<equiv> scalar HT_SINGULAR LT_UINT32 4"
abbreviation "opt_uint32_m \<equiv> scalar HT_OPTIONAL LT_UINT32 4"
abbreviation "int32_m \<equiv> scalar HT_SINGULAR LT_INT32 4"
abbreviation "uenum_m \<equiv> scalar HT_SINGULAR LT_UENUM 4"
abbreviation "uint64_m \<equiv> scalar HT_SINGULAR LT_UINT64 8"
abbreviation "bool_m \<equiv> scalar HT_SINGULAR LT_BOOL 1"

definition string_m :: "nat \<Rightarrow> nat \<Rightarrow> pb_member" where
  "string_m n tag = Member \<lparr>i_atype = AT_STATIC, i_htype = HT_SINGULAR, i_ltype = LT_STRING,
     i_tag = tag, i_size = n, i_align = 1, i_count = 1, i_submsg = None\<rparr>"

definition fixed_bytes_m :: "nat \<Rightarrow> nat \<Rightarrow> pb_member" where
  "fixed_bytes_m n tag = Member \<lparr>i_atype = AT_STATIC, i_htype = HT_SINGULAR,
     i_ltype = LT_FIXED_LENGTH_BYTES, i_tag = tag, i_size = n, i_align = 1, i_count = 1,
     i_submsg = None\<rparr>"

text \<open>\<open>PB_BYTES_ARRAY_T(n)\<close>.\<close>

definition bytes_m :: "nat \<Rightarrow> nat \<Rightarrow> pb_member" where
  "bytes_m n tag = Member \<lparr>i_atype = AT_STATIC, i_htype = HT_SINGULAR, i_ltype = LT_BYTES,
     i_tag = tag, i_size = align_up 2 (n + 2), i_align = 2, i_count = 1, i_submsg = None\<rparr>"

definition message_i :: "pb_htype \<Rightarrow> nat \<Rightarrow> pb_type \<Rightarrow> nat \<Rightarrow> pb_item" where
  "message_i h n t tag = \<lparr>i_atype = AT_STATIC, i_htype = h, i_ltype = LT_MESSAGE, i_tag = tag,
     i_size = t_size t, i_align = t_align t, i_count = n, i_submsg = Some (t_desc t)\<rparr>"

definition callback_m :: "pb_htype \<Rightarrow> pb_ltype \<Rightarrow> pb_msgdesc option \<Rightarrow> nat \<Rightarrow> pb_member" where
  "callback_m h l d tag = Member \<lparr>i_atype = AT_CALLBACK, i_htype = h, i_ltype = l, i_tag = tag,
     i_size = SIZEOF_pb_callback_t, i_align = 4, i_count = 1, i_submsg = d\<rparr>"

section \<open>\<open>proto/manage.pb.h\<close>\<close>

definition si_manage_DeviceInfo :: pb_type where
  "si_manage_DeviceInfo = message_type None NO_FIELD_CALLBACK
     [string_m 32 1, string_m 32 2, uint32_m 3, uint32_m 4, uint64_m 5, uint64_m 6, bool_m 7]"

definition si_manage_SetTimeRequest :: pb_type where
  "si_manage_SetTimeRequest = message_type None NO_FIELD_CALLBACK [uint64_m 1]"

definition si_manage_AssetBeginRequest :: pb_type where
  "si_manage_AssetBeginRequest = message_type None NO_FIELD_CALLBACK
     [string_m 32 1, uint32_m 2, fixed_bytes_m 32 3]"

definition si_manage_AssetBeginResponse :: pb_type where
  "si_manage_AssetBeginResponse = message_type None NO_FIELD_CALLBACK [bool_m 1, uint32_m 2]"

definition si_manage_JobSetRequest :: pb_type where
  "si_manage_JobSetRequest = message_type None NO_FIELD_CALLBACK [fixed_bytes_m 32 1, uenum_m 2]"

definition si_manage_RunResult :: pb_type where
  "si_manage_RunResult = message_type None NO_FIELD_CALLBACK
     [uint32_m 1, uenum_m 2, uenum_m 3, uint32_m 4]"

definition si_manage_JobStatus :: pb_type where
  "si_manage_JobStatus = message_type None NO_FIELD_CALLBACK
     [bool_m 1, string_m 32 2, fixed_bytes_m 32 3, uenum_m 4, uenum_m 5, uint32_m 6,
      Member (message_i HT_OPTIONAL 1 si_manage_RunResult 7)]"

definition si_manage_JobRunOnceResponse :: pb_type where
  "si_manage_JobRunOnceResponse = message_type None NO_FIELD_CALLBACK [uint32_m 1]"

definition si_manage_JobCancelRequest :: pb_type where
  "si_manage_JobCancelRequest = message_type None NO_FIELD_CALLBACK [uint32_m 1]"

definition si_manage_BootRecord :: pb_type where
  "si_manage_BootRecord = message_type None NO_FIELD_CALLBACK [uint32_m 1]"

definition si_manage_RunRecord :: pb_type where
  "si_manage_RunRecord = message_type None NO_FIELD_CALLBACK
     [Member (message_i HT_OPTIONAL 1 si_manage_RunResult 1), uenum_m 2, string_m 32 3,
      fixed_bytes_m 32 4, int32_m 5]"

definition si_manage_LogReadRequest :: pb_type where
  "si_manage_LogReadRequest = message_type None NO_FIELD_CALLBACK [uint64_m 1]"

definition si_manage_LogEntry :: pb_type where
  "si_manage_LogEntry = message_type None NO_FIELD_CALLBACK
     [uint64_m 1, uint64_m 2, uint64_m 3, uenum_m 4, bytes_m 128 5]"

definition si_manage_LogReadResponse :: pb_type where
  "si_manage_LogReadResponse = message_type None DEFAULT_FIELD_CALLBACK
     [callback_m HT_REPEATED LT_MESSAGE (Some (t_desc si_manage_LogEntry)) 1]"

definition si_manage_LogAckRequest :: pb_type where
  "si_manage_LogAckRequest = message_type None NO_FIELD_CALLBACK [uint64_m 1]"

section \<open>\<open>proto/job.pb.h\<close>\<close>

definition si_job_MemoryRegion :: pb_type where
  "si_job_MemoryRegion = message_type None NO_FIELD_CALLBACK [uenum_m 1, uint32_m 2, uint32_m 3]"

definition si_job_FlashAlgorithm :: pb_type where
  "si_job_FlashAlgorithm = message_type None DEFAULT_FIELD_CALLBACK
     [string_m 32 1, uint32_m 2, opt_uint32_m 3, opt_uint32_m 4, opt_uint32_m 5, opt_uint32_m 6,
      opt_uint32_m 7, opt_uint32_m 8, opt_uint32_m 9, opt_uint32_m 10, opt_uint32_m 11,
      uint32_m 12, opt_uint32_m 13, opt_uint32_m 14, opt_uint32_m 15,
      callback_m HT_SINGULAR LT_BYTES None 16]"

definition si_job_CortexM :: pb_type where
  "si_job_CortexM = message_type None NO_FIELD_CALLBACK
     [Member (message_i HT_OPTIONAL 1 si_job_FlashAlgorithm 1), fixed_bytes_m 32 2]"

definition si_job_Esp32Image :: pb_type where
  "si_job_Esp32Image = message_type None NO_FIELD_CALLBACK
     [string_m 64 1, uint32_m 2, fixed_bytes_m 32 3]"

definition si_job_Esp32 :: pb_type where
  "si_job_Esp32 = message_type (Some 2) NO_FIELD_CALLBACK
     [string_m 24 1, opt_uint32_m 2, uint32_m 3, bool_m 4, bool_m 5,
      Member (message_i HT_REPEATED 8 si_job_Esp32Image 6)]"

definition si_job_SelfTest :: pb_type where
  "si_job_SelfTest = message_type None NO_FIELD_CALLBACK [uenum_m 1, uint32_m 2, string_m 32 3]"

definition si_job_Target :: pb_type where
  "si_job_Target = message_type (Some 2) NO_FIELD_CALLBACK
     [string_m 32 1, Member (message_i HT_REPEATED 16 si_job_MemoryRegion 2),
      Member (message_i HT_OPTIONAL 1 si_job_CortexM 3),
      Member (message_i HT_OPTIONAL 1 si_job_Esp32 4),
      Member (message_i HT_REPEATED 16 si_job_SelfTest 5)]"

definition si_job_Empty :: pb_type where
  "si_job_Empty = message_type None NO_FIELD_CALLBACK []"

definition si_job_Read32 :: pb_type where
  "si_job_Read32 = message_type None NO_FIELD_CALLBACK [uint32_m 1]"

definition si_job_Write32 :: pb_type where
  "si_job_Write32 = message_type None NO_FIELD_CALLBACK [uint32_m 1, uint32_m 2]"

definition si_job_ReadModWrite32 :: pb_type where
  "si_job_ReadModWrite32 = message_type None NO_FIELD_CALLBACK [uint32_m 1, uint32_m 2, uint32_m 3]"

definition si_job_Poll32 :: pb_type where
  "si_job_Poll32 = message_type None NO_FIELD_CALLBACK
     [uint32_m 1, uint32_m 2, uint32_m 3, uint32_m 4]"

definition si_job_Delay :: pb_type where
  "si_job_Delay = message_type None NO_FIELD_CALLBACK [uint32_m 1]"

definition si_job_Step :: pb_type where
  "si_job_Step = message_type None NO_FIELD_CALLBACK
     [bool_m 1,
      Oneof [message_i HT_ONEOF 1 si_job_Read32 2, message_i HT_ONEOF 1 si_job_Write32 3,
        message_i HT_ONEOF 1 si_job_ReadModWrite32 4, message_i HT_ONEOF 1 si_job_Poll32 5,
        message_i HT_ONEOF 1 si_job_Delay 6, message_i HT_ONEOF 1 si_job_Empty 7,
        message_i HT_ONEOF 1 si_job_Empty 8, message_i HT_ONEOF 1 si_job_Empty 9,
        message_i HT_ONEOF 1 si_job_Empty 10]]"

definition si_job_Procedure :: pb_type where
  "si_job_Procedure = message_type (Some 2) NO_FIELD_CALLBACK
     [Member (message_i HT_REPEATED 96 si_job_Step 1)]"

definition si_job_Job :: pb_type where
  "si_job_Job = message_type (Some 2) NO_FIELD_CALLBACK
     [uenum_m 1, Member (message_i HT_OPTIONAL 1 si_job_Target 2),
      Member (message_i HT_OPTIONAL 1 si_job_Procedure 3),
      Member (message_i HT_OPTIONAL 1 si_job_Procedure 4), string_m 32 5]"

end
