(* ===== verification/Nanopb_Packing.thy ===== *)
theory Nanopb_Packing
  imports Nanopb_Iter Nanopb_Schema
begin

text \<open>
  The packed field information: what \<open>load_descriptor_values\<close> takes apart is what the macros
  \<open>PB_FIELDINFO_1/2/4/8\<close> put together, for arguments that pass the static assertions of their
  width.
\<close>

section \<open>Bits of words\<close>

lemma less_exp_bit:
  assumes "w < push_bit n 1" "n < LENGTH('a)" "bit (w :: 'a::len word) k"
  shows "k < n"
proof -
  from assms have "w < 2 ^ n" by (simp add: push_bit_eq_mult)
  then have "take_bit n w = w" using assms(2) by (simp add: less_mask_eq take_bit_eq_mask word_less_nat_alt)
  then show "k < n" using assms(3) by (metis bit_take_bit_iff)
qed

lemma fits_bit: "PB_FITS w n \<Longrightarrow> n < 32 \<Longrightarrow> bit w k \<Longrightarrow> k < n"
  unfolding PB_FITS_def by (rule less_exp_bit) simp_all

lemma u8_bit: "bit (w :: u8) k \<Longrightarrow> k < 8"
  using bit_imp_le_length by fastforce

lemma masks:
  "w AND 3 = take_bit 2 w" "w AND 0x0F = take_bit 4 w" "w AND 0x3F = take_bit 6 w" "w AND 0xFF = take_bit 8 w"
  "w AND 0x0FFF = take_bit 12 w" "w AND 0xFFFF = take_bit 16 w" for w :: u32
  by (simp_all add: take_bit_eq_mask mask_eq_exp_minus_1)

lemma mask_3C0: "w AND 0x3C0 = push_bit 6 (take_bit 4 (drop_bit 6 w))" for w :: u32
proof -
  have e: "(0x3C0 :: u32) = push_bit 6 (mask 4)" by (simp add: mask_eq_exp_minus_1)
  show ?thesis unfolding e by (rule bit_word_eqI) (auto simp: bit_simps)
qed

lemma mask_FFFFFF00: "w AND 0xFFFFFF00 = push_bit 8 (drop_bit 8 w)" for w :: u32
proof -
  have e: "(0xFFFFFF00 :: u32) = push_bit 8 (mask 24)" by (simp add: mask_eq_exp_minus_1)
  show ?thesis unfolding e by (rule bit_word_eqI) (auto simp: bit_simps)
qed

lemma small_bits: "bit (2 :: u32) k \<longleftrightarrow> k = 1" "bit (3 :: u32) k \<longleftrightarrow> k = 0 \<or> k = 1"
  by (cases k; simp add: bit_numeral_rec bit_1_iff; cases "k - 1"; simp add: bit_numeral_rec bit_1_iff)+

section \<open>Round trips\<close>

lemma type_PB_FIELDINFO:
  "ucast (drop_bit 8 (hd (PB_FIELDINFO_1 tag ty off ds so as)) AND 0xFF) = ty"
  "ucast (drop_bit 8 (hd (PB_FIELDINFO_2 tag ty off ds so as)) AND 0xFF) = ty"
  "ucast (drop_bit 8 (hd (PB_FIELDINFO_4 tag ty off ds so as)) AND 0xFF) = ty"
  "ucast (drop_bit 8 (hd (PB_FIELDINFO_8 tag ty off ds so as)) AND 0xFF) = ty"
  unfolding PB_FIELDINFO_1_def PB_FIELDINFO_2_def PB_FIELDINFO_4_def PB_FIELDINFO_8_def masks list.sel
  by (rule bit_word_eqI; auto simp: bit_simps small_bits bit_1_iff dest: u8_bit)+

lemma width_PB_FIELDINFO:
  "hd (PB_FIELDINFO_1 tag ty off ds so as) AND 3 = 0"
  "hd (PB_FIELDINFO_2 tag ty off ds so as) AND 3 = 1"
  "hd (PB_FIELDINFO_4 tag ty off ds so as) AND 3 = 2"
  "hd (PB_FIELDINFO_8 tag ty off ds so as) AND 3 = 3"
  unfolding PB_FIELDINFO_1_def PB_FIELDINFO_2_def PB_FIELDINFO_4_def PB_FIELDINFO_8_def masks list.sel
  by (rule bit_word_eqI; auto simp: bit_simps small_bits bit_1_iff)+

lemma unpack_PB_FIELDINFO_1:
  assumes "PB_FIELDINFO_ASSERT_1 tag off ds so as"
  shows "unpack_at (PB_FIELDINFO_1 tag ty off ds so as) 0 =
   \<lparr>fv_array_size = 1, fv_tag = ucast tag, fv_size_offset = ucast so, fv_data_offset = off,
    fv_data_size = ucast ds\<rparr>"
proof -
  have b: "bit tag k \<Longrightarrow> k < 6" "bit off k \<Longrightarrow> k < 8"
    "bit so k \<Longrightarrow> k < 4" "bit ds k \<Longrightarrow> k < 4" for k
    using assms by (auto simp: PB_FIELDINFO_ASSERT_1_def dest: fits_bit)
  show ?thesis
    using width_PB_FIELDINFO(1) [of tag ty off ds so as]
    unfolding PB_FIELDINFO_1_def masks unpack_at_def unpack_1_def list.sel
    by (simp del: take_bit_or, intro conjI)
      (rule bit_word_eqI; auto simp: bit_simps dest: b u8_bit)+
qed

lemma unpack_PB_FIELDINFO_2:
  assumes "PB_FIELDINFO_ASSERT_2 tag off ds so as"
  shows "unpack_at (PB_FIELDINFO_2 tag ty off ds so as) 0 =
   \<lparr>fv_array_size = ucast as, fv_tag = ucast tag, fv_size_offset = ucast so, fv_data_offset = off,
    fv_data_size = ucast ds\<rparr>"
proof -
  have b: "bit tag k \<Longrightarrow> k < 10" "bit off k \<Longrightarrow> k < 16"
    "bit so k \<Longrightarrow> k < 4" "bit ds k \<Longrightarrow> k < 12" "bit as k \<Longrightarrow> k < 12" for k
    using assms by (auto simp: PB_FIELDINFO_ASSERT_2_def dest: fits_bit)
  show ?thesis
    using width_PB_FIELDINFO(2) [of tag ty off ds so as]
    unfolding PB_FIELDINFO_2_def masks mask_3C0 unpack_at_def unpack_2_def list.sel
    by (simp del: take_bit_or, intro conjI)
      (rule bit_word_eqI; auto simp: bit_simps bit_1_iff dest: b u8_bit)+
qed

lemma unpack_PB_FIELDINFO_4:
  assumes "PB_FIELDINFO_ASSERT_4 tag off ds so as"
  shows "unpack_at (PB_FIELDINFO_4 tag ty off ds so as) 0 =
   \<lparr>fv_array_size = ucast as, fv_tag = ucast tag, fv_size_offset = ucast so, fv_data_offset = off,
    fv_data_size = ucast ds\<rparr>"
proof -
  let ?so = "scast (ucast so :: u8) :: u32"
  have b: "bit tag k \<Longrightarrow> k < 16" "bit off k \<Longrightarrow> k < 16"
    "bit ?so k \<Longrightarrow> k < 8" "bit ds k \<Longrightarrow> k < 16" "bit as k \<Longrightarrow> k < 16" for k
    using assms by (auto simp: PB_FIELDINFO_ASSERT_4_def dest: fits_bit)
  have s: "?so = take_bit 8 so"
    by (rule bit_word_eqI) (use b(3) in \<open>fastforce simp: bit_simps\<close>)
  show ?thesis
    using width_PB_FIELDINFO(3) [of tag ty off ds so as]
    unfolding PB_FIELDINFO_4_def masks mask_FFFFFF00 s unpack_at_def unpack_4_def list.sel
    by (simp del: take_bit_or, intro conjI)
      (rule bit_word_eqI; auto simp: bit_simps bit_1_iff small_bits dest: b u8_bit)+
qed

lemma unpack_PB_FIELDINFO_8:
  assumes "PB_FIELDINFO_ASSERT_8 tag off ds so as"
  shows "unpack_at (PB_FIELDINFO_8 tag ty off ds so as) 0 =
   \<lparr>fv_array_size = ucast as, fv_tag = ucast tag, fv_size_offset = ucast so, fv_data_offset = off,
    fv_data_size = ucast ds\<rparr>"
proof -
  let ?so = "scast (ucast so :: u8) :: u32"
  have b: "bit tag k \<Longrightarrow> k < 16" "bit off k \<Longrightarrow> k < 16"
    "bit ?so k \<Longrightarrow> k < 8" "bit ds k \<Longrightarrow> k < 16" "bit as k \<Longrightarrow> k < 16" for k
    using assms by (auto simp: PB_FIELDINFO_ASSERT_8_def dest: fits_bit)
  have s: "?so = take_bit 8 so"
    by (rule bit_word_eqI) (use b(3) in \<open>fastforce simp: bit_simps\<close>)
  show ?thesis
    using width_PB_FIELDINFO(4) [of tag ty off ds so as]
    unfolding PB_FIELDINFO_8_def masks mask_FFFFFF00 s unpack_at_def unpack_8_def list.sel
    by (simp del: take_bit_or, intro conjI)
      (rule bit_word_eqI; auto simp: bit_simps bit_1_iff small_bits dest: b u8_bit)+
qed

text \<open>The words are there, so the iterator reads none past the end.\<close>

lemma run_unpack_PB_FIELDINFO:
  "run_state (unpack_field (PB_FIELDINFO_1 tag ty off ds so as) 0) s =
    (unpack_at (PB_FIELDINFO_1 tag ty off ds so as) 0, s)"
  "run_state (unpack_field (PB_FIELDINFO_2 tag ty off ds so as) 0) s =
    (unpack_at (PB_FIELDINFO_2 tag ty off ds so as) 0, s)"
  "run_state (unpack_field (PB_FIELDINFO_4 tag ty off ds so as) 0) s =
    (unpack_at (PB_FIELDINFO_4 tag ty off ds so as) 0, s)"
  "run_state (unpack_field (PB_FIELDINFO_8 tag ty off ds so as) 0) s =
    (unpack_at (PB_FIELDINFO_8 tag ty off ds so as) 0, s)"
  using width_PB_FIELDINFO [of tag ty off ds so as]
  by (simp_all add: run_unpack_field PB_FIELDINFO_1_def PB_FIELDINFO_2_def PB_FIELDINFO_4_def
      PB_FIELDINFO_8_def)

end
