(* ===== verification/Nanopb_Bind.thy ===== *)
theory Nanopb_Bind
  imports Nanopb_Packing
begin

text \<open>
  What \<open>PB_BIND\<close> makes of a field list: the descriptor's constant arrays are laid out as the
  iterator reads them, so that it visits exactly the entries of the list, in their order.
\<close>

section \<open>The words of one entry\<close>

definition entry_values :: "pb_field_entry \<Rightarrow> pb_field_values" where
  "entry_values e = \<lparr>fv_array_size = ucast (fe_array_size e), fv_tag = ucast (fe_tag e),
     fv_size_offset = ucast (fe_size_offset e), fv_data_offset = fe_data_offset e,
     fv_data_size = ucast (fe_data_size e)\<rparr>"

text \<open>Shortest words hold no array size, they stand for single items.\<close>

definition bind_entry_ok :: "nat option \<Rightarrow> pb_field_entry \<Rightarrow> bool" where
  "bind_entry_ok width e \<longleftrightarrow> entry_width width e \<in> {1, 2, 4, 8}
     \<and> PB_FIELDINFO_ASSERT (entry_width width e) e
     \<and> (entry_width width e = 1 \<longrightarrow> fe_array_size e = 1)"

abbreviation words :: "nat option \<Rightarrow> pb_field_entry \<Rightarrow> u32 list" where
  "words width e \<equiv> PB_FIELDINFO (entry_width width e) e"

lemma words_entry:
  assumes "bind_entry_ok width e"
  shows "length (words width e) = entry_width width e"
    "2 ^ unat (hd (words width e) AND 3) = entry_width width e"
    "ucast (drop_bit 8 (hd (words width e)) AND 0xFF) = fe_type e"
    "unpack_at (words width e) 0 = entry_values e"
proof -
  let ?w = "entry_width width e"
  have w: "?w = 1 \<or> ?w = 2 \<or> ?w = 4 \<or> ?w = 8" using assms by (auto simp: bind_entry_ok_def)
  have a: "PB_FIELDINFO_ASSERT ?w e" "?w = 1 \<longrightarrow> fe_array_size e = 1" using assms by (auto simp: bind_entry_ok_def)
  show "length (words width e) = ?w"
    using w by (auto simp: PB_FIELDINFO_def PB_FIELDINFO_1_def PB_FIELDINFO_2_def PB_FIELDINFO_4_def PB_FIELDINFO_8_def)
  show "2 ^ unat (hd (words width e) AND 3) = ?w"
    using w by (auto simp: PB_FIELDINFO_def width_PB_FIELDINFO)
  show "ucast (drop_bit 8 (hd (words width e)) AND 0xFF) = fe_type e"
    using w by (auto simp: PB_FIELDINFO_def type_PB_FIELDINFO)
  show "unpack_at (words width e) 0 = entry_values e"
    using w a by (auto simp: PB_FIELDINFO_def PB_FIELDINFO_ASSERT_def entry_values_def unpack_PB_FIELDINFO_1
        unpack_PB_FIELDINFO_2 unpack_PB_FIELDINFO_4 unpack_PB_FIELDINFO_8)
qed

lemma fe_type_parts:
  "PB_LTYPE (fe_type e) = PB_LTYPE_MAP (fe_ltype e)"
  "PB_HTYPE (fe_type e) = htype_code (fe_htype e)"
  "PB_ATYPE (fe_type e) = atype_code (fe_atype e)"
proof -
  have l: "(a OR h OR l) AND m = (a AND m) OR (h AND m) OR (l AND m)" for a h l m :: u8
    by (rule bit_word_eqI) (auto simp: bit_simps)
  show "PB_LTYPE (fe_type e) = PB_LTYPE_MAP (fe_ltype e)"
    unfolding PB_LTYPE_def fe_type_def l
    by (cases "fe_atype e"; cases "fe_htype e") (cases "fe_ltype e"; simp add: atype_code_def htype_code_def PB_LTYPE_MAP_def)+
  show "PB_HTYPE (fe_type e) = htype_code (fe_htype e)"
    unfolding PB_HTYPE_def fe_type_def l
    by (cases "fe_atype e"; cases "fe_htype e") (cases "fe_ltype e"; simp add: atype_code_def htype_code_def PB_LTYPE_MAP_def)+
  show "PB_ATYPE (fe_type e) = atype_code (fe_atype e)"
    unfolding PB_ATYPE_def fe_type_def l
    by (cases "fe_atype e"; cases "fe_htype e") (cases "fe_ltype e"; simp add: atype_code_def htype_code_def PB_LTYPE_MAP_def)+
qed

section \<open>The arrays\<close>

definition bind_ok :: "nat option \<Rightarrow> pb_field_entry list \<Rightarrow> bool" where
  "bind_ok width es \<longleftrightarrow> list_all (bind_entry_ok width) es \<and> length es < 8000
     \<and> list_all (\<lambda>e. fe_atype e \<noteq> AT_POINTER \<and> fe_ltype e \<noteq> LT_EXTENSION) es
     \<and> sorted_wrt (<) (0 # map fe_tag es)"

lemma PB_BIND_sel [simp]:
  "field_info (PB_BIND width cb es) = concat (map (words width) es) @ [0]"
  "submsg_info (PB_BIND width cb es) = concat (map PB_GEN_SUBMSG_INFO es) @ [None]"
  "default_value (PB_BIND width cb es) = None" "field_callback (PB_BIND width cb es) = cb"
  "field_count (PB_BIND width cb es) = of_nat (length es)"
  by (simp_all add: PB_BIND_def)

lemma n_fields_PB_BIND: "length es < 8000 \<Longrightarrow> n_fields (PB_BIND width cb es) = length es"
  by (simp add: unat_of_nat)

lemma concat_at:
  assumes "i < length es"
  shows "concat (map f es) = concat (map f (take i es)) @ f (es ! i) @ concat (map f (drop (Suc i) es))"
  by (subst id_take_nth_drop [OF assms]) simp

lemma concat_take_Suc:
  "i < length es \<Longrightarrow> concat (map f (take (Suc i) es)) = concat (map f (take i es)) @ f (es ! i)"
  by (simp add: take_Suc_conv_app_nth)

lemma words_nonempty: "bind_entry_ok width e \<Longrightarrow> words width e \<noteq> []"
  using words_entry(1) [of width e] by (auto simp: bind_entry_ok_def)

lemma fi_index_PB_BIND:
  assumes "list_all (bind_entry_ok width) es"
  shows "i \<le> length es \<Longrightarrow> fi_index (PB_BIND width cb es) i = length (concat (map (words width) (take i es)))"
proof (induction i)
  case 0
  then show ?case by simp
next
  case (Suc i)
  let ?d = "PB_BIND width cb es" and ?pre = "concat (map (words width) (take i es))"
  have i: "i < length es" using Suc.prems by simp
  have ok: "bind_entry_ok width (es ! i)" using assms i by (simp add: list_all_length)
  have "field_info ?d = ?pre @ words width (es ! i) @ concat (map (words width) (drop (Suc i) es)) @ [0]"
    using concat_at [OF i, of "words width"] by simp
  then have "field_info ?d ! length ?pre = hd (words width (es ! i))"
    using words_nonempty [OF ok] by (cases "words width (es ! i)") simp_all
  then have "fi_index ?d (Suc i) = length ?pre + 2 ^ unat (hd (words width (es ! i)) AND 3)"
    using Suc.IH i by (simp del: PB_BIND_sel)
  also have "\<dots> = length (concat (map (words width) (take (Suc i) es)))"
    unfolding concat_take_Suc [OF i] using words_entry(1,2) [OF ok] by simp
  finally show ?case .
qed

lemma unpack_at_append:
  assumes "length w = 2 ^ unat (hd w AND 3)"
  shows "unpack_at (pre @ w @ post) (length pre) = unpack_at w 0"
proof -
  from assms have "w \<noteq> []" by auto
  then obtain x ys where w: "w = x # ys" by (cases w) auto
  from and_3_cases [of x] show ?thesis
  proof (elim disjE)
    assume x: "x AND 3 = 1"
    with assms w obtain b where "ys = [b]" by (cases ys) auto
    with x w show ?thesis by (simp add: unpack_at_def nth_append)
  next
    assume x: "x AND 3 = 2"
    with assms w have "length ys = 3" by simp
    then obtain b c d where "ys = [b, c, d]" by (auto simp: numeral_3_eq_3 length_Suc_conv)
    with x w show ?thesis by (simp add: unpack_at_def nth_append)
  next
    assume x: "x AND 3 = 3"
    with assms w have n: "4 < length ys" by simp
    obtain b c d e zs where "ys = b # c # d # e # zs"
      using n by (cases ys; cases "tl ys"; cases "tl (tl ys)"; cases "tl (tl (tl ys))") auto
    with x w show ?thesis by (simp add: unpack_at_def nth_append)
  qed (simp add: unpack_at_def w nth_append)
qed

lemma PB_BIND_field:
  assumes ok: "list_all (bind_entry_ok width) es" and i: "i < length es"
  shows "f_type (PB_BIND width cb es) i = fe_type (es ! i)"
    and "f_values (PB_BIND width cb es) i = entry_values (es ! i)"
proof -
  let ?d = "PB_BIND width cb es" and ?pre = "concat (map (words width) (take i es))" and ?w = "words width (es ! i)"
  have e: "bind_entry_ok width (es ! i)" using ok i by (simp add: list_all_length)
  have fi: "field_info ?d = ?pre @ ?w @ concat (map (words width) (drop (Suc i) es)) @ [0]"
    using concat_at [OF i, of "words width"] by simp
  have idx: "fi_index ?d i = length ?pre" using fi_index_PB_BIND [OF ok, of i] i by simp
  have "f_word ?d i = hd ?w"
    unfolding f_word_def idx fi using words_nonempty [OF e] by (cases ?w) simp_all
  then show "f_type ?d i = fe_type (es ! i)"
    using words_entry(3) [OF e] by (simp add: f_type_def)
  have "unpack_at (field_info ?d) (length ?pre) = unpack_at ?w 0"
    unfolding fi by (rule unpack_at_append) (use words_entry(1,2) [OF e] in simp)
  with words_entry(4) [OF e] show "f_values ?d i = entry_values (es ! i)"
    by (simp add: f_values_def idx del: PB_BIND_sel)
qed

lemma is_submsg_fe_type:
  "PB_LTYPE_IS_SUBMSG (fe_type e) \<longleftrightarrow> fe_ltype e = LT_MESSAGE \<or> fe_ltype e = LT_MSG_W_CB"
  by (cases "fe_ltype e") (simp_all add: PB_LTYPE_IS_SUBMSG_def fe_type_parts PB_LTYPE_MAP_def)

lemma sub_index_PB_BIND:
  assumes ok: "list_all (bind_entry_ok width) es"
  shows "i \<le> length es \<Longrightarrow> sub_index (PB_BIND width cb es) i = length (concat (map PB_GEN_SUBMSG_INFO (take i es)))"
proof (induction i)
  case 0
  then show ?case by simp
next
  case (Suc i)
  then have i: "i < length es" by simp
  have "length (PB_GEN_SUBMSG_INFO (es ! i)) = of_bool (PB_LTYPE_IS_SUBMSG (fe_type (es ! i)))"
    by (simp add: is_submsg_fe_type PB_GEN_SUBMSG_INFO_def)
  with Suc show ?case
    unfolding concat_take_Suc [OF i] using PB_BIND_field(1) [OF ok i, of cb] by simp
qed

lemma PB_BIND_submsg:
  assumes ok: "list_all (bind_entry_ok width) es" and i: "i < length es" and sub: "PB_LTYPE_IS_SUBMSG (fe_type (es ! i))"
  shows "f_submsg (PB_BIND width cb es) i = fe_submsg (es ! i)"
proof -
  let ?pre = "concat (map PB_GEN_SUBMSG_INFO (take i es))"
  have "PB_GEN_SUBMSG_INFO (es ! i) = [fe_submsg (es ! i)]"
    using sub by (simp add: is_submsg_fe_type PB_GEN_SUBMSG_INFO_def)
  then have "submsg_info (PB_BIND width cb es) ! length ?pre = fe_submsg (es ! i)"
    using concat_at [OF i, of PB_GEN_SUBMSG_INFO] by (simp add: nth_append)
  then show ?thesis
    using sub_index_PB_BIND [OF ok, of i] i PB_BIND_field(1) [OF ok i] sub by (simp add: f_submsg_def)
qed

section \<open>Descriptors of field lists\<close>

lemma entry_tag:
  assumes "bind_entry_ok width e"
  shows "ucast (ucast (fe_tag e) :: u16) = fe_tag e"
proof -
  have "k < 16" if "bit (fe_tag e) k" for k
    using assms that
    by (auto simp: bind_entry_ok_def PB_FIELDINFO_ASSERT_def PB_FIELDINFO_ASSERT_1_def PB_FIELDINFO_ASSERT_2_def
        PB_FIELDINFO_ASSERT_4_def PB_FIELDINFO_ASSERT_8_def dest: fits_bit split: if_splits)
  then show ?thesis by (intro bit_word_eqI) (auto simp: bit_simps)
qed

lemma length_words_le: "list_all (bind_entry_ok width) es \<Longrightarrow> length (concat (map (words width) es)) \<le> 8 * length es"
  using words_entry(1) by (induction es) (fastforce simp: bind_entry_ok_def)+

lemma length_subs_le: "length (concat (map PB_GEN_SUBMSG_INFO es)) \<le> length es"
  by (induction es) (auto simp: PB_GEN_SUBMSG_INFO_def)

lemma largest_tag_PB_BIND:
  "largest_tag (PB_BIND width cb es) = (if es = [] then 0 else ucast (fe_tag (last es)))"
  by (cases es rule: rev_cases) (simp_all add: PB_BIND_def)

lemma f_tag_PB_BIND:
  assumes "list_all (bind_entry_ok width) es" "i < length es"
  shows "f_tag (PB_BIND width cb es) i = fe_tag (es ! i)"
proof -
  have "bind_entry_ok width (es ! i)" using assms by (simp add: list_all_length)
  from entry_tag [OF this] PB_BIND_field(2) [OF assms] show ?thesis
    by (simp add: f_tag_def entry_values_def)
qed

lemma desc_arrays_PB_BIND:
  assumes "bind_ok width es"
  shows "desc_arrays (PB_BIND width cb es)"
proof -
  let ?d = "PB_BIND width cb es"
  have ok: "list_all (bind_entry_ok width) es" and n: "length es < 8000" using assms by (simp_all add: bind_ok_def)
  have fi: "fi_index ?d (length es) = length (concat (map (words width) es))"
    using fi_index_PB_BIND [OF ok, of "length es" cb] by simp
  have sub: "sub_index ?d (length es) = length (concat (map PB_GEN_SUBMSG_INFO es))"
    using sub_index_PB_BIND [OF ok, of "length es" cb] by simp
  have "PB_ATYPE (f_type ?d i) \<noteq> PB_ATYPE_POINTER" if "i < length es" for i
    using assms that PB_BIND_field(1) [OF ok that, of cb]
    by (cases "fe_atype (es ! i)") (auto simp: bind_ok_def list_all_length fe_type_parts atype_code_def)
  then show ?thesis
    unfolding desc_arrays_def n_fields_PB_BIND [OF n]
    using n length_words_le [OF ok] length_subs_le [of es] fi sub by simp
qed

lemma no_extensions_PB_BIND:
  assumes "bind_ok width es"
  shows "no_extensions (PB_BIND width cb es)"
proof -
  have ok: "list_all (bind_entry_ok width) es" and n: "length es < 8000" using assms by (simp_all add: bind_ok_def)
  have "PB_LTYPE (f_type (PB_BIND width cb es) i) \<noteq> PB_LTYPE_EXTENSION" if "i < length es" for i
    using assms that PB_BIND_field(1) [OF ok that, of cb]
    by (cases "fe_ltype (es ! i)") (auto simp: bind_ok_def list_all_length fe_type_parts PB_LTYPE_MAP_def)
  moreover have "PB_LTYPE (f_type (PB_BIND width cb []) 0) \<noteq> PB_LTYPE_EXTENSION"
    by (simp add: f_type_def f_word_def PB_LTYPE_def)
  ultimately show ?thesis
    unfolding no_extensions_def n_fields_PB_BIND [OF n] by (cases es) (auto simp: less_Suc_eq_0_disj)
qed

lemma tags_sorted_PB_BIND:
  assumes "bind_ok width es"
  shows "tags_sorted (PB_BIND width cb es)"
proof -
  let ?d = "PB_BIND width cb es"
  have ok: "list_all (bind_entry_ok width) es" and n: "length es < 8000"
    and sorted: "sorted_wrt (<) (map fe_tag es)" "\<forall>e \<in> set es. 0 < fe_tag e"
    using assms by (auto simp: bind_ok_def)
  note tag = f_tag_PB_BIND [OF ok, of _ cb]
  have less: "fe_tag (es ! j) < fe_tag (es ! i)" if "j < i" "i < length es" for i j
    using sorted_wrt_nth_less [OF sorted(1), of j i] that by simp
  have last: "fe_tag (es ! i) \<le> fe_tag (last es)" if "i < length es" for i
  proof -
    have "last es = es ! (length es - 1)" using that by (intro last_conv_nth) auto
    then show ?thesis
      using less [of i "length es - 1"] that by (cases "i = length es - 1") (auto intro: less_imp_le)
  qed
  have "ucast (largest_tag ?d) = fe_tag (last es)" if "es \<noteq> []"
    using that ok entry_tag [of width "last es"] by (simp add: largest_tag_PB_BIND list_all_iff)
  then show ?thesis
    unfolding tags_sorted_def n_fields_PB_BIND [OF n]
    using tag less last sorted(2) by (auto simp: largest_tag_PB_BIND)
qed

text \<open>The iterator visits the entries of the field list.\<close>

lemma iter_at_PB_BIND:
  assumes "bind_ok width es" "i < length es"
  shows "it_type (iter_at (PB_BIND width cb es) base i) = fe_type (es ! i)"
    "it_tag (iter_at (PB_BIND width cb es) base i) = ucast (fe_tag (es ! i))"
    "it_data_size (iter_at (PB_BIND width cb es) base i) = ucast (fe_data_size (es ! i))"
    "it_array_size (iter_at (PB_BIND width cb es) base i) = ucast (fe_array_size (es ! i))"
    "it_pData (iter_at (PB_BIND width cb es) base i) = base + unat (fe_data_offset (es ! i))"
    "it_pSize (iter_at (PB_BIND width cb es) base i) =
      field_pSize (fe_type (es ! i)) (base + unat (fe_data_offset (es ! i))) (ucast (fe_size_offset (es ! i)))"
  using assms PB_BIND_field [of width es i cb]
  by (simp_all add: bind_ok_def entry_values_def) (simp add: iter_at_def Let_def)

end
