(* ===== verification/Nanopb_Reads.thy ===== *)
theory Nanopb_Reads
  imports Nanopb_Iter
begin

text \<open>
  What any read of the input can do, whatever the bytes: \<open>reads k m\<close> says that \<open>m\<close> only advances
  the current stream, stays within it, may leave an error message, and has consumed at least \<open>k\<close>
  bytes when it succeeds.
\<close>

section \<open>Readers\<close>

definition read_to :: "nat \<Rightarrow> string option \<Rightarrow> 'w pb \<Rightarrow> 'w pb" where
  "read_to n e s = s\<lparr>pb_in := (consume n (pb_in s))\<lparr>is_errmsg := e\<rparr>\<rparr>"

definition reads :: "('a \<Rightarrow> bool) \<Rightarrow> nat \<Rightarrow> ('w pb, 'a) st \<Rightarrow> bool" where
  "reads P k m \<longleftrightarrow> (\<forall>s. in_ok (pb_in s) \<longrightarrow>
     (\<exists>a n e. run_state m s = (a, read_to n e s) \<and> n \<le> unat (bytes_left (pb_in s)) \<and> (P a \<longrightarrow> k \<le> n)))"

text \<open>Success of a function with an out parameter and of one without.\<close>

definition got :: "'a option \<Rightarrow> bool" where
  "got r \<longleftrightarrow> r \<noteq> None"

definition yes :: "bool \<Rightarrow> bool" where
  "yes b \<longleftrightarrow> b"

lemma got_simps [simp]: "got (Some v)" "\<not> got None" "yes True" "\<not> yes False"
  by (simp_all add: got_def yes_def)

lemma pb_in_read_to [simp]: "pb_in (read_to n e s) = (consume n (pb_in s))\<lparr>is_errmsg := e\<rparr>"
  by (simp add: read_to_def)

lemma consume_errmsg [simp]: "consume n (i\<lparr>is_errmsg := e\<rparr>) = (consume n i)\<lparr>is_errmsg := e\<rparr>"
  by (simp add: consume_def)

lemma read_to_read_to [simp]: "read_to m e (read_to n e' s) = read_to (n + m) e s"
  by (simp add: read_to_def)

lemma in_ok_errmsg [simp]: "in_ok (i\<lparr>is_errmsg := e\<rparr>) = in_ok i"
  by (simp add: in_ok_def)

lemma in_ok_read_to: "in_ok (pb_in s) \<Longrightarrow> n \<le> unat (bytes_left (pb_in s)) \<Longrightarrow> in_ok (pb_in (read_to n e s))"
  by (simp add: in_ok_consume)

lemma eat_read_to: "eat n s = read_to n (is_errmsg (pb_in s)) s"
  by (simp add: eat_def read_to_def consume_def)

lemma fail_in_read_to: "fail_in msg s = read_to 0 (keep_first (is_errmsg (pb_in s)) msg) s"
  by (simp add: fail_in_def read_to_def)

lemma read_to_0: "read_to 0 (is_errmsg (pb_in s)) s = s"
  by (simp add: read_to_def)

lemma readsD:
  assumes "reads P k m" "in_ok (pb_in s)"
  obtains a n e where "run_state m s = (a, read_to n e s)" "n \<le> unat (bytes_left (pb_in s))" "P a \<Longrightarrow> k \<le> n"
  using assms unfolding reads_def by blast

lemma readsI:
  assumes "\<And>s. in_ok (pb_in s) \<Longrightarrow>
    \<exists>a n e. run_state m s = (a, read_to n e s) \<and> n \<le> unat (bytes_left (pb_in s)) \<and> (P a \<longrightarrow> k \<le> n)"
  shows "reads P k m"
  using assms unfolding reads_def by blast

named_theorems reads_intros "readers, one rule per construct or operation"

lemma reads_weaken: "reads P k m \<Longrightarrow> (\<And>a. Q a \<Longrightarrow> P a) \<Longrightarrow> j \<le> k \<Longrightarrow> reads Q j m"
  unfolding reads_def by (meson order_trans)

lemma reads_return [reads_intros]: "(P a \<Longrightarrow> k = 0) \<Longrightarrow> reads P k (return a)"
  by (rule readsI, rule exI [of _ a], rule exI [of _ 0]) (metis run_state_return read_to_0 le0)

lemma reads_in_error_v [reads_intros]: "reads got k (in_error_v msg)"
  by (rule readsI, rule exI [of _ None], rule exI [of _ 0]) (metis run_in_error_v fail_in_read_to le0 got_simps(2))

lemma reads_in_error [reads_intros]: "reads yes k (in_error msg)"
  by (rule readsI, rule exI [of _ False], rule exI [of _ 0]) (metis run_in_error fail_in_read_to le0 got_simps(4))

lemma reads_bind:
  fixes m :: "('w pb, 'a) st"
  assumes "reads P k m" "\<And>a. P a \<Longrightarrow> reads Q j (f a)" "\<And>a. \<not> P a \<Longrightarrow> reads Q (k + j) (f a)"
  shows "reads Q (k + j) (State_Monad.bind m f)"
proof (rule readsI)
  fix s :: "'w pb"
  assume ok: "in_ok (pb_in s)"
  obtain a n e where m: "run_state m s = (a, read_to n e s)" "n \<le> unat (bytes_left (pb_in s))" "P a \<Longrightarrow> k \<le> n"
    using readsD [OF assms(1) ok] by blast
  have ok': "in_ok (pb_in (read_to n e s))" by (rule in_ok_read_to [OF ok m(2)])
  have left: "unat (bytes_left (pb_in (read_to n e s))) = unat (bytes_left (pb_in s)) - n"
    using unat_bytes_left_consume [OF m(2)] by simp
  show "\<exists>b n e. run_state (State_Monad.bind m f) s = (b, read_to n e s) \<and>
      n \<le> unat (bytes_left (pb_in s)) \<and> (Q b \<longrightarrow> k + j \<le> n)"
  proof (cases "P a")
    case True
    with readsD [OF assms(2) ok'] obtain b n' e' where f: "run_state (f a) (read_to n e s) =
        (b, read_to n' e' (read_to n e s))" "n' \<le> unat (bytes_left (pb_in (read_to n e s)))" "Q b \<Longrightarrow> j \<le> n'"
      by blast
    with m left True show ?thesis by (auto intro!: exI [of _ "n + n'"])
  next
    case False
    with readsD [OF assms(3) ok'] obtain b n' e' where f: "run_state (f a) (read_to n e s) =
        (b, read_to n' e' (read_to n e s))" "n' \<le> unat (bytes_left (pb_in (read_to n e s)))" "Q b \<Longrightarrow> k + j \<le> n'"
      by blast
    with m left show ?thesis by (auto intro!: exI [of _ "n + n'"])
  qed
qed

lemma reads_bind1:
  "reads P k m \<Longrightarrow> (\<And>a. P a \<Longrightarrow> reads Q 0 (f a)) \<Longrightarrow> (\<And>a. \<not> P a \<Longrightarrow> reads Q k (f a)) \<Longrightarrow>
   reads Q k (State_Monad.bind m f)"
  using reads_bind [of P k m Q 0 f] by simp

lemma reads_gets_return: "\<not> Q (a, b) \<or> k = 0 \<Longrightarrow> (\<And>b'. Q (a, b') \<longleftrightarrow> Q (a, b)) \<Longrightarrow>
  reads Q k (do { x \<leftarrow> gets f; return (a, g x) })"
  by (rule readsI) (simp, metis read_to_0 le0)

lemma reads_map_value:
  assumes "reads got k m" "\<And>v. reads got j (f v)"
  shows "reads got (k + j) (map_value m f)"
  unfolding map_value_def
  by (rule reads_bind [OF assms(1)]) (use assms(2) in \<open>auto simp: got_def intro!: reads_return\<close>)

lemma reads_with_value:
  assumes "reads got k m" "\<And>v. reads yes j (f v)"
  shows "reads yes (k + j) (with_value m f)"
  unfolding with_value_def
  by (rule reads_bind [OF assms(1)]) (use assms(2) in \<open>auto simp: got_def intro!: reads_return\<close>)

text \<open>The first read alone already consumes enough.\<close>

lemma reads_map_value1 [reads_intros]:
  "reads got k m \<Longrightarrow> (\<And>v. reads got 0 (f v)) \<Longrightarrow> reads got k (map_value m f)"
  using reads_map_value [of k m 0 f] by simp

lemma reads_with_value1 [reads_intros]:
  "reads got k m \<Longrightarrow> (\<And>v. reads yes 0 (f v)) \<Longrightarrow> reads yes k (with_value m f)"
  using reads_with_value [of k m 0 f] by simp

lemma reads_map_value_error: "reads got k (map_value (in_error_v msg) f)"
proof -
  have "map_value (in_error_v msg) f = in_error_v msg"
    by (rule state.expand) (auto simp: fun_eq_iff map_value_def in_error_v_def split: prod.splits)
  then show ?thesis by (simp add: reads_in_error_v)
qed

lemma reads_if [reads_intros]:
  "(c \<Longrightarrow> reads P k m) \<Longrightarrow> (\<not> c \<Longrightarrow> reads P k n) \<Longrightarrow> reads P k (if c then m else n)"
  by simp

lemma reads_let [reads_intros]: "(\<And>x. x = t \<Longrightarrow> reads P k (f x)) \<Longrightarrow> reads P k (let x = t in f x)"
  by simp

section \<open>The operations that only read\<close>

lemma reads_pb_read: "k \<le> unat n \<Longrightarrow> reads got k (pb_read n)"
proof (rule readsI)
  fix s :: "'a pb"
  assume k: "k \<le> unat n" and ok: "in_ok (pb_in s)"
  show "\<exists>a n' e. run_state (pb_read n) s = (a, read_to n' e s) \<and> n' \<le> unat (bytes_left (pb_in s)) \<and>
      (got a \<longrightarrow> k \<le> n')"
    using run_pb_read [OF ok, of n] k eat_read_to [of "unat n" s] fail_in_read_to [of "''end-of-stream''" s]
    by (cases "n \<le> bytes_left (pb_in s)") (auto simp: word_le_nat_alt)
qed

lemma reads_pb_readbyte [reads_intros]: "reads got 1 pb_readbyte"
proof (rule readsI)
  fix s :: "'a pb"
  assume ok: "in_ok (pb_in s)"
  show "\<exists>a n e. run_state pb_readbyte s = (a, read_to n e s) \<and> n \<le> unat (bytes_left (pb_in s)) \<and>
      (got a \<longrightarrow> 1 \<le> n)"
    using run_pb_readbyte [OF ok] length_avail [OF ok] eat_read_to [of 1 s] fail_in_read_to [of "''end-of-stream''" s]
    by (cases "avail (pb_in s)") auto
qed

lemma reads_varint32_loop:
  "0 < k \<Longrightarrow> 64 \<le> bp + 7 * (k - 1) \<Longrightarrow> reads got 1 (varint32_loop k bp r)"
proof (induction k arbitrary: bp r)
  case 0
  then show ?case by simp
next
  case (Suc k)
  show ?case
  proof (cases "64 \<le> bp")
    case True
    then show ?thesis unfolding varint32_loop.simps
      by - (rule reads_map_value1, rule reads_pb_readbyte, simp add: Let_def reads_map_value_error)
  next
    case False
    with Suc.prems have "reads got 0 (varint32_loop k (bp + 7) r' :: ('a pb, u32 option) st)" for r'
      by - (rule reads_weaken [OF Suc.IH], auto)
    then show ?thesis unfolding varint32_loop.simps
      by (intro reads_intros) auto
  qed
qed

lemma reads_varint_loop:
  "0 < k \<Longrightarrow> 63 \<le> bp + 7 * (k - 1) \<Longrightarrow> reads got 1 (varint_loop k bp r)"
proof (induction k arbitrary: bp r)
  case 0
  then show ?case by simp
next
  case (Suc k)
  show ?case
  proof (cases "k = 0")
    case True
    have top: "b AND 0xFE = 0 \<Longrightarrow> b AND 0x80 = 0" for b :: u8
    proof -
      have "b AND 0x80 = (b AND 0xFE) AND 0x80" by (simp add: and.assoc)
      then show "b AND 0xFE = 0 \<Longrightarrow> b AND 0x80 = 0" by simp
    qed
    have step: "reads got 0 (if 63 \<le> bp \<and> b AND 0xFE \<noteq> 0 then in_error_v ''varint overflow''
        else let r' = r OR push_bit bp (ucast (b AND 0x7F))
             in if b AND 0x80 \<noteq> 0 then varint_loop k (bp + 7) r' else return (Some r') :: ('a pb, u64 option) st)"
      for b :: u8
      using top [of b] Suc.prems True by (simp add: Let_def reads_return reads_in_error_v)
    show ?thesis unfolding varint_loop.simps
      by (rule reads_map_value1 [OF reads_pb_readbyte step])
  next
    case False
    with Suc.prems have "reads got 0 (varint_loop k (bp + 7) r' :: ('a pb, u64 option) st)" for r'
      by - (rule reads_weaken [OF Suc.IH], auto)
    then show ?thesis unfolding varint_loop.simps
      by (intro reads_intros) auto
  qed
qed

lemma reads_pb_decode_varint [reads_intros]: "reads got 1 pb_decode_varint"
  unfolding pb_decode_varint_def by (rule reads_varint_loop) simp_all

lemma reads_pb_decode_svarint [reads_intros]: "reads got 1 pb_decode_svarint"
  unfolding pb_decode_svarint_def by (intro reads_intros) simp_all

text \<open>The end of the input is not an error here; the flag says so.\<close>

lemma reads_varint32_eof: "reads (\<lambda>(r, eof). got r) 1 pb_decode_varint32_eof"
proof -
  have loop: "reads (\<lambda>(r, eof). got r) 0
      (do { v \<leftarrow> varint32_loop 10 7 r; return (v, False) } :: ('a pb, u32 option \<times> bool) st)" for r
    by (rule reads_bind1 [OF reads_weaken [OF reads_varint32_loop, of _ _ got 0]])
      (auto intro!: reads_return)
  show ?thesis
    unfolding pb_decode_varint32_eof_def
    by (rule reads_bind1 [OF reads_pb_readbyte])
      (auto intro!: reads_return loop reads_gets_return split: option.splits)
qed

lemma reads_pb_decode_varint32 [reads_intros]: "reads got 1 pb_decode_varint32"
  unfolding pb_decode_varint32_def
  by (rule reads_bind1 [OF reads_varint32_eof]) (auto intro!: reads_return)

lemma reads_pb_decode_tag: "reads (\<lambda>(r, eof). got r) 1 pb_decode_tag"
  unfolding pb_decode_tag_def
  by (rule reads_bind1 [OF reads_varint32_eof]) (auto intro!: reads_return split: option.splits)

lemma reads_pb_decode_bool [reads_intros]: "reads got 1 pb_decode_bool"
  unfolding pb_decode_bool_def by (intro reads_intros) simp_all

lemma reads_pb_decode_fixed32 [reads_intros]: "reads got 1 pb_decode_fixed32"
  unfolding pb_decode_fixed32_def by (intro reads_intros reads_pb_read) simp_all

lemma reads_pb_decode_fixed64 [reads_intros]: "reads got 1 pb_decode_fixed64"
  unfolding pb_decode_fixed64_def by (intro reads_intros reads_pb_read) simp_all

lemma reads_pb_skip [reads_intros]: "reads yes 0 (pb_skip n)"
  unfolding pb_skip_def by (intro reads_intros reads_pb_read) simp_all

lemma reads_pb_skip_string [reads_intros]: "reads yes 0 pb_skip_string"
  unfolding pb_skip_string_def
  by (intro reads_with_value1 reads_pb_skip reads_weaken [OF reads_pb_decode_varint32]) simp_all

text \<open>The loop over the bytes of a varint runs as often as there are bytes.\<close>

lemma run_skip_varint:
  assumes "in_ok (pb_in s)" "unat (bytes_left (pb_in s)) < k"
  shows "\<exists>a n e. run_state (skip_varint_loop k) s = (a, read_to n e s) \<and> n \<le> unat (bytes_left (pb_in s))"
  using assms
proof (induction k arbitrary: s)
  case 0
  then show ?case by simp
next
  case (Suc k)
  obtain r n e where m: "run_state (pb_read 1) s = (r, read_to n e s)" "n \<le> unat (bytes_left (pb_in s))"
    "got r \<Longrightarrow> 1 \<le> n"
    using readsD [OF reads_pb_read [of 1 1] Suc.prems(1)] by auto
  show ?case
  proof (cases r)
    case None
    with m show ?thesis by (auto simp: run_with_value)
  next
    case (Some bs)
    let ?t = "read_to n e s"
    have t: "in_ok (pb_in ?t)" by (rule in_ok_read_to [OF Suc.prems(1) m(2)])
    have "unat (bytes_left (pb_in ?t)) = unat (bytes_left (pb_in s)) - n"
      using unat_bytes_left_consume [OF m(2)] by simp
    moreover from this m(3) Some Suc.prems(2) have "unat (bytes_left (pb_in ?t)) < k" using m(2) by simp
    ultimately obtain a n' e' where a: "run_state (skip_varint_loop k) ?t = (a, read_to n' e' ?t)"
      "n' \<le> unat (bytes_left (pb_in s)) - n"
      using Suc.IH [OF t] by metis
    have "run_state (skip_varint_loop (Suc k)) s =
        (if hd bs AND 0x80 \<noteq> 0 then run_state (skip_varint_loop k) ?t else (True, ?t))"
      using m(1) Some by (simp add: run_with_value)
    then show ?thesis
    proof (cases "hd bs AND 0x80 = 0")
      case True
      with \<open>run_state (skip_varint_loop (Suc k)) s = _\<close> m(2) show ?thesis by auto
    next
      case False
      with \<open>run_state (skip_varint_loop (Suc k)) s = _\<close> a have
        "run_state (skip_varint_loop (Suc k)) s = (a, read_to (n + n') e' s)" "n + n' \<le> unat (bytes_left (pb_in s))"
        using m(2) by (simp_all del: skip_varint_loop.simps)
      then show ?thesis by blast
    qed
  qed
qed

lemma reads_pb_skip_varint [reads_intros]: "reads yes 0 pb_skip_varint"
proof (rule readsI)
  fix s :: "'a pb"
  assume "in_ok (pb_in s)"
  from run_skip_varint [OF this, of "Suc (unat (bytes_left (pb_in s)))"]
  show "\<exists>a n e. run_state pb_skip_varint s = (a, read_to n e s) \<and>
      n \<le> unat (bytes_left (pb_in s)) \<and> (yes a \<longrightarrow> 0 \<le> n)"
    by (auto simp: pb_skip_varint_def simp del: skip_varint_loop.simps)
qed

lemma reads_pb_skip_field [reads_intros]: "reads yes 0 (pb_skip_field wt)"
  unfolding pb_skip_field_def by (intro reads_intros)

lemma reads_raw_varint_loop: "reads got 0 (raw_varint_loop room)"
  by (induction room) (auto intro!: reads_intros reads_pb_read)

lemma reads_read_raw_value [reads_intros]: "reads got 0 (read_raw_value wt room)"
  unfolding read_raw_value_def by (intro reads_intros reads_raw_varint_loop reads_pb_read) simp_all

end
