(* ===== verification/Nanopb_Safe.thy ===== *)
theory Nanopb_Safe
  imports Nanopb_Reads
begin

text \<open>
  Safety of the decoder: the steps it makes are described by \<open>dstep\<close> (the input only advances and
  stays in its buffer, memory changes only within the region of the message, no access leaves its
  buffer, no loop runs out of its bound), and a computation that only makes such steps is \<open>safe\<close>.
  \<open>dec\<close> adds what the packed arrays need: the fixed-size count is left alone and a success has
  consumed input.
\<close>

section \<open>Steps\<close>

abbreviation left :: "pb_istream \<Rightarrow> nat" where
  "left i \<equiv> unat (bytes_left i)"

text \<open>\<open>E\<close> is the position in the buffer behind which nothing is read.\<close>

definition in_step :: "nat \<Rightarrow> pb_istream \<Rightarrow> pb_istream \<Rightarrow> bool" where
  "in_step E i j \<longleftrightarrow> is_buf j = is_buf i \<and> is_state i \<le> is_state j \<and> left j \<le> left i
     \<and> is_state j + left j \<le> E"

definition dstep :: "bool \<Rightarrow> nat \<Rightarrow> nat \<Rightarrow> nat \<Rightarrow> 'w pb \<Rightarrow> 'w pb \<Rightarrow> bool" where
  "dstep fx lo hi E s t \<longleftrightarrow> in_step E (pb_in s) (pb_in t) \<and> (pb_ub t \<longrightarrow> pb_ub s)
     \<and> length (pb_mem t) = length (pb_mem s)
     \<and> (\<forall>k < length (pb_mem s). k < lo \<or> hi \<le> k \<longrightarrow> pb_mem t ! k = pb_mem s ! k)
     \<and> pb_out t = pb_out s \<and> (fx \<longrightarrow> pb_fixed_count t = pb_fixed_count s)"

definition endpos :: "'w pb \<Rightarrow> nat" where
  "endpos s = is_state (pb_in s) + left (pb_in s)"

definition ready :: "nat \<Rightarrow> nat \<Rightarrow> 'w pb \<Rightarrow> bool" where
  "ready lo hi s \<longleftrightarrow> in_ok (pb_in s) \<and> 0 < lo \<and> hi \<le> length (pb_mem s)"

definition dec :: "bool \<Rightarrow> nat \<Rightarrow> nat \<Rightarrow> ('a \<Rightarrow> bool) \<Rightarrow> nat \<Rightarrow> ('w pb, 'a) st \<Rightarrow> bool" where
  "dec fx lo hi P k m \<longleftrightarrow> (\<forall>s. ready lo hi s \<longrightarrow>
     wp m (\<lambda>a t. dstep fx lo hi (endpos s) s t \<and> (P a \<longrightarrow> left (pb_in t) + k \<le> left (pb_in s))) s)"

abbreviation safe :: "nat \<Rightarrow> nat \<Rightarrow> ('w pb, 'a) st \<Rightarrow> bool" where
  "safe lo hi m \<equiv> dec False lo hi (\<lambda>_. False) 0 m"

named_theorems decs "steps of the decoder, one rule per construct or operation"

lemma in_step_refl: "in_ok i \<Longrightarrow> in_step (is_state i + left i) i i"
  by (simp add: in_step_def)

lemma in_step_trans:
  "in_step E i j \<Longrightarrow> in_step F j k \<Longrightarrow> F \<le> E \<Longrightarrow> in_step E i k"
  by (auto simp: in_step_def)

lemma dstep_refl: "ready lo hi s \<Longrightarrow> dstep fx lo hi (endpos s) s s"
  by (simp add: dstep_def ready_def endpos_def in_step_refl)

lemma dstep_trans:
  "dstep fx lo hi E s t \<Longrightarrow> dstep fx lo hi (endpos t) t u \<Longrightarrow> dstep fx lo hi E s u"
  by (auto simp: dstep_def endpos_def in_step_def)

lemma ready_dstep:
  "ready lo hi s \<Longrightarrow> dstep fx lo hi E s t \<Longrightarrow> E \<le> endpos s \<Longrightarrow> ready lo hi t"
  by (auto simp: ready_def dstep_def in_step_def in_ok_def endpos_def)

lemma decD:
  "dec fx lo hi P k m \<Longrightarrow> ready lo hi s \<Longrightarrow>
   wp m (\<lambda>a t. dstep fx lo hi (endpos s) s t \<and> (P a \<longrightarrow> left (pb_in t) + k \<le> left (pb_in s))) s"
  by (simp add: dec_def)

lemma decI:
  "(\<And>s. ready lo hi s \<Longrightarrow> wp m (\<lambda>a t. dstep fx lo hi (endpos s) s t \<and>
     (P a \<longrightarrow> left (pb_in t) + k \<le> left (pb_in s))) s) \<Longrightarrow> dec fx lo hi P k m"
  by (simp add: dec_def)

lemma dec_weaken:
  fixes m :: "('w pb, 'a) st"
  assumes "dec gx lo' hi' P k m" "lo \<le> lo'" "hi' \<le> hi" "\<And>a. Q a \<Longrightarrow> P a" "j \<le> k" "fx \<longrightarrow> gx"
  shows "dec fx lo hi Q j m"
proof (rule decI)
  fix s :: "'w pb"
  assume r: "ready lo hi s"
  then have "ready lo' hi' s" using assms(2,3) by (auto simp: ready_def)
  from decD [OF assms(1) this] show "wp m (\<lambda>a t. dstep fx lo hi (endpos s) s t \<and>
     (Q a \<longrightarrow> left (pb_in t) + j \<le> left (pb_in s))) s"
    by (rule wp_mono) (use assms(2-) in \<open>fastforce simp: dstep_def\<close>)
qed

lemma dec_safe: "dec fx lo hi P k m \<Longrightarrow> safe lo hi m"
  by (rule dec_weaken) auto

lemma dec_bind:
  fixes m :: "('w pb, 'a) st"
  assumes "dec fx lo hi P k m" "\<And>a. P a \<Longrightarrow> dec fx lo hi Q j (f a)"
    "\<And>a. \<not> P a \<Longrightarrow> dec fx lo hi Q (k + j) (f a)"
  shows "dec fx lo hi Q (k + j) (State_Monad.bind m f)"
proof (rule decI, rule wp_bind)
  fix s :: "'w pb"
  assume r: "ready lo hi s"
  show "wp m (\<lambda>a. wp (f a) (\<lambda>b t. dstep fx lo hi (endpos s) s t \<and>
      (Q b \<longrightarrow> left (pb_in t) + (k + j) \<le> left (pb_in s)))) s"
  proof (rule wp_mono [OF decD [OF assms(1) r]], elim conjE)
    fix a t assume st: "dstep fx lo hi (endpos s) s t" and P: "P a \<longrightarrow> left (pb_in t) + k \<le> left (pb_in s)"
    have r': "ready lo hi t" by (rule ready_dstep [OF r st]) simp
    have le: "left (pb_in t) \<le> left (pb_in s)" using st by (simp add: dstep_def in_step_def)
    show "wp (f a) (\<lambda>b t. dstep fx lo hi (endpos s) s t \<and>
        (Q b \<longrightarrow> left (pb_in t) + (k + j) \<le> left (pb_in s))) t"
    proof (cases "P a")
      case True
      show ?thesis
        by (rule wp_mono [OF decD [OF assms(2) [OF True] r']]) (use st P True in \<open>auto intro: dstep_trans\<close>)
    next
      case False
      show ?thesis
        by (rule wp_mono [OF decD [OF assms(3) [OF False] r']]) (use st le in \<open>auto intro: dstep_trans\<close>)
    qed
  qed
qed

lemma dec_then [decs]:
  "dec fx lo hi P k m \<Longrightarrow> (\<And>a. dec fx lo hi Q j (f a)) \<Longrightarrow> dec fx lo hi Q j (State_Monad.bind m f)"
  using dec_bind [of fx lo hi "\<lambda>_. False" 0 m Q j f] by (simp add: dec_weaken [of fx lo hi P k])

lemma safe_bind:
  "safe lo hi m \<Longrightarrow> (\<And>a. safe lo hi (f a)) \<Longrightarrow> safe lo hi (State_Monad.bind m f)"
  by (rule dec_then)

lemma dec_return [decs]: "(P a \<Longrightarrow> k = 0) \<Longrightarrow> dec fx lo hi P k (return a)"
  by (rule decI, rule wp_return) (auto intro: dstep_refl)

lemma dec_if [decs]:
  "(c \<Longrightarrow> dec fx lo hi P k m) \<Longrightarrow> (\<not> c \<Longrightarrow> dec fx lo hi P k n) \<Longrightarrow> dec fx lo hi P k (if c then m else n)"
  by simp

lemma dec_let [decs]: "(\<And>x. x = t \<Longrightarrow> dec fx lo hi P k (f x)) \<Longrightarrow> dec fx lo hi P k (let x = t in f x)"
  by simp

lemma dec_case_option [decs]:
  "(x = None \<Longrightarrow> dec fx lo hi P k m) \<Longrightarrow> (\<And>a. x = Some a \<Longrightarrow> dec fx lo hi P k (f a)) \<Longrightarrow>
   dec fx lo hi P k (case x of None \<Rightarrow> m | Some a \<Rightarrow> f a)"
  by (cases x) auto

lemma dec_case_prod [decs]:
  "(\<And>a b. x = (a, b) \<Longrightarrow> dec fx lo hi P k (f a b)) \<Longrightarrow> dec fx lo hi P k (case x of (a, b) \<Rightarrow> f a b)"
  by (cases x) auto

lemma dec_gets [decs]: "dec fx lo hi (\<lambda>_. False) 0 (gets f)"
  by (rule decI, rule wp_gets) (auto intro: dstep_refl)

lemma dec_reads:
  fixes m :: "('w pb, 'a) st"
  assumes "reads P k m"
  shows "dec fx lo hi P k m"
proof (rule decI)
  fix s :: "'w pb"
  assume r: "ready lo hi s"
  then have ok: "in_ok (pb_in s)" by (simp add: ready_def)
  obtain a n e where m: "run_state m s = (a, read_to n e s)" "n \<le> left (pb_in s)" "P a \<Longrightarrow> k \<le> n"
    using readsD [OF assms ok] by blast
  have "left (consume n (pb_in s)) = left (pb_in s) - n" by (rule unat_bytes_left_consume [OF m(2)])
  then have "dstep fx lo hi (endpos s) s (read_to n e s)"
    using m(2) by (simp add: dstep_def in_step_def endpos_def read_to_def) (simp add: consume_def)
  with m show "wp m (\<lambda>a t. dstep fx lo hi (endpos s) s t \<and> (P a \<longrightarrow> left (pb_in t) + k \<le> left (pb_in s))) s"
    by (auto simp: wp_def result_st_def exec_st_def unat_bytes_left_consume)
qed

lemma safe_reads: "reads P k m \<Longrightarrow> safe lo hi m"
  by (rule dec_safe [OF dec_reads [where fx = False]])

lemma dec_with_value:
  assumes "dec fx lo hi got k m" "\<And>v. dec fx lo hi yes j (f v)"
  shows "dec fx lo hi yes (k + j) (with_value m f)"
  unfolding with_value_def
  by (rule dec_bind [OF assms(1)]) (use assms(2) in \<open>auto intro!: dec_return split: option.splits\<close>)

lemma dec_with_value1:
  "dec fx lo hi got k m \<Longrightarrow> (\<And>v. dec fx lo hi yes 0 (f v)) \<Longrightarrow> dec fx lo hi yes k (with_value m f)"
  using dec_with_value [of fx lo hi k m 0 f] by simp

lemma safe_with_value [decs]:
  "safe lo hi m \<Longrightarrow> (\<And>v. safe lo hi (f v)) \<Longrightarrow> safe lo hi (with_value m f)"
  unfolding with_value_def by (rule dec_then) (auto intro!: decs)

lemma safe_and_then [decs]:
  "safe lo hi m \<Longrightarrow> safe lo hi k \<Longrightarrow> safe lo hi (and_then m k)"
  unfolding and_then_def by (rule dec_then) (auto intro!: decs)

section \<open>Memory\<close>

lemma length_splice_any: "in_mem p (length bs) s \<Longrightarrow> length (splice p bs (pb_mem s)) = length (pb_mem s)"
  by (cases "bs = []") (auto simp: in_mem_def)

lemma nth_splice_out:
  assumes "in_mem p (length bs) s" "k < length (pb_mem s)" "k < p \<or> p + length bs \<le> k"
  shows "splice p bs (pb_mem s) ! k = pb_mem s ! k"
  using assms by (cases "bs = []") (auto simp: in_mem_def nth_splice)

lemma dec_mem_write:
  "lo \<le> p \<Longrightarrow> p + length bs \<le> hi \<Longrightarrow> dec fx lo hi (\<lambda>_. False) 0 (msg_write p bs)"
proof (rule decI)
  fix s :: "'a pb"
  assume p: "lo \<le> p" "p + length bs \<le> hi" and r: "ready lo hi s"
  then have m: "in_mem p (length bs) s" by (auto simp: ready_def in_mem_def)
  have "dstep fx lo hi (endpos s) s (s\<lparr>pb_mem := splice p bs (pb_mem s)\<rparr>)"
    using dstep_refl [OF r, of fx] p length_splice_any [OF m] nth_splice_out [OF m] by (auto simp: dstep_def)
  with m show "wp (msg_write p bs) (\<lambda>a t. dstep fx lo hi (endpos s) s t \<and>
      (False \<longrightarrow> left (pb_in t) + 0 \<le> left (pb_in s))) s"
    by (simp add: wp_def result_st_def exec_st_def msg_write_def)
qed

lemma dec_mem_set:
  "lo \<le> p \<Longrightarrow> p + n \<le> hi \<Longrightarrow> dec fx lo hi (\<lambda>_. False) 0 (mem_set p b n)"
  unfolding mem_set_def by (rule dec_mem_write) simp_all

lemma dec_mem_read:
  "lo \<le> p \<Longrightarrow> p + n \<le> hi \<Longrightarrow> dec fx lo hi (\<lambda>_. False) 0 (msg_read p n)"
proof (rule decI)
  fix s :: "'a pb"
  assume p: "lo \<le> p" "p + n \<le> hi" and r: "ready lo hi s"
  then have "in_mem p n s" by (auto simp: ready_def in_mem_def)
  with dstep_refl [OF r, of fx] show "wp (msg_read p n) (\<lambda>a t. dstep fx lo hi (endpos s) s t \<and>
      (False \<longrightarrow> left (pb_in t) + 0 \<le> left (pb_in s))) s"
    by (simp add: wp_def result_st_def exec_st_def msg_read_def)
qed

lemma dec_read_u16: "lo \<le> p \<Longrightarrow> p + 2 \<le> hi \<Longrightarrow> dec fx lo hi (\<lambda>_. False) 0 (read_u16 p)"
  unfolding read_u16_def by (rule dec_then [OF dec_mem_read]) (auto intro!: dec_return)

lemma dec_read_u32: "lo \<le> p \<Longrightarrow> p + 4 \<le> hi \<Longrightarrow> dec fx lo hi (\<lambda>_. False) 0 (read_u32 p)"
  unfolding read_u32_def by (rule dec_then [OF dec_mem_read]) (auto intro!: dec_return)

lemma dec_in_error [decs]: "dec fx lo hi yes k (in_error msg)"
  by (rule dec_reads [OF reads_in_error])

lemma safe_in_error [decs]: "safe lo hi (in_error msg)"
  by (rule safe_reads [OF reads_in_error])

lemma safe_fixed_count [decs]: "safe lo hi (modify (\<lambda>s. s\<lparr>pb_fixed_count := v s\<rparr>))"
  by (rule decI, rule wp_modify) (auto simp: dstep_def ready_def endpos_def in_step_def in_ok_def)

section \<open>Substreams\<close>

text \<open>
  A substream of \<open>i\<close>: it lies behind what the parent has consumed, and together with what the
  parent has left it ends at \<open>E\<close>.
\<close>

definition sub_fits :: "nat \<Rightarrow> pb_istream \<Rightarrow> pb_istream \<Rightarrow> bool" where
  "sub_fits E sub i \<longleftrightarrow> is_buf sub = is_buf i \<and> is_state i \<le> is_state sub
     \<and> is_state sub + left sub + left i \<le> E \<and> E \<le> length (is_buf i)"

definition sub_safe :: "nat \<Rightarrow> nat \<Rightarrow> pb_istream \<Rightarrow> ('w pb, 'a) st \<Rightarrow> bool" where
  "sub_safe lo hi sub m \<longleftrightarrow> (\<forall>s E. ready lo hi s \<longrightarrow> sub_fits E sub (pb_in s) \<longrightarrow>
     wp m (\<lambda>_ t. dstep False lo hi E s t) s)"

named_theorems subs "continuations that still hold a substream"

lemma sub_safeD:
  "sub_safe lo hi sub m \<Longrightarrow> ready lo hi s \<Longrightarrow> sub_fits E sub (pb_in s) \<Longrightarrow>
   wp m (\<lambda>_ t. dstep False lo hi E s t) s"
  unfolding sub_safe_def by blast

lemma safeD: "safe lo hi m \<Longrightarrow> ready lo hi s \<Longrightarrow> wp m (\<lambda>_ t. dstep False lo hi (endpos s) s t) s"
  by (drule (1) decD) (erule wp_mono, simp)

lemma dstep_E: "dstep fx lo hi E s t \<Longrightarrow> E \<le> F \<Longrightarrow> dstep fx lo hi F s t"
  by (auto simp: dstep_def in_step_def)

lemma endpos_sub_fits: "sub_fits E sub (pb_in s) \<Longrightarrow> endpos s \<le> E"
  by (simp add: sub_fits_def endpos_def)

lemma sub_safe_safe: "safe lo hi m \<Longrightarrow> sub_safe lo hi sub m"
  unfolding sub_safe_def
  by (blast intro: wp_mono [OF safeD] dstep_E endpos_sub_fits)

lemma sub_safe_if [subs]:
  "(c \<Longrightarrow> sub_safe lo hi sub m) \<Longrightarrow> (\<not> c \<Longrightarrow> sub_safe lo hi sub n) \<Longrightarrow>
   sub_safe lo hi sub (if c then m else n)"
  by simp

lemma sub_safe_then:
  fixes m :: "('w pb, 'a) st"
  assumes "sub_safe lo hi sub m" "\<And>a. safe lo hi (f a)"
  shows "sub_safe lo hi sub (State_Monad.bind m f)"
  unfolding sub_safe_def
proof (intro allI impI, rule wp_bind)
  fix s :: "'w pb" and E
  assume r: "ready lo hi s" and sub: "sub_fits E sub (pb_in s)"
  show "wp m (\<lambda>a. wp (f a) (\<lambda>_ t. dstep False lo hi E s t)) s"
  proof (rule wp_mono [OF sub_safeD [OF assms(1) r sub]])
    fix a t assume st: "dstep False lo hi E s t"
    then have "ready lo hi t"
      using r sub by (auto simp: ready_def dstep_def in_step_def in_ok_def sub_fits_def)
    from safeD [OF assms(2) this] show "wp (f a) (\<lambda>_ t. dstep False lo hi E s t) t"
      by (rule wp_mono) (rule dstep_trans [OF st])
  qed
qed

lemma ready_sub:
  "ready lo hi s \<Longrightarrow> sub_fits E sub (pb_in s) \<Longrightarrow> ready lo hi (s\<lparr>pb_in := sub\<rparr>)"
  by (auto simp: ready_def sub_fits_def in_ok_def)

lemma wp_on_istream:
  fixes m :: "('w pb, 'a) st"
  assumes r: "ready lo hi s" and sub: "sub_fits E sub (pb_in s)"
    and m: "wp m (\<lambda>_ t. dstep False lo hi (endpos (s\<lparr>pb_in := sub\<rparr>)) (s\<lparr>pb_in := sub\<rparr>) t) (s\<lparr>pb_in := sub\<rparr>)"
    and f: "\<And>a sub'. sub_safe lo hi sub' (f (a, sub'))"
  shows "wp (State_Monad.bind (on_istream sub m) f) (\<lambda>_ t. dstep False lo hi E s t) s"
  unfolding on_istream_def
proof (intro wps)
  let ?s = "s\<lparr>pb_in := sub\<rparr>"
  from m have "wp m (\<lambda>a t. wp (f (a, pb_in t)) (\<lambda>_ t. dstep False lo hi E s t) (t\<lparr>pb_in := pb_in s\<rparr>)) ?s"
  proof (rule wp_mono)
    fix a :: 'a and t :: "'w pb" assume st: "dstep False lo hi (endpos ?s) ?s t"
    let ?t = "t\<lparr>pb_in := pb_in s\<rparr>"
    have restored: "dstep False lo hi (endpos s) s ?t"
      using st r by (auto simp: dstep_def ready_def endpos_def in_step_def)
    have "ready lo hi ?t" by (rule ready_dstep [OF r restored]) simp
    moreover have "sub_fits E (pb_in t) (pb_in ?t)"
      using st sub by (auto simp: sub_fits_def dstep_def in_step_def endpos_def)
    ultimately have "wp (f (a, pb_in t)) (\<lambda>_ u. dstep False lo hi E ?t u) ?t"
      by (rule sub_safeD [OF f])
    then show "wp (f (a, pb_in t)) (\<lambda>_ t. dstep False lo hi E s t) ?t"
      by (rule wp_mono) (use restored in \<open>auto simp: dstep_def in_step_def\<close>)
  qed
  then show "wp m (\<lambda>a. wp (do {
        sub' \<leftarrow> gets pb_in;
        modify (\<lambda>t. t\<lparr>pb_in := pb_in s\<rparr>);
        return (a, sub')
      }) (\<lambda>a. wp (f a) (\<lambda>_. dstep False lo hi E s))) ?s"
    by (rule wp_mono) (intro wps, simp)
qed

lemma sub_safe_on_istream:
  fixes m :: "('w pb, 'a) st"
  assumes "\<And>s. ready lo hi s \<Longrightarrow> pb_in s = sub \<Longrightarrow> wp m (\<lambda>_ t. dstep False lo hi (endpos s) s t) s"
    and "\<And>a sub'. sub_safe lo hi sub' (f (a, sub'))"
  shows "sub_safe lo hi sub (State_Monad.bind (on_istream sub m) f)"
  unfolding sub_safe_def
  by (intro allI impI wp_on_istream) (auto intro!: assms ready_sub)

lemma sub_safe_close [subs]: "sub_safe lo hi sub (pb_close_string_substream sub)"
  unfolding sub_safe_def
proof (intro allI impI)
  fix s :: "'a pb" and E
  assume r: "ready lo hi s" and sub: "sub_fits E sub (pb_in s)"
  let ?Q = "\<lambda>_ t. dstep False lo hi E s t"
  have same: "?Q a s" for a :: 'b
    by (rule dstep_E [OF dstep_refl [OF r] endpos_sub_fits [OF sub]])
  have fin: "?Q a (s\<lparr>pb_in := (pb_in s)\<lparr>is_state := is_state j, is_errmsg := e\<rparr>\<rparr>)"
    if "is_state sub \<le> is_state j" "is_state j \<le> is_state sub + left sub" for a :: 'b and j e
    using that sub by (auto simp: dstep_def in_step_def sub_fits_def)
  show "wp (pb_close_string_substream sub) ?Q s"
  proof (cases "bytes_left sub = 0")
    case True
    with fin [of sub "is_errmsg sub"] show ?thesis
      by (simp add: pb_close_string_substream_def wp_def exec_st_def)
  next
    case False
    have ok: "in_ok (pb_in (s\<lparr>pb_in := sub\<rparr>))" using ready_sub [OF r sub] by (simp add: ready_def)
    obtain a n e where m: "run_state (pb_skip (bytes_left sub)) (s\<lparr>pb_in := sub\<rparr>) =
        (a, read_to n e (s\<lparr>pb_in := sub\<rparr>))" "n \<le> left sub"
      using readsD [OF reads_pb_skip [of "bytes_left sub"] ok] by auto
    with False same fin [of "(consume n sub)\<lparr>is_errmsg := e\<rparr>" e] show ?thesis
      by (auto simp: pb_close_string_substream_def wp_def exec_st_def run_on_istream read_to_def)
        (simp_all add: consume_def)
  qed
qed

text \<open>\<open>pb_make_string_substream\<close> and what follows.\<close>

lemma wp_make_substream:
  fixes f :: "pb_istream option \<Rightarrow> ('w pb, 'a) st"
  assumes r: "ready lo hi s"
    and sub: "\<And>sub t. ready lo hi t \<Longrightarrow> sub_fits (endpos s) sub (pb_in t) \<Longrightarrow> pb_mem t = pb_mem s \<Longrightarrow>
      pb_fixed_count t = pb_fixed_count s \<Longrightarrow> dstep False lo hi (endpos s) s t \<Longrightarrow>
      wp (f (Some sub)) (\<lambda>_ u. dstep False lo hi (endpos s) t u) t"
    and none: "safe lo hi (f None)"
  shows "wp (State_Monad.bind pb_make_string_substream f) (\<lambda>_ t. dstep False lo hi (endpos s) s t) s"
proof -
  have ok: "in_ok (pb_in s)" using r by (simp add: ready_def)
  let ?Q = "\<lambda>_ t. dstep False lo hi (endpos s) s t"
  obtain c n e where m: "run_state pb_decode_varint32 s = (c, read_to n e s)" "n \<le> left (pb_in s)"
    using readsD [OF reads_pb_decode_varint32 ok] by blast
  have l: "left (consume n (pb_in s)) = left (pb_in s) - n" by (rule unat_bytes_left_consume [OF m(2)])
  have st: "dstep False lo hi (endpos s) s (read_to n e s)" for e
    using m(2) l by (simp add: dstep_def in_step_def endpos_def read_to_def) (simp add: consume_def)
  have none: "wp (f None) ?Q (read_to n e s)" for e
    by (rule wp_mono [OF safeD [OF none ready_dstep [OF r st]]]) (auto intro: dstep_trans [OF st])
  show ?thesis
  proof (cases c)
    case None
    with m none [of e] show ?thesis
      by (simp add: wp_def result_st_def exec_st_def pb_make_string_substream_def run_map_value)
  next
    case (Some count)
    let ?i = "pb_in (read_to n e s)"
    show ?thesis
    proof (cases "bytes_left ?i < count")
      case True
      have "fail_in msg (read_to n e s) = read_to n (keep_first e msg) s" for msg
        by (simp add: fail_in_def read_to_def)
      with Some True m none show ?thesis
        by (simp add: wp_def result_st_def exec_st_def pb_make_string_substream_def run_map_value)
    next
      case False
      let ?sub = "?i\<lparr>bytes_left := count\<rparr>"
      let ?t = "(read_to n e s)\<lparr>pb_in := ?i\<lparr>bytes_left := bytes_left ?i - count\<rparr>\<rparr>"
      have c: "unat count \<le> left ?i" using False by (simp only: not_less word_le_nat_alt)
      have d: "unat (bytes_left ?i - count) = left ?i - unat count"
        using False by (simp add: unat_sub not_less)
      have rt: "ready lo hi ?t" using ready_dstep [OF r st [of e]] d by (auto simp: ready_def in_ok_def)
      have stt: "dstep False lo hi (endpos s) s ?t"
        using st [of e] d by (auto simp: dstep_def in_step_def)
      have "sub_fits (endpos s) ?sub (pb_in ?t)"
        using c d l m(2) ok by (auto simp: sub_fits_def endpos_def in_ok_def) (auto simp: consume_def)
      then have "wp (f (Some ?sub)) (\<lambda>_ u. dstep False lo hi (endpos s) ?t u) ?t"
        by (rule sub [OF rt _ _ _ stt]) (simp_all add: read_to_def)
      then have "wp (f (Some ?sub)) ?Q ?t"
        by (rule wp_mono) (use stt in \<open>auto simp: dstep_def in_step_def\<close>)
      with Some False m(1) show ?thesis
        by (simp add: wp_def result_st_def exec_st_def pb_make_string_substream_def run_map_value)
    qed
  qed
qed

lemma safeI: "(\<And>s. ready lo hi s \<Longrightarrow> wp m (\<lambda>_ t. dstep False lo hi (endpos s) s t) s) \<Longrightarrow> safe lo hi m"
  by (rule decI) simp

lemma safe_make_substream:
  assumes "\<And>sub. sub_safe lo hi sub (f (Some sub))" "safe lo hi (f None)"
  shows "safe lo hi (State_Monad.bind pb_make_string_substream f)"
  by (rule safeI, erule wp_make_substream) (auto intro!: sub_safeD assms)

lemma safe_with_substream:
  assumes "\<And>sub. sub_safe lo hi sub (f sub)"
  shows "safe lo hi (with_value pb_make_string_substream f)"
  unfolding with_value_def by (rule safe_make_substream) (auto intro!: decs assms)

lemma sub_safe_close_then:
  "(\<And>ok. safe lo hi (f ok)) \<Longrightarrow> sub_safe lo hi sub (State_Monad.bind (pb_close_string_substream sub) f)"
  by (rule sub_safe_then [OF sub_safe_close])

end
