(* ===== verification/Nanopb_Safe_Fields.thy ===== *)
theory Nanopb_Safe_Fields
  imports Nanopb_Safe
begin

text \<open>
  The field decoders are safe: for an iterator whose item lies in the region of the message, and
  whose count, has or which member lies in it before the field.
\<close>

section \<open>Items\<close>

definition item_safe :: "nat \<Rightarrow> nat \<Rightarrow> pb_field_iter \<Rightarrow> bool" where
  "item_safe lo hi it \<longleftrightarrow> lo \<le> it_pData it \<and> it_pData it + unat (it_data_size it) \<le> hi
     \<and> (PB_LTYPE (it_type it) = PB_LTYPE_BOOL \<longrightarrow> 1 \<le> unat (it_data_size it))
     \<and> (PB_LTYPE (it_type it) = PB_LTYPE_FIXED32 \<longrightarrow> 4 \<le> unat (it_data_size it))
     \<and> (PB_LTYPE (it_type it) = PB_LTYPE_FIXED64 \<longrightarrow> 8 \<le> unat (it_data_size it))
     \<and> (PB_LTYPE (it_type it) = PB_LTYPE_BYTES \<longrightarrow> 2 \<le> unat (it_data_size it))"

lemma dec_write_return:
  "lo \<le> p \<Longrightarrow> p + length bs \<le> hi \<Longrightarrow> dec fx lo hi yes 0 (do { msg_write p bs; return True })"
  by (rule dec_then [OF dec_mem_write]) (auto intro: dec_return)

lemma dec_store:
  "lo \<le> p \<Longrightarrow> p + w \<le> hi \<Longrightarrow>
   dec fx lo hi yes 0 (do { msg_write p (le_bytes w v); if c then in_error msg else return True })"
  by (rule dec_then [OF dec_mem_write]) (auto intro: dec_return dec_in_error)

lemma dec_pb_dec_bool:
  "item_safe lo hi it \<Longrightarrow> PB_LTYPE (it_type it) = PB_LTYPE_BOOL \<Longrightarrow> dec fx lo hi yes 1 (pb_dec_bool it)"
  unfolding pb_dec_bool_def
  by (rule dec_with_value1 [OF dec_reads [OF reads_pb_decode_bool] dec_write_return])
    (auto simp: item_safe_def)

lemma reads_int_value:
  "reads got 1 (if c then pb_decode_svarint
     else map_value pb_decode_varint (\<lambda>value. return (Some (if b then value else g value))))"
  by (intro reads_intros) simp_all

lemma dec_pb_dec_varint: "item_safe lo hi it \<Longrightarrow> dec fx lo hi yes 1 (pb_dec_varint it)"
  unfolding pb_dec_varint_def Let_def
  by (intro dec_if dec_with_value1 [OF dec_reads [OF reads_pb_decode_varint]]
      dec_with_value1 [OF dec_reads [OF reads_int_value]] dec_store dec_in_error)
    (auto simp: item_safe_def)

lemma dec_pb_dec_fixed32:
  "item_safe lo hi it \<Longrightarrow> PB_LTYPE (it_type it) = PB_LTYPE_FIXED32 \<Longrightarrow>
   dec fx lo hi yes 1 (with_value pb_decode_fixed32
     (\<lambda>v. do { msg_write (it_pData it) (le_bytes 4 v); return True }))"
  by (rule dec_with_value1 [OF dec_reads [OF reads_pb_decode_fixed32] dec_write_return])
    (auto simp: item_safe_def)

lemma dec_pb_dec_fixed64:
  "item_safe lo hi it \<Longrightarrow> PB_LTYPE (it_type it) = PB_LTYPE_FIXED64 \<Longrightarrow>
   dec fx lo hi yes 1 (with_value pb_decode_fixed64
     (\<lambda>v. do { msg_write (it_pData it) (le_bytes 8 v); return True }))"
  by (rule dec_with_value1 [OF dec_reads [OF reads_pb_decode_fixed64] dec_write_return])
    (auto simp: item_safe_def)

text \<open>What a read hands over has the length that was asked for.\<close>

lemma safe_read_write:
  assumes "lo \<le> p" "p + unat n \<le> hi"
  shows "safe lo hi (with_value (pb_read n) (\<lambda>bs. do { msg_write p bs; return True }) :: ('w pb, bool) st)"
proof (rule decI)
  fix s :: "'w pb"
  assume r: "ready lo hi s"
  then have ok: "in_ok (pb_in s)" by (simp add: ready_def)
  let ?m = "\<lambda>bs. do { msg_write p bs; return True } :: ('w pb, bool) st"
  let ?Q = "\<lambda>_ t. dstep False lo hi (endpos s) s t"
  have rd: "wp (pb_read n) (\<lambda>_. ?Q ()) s"
    by (rule safeD [OF safe_reads [OF reads_pb_read [of 0]] r]) simp
  have "wp (with_value (pb_read n) ?m) ?Q s"
  proof (cases "n \<le> bytes_left (pb_in s)")
    case False
    with rd ok show ?thesis by (simp add: wp_def exec_st_def run_with_value run_pb_read)
  next
    case True
    let ?bs = "take (unat n) (avail (pb_in s))" and ?t = "eat (unat n) s"
    from True ok have run: "run_state (pb_read n) s = (Some ?bs, ?t)" by (simp add: run_pb_read)
    with rd have st: "dstep False lo hi (endpos s) s ?t" by (simp add: wp_def exec_st_def)
    have "length ?bs = unat n" using True length_avail [OF ok] by (simp add: word_le_nat_alt)
    with assms have "safe lo hi (?m ?bs)" by (intro dec_safe [OF dec_write_return]) auto
    from safeD [OF this ready_dstep [OF r st]]
    have "wp (?m ?bs) (\<lambda>_. dstep False lo hi (endpos ?t) ?t) ?t" by simp
    then have "wp (?m ?bs) ?Q ?t" by (rule wp_mono) (rule dstep_trans [OF st])
    with run show ?thesis by (simp add: wp_def result_st_def exec_st_def run_with_value)
  qed
  then show "wp (with_value (pb_read n) ?m) (\<lambda>a t. dstep False lo hi (endpos s) s t \<and>
      (False \<longrightarrow> left (pb_in t) + 0 \<le> left (pb_in s))) s" by simp
qed

lemma u32_plus_fits:
  fixes n :: u32
  assumes "unat n + k < 2 ^ 32" "\<not> n + of_nat k > ucast (d :: u16)"
  shows "unat n + k \<le> unat d"
proof -
  have "unat (n + of_nat k) = unat n + k"
    using assms(1) by (simp add: unat_word_ariths unat_of_nat mod_add_right_eq)
  with assms(2) show ?thesis by (simp add: word_less_nat_alt unat_ucast_up)
qed

lemma safe_pb_dec_bytes:
  assumes "item_safe lo hi it" "PB_LTYPE (it_type it) = PB_LTYPE_BYTES"
  shows "safe lo hi (pb_dec_bytes it)"
proof -
  have "safe lo hi (do { msg_write (it_pData it) (le_bytes 2 (ucast n :: u16));
      with_value (pb_read n) (\<lambda>bs. do { msg_write (it_pData it + 2) bs; return True }) })"
    if "\<not> n > ucast PB_SIZE_MAX" "\<not> n > n + 2" "\<not> n + 2 > ucast (it_data_size it)" for n :: u32
  proof -
    have "(ucast (- 1 :: u16) :: u32) = 65535" by code_simp
    with that(1) have "unat n \<le> 65535" by (simp add: word_less_nat_alt)
    with that(3) have "unat n + 2 \<le> unat (it_data_size it)" by (intro u32_plus_fits) auto
    then show ?thesis using assms
      by (intro dec_then [OF dec_mem_write] safe_read_write) (auto simp: item_safe_def)
  qed
  then show ?thesis
    unfolding pb_dec_bytes_def Let_def
    by (intro safe_with_value [OF safe_reads [OF reads_pb_decode_varint32]] dec_if safe_in_error) auto
qed

lemma safe_pb_dec_string:
  assumes "item_safe lo hi it"
  shows "safe lo hi (pb_dec_string it)"
proof -
  have "safe lo hi (do { msg_write (it_pData it + unat n) [0];
      with_value (pb_read n) (\<lambda>bs. do { msg_write (it_pData it) bs; return True }) })"
    if "n \<noteq> - 1" "\<not> n + 1 > ucast (it_data_size it)" for n :: u32
  proof -
    have "unat (- 1 :: u32) = 2 ^ 32 - 1"
      by (simp add: unsigned_minus_1_eq_mask mask_eq_exp_minus_1)
    then have "unat n < 2 ^ 32 - 1"
      using that(1) unsigned_less [of n, where ?'a = nat] by (auto simp: word_unat_eq_iff)
    with that(2) have "unat n + 1 \<le> unat (it_data_size it)" by (intro u32_plus_fits) auto
    then show ?thesis using assms
      by (intro dec_then [OF dec_mem_write] safe_read_write) (auto simp: item_safe_def)
  qed
  then show ?thesis
    unfolding pb_dec_string_def Let_def
    by (intro safe_with_value [OF safe_reads [OF reads_pb_decode_varint32]] dec_if safe_in_error) auto
qed

lemma safe_pb_dec_fixed_length_bytes:
  assumes "item_safe lo hi it"
  shows "safe lo hi (pb_dec_fixed_length_bytes it)"
proof -
  have u: "unat (ucast (it_data_size it) :: u32) = unat (it_data_size it)" by (simp add: unat_ucast_up)
  have "safe lo hi (do { mem_set (it_pData it) 0 (unat (it_data_size it)); return True })"
    by (intro dec_then [OF dec_mem_set] dec_return) (use assms in \<open>auto simp: item_safe_def\<close>)
  moreover have "safe lo hi (with_value (pb_read (ucast (it_data_size it)))
      (\<lambda>bs. do { msg_write (it_pData it) bs; return True }))"
    by (rule safe_read_write) (use assms u in \<open>auto simp: item_safe_def\<close>)
  ultimately show ?thesis
    unfolding pb_dec_fixed_length_bytes_def
    by (intro safe_with_value [OF safe_reads [OF reads_pb_decode_varint32]] dec_if safe_in_error)
qed

section \<open>Callbacks and submessages\<close>

text \<open>
  What is asked of the user's callbacks: they read the stream they are given and leave the message
  structs alone. What is asked of the functions on submessages: they are safe on the region of
  the submessage.
\<close>

definition callbacks_ok :: "'w pb_user \<Rightarrow> bool" where
  "callbacks_ok u \<longleftrightarrow> (\<forall>f field a s. in_ok (pb_in s) \<longrightarrow>
     (\<exists>b t. run_state (u_decode u f field a) s = (b, t) \<and> in_step (endpos s) (pb_in s) (pb_in t)
        \<and> (pb_ub t \<longrightarrow> pb_ub s) \<and> pb_mem t = pb_mem s \<and> pb_out t = pb_out s))"

definition rec_safe :: "'w pb_rec \<Rightarrow> pb_msgdesc \<Rightarrow> nat \<Rightarrow> bool" where
  "rec_safe rec d n \<longleftrightarrow> (\<forall>p. 0 < p \<longrightarrow> safe p (p + n) (rec_defaults rec d p)
     \<and> (\<forall>flags. safe p (p + n) (rec_decode rec d p flags)))"

definition sub_ok :: "'w pb_rec \<Rightarrow> pb_field_iter \<Rightarrow> bool" where
  "sub_ok rec it \<longleftrightarrow> (PB_LTYPE_IS_SUBMSG (it_type it) \<longrightarrow>
     (\<exists>d. it_submsg_desc it = Some d \<and> submsg_info d \<noteq> [] \<and> rec_safe rec d (unat (it_data_size it))))"

lemma safe_callback: "callbacks_ok u \<Longrightarrow> safe lo hi (u_decode u f field a)"
proof (rule decI)
  fix s :: "'a pb"
  assume u: "callbacks_ok u" and r: "ready lo hi s"
  then obtain b t where "run_state (u_decode u f field a) s = (b, t)"
    "in_step (endpos s) (pb_in s) (pb_in t)" "pb_ub t \<longrightarrow> pb_ub s" "pb_mem t = pb_mem s" "pb_out t = pb_out s"
    unfolding callbacks_ok_def ready_def by meson
  then show "wp (u_decode u f field a) (\<lambda>a t. dstep False lo hi (endpos s) s t \<and>
      (False \<longrightarrow> left (pb_in t) + 0 \<le> left (pb_in s))) s"
    by (simp add: wp_def result_st_def exec_st_def dstep_def)
qed

lemma rec_safeD:
  assumes "rec_safe rec d n" "0 < lo" "lo \<le> p" "p + n \<le> hi"
  shows "safe lo hi (rec_defaults rec d p)" and "safe lo hi (rec_decode rec d p flags)"
proof -
  have r: "safe p (p + n) (rec_defaults rec d p)" "safe p (p + n) (rec_decode rec d p flags)"
    using assms unfolding rec_safe_def by auto
  show "safe lo hi (rec_defaults rec d p)" by (rule dec_weaken [OF r(1) assms(3,4)]) simp_all
  show "safe lo hi (rec_decode rec d p flags)" by (rule dec_weaken [OF r(2) assms(3,4)]) simp_all
qed

lemma safe_0: "(0 < lo \<Longrightarrow> safe lo hi m) \<Longrightarrow> safe lo hi m"
  by (auto simp: dec_def ready_def)

text \<open>The members before a field that \<open>pSize\<close> may point to.\<close>

definition psize_width :: "u8 \<Rightarrow> nat" where
  "psize_width type =
     (if PB_HTYPE type = PB_HTYPE_OPTIONAL \<and> PB_ATYPE type = PB_ATYPE_STATIC then 1 else 2)"

definition psize_safe :: "nat \<Rightarrow> nat \<Rightarrow> pb_field_iter \<Rightarrow> bool" where
  "psize_safe lo hi it \<longleftrightarrow> (case it_pSize it of
     PS_AT a \<Rightarrow> lo \<le> a \<and> a + psize_width (it_type it) \<le> it_pField it
       \<and> (PB_LTYPE (it_type it) = PB_LTYPE_SUBMSG_W_CB \<longrightarrow> lo + 8 \<le> a)
   | PS_NULL \<Rightarrow> PB_HTYPE (it_type it) \<noteq> PB_HTYPE_ONEOF
       \<and> (PB_HTYPE (it_type it) = PB_HTYPE_REPEATED \<longrightarrow> PB_ATYPE (it_type it) \<noteq> PB_ATYPE_STATIC)
   | _ \<Rightarrow> PB_HTYPE (it_type it) = PB_HTYPE_REPEATED \<and> PB_LTYPE (it_type it) \<noteq> PB_LTYPE_SUBMSG_W_CB)
   \<and> it_pField it \<le> hi"

lemma safe_psize_addr:
  "psize_safe lo hi it \<Longrightarrow> it_pSize it \<noteq> PS_NULL \<Longrightarrow> PB_LTYPE (it_type it) = PB_LTYPE_SUBMSG_W_CB \<Longrightarrow>
   (\<And>a. lo + 8 \<le> a \<Longrightarrow> a \<le> hi \<Longrightarrow> safe lo hi (f a)) \<Longrightarrow>
   safe lo hi (State_Monad.bind (psize_addr (it_pSize it)) f)"
  by (cases "it_pSize it") (auto simp: psize_safe_def psize_addr_def split: if_splits)

lemma safe_pb_dec_submessage:
  assumes it: "item_safe lo hi it" and u: "callbacks_ok u" and s: "sub_ok rec it"
    and p: "psize_safe lo hi it" and ty: "PB_LTYPE_IS_SUBMSG (it_type it)"
  shows "safe lo hi (pb_dec_submessage u rec it)"
proof (rule safe_0)
  assume lo: "0 < lo"
  obtain d where d: "it_submsg_desc it = Some d" "rec_safe rec d (unat (it_data_size it))"
    using s ty by (auto simp: sub_ok_def)
  have inner: "safe lo hi (do {
       (status, consumed) \<leftarrow>
         (if PB_LTYPE (it_type it) = PB_LTYPE_SUBMSG_W_CB \<and> it_pSize it \<noteq> PS_NULL then do {
            a \<leftarrow> psize_addr (it_pSize it);
            f \<leftarrow> read_u32 (a - 8);
            if f \<noteq> 0 then do {
              status \<leftarrow> u_decode u f it (a - 4);
              left \<leftarrow> gets (\<lambda>s. bytes_left (pb_in s));
              return (status, left = 0)
            }
            else return (True, False)
          }
          else return (True, False));
       if status \<and> \<not> consumed
       then rec_decode rec d (it_pData it)
         (if PB_ATYPE (it_type it) = PB_ATYPE_STATIC
             \<and> PB_HTYPE (it_type it) \<noteq> PB_HTYPE_REPEATED
          then PB_DECODE_NOINIT else 0)
       else return status
     })"
    by (intro safe_bind dec_case_prod dec_if safe_psize_addr [OF p] dec_return safe_callback [OF u]
        dec_gets rec_safeD(2) [OF d(2) lo] dec_read_u32)
      (use it in \<open>auto simp: item_safe_def\<close>)
  have close: "sub_safe lo hi sub' (and_then (pb_close_string_substream sub') (return a))"
    for sub' and a
    unfolding and_then_def by (rule sub_safe_close_then) (intro dec_if dec_return, simp_all)
  show ?thesis
    unfolding pb_dec_submessage_def d(1) option.case
    by (rule safe_with_substream, rule sub_safe_on_istream, erule safeD [OF inner])
      (simp only: prod.case close)
qed

lemma safe_decode_basic_field:
  assumes "item_safe lo hi it" "callbacks_ok u" "sub_ok rec it" "psize_safe lo hi it"
  shows "safe lo hi (decode_basic_field u rec wt it)"
  unfolding decode_basic_field_def Let_def
  by (intro dec_if safe_in_error dec_safe [OF dec_pb_dec_bool [where fx = False]]
      dec_safe [OF dec_pb_dec_varint [where fx = False]]
      dec_safe [OF dec_pb_dec_fixed32 [where fx = False]] dec_safe [OF dec_pb_dec_fixed64 [where fx = False]]
      safe_pb_dec_bytes safe_pb_dec_string safe_pb_dec_fixed_length_bytes safe_pb_dec_submessage)
    (use assms in \<open>auto simp: PB_LTYPE_IS_SUBMSG_def\<close>)

lemma dec_decode_packable:
  assumes "item_safe lo hi it" "PB_LTYPE (it_type it) \<le> PB_LTYPE_LAST_PACKABLE"
  shows "dec fx lo hi yes 1 (decode_basic_field u rec wt it)"
  unfolding decode_basic_field_def Let_def
  by (intro dec_if dec_in_error dec_pb_dec_bool dec_pb_dec_varint dec_pb_dec_fixed32 dec_pb_dec_fixed64)
    (use assms in auto)

end
