(* ===== verification/Nanopb_Safe_Static.thy ===== *)
theory Nanopb_Safe_Static
  imports Nanopb_Safe_Fields
begin

text \<open>
  Static fields: the count of an array is read again before every item, and an item is decoded
  only below the array size, so no garbage in the struct and no input makes the decoder leave it.
\<close>

section \<open>Counts\<close>

definition n_items :: "pb_field_iter \<Rightarrow> nat" where
  "n_items it = (if PB_HTYPE (it_type it) = PB_HTYPE_REPEATED \<and> PB_ATYPE (it_type it) = PB_ATYPE_STATIC
     then unat (it_array_size it) else 1)"

definition field_safe :: "nat \<Rightarrow> nat \<Rightarrow> pb_field_iter \<Rightarrow> bool" where
  "field_safe lo hi it \<longleftrightarrow> psize_safe lo hi it
     \<and> (\<forall>i < n_items it. item_safe lo hi (it\<lparr>it_pData := it_pField it + unat (it_data_size it) * i\<rparr>))"

definition psize_val :: "pb_field_iter \<Rightarrow> 'w pb \<Rightarrow> u16" where
  "psize_val it s = (case it_pSize it of
     PS_AT a \<Rightarrow> le_word (slice a 2 (pb_mem s)) | PS_FIXED_COUNT \<Rightarrow> pb_fixed_count s | _ \<Rightarrow> 0)"

definition counted :: "pb_field_iter \<Rightarrow> bool" where
  "counted it \<longleftrightarrow> (case it_pSize it of PS_AT _ \<Rightarrow> True | PS_FIXED_COUNT \<Rightarrow> True | _ \<Rightarrow> False)
     \<and> psize_width (it_type it) = 2"

lemma run_read_psize:
  assumes "counted it" "psize_safe lo hi it" "ready lo hi s"
  shows "run_state (read_psize it) s = (psize_val it s, s)"
  using assms
  by (cases "it_pSize it")
    (auto simp: counted_def psize_safe_def ready_def read_psize_def psize_val_def read_u16_def
      msg_read_def in_mem_def)

lemma run_write_psize:
  assumes c: "counted it" and p: "psize_safe lo hi it" and r: "ready lo hi s"
  shows "\<exists>t. run_state (write_psize v it) s = (it, t) \<and> dstep False lo hi (endpos s) s t \<and>
    pb_in t = pb_in s \<and> psize_val it t = v"
proof (cases "it_pSize it")
  case (PS_AT a)
  then have a: "lo \<le> a" "a + 2 \<le> hi" "hi \<le> length (pb_mem s)" "0 < lo"
    using c p r by (auto simp: counted_def psize_safe_def ready_def)
  then have "in_mem a (length (le_bytes 2 v)) s" by (simp add: in_mem_def)
  moreover from a have "safe lo hi (msg_write a (le_bytes 2 v) :: ('a pb, unit) st)"
    by (intro dec_mem_write) auto
  ultimately have "dstep False lo hi (endpos s) s (s\<lparr>pb_mem := splice a (le_bytes 2 v) (pb_mem s)\<rparr>)"
    using safeD [OF _ r] by (fastforce simp: wp_def exec_st_def msg_write_def)
  with PS_AT a show ?thesis
    by (simp add: write_psize_def msg_write_def in_mem_def psize_val_def)
next
  case PS_FIXED_COUNT
  then show ?thesis
    using dstep_refl [OF r, of False] by (simp add: write_psize_def psize_val_def dstep_def)
qed (use c in \<open>auto simp: counted_def\<close>)

lemma safe_read_psize:
  fixes f :: "u16 \<Rightarrow> ('w pb, 'a) st"
  assumes "counted it" "psize_safe lo hi it" "\<And>c. safe lo hi (f c)"
  shows "safe lo hi (State_Monad.bind (read_psize it) f)"
proof (rule dec_then [OF _ assms(3)])
  show "safe lo hi (read_psize it :: ('w pb, u16) st)"
    by (rule decI) (simp add: wp_def result_st_def exec_st_def dstep_refl run_read_psize [OF assms(1,2)])
qed

lemma safe_write_psize:
  fixes f :: "pb_field_iter \<Rightarrow> ('w pb, 'a) st"
  assumes "counted it" "psize_safe lo hi it" "safe lo hi (f it)"
  shows "safe lo hi (State_Monad.bind (write_psize v it) f)"
proof (rule decI)
  fix s :: "'w pb"
  assume r: "ready lo hi s"
  obtain t where w: "run_state (write_psize v it) s = (it, t)" "dstep False lo hi (endpos s) s t"
    using run_write_psize [OF assms(1,2) r] by blast
  have "wp (f it) (\<lambda>_ u. dstep False lo hi (endpos s) s u) t"
    by (rule wp_mono [OF safeD [OF assms(3) ready_dstep [OF r w(2)]]]) (auto intro: dstep_trans [OF w(2)])
  with w(1) show "wp (State_Monad.bind (write_psize v it) f) (\<lambda>a t. dstep False lo hi (endpos s) s t \<and>
      (False \<longrightarrow> left (pb_in t) + 0 \<le> left (pb_in s))) s"
    by (simp add: wp_def result_st_def exec_st_def)
qed

text \<open>A step on the item alone leaves the count in front of the field as it is.\<close>

lemma psize_val_item:
  assumes "counted it" "psize_safe lo hi it" "ready lo hi s" "dstep True p q E s t" "it_pField it \<le> p"
  shows "psize_val it t = psize_val it s"
proof (cases "it_pSize it")
  case (PS_AT a)
  then have a: "a + 2 \<le> p" "a + 2 \<le> length (pb_mem s)"
    using assms by (auto simp: counted_def psize_safe_def ready_def)
  moreover have "length (pb_mem t) = length (pb_mem s)" using assms(4) by (simp add: dstep_def)
  ultimately have "slice a 2 (pb_mem t) = slice a 2 (pb_mem s)"
    using assms(4) by (intro nth_equalityI) (auto simp: nth_slice dstep_def)
  with PS_AT show ?thesis by (simp add: psize_val_def)
qed (use assms in \<open>auto simp: psize_val_def dstep_def\<close>)

section \<open>Packed arrays\<close>

lemma wp_packed_loop:
  fixes s :: "'w pb"
  assumes f: "field_safe lo hi it" "counted it" "n_items it = unat (it_array_size it)"
    and step: "\<And>it'. item_safe (it_pData it') (it_pData it' + unat (it_data_size it')) it' \<Longrightarrow>
        it_type it' = it_type it \<Longrightarrow>
        dec True (it_pData it') (it_pData it' + unat (it_data_size it')) yes 1 (m it' :: ('w pb, bool) st)"
    and r: "ready lo hi s" and n: "left (pb_in s) < n"
    and d: "d = it_pField it + unat (it_data_size it) * unat (psize_val it s)"
  shows "wp (packed_loop n m (it\<lparr>it_pData := d\<rparr>)) (\<lambda>_ t. dstep False lo hi (endpos s) s t) s"
  using r n d
proof (induction n arbitrary: s d)
  case 0
  then show ?case by simp
next
  case (Suc n)
  let ?it = "it\<lparr>it_pData := d\<rparr>"
  let ?c = "psize_val it s"
  have p: "psize_safe lo hi it" using f(1) by (simp add: field_safe_def)
  have same: "counted ?it" "psize_safe lo hi ?it" "\<And>s. psize_val ?it s = psize_val it (s :: 'w pb)"
    using f(2) p by (cases "it_pSize it"; auto simp: counted_def psize_safe_def psize_val_def)+
  have rd: "run_state (read_psize ?it) s = (psize_val it s, s)" if "ready lo hi s" for s :: "'w pb"
    using run_read_psize [OF same(1,2) that] same(3) by simp
  show ?case
  proof (cases "0 < bytes_left (pb_in s) \<and> ?c < it_array_size it")
    case False
    with rd [OF Suc.prems(1)] dstep_refl [OF Suc.prems(1)] show ?thesis
      by (auto simp: wp_def exec_st_def)
  next
    case True
    then have c: "unat ?c < n_items it" using f(3) by (simp add: word_less_nat_alt)
    then have item: "item_safe lo hi ?it" using f(1) Suc.prems(3) by (simp add: field_safe_def)
    let ?q = "d + unat (it_data_size it)"
    have "dec True d ?q yes 1 (m ?it)"
      using step [of ?it] item by (simp add: item_safe_def)
    moreover have rq: "ready d ?q s"
      using item Suc.prems(1) by (auto simp: item_safe_def ready_def)
    ultimately have "wp (m ?it) (\<lambda>a t. dstep True d ?q (endpos s) s t \<and>
        (yes a \<longrightarrow> left (pb_in t) + 1 \<le> left (pb_in s))) s" by (rule decD)
    then obtain ok t where m: "run_state (m ?it) s = (ok, t)" "dstep True d ?q (endpos s) s t"
      "ok \<Longrightarrow> left (pb_in t) + 1 \<le> left (pb_in s)"
      by (cases "run_state (m ?it) s") (auto simp: wp_def result_st_def exec_st_def yes_def)
    have st: "dstep False lo hi (endpos s) s t"
      using m(2) item by (fastforce simp: dstep_def item_safe_def)
    have rt: "ready lo hi t" by (rule ready_dstep [OF Suc.prems(1) st]) simp
    have ct: "psize_val it t = ?c"
      by (rule psize_val_item [OF f(2) p Suc.prems(1) m(2)]) (simp add: Suc.prems(3))
    show ?thesis
    proof (cases ok)
      case False
      with True m(1) st rd [OF Suc.prems(1)] show ?thesis
        by (simp add: wp_def exec_st_def)
    next
      case ok: True
      obtain u where w: "run_state (write_psize (?c + 1) ?it) t = (?it, u)" "dstep False lo hi (endpos t) t u"
        "pb_in u = pb_in t" "psize_val it u = ?c + 1"
        using run_write_psize [OF same(1,2) rt, of "?c + 1"] same(3) by auto
      have ru: "ready lo hi u" by (rule ready_dstep [OF rt w(2)]) simp
      have "unat (?c + 1) = unat ?c + 1"
        using True unat_add_of_nat [of ?c 1 "it_array_size it"]
        by (simp add: word_less_nat_alt Suc_le_eq)
      then have "d + unat (it_data_size it) = it_pField it + unat (it_data_size it) * unat (psize_val it u)"
        using w(4) Suc.prems(3) by (simp add: algebra_simps)
      moreover have "left (pb_in u) < n" using m(3) ok w(3) Suc.prems(2) by simp
      ultimately have "wp (packed_loop n m (it\<lparr>it_pData := ?q\<rparr>)) (\<lambda>_. dstep False lo hi (endpos u) u) u"
        using Suc.IH [OF ru] by simp
      then have "wp (packed_loop n m (next_item ?it)) (\<lambda>_. dstep False lo hi (endpos s) s) u"
        using dstep_trans [OF dstep_trans [OF st w(2)]]
        by (auto simp: next_item_def elim!: wp_mono)
      with True m(1) ok w(1) rd [OF Suc.prems(1)] rd [OF rt] ct show ?thesis
        by (simp add: wp_def result_st_def exec_st_def)
    qed
  qed
qed

section \<open>Static fields\<close>

lemma field_safe_item:
  assumes "field_safe lo hi it" "i < n_items it"
  shows "item_safe lo hi (it\<lparr>it_pData := it_pField it + unat (it_data_size it) * i\<rparr>)"
  using assms by (simp add: field_safe_def)

lemma item_safe_single:
  assumes "field_safe lo hi it" "n_items it = 1" "it_pData it = it_pField it"
  shows "item_safe lo hi it"
  using field_safe_item [OF assms(1), of 0] assms(2,3) by (cases it) simp

lemma psize_safe_pData [simp]: "psize_safe lo hi (it\<lparr>it_pData := d\<rparr>) = psize_safe lo hi it"
  by (cases "it_pSize it") (simp_all add: psize_safe_def)

lemma counted_pData [simp]: "counted (it\<lparr>it_pData := d\<rparr>) = counted it"
  by (simp add: counted_def)

lemma sub_ok_pData [simp]: "sub_ok rec (it\<lparr>it_pData := d\<rparr>) = sub_ok rec it"
  by (simp add: sub_ok_def)

lemma safe_write_has:
  assumes "psize_safe lo hi it" "PB_HTYPE (it_type it) = PB_HTYPE_OPTIONAL" "it_pSize it \<noteq> PS_NULL"
  shows "safe lo hi (write_has b it)"
proof -
  obtain a where "it_pSize it = PS_AT a" "lo \<le> a" "a + 1 \<le> it_pField it" "it_pField it \<le> hi"
    using assms by (cases "it_pSize it") (auto simp: psize_safe_def psize_width_def split: if_splits)
  then show ?thesis
    by (auto simp: write_has_def psize_addr_def intro!: dec_mem_write)
qed

lemma safe_packed_array:
  fixes it :: pb_field_iter
  assumes f: "field_safe lo hi it" "counted it" "n_items it = unat (it_array_size it)"
    and ty: "PB_LTYPE (it_type it) \<le> PB_LTYPE_LAST_PACKABLE" and r: "ready lo hi (s :: 'w pb)"
  shows "wp (do {
      field \<leftarrow> return (item_at (psize_val it s) it);
      sub \<leftarrow> pb_make_string_substream;
      case sub of
        None \<Rightarrow> return (False, field)
      | Some substream \<Rightarrow> do {
          ((status, field), substream) \<leftarrow> on_istream substream
            (packed_loop (Suc (unat (bytes_left substream)))
              (decode_basic_field u rec PB_WT_PACKED) field);
          if bytes_left substream \<noteq> 0 then do {
            _ \<leftarrow> in_error ''array overflow'';
            return (False, field)
          }
          else do {
            ok \<leftarrow> pb_close_string_substream substream;
            return (ok \<and> status, field)
          }
        }
    }) (\<lambda>_ t. dstep False lo hi (endpos s) s t) s"
proof (unfold bind_left_identity, rule wp_make_substream [OF r])
  fix sub and t :: "'w pb"
  assume rt: "ready lo hi t" and sub: "sub_fits (endpos s) sub (pb_in t)"
    and mem: "pb_mem t = pb_mem s" "pb_fixed_count t = pb_fixed_count s"
  let ?t = "t\<lparr>pb_in := sub\<rparr>"
  have count: "psize_val it ?t = psize_val it s"
    using mem by (cases "it_pSize it") (simp_all add: psize_val_def)
  have "wp (packed_loop (Suc (left sub)) (decode_basic_field u rec PB_WT_PACKED)
        (it\<lparr>it_pData := it_pField it + unat (it_data_size it) * unat (psize_val it s)\<rparr>))
      (\<lambda>_ t. dstep False lo hi (endpos ?t) ?t t) ?t"
    by (rule wp_packed_loop [OF f _ ready_sub [OF rt sub]], rule dec_decode_packable)
      (simp_all add: ty count)
  then have loop: "wp (packed_loop (Suc (left sub)) (decode_basic_field u rec PB_WT_PACKED)
        (item_at (psize_val it s) it)) (\<lambda>_ t. dstep False lo hi (endpos ?t) ?t t) ?t"
    by (simp only: item_at_def)
  show "wp (case Some sub of
        None \<Rightarrow> return (False, item_at (psize_val it s) it)
      | Some substream \<Rightarrow> do {
          ((status, field), substream) \<leftarrow> on_istream substream
            (packed_loop (Suc (unat (bytes_left substream)))
              (decode_basic_field u rec PB_WT_PACKED) (item_at (psize_val it s) it));
          if bytes_left substream \<noteq> 0 then do {
            _ \<leftarrow> in_error ''array overflow'';
            return (False, field)
          }
          else do {
            ok \<leftarrow> pb_close_string_substream substream;
            return (ok \<and> status, field)
          }
        }) (\<lambda>_ u. dstep False lo hi (endpos s) t u) t"
    unfolding option.case
    by (rule wp_on_istream [OF rt sub loop])
      (auto intro!: sub_safe_if sub_safe_close_then safe_bind safe_in_error dec_return
        intro: sub_safe_safe split: prod.splits)
qed (auto intro: dec_return)

lemma safe_needs_defaults:
  assumes "submsg_info d \<noteq> []"
  shows "safe lo hi (needs_defaults d :: ('w pb, bool) st)"
proof -
  have "(needs_defaults d :: ('w pb, bool) st) = return (default_value d \<noteq> None \<or> field_callback d \<noteq> NO_FIELD_CALLBACK
      \<or> submsg_info d ! 0 \<noteq> None)"
    using assms by (auto simp: needs_defaults_def const_submsg_def)
  then show ?thesis by (simp only:) (rule dec_return, simp)
qed

lemma PB_HTYPE_cases:
  "PB_HTYPE t = PB_HTYPE_REQUIRED \<or> PB_HTYPE t = PB_HTYPE_OPTIONAL \<or> PB_HTYPE t = PB_HTYPE_REPEATED
   \<or> PB_HTYPE t = PB_HTYPE_ONEOF"
proof -
  have e: "(0x30 :: u8) = push_bit 4 (mask 2)" by (simp add: mask_eq_exp_minus_1)
  have p: "PB_HTYPE t = push_bit 4 (take_bit 2 (drop_bit 4 t))"
    unfolding PB_HTYPE_def e by (rule bit_word_eqI) (auto simp: bit_simps)
  have "unat (take_bit 2 (drop_bit 4 t)) < 4"
    using take_bit_nat_less_exp [of 2 "unat (drop_bit 4 t)"] by (simp add: unsigned_take_bit_eq)
  then have "take_bit 2 (drop_bit 4 t) \<in> {0, 1, 2, 3}"
    by (auto simp: word_unat_eq_iff)
  with p show ?thesis by (auto simp: push_bit_eq_mult)
qed

lemma safe_decode_static_field:
  fixes u :: "'w pb_user"
  assumes f: "field_safe lo hi it" and u: "callbacks_ok u" and sub: "sub_ok rec it"
    and st: "PB_ATYPE (it_type it) = PB_ATYPE_STATIC" and ps: "it_pSize it \<noteq> PS_ARRAY_SIZE"
    and d: "PB_HTYPE (it_type it) \<noteq> PB_HTYPE_REPEATED \<longrightarrow> it_pData it = it_pField it"
  shows "safe lo hi (decode_static_field u rec wt it)"
proof -
  have p: "psize_safe lo hi it" using f by (simp add: field_safe_def)
  consider (req) "PB_HTYPE (it_type it) = PB_HTYPE_REQUIRED" | (opt) "PB_HTYPE (it_type it) = PB_HTYPE_OPTIONAL"
    | (rep) "PB_HTYPE (it_type it) = PB_HTYPE_REPEATED" | (oneof) "PB_HTYPE (it_type it) = PB_HTYPE_ONEOF"
    using PB_HTYPE_cases by blast
  then show ?thesis
  proof cases
    case rep
    then have c: "counted it" using ps p st
      by (cases "it_pSize it") (auto simp: counted_def psize_safe_def psize_width_def)
    have n: "n_items it = unat (it_array_size it)" using rep st by (simp add: n_items_def)
    show ?thesis
    proof (cases "wt = PB_WT_STRING \<and> PB_LTYPE (it_type it) \<le> PB_LTYPE_LAST_PACKABLE")
      case True
      show ?thesis
      proof (rule safeI)
        fix s :: "'w pb"
        assume r: "ready lo hi s"
        with safe_packed_array [OF f c n _ r, of u rec] True rep run_read_psize [OF c p r]
        show "wp (decode_static_field u rec wt it) (\<lambda>_ t. dstep False lo hi (endpos s) s t) s"
          by (simp add: decode_static_field_def Let_def item_at_def wp_def result_st_def exec_st_def)
      qed
    next
      case False
      have item: "safe lo hi (decode_basic_field u rec wt (item_at count it))"
        if "count < it_array_size it" for count
        using that field_safe_item [OF f, of "unat count"] n u sub p
        by (intro safe_decode_basic_field) (simp_all add: item_at_def word_less_nat_alt)
      have "safe lo hi (do {
          count \<leftarrow> read_psize it;
          field \<leftarrow> return (item_at count it);
          field \<leftarrow> write_psize (count + 1) field;
          if count \<ge> it_array_size field then do {
            _ \<leftarrow> in_error ''array overflow'';
            return (False, field)
          }
          else do {
            ok \<leftarrow> decode_basic_field u rec wt field;
            return (ok, field)
          }
        })"
        unfolding bind_left_identity
        by (intro safe_read_psize [OF c p] safe_write_psize dec_if safe_bind safe_in_error dec_return item)
          (use c p in \<open>simp_all add: item_at_def\<close>)
      with rep show ?thesis
        by (simp add: decode_static_field_def Let_def item_at_def if_not_P [OF False] del: packed_loop.simps)
    qed
  next
    case req
    then have "item_safe lo hi it" using d by (intro item_safe_single [OF f]) (simp_all add: n_items_def)
    with req u sub p show ?thesis
      by (simp add: decode_static_field_def Let_def)
        (intro safe_bind safe_decode_basic_field dec_return, simp_all)
  next
    case opt
    then have "item_safe lo hi it" using d by (intro item_safe_single [OF f]) (simp_all add: n_items_def)
    with opt u sub p show ?thesis
      by (simp add: decode_static_field_def Let_def)
        (intro conjI impI safe_bind safe_decode_basic_field safe_write_has dec_return, simp_all)
  next
    case oneof
    then have item: "item_safe lo hi it" using d by (intro item_safe_single [OF f]) (simp_all add: n_items_def)
    have c: "counted it" using ps p oneof
      by (cases "it_pSize it") (auto simp: counted_def psize_safe_def psize_width_def)
    have fresh: "safe lo hi (if PB_LTYPE_IS_SUBMSG (it_type it) \<and> which \<noteq> it_tag it then do {
             mem_set (it_pData it) 0 (unat (it_data_size it));
             case it_submsg_desc it of
               None \<Rightarrow> fault False
             | Some desc \<Rightarrow> do {
                 d \<leftarrow> needs_defaults desc;
                 if d then do {
                   ok \<leftarrow> rec_defaults rec desc (it_pData it);
                   if \<not> ok then in_error ''failed to set defaults'' else return True
                 }
                 else return True
               }
           }
           else return True)" for which
    proof (rule safe_0, rule dec_if, elim conjE)
      assume lo: "0 < lo" and "PB_LTYPE_IS_SUBMSG (it_type it)"
      then obtain desc where desc: "it_submsg_desc it = Some desc" "submsg_info desc \<noteq> []"
        "rec_safe rec desc (unat (it_data_size it))"
        using sub by (auto simp: sub_ok_def)
      show "safe lo hi (do {
             mem_set (it_pData it) 0 (unat (it_data_size it));
             case it_submsg_desc it of
               None \<Rightarrow> fault False
             | Some desc \<Rightarrow> do {
                 d \<leftarrow> needs_defaults desc;
                 if d then do {
                   ok \<leftarrow> rec_defaults rec desc (it_pData it);
                   if \<not> ok then in_error ''failed to set defaults'' else return True
                 }
                 else return True
               }
           })"
        unfolding desc(1) option.case
        by (intro safe_bind dec_mem_set safe_needs_defaults [OF desc(2)] dec_if rec_safeD(1) [OF desc(3) lo]
            safe_in_error dec_return) (use item in \<open>auto simp: item_safe_def\<close>)
    qed (simp add: dec_return)
    have "safe lo hi (do {
        which \<leftarrow> read_psize it;
        ok \<leftarrow> (if PB_LTYPE_IS_SUBMSG (it_type it) \<and> which \<noteq> it_tag it then do {
             mem_set (it_pData it) 0 (unat (it_data_size it));
             case it_submsg_desc it of
               None \<Rightarrow> fault False
             | Some desc \<Rightarrow> do {
                 d \<leftarrow> needs_defaults desc;
                 if d then do {
                   ok \<leftarrow> rec_defaults rec desc (it_pData it);
                   if \<not> ok then in_error ''failed to set defaults'' else return True
                 }
                 else return True
               }
           }
           else return True);
        if \<not> ok then return (False, it)
        else do {
          field \<leftarrow> write_psize (it_tag it) it;
          ok \<leftarrow> decode_basic_field u rec wt field;
          return (ok, field)
        }
      })"
      by (rule safe_read_psize [OF c p], rule safe_bind [OF fresh])
        (intro dec_if dec_return safe_write_psize [OF c p] safe_bind
          safe_decode_basic_field [OF item u sub p], simp_all)
    with oneof show ?thesis by (simp add: decode_static_field_def Let_def)
  qed
qed

end
