(* ===== verification/Nanopb_Safe_Message.thy ===== *)
theory Nanopb_Safe_Message
  imports Nanopb_Safe_Static
begin

text \<open>
  Callback fields, default values and whole messages, down the nesting of submessages. \<open>wf_desc n d\<close>
  is what the decoder needs of a descriptor for a struct of \<open>n\<close> bytes.
\<close>

section \<open>Callback fields\<close>

lemma safe_default_callback:
  assumes u: "callbacks_ok u" and it: "item_safe lo hi it"
  shows "safe lo hi (pb_default_field_callback u True it)"
  unfolding pb_default_field_callback_def
  by (intro dec_if safe_bind dec_read_u32 safe_callback [OF u] dec_return)
    (use it in \<open>auto simp: item_safe_def\<close>)

lemma wp_callback_loop:
  assumes cb: "safe lo hi cb"
  shows "ready lo hi s \<Longrightarrow> left (pb_in s) < n \<Longrightarrow>
    wp (callback_loop n cb) (\<lambda>_ t. dstep False lo hi (endpos s) s t) s"
proof (induction n arbitrary: s)
  case 0
  then show ?case by simp
next
  case (Suc n)
  obtain ok t where m: "run_state cb s = (ok, t)" "dstep False lo hi (endpos s) s t"
    using safeD [OF cb Suc.prems(1)] by (cases "run_state cb s") (auto simp: wp_def result_st_def exec_st_def)
  have rt: "ready lo hi t" by (rule ready_dstep [OF Suc.prems(1) m(2)]) simp
  show ?case
  proof (cases "ok \<and> bytes_left (pb_in t) > 0 \<and> bytes_left (pb_in t) < bytes_left (pb_in s)")
    case True
    then have "left (pb_in t) < n" using Suc.prems(2) by (simp add: word_less_nat_alt)
    from Suc.IH [OF rt this] have "wp (callback_loop n cb) (\<lambda>_. dstep False lo hi (endpos s) s) t"
      by (rule wp_mono) (rule dstep_trans [OF m(2)])
    with True m(1) show ?thesis by (simp add: wp_def result_st_def exec_st_def)
  next
    case False
    with m show ?thesis by (auto simp: wp_def result_st_def exec_st_def)
  qed
qed

lemma safe_raw_callback:
  fixes cb :: "('w pb, 'a) st"
  assumes cb: "safe lo hi cb" and f: "\<And>a. safe lo hi (f a)"
  shows "safe lo hi (State_Monad.bind
    (on_istream (pb_istream_from_buffer bs (of_nat (length bs))) cb) f)"
proof (rule safe_bind [OF _ f], rule safeI)
  fix s :: "'w pb"
  assume r: "ready lo hi s"
  let ?i = "pb_istream_from_buffer bs (of_nat (length bs))"
  let ?s = "s\<lparr>pb_in := ?i\<rparr>"
  have "unat (of_nat (length bs) :: u32) \<le> length bs" by (simp add: unat_of_nat)
  then have rs: "ready lo hi ?s"
    using r by (simp add: ready_def in_ok_def pb_istream_from_buffer_def)
  obtain a t where m: "run_state cb ?s = (a, t)" "dstep False lo hi (endpos ?s) ?s t"
    using safeD [OF cb rs] by (cases "run_state cb ?s") (auto simp: wp_def result_st_def exec_st_def)
  then have "dstep False lo hi (endpos s) s (t\<lparr>pb_in := pb_in s\<rparr>)"
    using r by (auto simp: dstep_def ready_def endpos_def in_step_refl)
  with m(1) show "wp (on_istream ?i cb) (\<lambda>_ t. dstep False lo hi (endpos s) s t) s"
    by (simp add: wp_def exec_st_def run_on_istream)
qed

lemma sub_safe_before:
  fixes m :: "('w pb, 'a) st"
  assumes m: "safe lo hi m" and keeps: "\<And>s. ready lo hi s \<Longrightarrow> wp m (\<lambda>a t. pb_in t = pb_in s \<and> R a) s"
    and f: "\<And>a. R a \<Longrightarrow> sub_safe lo hi sub (f a)"
  shows "sub_safe lo hi sub (State_Monad.bind m f)"
  unfolding sub_safe_def
proof (intro allI impI, rule wp_bind)
  fix s :: "'w pb" and E
  assume r: "ready lo hi s" and sub: "sub_fits E sub (pb_in s)"
  have "wp m (\<lambda>a t. dstep False lo hi (endpos s) s t \<and> pb_in t = pb_in s \<and> R a) s"
    using wp_conj [OF safeD [OF m r] keeps [OF r]] .
  then show "wp m (\<lambda>a. wp (f a) (\<lambda>_ t. dstep False lo hi E s t)) s"
  proof (rule wp_mono)
    fix a and t :: "'w pb"
    assume st: "dstep False lo hi (endpos s) s t \<and> pb_in t = pb_in s \<and> R a"
    then have "ready lo hi t" using ready_dstep [OF r] by blast
    with st sub have "wp (f a) (\<lambda>_ u. dstep False lo hi E t u) t"
      by (intro sub_safeD [OF f]) simp_all
    then show "wp (f a) (\<lambda>_ u. dstep False lo hi E s u) t"
      by (rule wp_mono) (use st in \<open>auto simp: dstep_def\<close>)
  qed
qed

lemma on_istream_pair:
  "State_Monad.bind (on_istream sub (do { a \<leftarrow> m; return (a, b) })) f =
    State_Monad.bind (on_istream sub m) (\<lambda>(a, sub'). f ((a, b), sub'))"
  by (simp add: on_istream_def)

lemma pb_in_read_u32: "wp (read_u32 p) (\<lambda>_ t. pb_in t = pb_in s \<and> True) s"
  by (simp add: wp_def exec_st_def read_u32_def msg_read_def)

lemma safe_decode_callback_field:
  fixes u :: "'w pb_user"
  assumes f: "field_safe lo hi it" and u: "callbacks_ok u" and n: "n_items it = 1"
    and at: "PB_ATYPE (it_type it) \<noteq> PB_ATYPE_STATIC" and ps: "it_pSize it \<noteq> PS_ARRAY_SIZE" "it_pSize it \<noteq> PS_FIXED_COUNT"
    and d: "it_pData it = it_pField it"
  shows "safe lo hi (decode_callback_field u wt it)"
proof -
  have p: "psize_safe lo hi it" and item: "item_safe lo hi it"
    using f item_safe_single [OF f n d] by (simp_all add: field_safe_def)
  have counted: "counted it" if "it_pSize it \<noteq> PS_NULL"
    using that ps p at by (cases "it_pSize it") (auto simp: counted_def psize_width_def)
  have err: "sub_safe lo hi sub (do { _ \<leftarrow> substream_error sub msg; return (False, it) } ::
      ('w pb, bool \<times> pb_field_iter) st)" for sub msg
    unfolding substream_error_def by (intro sub_safe_safe safe_bind safe_in_error dec_return) simp
  have fin: "sub_safe lo hi sub (if \<not> ok then do {
        _ \<leftarrow> substream_error sub ''callback failed'';
        return (False, it)
      }
      else do {
        ok \<leftarrow> pb_close_string_substream sub;
        return (ok, it)
      } :: ('w pb, bool \<times> pb_field_iter) st)" for sub ok
    by (intro sub_safe_if err sub_safe_close_then dec_return) simp
  have run: "sub_safe lo hi sub (do {
      (ok, substream) \<leftarrow> on_istream sub
        (callback_loop (Suc (unat (bytes_left sub))) (pb_default_field_callback u True it));
      if \<not> ok then do {
        _ \<leftarrow> substream_error substream ''callback failed'';
        return (False, it)
      }
      else do {
        ok \<leftarrow> pb_close_string_substream substream;
        return (ok, it)
      }
    })" for sub
    by (rule sub_safe_on_istream, rule wp_callback_loop [OF safe_default_callback [OF u item]],
      assumption, simp, subst prod.case, rule fin)
  have pre: "sub_safe lo hi sub (do {
      ((ok, field), substream) \<leftarrow>
        (if PB_LTYPE (it_type it) = PB_LTYPE_SUBMSG_W_CB \<and> it_pSize it \<noteq> PS_NULL then do {
           field \<leftarrow> write_psize (it_tag it) it;
           a \<leftarrow> psize_addr (it_pSize field);
           f \<leftarrow> read_u32 (a - 8);
           on_istream sub (do {
             ok \<leftarrow> (if f \<noteq> 0 then u_decode u f field (a - 4) else return True);
             return (ok, field)
           })
         }
         else return ((True, it), sub));
      if \<not> ok then do {
        _ \<leftarrow> substream_error substream ''submsg callback failed'';
        return (False, field)
      }
      else do {
        (ok, substream) \<leftarrow> on_istream substream
          (callback_loop (Suc (unat (bytes_left substream)))
            (pb_default_field_callback u True field));
        if \<not> ok then do {
          _ \<leftarrow> substream_error substream ''callback failed'';
          return (False, field)
        }
        else do {
          ok \<leftarrow> pb_close_string_substream substream;
          return (ok, field)
        }
      }
    })" for sub
  proof (cases "PB_LTYPE (it_type it) = PB_LTYPE_SUBMSG_W_CB \<and> it_pSize it \<noteq> PS_NULL")
    case False
    show ?thesis by (simp only: if_not_P [OF False] bind_left_identity prod.case not_True_eq_False if_False run)
  next
    case True
    obtain a where a: "it_pSize it = PS_AT a" "lo + 8 \<le> a" "a \<le> hi" and c: "counted it"
      using True ps p counted by (cases "it_pSize it") (auto simp: psize_safe_def)
    have "safe lo hi (State_Monad.bind (write_psize (it_tag it) it) return :: ('w pb, pb_field_iter) st)"
      by (rule safe_write_psize [OF c p], rule dec_return) simp
    then have w: "safe lo hi (write_psize (it_tag it) it :: ('w pb, pb_field_iter) st)" by simp
    have wr: "wp (write_psize (it_tag it) it) (\<lambda>b t. pb_in t = pb_in s \<and> b = it) s"
      if "ready lo hi s" for s :: "'w pb"
      using run_write_psize [OF c p that, of "it_tag it"] by (auto simp: wp_def exec_st_def result_st_def)
    have cb: "safe lo hi (if f \<noteq> 0 then u_decode u f it (a - 4) else return True)" for f
      by (intro dec_if safe_callback [OF u] dec_return) simp
    show ?thesis
      unfolding if_P [OF True] bind_assoc
      by (rule sub_safe_before [OF w wr], assumption)
        (simp only: a(1) psize_addr_def pb_psize.case bind_left_identity on_istream_pair,
         rule sub_safe_before [OF dec_read_u32 pb_in_read_u32], use a in linarith, use a in linarith,
         rule sub_safe_on_istream [OF safeD [OF cb]], assumption,
         simp only: prod.case, intro sub_safe_if err run)
  qed
  have whole: "safe lo hi (if field_callback (it_descriptor it) = NO_FIELD_CALLBACK then do {
       ok \<leftarrow> pb_skip_field wt;
       return (ok, it)
     }
     else if wt = PB_WT_STRING then do {
       sub \<leftarrow> pb_make_string_substream;
       case sub of
         None \<Rightarrow> return (False, it)
       | Some substream \<Rightarrow> do {
      ((ok, field), substream) \<leftarrow>
        (if PB_LTYPE (it_type it) = PB_LTYPE_SUBMSG_W_CB \<and> it_pSize it \<noteq> PS_NULL then do {
           field \<leftarrow> write_psize (it_tag it) it;
           a \<leftarrow> psize_addr (it_pSize field);
           f \<leftarrow> read_u32 (a - 8);
           on_istream substream (do {
             ok \<leftarrow> (if f \<noteq> 0 then u_decode u f field (a - 4) else return True);
             return (ok, field)
           })
         }
         else return ((True, it), substream));
      if \<not> ok then do {
        _ \<leftarrow> substream_error substream ''submsg callback failed'';
        return (False, field)
      }
      else do {
        (ok, substream) \<leftarrow> on_istream substream
          (callback_loop (Suc (unat (bytes_left substream)))
            (pb_default_field_callback u True field));
        if \<not> ok then do {
          _ \<leftarrow> substream_error substream ''callback failed'';
          return (False, field)
        }
        else do {
          ok \<leftarrow> pb_close_string_substream substream;
          return (ok, field)
        }
      }
    }
     }
     else do {
       raw \<leftarrow> read_raw_value wt 10;
       case raw of
         None \<Rightarrow> return (False, it)
       | Some buffer \<Rightarrow> do {
           (ok, _) \<leftarrow> on_istream (pb_istream_from_buffer buffer (of_nat (length buffer)))
             (pb_default_field_callback u True it);
           return (ok, it)
         }
     })"
    by (intro dec_if safe_make_substream safe_bind [OF safe_reads [OF reads_pb_skip_field]]
        safe_bind [OF safe_reads [OF reads_read_raw_value]] dec_case_option
        safe_raw_callback [OF safe_default_callback [OF u item]] dec_case_prod dec_return)
      (simp_all only: option.case pre, simp_all add: dec_return)
  show ?thesis
  proof (cases "PB_HTYPE (it_type it) = PB_HTYPE_ONEOF")
    case True
    then have c: "counted it" using p by (intro counted) (auto simp: psize_safe_def)
    have clear: "safe lo hi (if which \<noteq> 0 \<and> which \<noteq> it_tag it
        then mem_set (it_pData it) 0 (unat (it_data_size it)) else return () :: ('w pb, unit) st)" for which
      by (intro dec_if dec_mem_set dec_return) (use item in \<open>auto simp: item_safe_def\<close>)
    show ?thesis
      unfolding decode_callback_field_def if_P [OF True] bind_assoc
      by (rule safe_read_psize [OF c p], rule safe_bind [OF clear], rule safe_write_psize [OF c p], rule whole)
  next
    case False
    show ?thesis
      unfolding decode_callback_field_def if_not_P [OF False] bind_left_identity by (rule whole)
  qed
qed

section \<open>The iterator a field decoder returns\<close>

text \<open>Only the position of the item in an array may have changed.\<close>

definition results :: "('a \<Rightarrow> bool) \<Rightarrow> ('s, 'a) st \<Rightarrow> bool" where
  "results R m \<longleftrightarrow> (\<forall>s. R (fst (run_state m s)))"

definition same_field :: "pb_field_iter \<Rightarrow> pb_field_iter \<Rightarrow> bool" where
  "same_field it j \<longleftrightarrow> (\<exists>pd. j = it\<lparr>it_pData := pd\<rparr>)"

named_theorems res "results, one rule per construct"

lemma results_return [res]: "R a \<Longrightarrow> results R (return a)"
  by (simp add: results_def)

lemma results_bind: "results S m \<Longrightarrow> (\<And>a. S a \<Longrightarrow> results R (f a)) \<Longrightarrow> results R (State_Monad.bind m f)"
  by (auto simp: results_def split: prod.splits) (metis fst_conv)

lemma results_any [res]: "(\<And>a. results R (f a)) \<Longrightarrow> results R (State_Monad.bind m f)"
  by (rule results_bind [of "\<lambda>_. True"]) (simp_all add: results_def)

lemma results_if [res]: "(c \<Longrightarrow> results R m) \<Longrightarrow> (\<not> c \<Longrightarrow> results R n) \<Longrightarrow> results R (if c then m else n)"
  by simp

lemma results_let [res]: "(\<And>x. x = t \<Longrightarrow> results R (f x)) \<Longrightarrow> results R (let x = t in f x)"
  by simp

lemma results_case_option [res]:
  "(x = None \<Longrightarrow> results R m) \<Longrightarrow> (\<And>a. x = Some a \<Longrightarrow> results R (f a)) \<Longrightarrow>
   results R (case x of None \<Rightarrow> m | Some a \<Rightarrow> f a)"
  by (cases x) auto

lemma results_case_prod [res]:
  "(\<And>a b. x = (a, b) \<Longrightarrow> results R (f a b)) \<Longrightarrow> results R (case x of (a, b) \<Rightarrow> f a b)"
  by (cases x) auto

lemma results_on_istream: "results R m \<Longrightarrow> results (\<lambda>(a, _). R a) (on_istream sub m)"
  by (auto simp: results_def run_on_istream split: prod.splits) (metis fst_conv)

lemma results_write_psize: "it_pSize it \<noteq> PS_ARRAY_SIZE \<Longrightarrow> results (\<lambda>j. j = it) (write_psize v it)"
  by (cases "it_pSize it") (auto simp: write_psize_def fault_def intro!: res)

lemma same_field_refl [simp]: "same_field it it" "same_field it (it\<lparr>it_pData := d\<rparr>)"
  by (auto simp: same_field_def intro: exI [of _ "it_pData it"])

lemma same_field_pData [simp]:
  "same_field (it\<lparr>it_pData := d\<rparr>) = same_field it"
  "same_field (next_item it) = same_field it" "same_field (item_at c it) = same_field it"
  by (simp_all add: same_field_def fun_eq_iff next_item_def item_at_def)

lemma same_field_pSize: "same_field it j \<Longrightarrow> it_pSize j = it_pSize it"
  by (auto simp: same_field_def)

lemma results_packed_loop:
  "it_pSize it \<noteq> PS_ARRAY_SIZE \<Longrightarrow> results (\<lambda>(ok, j). same_field it j) (packed_loop n m it)"
proof (induction n arbitrary: it)
  case 0
  then show ?case by (simp add: fault_def) (intro res, simp)
next
  case (Suc n)
  have "results (\<lambda>(ok, j). same_field it j) (packed_loop n m (next_item it))"
    using Suc.IH [of "next_item it"] Suc.prems by (simp add: next_item_def [of it])
  then show ?case unfolding packed_loop.simps
    by (intro res results_bind [OF results_write_psize [OF Suc.prems]]) simp_all
qed

lemma results_decode_static_field:
  assumes "it_pSize it \<noteq> PS_ARRAY_SIZE"
  shows "results (\<lambda>(ok, j). same_field it j \<and> (PB_HTYPE (it_type it) \<noteq> PB_HTYPE_REPEATED \<longrightarrow> j = it))
    (decode_static_field u rec wt it)"
proof -
  have item: "it_pSize (item_at c it) \<noteq> PS_ARRAY_SIZE" "same_field it (item_at c it)" for c
    using assms by (simp_all add: item_at_def)
  have packed: "results (\<lambda>((ok, j), _). same_field it j) (on_istream sub (packed_loop n m (item_at c it)))"
    for n m c sub
    using results_on_istream [OF results_packed_loop [OF item(1)], of c sub n m]
    by (simp add: split_def)
  show ?thesis
    unfolding decode_static_field_def Let_def bind_left_identity split_def
    by (intro res results_bind [OF packed] results_bind [OF results_write_psize [OF item(1)]]
        results_bind [OF results_write_psize [OF assms]]) (use item in \<open>auto simp: split_def\<close>)
qed

lemma results_decode_field:
  fixes u :: "'w pb_user"
  assumes "it_pSize it \<noteq> PS_ARRAY_SIZE"
  shows "results (\<lambda>(ok, j). same_field it j \<and>
      (PB_HTYPE (it_type it) = PB_HTYPE_REPEATED \<and> PB_ATYPE (it_type it) = PB_ATYPE_STATIC \<or> j = it))
    (decode_field u rec wt it)"
proof -
  have w: "results (\<lambda>((ok, j), _). j = it) (on_istream sub (do { ok \<leftarrow> m; return (ok, it) }))"
    for sub and m :: "('w pb, bool) st"
  proof -
    have "results (\<lambda>(ok, j). j = it) (do { ok \<leftarrow> m; return (ok, it) })" by (intro res) simp
    from results_on_istream [OF this, of sub] show ?thesis by (simp add: split_def)
  qed
  have v: "results (\<lambda>((ok, j), _). j = it) (do {
           field \<leftarrow> write_psize (it_tag it) it;
           a \<leftarrow> psize_addr (it_pSize field);
           f \<leftarrow> read_u32 (a - 8);
           on_istream substream (do {
             ok \<leftarrow> (if f \<noteq> 0 then u_decode u f field (a - 4) else return True);
             return (ok, field)
           })
         })" for substream
    by (rule results_bind [OF results_write_psize [OF assms]], simp only:, rule results_any, rule results_any, rule w)
  have one: "results (\<lambda>j. j = it) (if PB_HTYPE (it_type it) = PB_HTYPE_ONEOF then do {
          which \<leftarrow> read_psize it;
          (if which \<noteq> 0 \<and> which \<noteq> it_tag it
           then mem_set (it_pData it) 0 (unat (it_data_size it)) else return ());
          write_psize (it_tag it) it
        }
        else return it)"
    by (rule results_if, rule results_any, rule results_any, rule results_write_psize [OF assms], rule results_return) simp
  have cb: "results (\<lambda>(ok, j). j = it) (decode_callback_field u wt it)"
    unfolding decode_callback_field_def
    by (rule results_bind [OF one], simp only: split_def)
      (intro res results_bind [OF results_if [OF v [unfolded split_def] results_return]], simp_all)
  show ?thesis
    using results_decode_static_field [OF assms, of u rec wt] cb
    by (auto simp: decode_field_def decode_pointer_field_def results_def split_def)
qed

end
