(* ===== verification/Nanopb_Safe_Decode.thy ===== *)
theory Nanopb_Safe_Decode
  imports Nanopb_Safe_Message
begin

text \<open>
  Whole messages: what the decoder needs of a descriptor (\<open>wf_desc\<close>), and that it is enough, by
  induction over the nesting of submessages.
\<close>

section \<open>Well-formed descriptors\<close>

text \<open>A field of a struct of \<open>n\<close> bytes: its items and the member \<open>pSize\<close> points to lie in it.\<close>

definition field_fits :: "nat \<Rightarrow> u8 \<Rightarrow> pb_field_values \<Rightarrow> bool" where
  "field_fits n type v \<longleftrightarrow>
     (let off = unat (fv_data_offset v); sz = unat (fv_data_size v); so = unat (fv_size_offset v);
          items = (if PB_HTYPE type = PB_HTYPE_REPEATED \<and> PB_ATYPE type = PB_ATYPE_STATIC
                   then unat (fv_array_size v) else 1)
      in off + sz * items \<le> n
         \<and> (if so = 0 then PB_HTYPE type \<noteq> PB_HTYPE_ONEOF
              \<and> (PB_LTYPE type = PB_LTYPE_SUBMSG_W_CB \<longrightarrow> PB_HTYPE type \<noteq> PB_HTYPE_REPEATED)
            else so < 128 \<and> psize_width type \<le> so \<and> so \<le> off
              \<and> (PB_LTYPE type = PB_LTYPE_SUBMSG_W_CB \<longrightarrow> so + 8 \<le> off))
         \<and> (PB_LTYPE type = PB_LTYPE_BOOL \<longrightarrow> 1 \<le> sz) \<and> (PB_LTYPE type = PB_LTYPE_FIXED32 \<longrightarrow> 4 \<le> sz)
         \<and> (PB_LTYPE type = PB_LTYPE_FIXED64 \<longrightarrow> 8 \<le> sz) \<and> (PB_LTYPE type = PB_LTYPE_BYTES \<longrightarrow> 2 \<le> sz))"

text \<open>A message type whose struct has \<open>n\<close> bytes, with the types of its submessages.\<close>

inductive wf_desc :: "nat \<Rightarrow> pb_msgdesc \<Rightarrow> bool" where
  wf_descI: "\<lbrakk>desc_arrays d; no_extensions d; tags_sorted d; default_value d = None;
     \<forall>i < n_fields d. field_fits n (f_type d i) (f_values d i);
     \<forall>i < n_fields d. PB_ATYPE (f_type d i) = PB_ATYPE_STATIC \<longrightarrow> PB_LTYPE_IS_SUBMSG (f_type d i) \<longrightarrow>
       (\<exists>d'. f_submsg d i = Some d' \<and> wf_desc (unat (fv_data_size (f_values d i))) d')\<rbrakk>
   \<Longrightarrow> wf_desc n d"

inductive_cases wf_descE: "wf_desc n d"

lemma u8_and_mask: "PB_ATYPE t AND 0xC0 = PB_ATYPE t" by (simp add: PB_ATYPE_def)

lemma pSize_iter_at:
  "it_pSize (iter_at d base i) = field_pSize (f_type d i)
     (base + unat (fv_data_offset (f_values d i))) (fv_size_offset (f_values d i))"
  by (simp add: iter_at_def Let_def)

lemma sint_small: "unat (w :: u8) < 128 \<Longrightarrow> sint w = int (unat w)"
proof -
  assume "unat w < 128"
  then have "uint w < 128" using uint_nat [of w] by linarith
  moreover have "0 \<le> uint w" by simp
  ultimately show ?thesis
    using signed_take_bit_int_eq_self [of 7 "uint w"] order_trans [of "- 128" 0 "uint w"]
    by (simp add: sint_uint)
qed

lemma it_live_pSize:
  assumes "it_live d base i it"
  shows "it_pSize it = it_pSize (iter_at d base i)
    \<or> it_pSize (iter_at d base i) = PS_ARRAY_SIZE \<and> it_pSize it = PS_FIXED_COUNT"
  using assms by (auto simp: it_live_def)

lemma it_live_pData:
  assumes "it_live d base i it"
  shows "it_pData it = it_pField it \<or> PB_HTYPE (f_type d i) = PB_HTYPE_REPEATED \<and> PB_ATYPE (f_type d i) = PB_ATYPE_STATIC"
  using assms by (auto simp: it_live_def)

lemma psize_safe_iter:
  assumes fit: "field_fits n (f_type d i) (f_values d i)" and base: "0 < base"
    and ptr: "PB_ATYPE (f_type d i) \<noteq> PB_ATYPE_POINTER" and it: "it_live d base i it"
  shows "psize_safe base (base + n) it"
proof -
  note sel = it_live_sel [OF it] and ps = it_live_pSize [OF it]
  let ?v = "f_values d i"
  let ?off = "unat (fv_data_offset ?v)" and ?so = "unat (fv_size_offset ?v)"
  have off: "?off \<le> n" using fit by (auto simp: field_fits_def Let_def)
  show ?thesis
  proof (cases "?so = 0")
    case True
    then have "fv_size_offset ?v = 0" by (simp add: unat_eq_0)
    then have "it_pSize (iter_at d base i) =
        (if PB_HTYPE (f_type d i) = PB_HTYPE_REPEATED \<and> PB_ATYPE (f_type d i) = PB_ATYPE_STATIC
         then PS_ARRAY_SIZE else PS_NULL)"
      using ptr by (simp add: pSize_iter_at field_pSize_def)
    with ps sel off fit True show ?thesis
      by (auto simp: psize_safe_def field_fits_def Let_def split: if_splits)
  next
    case False
    then have nz: "fv_size_offset ?v \<noteq> 0" by (simp add: unat_eq_0)
    have so: "?so < 128" "psize_width (f_type d i) \<le> ?so" "?so \<le> ?off"
      "PB_LTYPE (f_type d i) = PB_LTYPE_SUBMSG_W_CB \<longrightarrow> ?so + 8 \<le> ?off"
      using fit False by (simp_all add: field_fits_def Let_def)
    have "?so \<le> base + ?off" using so(3) by simp
    then have "nat (int (base + ?off) - sint (fv_size_offset ?v)) = base + ?off - ?so"
      by (simp only: sint_small [OF so(1)] of_nat_diff [symmetric] nat_int)
    then have "it_pSize (iter_at d base i) = PS_AT (base + ?off - ?so)"
      using nz by (simp add: pSize_iter_at field_pSize_def)
    with ps sel so off show ?thesis by (auto simp: psize_safe_def)
  qed
qed

lemma field_safe_iter:
  assumes fit: "field_fits n (f_type d i) (f_values d i)" and base: "0 < base"
    and ptr: "PB_ATYPE (f_type d i) \<noteq> PB_ATYPE_POINTER" and it: "it_live d base i it"
  shows "field_safe base (base + n) it"
proof -
  note sel = it_live_sel [OF it]
  let ?v = "f_values d i"
  have "unat (fv_data_offset ?v) + unat (fv_data_size ?v) * n_items it \<le> n"
    using fit unfolding field_fits_def Let_def n_items_def sel by (elim conjE)
  moreover have "unat (fv_data_size ?v) * k + unat (fv_data_size ?v) \<le> unat (fv_data_size ?v) * n_items it"
    if "k < n_items it" for k
    using mult_le_mono2 [of "Suc k" "n_items it" "unat (fv_data_size ?v)"] that by simp
  ultimately have items: "unat (fv_data_offset ?v) + (unat (fv_data_size ?v) * k + unat (fv_data_size ?v)) \<le> n"
    if "k < n_items it" for k
    using that by fastforce
  moreover have "(PB_LTYPE (it_type it) = PB_LTYPE_BOOL \<longrightarrow> 1 \<le> unat (it_data_size it))
     \<and> (PB_LTYPE (it_type it) = PB_LTYPE_FIXED32 \<longrightarrow> 4 \<le> unat (it_data_size it))
     \<and> (PB_LTYPE (it_type it) = PB_LTYPE_FIXED64 \<longrightarrow> 8 \<le> unat (it_data_size it))
     \<and> (PB_LTYPE (it_type it) = PB_LTYPE_BYTES \<longrightarrow> 2 \<le> unat (it_data_size it))"
    using fit unfolding field_fits_def Let_def sel by (elim conjE) (intro conjI)
  ultimately show ?thesis
    unfolding field_safe_def item_safe_def using psize_safe_iter [OF assms]
    by (simp add: sel)
qed

section \<open>Fields\<close>

lemma safe_decode_field:
  assumes f: "field_safe lo hi it" and u: "callbacks_ok u" and ps: "it_pSize it \<noteq> PS_ARRAY_SIZE"
    and sub: "PB_ATYPE (it_type it) = PB_ATYPE_STATIC \<Longrightarrow> sub_ok rec it"
    and d: "it_pData it = it_pField it \<or> PB_HTYPE (it_type it) = PB_HTYPE_REPEATED \<and> PB_ATYPE (it_type it) = PB_ATYPE_STATIC"
    and fc: "it_pSize it = PS_FIXED_COUNT \<Longrightarrow> PB_ATYPE (it_type it) = PB_ATYPE_STATIC"
  shows "safe lo hi (decode_field u rec wt it)"
proof -
  have cb: "safe lo hi (decode_callback_field u wt it)" if "PB_ATYPE (it_type it) \<noteq> PB_ATYPE_STATIC"
    by (rule safe_decode_callback_field [OF f u _ that ps]) (use that d fc in \<open>auto simp: n_items_def\<close>)
  have st: "safe lo hi (decode_static_field u rec wt it)" if "PB_ATYPE (it_type it) = PB_ATYPE_STATIC"
    by (rule safe_decode_static_field [OF f u sub [OF that] that ps]) (use d in auto)
  show ?thesis
    unfolding decode_field_def decode_pointer_field_def
    by (intro dec_if st cb safe_bind safe_in_error dec_return) auto
qed

section \<open>Default values\<close>

definition subs_ok :: "'w pb_rec \<Rightarrow> pb_msgdesc \<Rightarrow> bool" where
  "subs_ok rec d \<longleftrightarrow> (\<forall>i < n_fields d. PB_ATYPE (f_type d i) = PB_ATYPE_STATIC \<longrightarrow>
     PB_LTYPE_IS_SUBMSG (f_type d i) \<longrightarrow> (\<exists>d'. f_submsg d i = Some d' \<and> submsg_info d' \<noteq> []
       \<and> rec_safe rec d' (unat (fv_data_size (f_values d i)))))"

lemma sub_ok_iter:
  "subs_ok rec d \<Longrightarrow> i < n_fields d \<Longrightarrow> it_live d base i it \<Longrightarrow> PB_ATYPE (it_type it) = PB_ATYPE_STATIC \<Longrightarrow>
   sub_ok rec it"
  using it_live_sel [of d base i it] by (auto simp: subs_ok_def sub_ok_def)

text \<open>The iterator keeps its place; an array of fixed count may have its \<open>array_size\<close> set to 0.\<close>

lemma write_psize_0:
  assumes f: "psize_safe lo hi it" and h: "PB_HTYPE (it_type it) = PB_HTYPE_REPEATED \<or> PB_HTYPE (it_type it) = PB_HTYPE_ONEOF"
    and nn: "it_pSize it \<noteq> PS_NULL" and r: "ready lo hi s"
  shows "\<exists>t j. run_state (write_psize 0 it) s = (j, t) \<and> dstep False lo hi (endpos s) s t \<and>
    j \<in> {it, it\<lparr>it_array_size := 0\<rparr>}"
proof (cases "it_pSize it = PS_ARRAY_SIZE")
  case True
  then show ?thesis using dstep_refl [OF r, of False] by (auto simp: write_psize_def)
next
  case False
  with h nn have "counted it" by (cases "it_pSize it") (auto simp: counted_def psize_width_def)
  from run_write_psize [OF this f r, of 0] show ?thesis by blast
qed

lemma safe_bind_res:
  fixes m :: "('w pb, 'a) st"
  assumes "safe lo hi m" "results S m" "\<And>a. S a \<Longrightarrow> safe lo hi (f a)"
  shows "safe lo hi (State_Monad.bind m f)"
proof (rule safeI)
  fix s :: "'w pb"
  assume r: "ready lo hi s"
  obtain a t where m: "run_state m s = (a, t)" "dstep False lo hi (endpos s) s t" "S a"
    using safeD [OF assms(1) r] assms(2)
    by (cases "run_state m s") (auto simp: wp_def exec_st_def results_def dest: spec [of _ s])
  have "wp (f a) (\<lambda>_. dstep False lo hi (endpos s) s) t"
    by (rule wp_mono [OF safeD [OF assms(3) [OF m(3)] ready_dstep [OF r m(2)]]])
      (auto intro: dstep_trans [OF m(2)])
  with m(1) show "wp (State_Monad.bind m f) (\<lambda>_. dstep False lo hi (endpos s) s) s"
    by (simp add: wp_def result_st_def exec_st_def)
qed

lemma results_mono: "results R m \<Longrightarrow> (\<And>a. R a \<Longrightarrow> S a) \<Longrightarrow> results S m"
  by (simp add: results_def)

lemma results_write_psize_0: "results (\<lambda>j. j \<in> {it, it\<lparr>it_array_size := 0\<rparr>}) (write_psize 0 it)"
  by (cases "it_pSize it") (auto simp: write_psize_def fault_def intro!: res)

text \<open>The first half of \<open>pb_field_set_to_default\<close>: the has member and the count.\<close>

definition reset_member :: "pb_field_iter \<Rightarrow> ('w pb, bool \<times> pb_field_iter) st" where
  "reset_member it =
     (if PB_HTYPE (it_type it) = PB_HTYPE_OPTIONAL \<and> it_pSize it \<noteq> PS_NULL then do {
        write_has False it;
        return (True, it)
      }
      else if PB_HTYPE (it_type it) = PB_HTYPE_REPEATED \<or> PB_HTYPE (it_type it) = PB_HTYPE_ONEOF then do {
        it \<leftarrow> write_psize 0 it;
        return (False, it)
      }
      else return (True, it))"

lemma results_reset_member:
  "results (\<lambda>(init, j). if init then j = it \<and> PB_HTYPE (it_type it) \<noteq> PB_HTYPE_REPEATED
      else j \<in> {it, it\<lparr>it_array_size := 0\<rparr>}) (reset_member it)"
  unfolding reset_member_def
  by (intro res results_bind [OF results_write_psize_0]) auto

lemma safe_reset_member:
  assumes p: "psize_safe lo hi it" and at: "PB_ATYPE (it_type it) = PB_ATYPE_STATIC"
  shows "safe lo hi (reset_member it :: ('w pb, bool \<times> pb_field_iter) st)"
proof -
  have w: "safe lo hi (write_psize 0 it :: ('w pb, pb_field_iter) st)"
    if h: "PB_HTYPE (it_type it) = PB_HTYPE_REPEATED \<or> PB_HTYPE (it_type it) = PB_HTYPE_ONEOF"
  proof (rule safeI)
    fix s :: "'w pb"
    assume r: "ready lo hi s"
    have "it_pSize it \<noteq> PS_NULL" using p h at by (auto simp: psize_safe_def)
    from write_psize_0 [OF p h this r]
    show "wp (write_psize 0 it) (\<lambda>_. dstep False lo hi (endpos s) s) s"
      by (auto simp: wp_def exec_st_def)
  qed
  show ?thesis
    unfolding reset_member_def
    by (intro dec_if safe_bind safe_write_has p w dec_return) simp_all
qed

text \<open>The second half: the defaults of a submessage, or zeros.\<close>

definition reset_data :: "'w pb_rec \<Rightarrow> u8 \<Rightarrow> pb_field_iter \<Rightarrow> ('w pb, bool \<times> pb_field_iter) st" where
  "reset_data rec type it = do {
     d \<leftarrow> (if PB_LTYPE_IS_SUBMSG type
           then (case it_submsg_desc it of
                   None \<Rightarrow> fault None
                 | Some desc \<Rightarrow> do {
                     d \<leftarrow> needs_defaults desc;
                     return (if d then Some desc else None)
                   })
           else return None);
     case d of
       Some desc \<Rightarrow> do {
         ok \<leftarrow> rec_defaults rec desc (it_pData it);
         return (ok, it)
       }
     | None \<Rightarrow> do {
         mem_set (it_pData it) 0 (unat (it_data_size it));
         return (True, it)
       }
   }"

lemma results_reset_data: "results (\<lambda>(ok, j). j = it) (reset_data rec type it)"
  unfolding reset_data_def by (intro res) simp_all

lemma safe_reset_data:
  assumes item: "item_safe lo hi it" and rec: "sub_ok rec it"
  shows "safe lo hi (reset_data rec (it_type it) it)"
proof (rule safe_0)
  assume lo: "0 < lo"
  have clear: "safe lo hi (do { mem_set (it_pData it) 0 (unat (it_data_size it)); return (True, it) } ::
      ('a pb, bool \<times> pb_field_iter) st)"
    by (intro safe_bind dec_mem_set dec_return) (use item in \<open>auto simp: item_safe_def\<close>)
  show "safe lo hi (reset_data rec (it_type it) it)"
  proof (cases "PB_LTYPE_IS_SUBMSG (it_type it)")
    case False
    with clear show ?thesis by (simp add: reset_data_def)
  next
    case True
    obtain desc where desc: "it_submsg_desc it = Some desc" "submsg_info desc \<noteq> []"
      "rec_safe rec desc (unat (it_data_size it))"
      using rec True by (auto simp: sub_ok_def)
    have defaults: "safe lo hi (do { ok \<leftarrow> rec_defaults rec desc (it_pData it); return (ok, it) })"
      by (intro safe_bind rec_safeD(1) [OF desc(3) lo] dec_return)
        (use item in \<open>auto simp: item_safe_def\<close>)
    show ?thesis unfolding reset_data_def if_P [OF True] desc(1) option.case
      by (rule safe_bind_res [where S = "\<lambda>x. x = None \<or> x = Some desc"])
        (auto intro!: safe_needs_defaults desc(2) dec_return res intro: safe_bind clear defaults)
  qed
qed

lemma pb_field_set_to_default_eq:
  assumes "PB_LTYPE (it_type it) \<noteq> PB_LTYPE_EXTENSION" "PB_ATYPE (it_type it) \<noteq> PB_ATYPE_POINTER"
  shows "pb_field_set_to_default rec it = (if PB_ATYPE (it_type it) = PB_ATYPE_STATIC then do {
      (init_data, field) \<leftarrow> reset_member it;
      if \<not> init_data then return (True, field) else reset_data rec (it_type it) field
    } else return (True, it))"
  using assms by (simp add: pb_field_set_to_default_def Let_def reset_member_def reset_data_def)

lemma set_to_default:
  assumes f: "field_safe lo hi it" and d: "it_pData it = it_pField it"
    and rec: "PB_ATYPE (it_type it) = PB_ATYPE_STATIC \<Longrightarrow> sub_ok rec it"
    and ext: "PB_LTYPE (it_type it) \<noteq> PB_LTYPE_EXTENSION" "PB_ATYPE (it_type it) \<noteq> PB_ATYPE_POINTER"
  shows "safe lo hi (pb_field_set_to_default rec it)"
    and "results (\<lambda>(ok, j). j \<in> {it, it\<lparr>it_array_size := 0\<rparr>}) (pb_field_set_to_default rec it)"
proof -
  show "results (\<lambda>(ok, j). j \<in> {it, it\<lparr>it_array_size := 0\<rparr>}) (pb_field_set_to_default rec it)"
    unfolding pb_field_set_to_default_eq [OF ext]
  proof (intro results_if results_bind [OF results_reset_member])
    fix a :: "bool \<times> pb_field_iter"
    assume "case a of (init, j) \<Rightarrow> if init then j = it \<and> PB_HTYPE (it_type it) \<noteq> PB_HTYPE_REPEATED
        else j \<in> {it, it\<lparr>it_array_size := 0\<rparr>}"
    then show "results (\<lambda>(ok, j). j \<in> {it, it\<lparr>it_array_size := 0\<rparr>}) (case a of (init_data, field) \<Rightarrow>
        if \<not> init_data then return (True, field) else reset_data rec (it_type it) field)"
      by (cases a) (auto intro!: results_return results_mono [OF results_reset_data] split: if_splits)
  qed (simp add: results_return)
  have p: "psize_safe lo hi it" using f by (simp add: field_safe_def)
  have data: "safe lo hi (reset_data rec (it_type it) it)"
    if "PB_HTYPE (it_type it) \<noteq> PB_HTYPE_REPEATED" "PB_ATYPE (it_type it) = PB_ATYPE_STATIC"
    by (rule safe_reset_data [OF item_safe_single [OF f _ d] rec [OF that(2)]]) (simp add: n_items_def that)
  show "safe lo hi (pb_field_set_to_default rec it)"
    unfolding pb_field_set_to_default_eq [OF ext]
  proof (intro dec_if safe_bind_res [OF safe_reset_member [OF p] results_reset_member])
    fix a :: "bool \<times> pb_field_iter"
    assume "PB_ATYPE (it_type it) = PB_ATYPE_STATIC"
      and "case a of (init, j) \<Rightarrow> if init then j = it \<and> PB_HTYPE (it_type it) \<noteq> PB_HTYPE_REPEATED
        else j \<in> {it, it\<lparr>it_array_size := 0\<rparr>}"
    then show "safe lo hi (case a of (init_data, field) \<Rightarrow>
        if \<not> init_data then return (True, field) else reset_data rec (it_type it) field)"
      by (cases a) (auto intro!: dec_return data split: if_splits)
  qed (simp_all add: dec_return)
qed

text \<open>A descriptor of a struct of \<open>n\<close> bytes, when the submessages are taken care of.\<close>

definition msg_ok :: "nat \<Rightarrow> 'w pb_rec \<Rightarrow> pb_msgdesc \<Rightarrow> bool" where
  "msg_ok n rec d \<longleftrightarrow> desc_arrays d \<and> no_extensions d \<and> tags_sorted d \<and> default_value d = None
     \<and> (\<forall>i < n_fields d. field_fits n (f_type d i) (f_values d i)) \<and> subs_ok rec d"

lemma it_pos_array_size: "j \<in> {it, it\<lparr>it_array_size := v\<rparr>} \<Longrightarrow> it_pos d base i it \<Longrightarrow> it_pos d base i j"
  by (auto simp: it_pos_def)

lemma msg_ok_field:
  assumes "msg_ok n rec d" "0 < base" "i < n_fields d" "it_live d base i it"
  shows "field_safe base (base + n) it" "PB_ATYPE (it_type it) = PB_ATYPE_STATIC \<Longrightarrow> sub_ok rec it"
    "PB_LTYPE (it_type it) \<noteq> PB_LTYPE_EXTENSION" "PB_ATYPE (it_type it) \<noteq> PB_ATYPE_POINTER"
proof -
  have ptr: "PB_ATYPE (f_type d i) \<noteq> PB_ATYPE_POINTER"
    using assms(1,3) by (simp add: msg_ok_def desc_arrays_def)
  then show "PB_ATYPE (it_type it) \<noteq> PB_ATYPE_POINTER" using it_live_sel [OF assms(4)] by simp
  show "field_safe base (base + n) it"
    by (rule field_safe_iter [OF _ assms(2) ptr assms(4)]) (use assms(1,3) in \<open>simp add: msg_ok_def\<close>)
  show "PB_ATYPE (it_type it) = PB_ATYPE_STATIC \<Longrightarrow> sub_ok rec it"
    by (rule sub_ok_iter [OF _ assms(3,4)]) (use assms(1) in \<open>simp add: msg_ok_def\<close>)
  show "PB_LTYPE (it_type it) \<noteq> PB_LTYPE_EXTENSION"
    using assms(1,3) it_live_sel [OF assms(4)] by (simp add: msg_ok_def no_extensions_def)
qed

lemma wp_defaults_loop:
  assumes m: "msg_ok n rec d" and base: "0 < base"
  shows "i < n_fields d \<Longrightarrow> k = n_fields d - i \<Longrightarrow> ready base (base + n) s \<Longrightarrow>
    wp (defaults_loop k u rec defs wt 0 (iter_at d base i))
      (\<lambda>(ok, j) t. dstep False base (base + n) (endpos s) s t \<and> (ok \<longrightarrow> j = iter_at d base 0)) s"
proof (induction k arbitrary: i s)
  case 0
  then show ?case by simp
next
  case (Suc k)
  let ?it = "iter_at d base i"
  note field = msg_ok_field [OF m base Suc.prems(1) it_live_iter_at]
  have arr: "desc_arrays d" using m by (simp add: msg_ok_def)
  have def: "safe base (base + n) (pb_field_set_to_default rec ?it)"
    "results (\<lambda>(ok, j). j \<in> {?it, ?it\<lparr>it_array_size := 0\<rparr>}) (pb_field_set_to_default rec ?it)"
    by (rule set_to_default [OF field(1) _ field(2-4)]; simp)+
  obtain ok j t where run: "run_state (pb_field_set_to_default rec ?it) s = ((ok, j), t)"
    and st: "dstep False base (base + n) (endpos s) s t" and j: "j \<in> {?it, ?it\<lparr>it_array_size := 0\<rparr>}"
    using safeD [OF def(1) Suc.prems(3)] def(2)
    by (cases "run_state (pb_field_set_to_default rec ?it) s")
      (auto simp: wp_def exec_st_def results_def split_def dest: spec [of _ s])
  have rt: "ready base (base + n) t" by (rule ready_dstep [OF Suc.prems(3) st]) simp
  have "it_pos d base i j" by (rule it_pos_array_size [OF j]) simp
  note nxt = run_iter_next [OF arr Suc.prems(1) this base, of t]
  show ?case
  proof (cases ok)
    case False
    with run st show ?thesis by (simp add: wp_def result_st_def exec_st_def)
  next
    case ok: True
    show ?thesis
    proof (cases "Suc i < n_fields d")
      case False
      then have "Suc i mod n_fields d = 0" using Suc.prems(1) by (simp add: mod_Suc)
      with False ok run st nxt show ?thesis by (simp add: wp_def result_st_def exec_st_def)
    next
      case True
      then have "k = n_fields d - Suc i" using Suc.prems(2) by simp
      from Suc.IH [OF True this rt]
      have "wp (defaults_loop k u rec defs wt 0 (iter_at d base (Suc i)))
          (\<lambda>(ok, j) u. dstep False base (base + n) (endpos s) s u \<and> (ok \<longrightarrow> j = iter_at d base 0)) t"
        by (rule wp_mono) (auto intro: dstep_trans [OF st])
      with True ok run nxt show ?thesis by (simp add: wp_def result_st_def exec_st_def)
    qed
  qed
qed

lemma wp_message_set_to_defaults:
  assumes m: "msg_ok n rec d" and base: "0 < base" and n: "0 < n_fields d" and r: "ready base (base + n) s"
  shows "wp (pb_message_set_to_defaults u rec (iter_at d base 0))
    (\<lambda>(ok, j) t. dstep False base (base + n) (endpos s) s t \<and> (ok \<longrightarrow> j = iter_at d base 0)) s"
proof -
  have "default_value d = None" using m by (simp add: msg_ok_def)
  then have "pb_message_set_to_defaults u rec (iter_at d base 0) =
      defaults_loop (n_fields d) u rec PB_ISTREAM_EMPTY PB_WT_VARINT 0 (iter_at d base 0)"
    by (simp add: pb_message_set_to_defaults_def)
  then show ?thesis using wp_defaults_loop [OF m base n _ r, of "n_fields d"] by simp
qed

section \<open>The loop over the fields of the input\<close>

text \<open>The iterator between two fields.\<close>

definition it_good :: "pb_msgdesc \<Rightarrow> nat \<Rightarrow> pb_field_iter \<Rightarrow> bool" where
  "it_good d base it \<longleftrightarrow> (\<exists>i < n_fields d. it_live d base i it)
     \<or> n_fields d = 0 \<and> it = zero_iter d base"

lemma wp_both: "wp m (\<lambda>_. P) s \<Longrightarrow> results R m \<Longrightarrow> wp m (\<lambda>a t. P t \<and> R a) s"
  by (simp add: wp_def results_def result_st_def)

lemma find_extension_good:
  assumes m: "msg_ok n rec d" and base: "0 < base" and it: "it_good d base it"
  shows "\<exists>j. run_state (pb_field_iter_find_extension it) s = ((False, j), s) \<and> it_good d base j"
proof -
  have d: "desc_arrays d" "no_extensions d" using m by (simp_all add: msg_ok_def)
  from it consider i where "i < n_fields d" "it_live d base i it" | "n_fields d = 0" "it = zero_iter d base"
    by (auto simp: it_good_def)
  then show ?thesis
  proof cases
    case 1
    from run_find_extension [OF d base 1] 1(1) show ?thesis
      by (auto simp: it_good_def intro!: it_live_iter_at)
  next
    case 2
    from run_find_extension_empty [OF d 2(1)] 2 show ?thesis by (auto simp: it_good_def)
  qed
qed

lemma wp_decode_unknown:
  assumes m: "msg_ok n rec d" and base: "0 < base" and it: "it_good d base it" and l: "extensions l = 0"
    and r: "ready lo hi s"
  shows "wp (decode_unknown tag wt it l)
    (\<lambda>(ok, j, k) t. dstep False lo hi (endpos s) s t \<and> it_good d base j \<and> extensions k = 0) s"
proof -
  obtain j where j: "run_state (pb_field_iter_find_extension it) s = ((False, j), s)" "it_good d base j"
    using find_extension_good [OF m base it] by blast
  have "wp (pb_skip_field wt) (\<lambda>_. dstep False lo hi (endpos s) s) s"
    by (rule safeD [OF safe_reads [OF reads_pb_skip_field] r])
  with j it l show ?thesis
    by (auto simp: wp_def result_st_def exec_st_def decode_unknown_def split_def)
qed

lemma enter_fixed_count:
  shows "safe lo hi (enter_fixed_count it l)"
    and "it_live d base i it \<Longrightarrow> results (\<lambda>(ok, j, k). it_live d base i j \<and> extensions k = extensions l \<and>
      (ok \<longrightarrow> it_pSize j \<noteq> PS_ARRAY_SIZE)) (enter_fixed_count it l)"
proof -
  show "safe lo hi (enter_fixed_count it l)"
    unfolding enter_fixed_count_def fixed_count_mismatch_def
    by (intro dec_if dec_case_prod safe_bind dec_return dec_gets safe_in_error safe_fixed_count) simp_all
  assume it: "it_live d base i it"
  have rep: "PB_HTYPE (it_type it) = PB_HTYPE_REPEATED" if "it_pSize it = PS_ARRAY_SIZE"
    using that it_live_pSize [OF it] it_live_sel [OF it]
    by (auto simp: pSize_iter_at field_pSize_def split: if_splits)
  have fixed: "it_live d base i (it\<lparr>it_pSize := PS_FIXED_COUNT\<rparr>)" if "it_pSize it = PS_ARRAY_SIZE"
    using it that unfolding it_live_def by (elim exE) auto
  show "results (\<lambda>(ok, j, k). it_live d base i j \<and> extensions k = extensions l \<and>
      (ok \<longrightarrow> it_pSize j \<noteq> PS_ARRAY_SIZE)) (enter_fixed_count it l)"
  proof (cases "PB_HTYPE (it_type it) = PB_HTYPE_REPEATED \<and> it_pSize it = PS_ARRAY_SIZE")
    case False
    with it rep show ?thesis by (auto simp: enter_fixed_count_def intro!: results_return)
  next
    case True
    have "results (\<lambda>(ok, k). extensions k = extensions l)
       (if fixed_count_field l \<noteq> it_index it then do {
             bad \<leftarrow> fixed_count_mismatch l;
             if bad then do {
               ok \<leftarrow> in_error ''wrong size for fixed count field'';
               return (ok, l)
             }
             else do {
               modify (\<lambda>s. s\<lparr>pb_fixed_count := 0\<rparr>);
               return (True, l\<lparr>fixed_count_field := it_index it,
                 fixed_count_total_size := it_array_size it\<rparr>)
             }
           }
           else return (True, l))"
      by (intro res) simp_all
    then show ?thesis
      unfolding enter_fixed_count_def if_P [OF True]
      by (rule results_bind) (use it fixed True in \<open>auto intro!: results_return\<close>)
  qed
qed

lemma extensions_mark_seen [simp]: "extensions (mark_seen it l) = extensions l"
  by (simp add: mark_seen_def Let_def)

lemma it_live_item:
  assumes "it_live d base i it" "PB_HTYPE (f_type d i) = PB_HTYPE_REPEATED" "PB_ATYPE (f_type d i) = PB_ATYPE_STATIC"
  shows "it_live d base i (it\<lparr>it_pData := pd\<rparr>)"
proof -
  obtain pd' ps where it: "it = (iter_at d base i)\<lparr>it_pData := pd', it_pSize := ps\<rparr>"
    and ps: "ps = it_pSize (iter_at d base i)
        \<or> it_pSize (iter_at d base i) = PS_ARRAY_SIZE \<and> ps = PS_FIXED_COUNT"
    using assms(1) unfolding it_live_def by blast
  have "it\<lparr>it_pData := pd\<rparr> = (iter_at d base i)\<lparr>it_pData := pd, it_pSize := ps\<rparr>"
    unfolding it by simp
  with ps assms(2,3) show ?thesis unfolding it_live_def by blast
qed

lemma safe_decode_live:
  assumes m: "msg_ok n rec d" and base: "0 < base" and i: "i < n_fields d" and it: "it_live d base i it"
    and u: "callbacks_ok u" and ps: "it_pSize it \<noteq> PS_ARRAY_SIZE"
  shows "safe base (base + n) (decode_field u rec wt it)"
    and "results (\<lambda>(ok, j). it_live d base i j) (decode_field u rec wt it)"
proof -
  note field = msg_ok_field [OF m base i it] and sel = it_live_sel [OF it]
  have "it_pSize it = PS_FIXED_COUNT \<Longrightarrow> PB_ATYPE (it_type it) = PB_ATYPE_STATIC"
    using it_live_pSize [OF it] field(4) sel
    by (auto simp: pSize_iter_at field_pSize_def split: if_splits)
  with it_live_pData [OF it] sel show "safe base (base + n) (decode_field u rec wt it)"
    by (intro safe_decode_field [OF field(1) u ps field(2)]) auto
  show "results (\<lambda>(ok, j). it_live d base i j) (decode_field u rec wt it)"
  proof (rule results_mono [OF results_decode_field [OF ps]])
    fix a assume "case a of (ok, j) \<Rightarrow> same_field it j \<and>
      (PB_HTYPE (it_type it) = PB_HTYPE_REPEATED \<and> PB_ATYPE (it_type it) = PB_ATYPE_STATIC \<or> j = it)"
    then show "case a of (ok, j) \<Rightarrow> it_live d base i j"
      using it sel it_live_item [OF it] by (auto simp: same_field_def split: prod.splits)
  qed
qed

lemma wp_decode_one:
  assumes m: "msg_ok n rec d" and base: "0 < base" and it: "it_good d base it" and l: "extensions l = 0"
    and u: "callbacks_ok u" and r: "ready base (base + n) s" and tag: "tag \<noteq> 0"
  shows "wp (decode_one u rec wt tag it l)
    (\<lambda>(ok, j, k) t. dstep False base (base + n) (endpos s) s t \<and> it_good d base j \<and> extensions k = 0) s"
proof -
  have d: "desc_arrays d" "no_extensions d" "tags_sorted d" using m by (simp_all add: msg_ok_def)
  from it consider (live) i where "i < n_fields d" "it_live d base i it"
    | (empty) "n_fields d = 0" "it = zero_iter d base"
    by (auto simp: it_good_def)
  then show ?thesis
  proof cases
    case empty
    from run_iter_find_empty [OF d(3) empty(1) tag, of base s] wp_decode_unknown [OF m base it l r, of tag wt] empty
    show ?thesis by (simp add: wp_def result_st_def exec_st_def decode_one_def)
  next
    case live
    obtain f q j where find: "run_state (pb_field_iter_find it tag) s = ((f, j), s)"
      and q: "q < n_fields d" "it_live d base q j"
      using run_iter_find [OF d base live] by blast
    have good: "it_good d base j" using q by (auto simp: it_good_def)
    show ?thesis
    proof (cases f)
      case False
      with find wp_decode_unknown [OF m base good l r, of tag wt] show ?thesis
        by (simp add: wp_def result_st_def exec_st_def decode_one_def)
    next
      case True
      let ?k = "\<lambda>(ok, iter, l). if \<not> ok then return (False, iter, l)
        else do {
          l \<leftarrow> return (mark_seen iter l);
          (ok, iter) \<leftarrow> decode_field u rec wt iter;
          return (ok, iter, l)
        }"
      let ?R = "\<lambda>(ok, j, k). it_live d base q j \<and> extensions k = extensions l \<and>
        (ok \<longrightarrow> it_pSize j \<noteq> PS_ARRAY_SIZE)"
      note live_field = safe_decode_live [OF m base q(1) _ u]
      have "safe base (base + n) (State_Monad.bind (enter_fixed_count j l) ?k)"
        by (rule safe_bind_res [OF enter_fixed_count(1) enter_fixed_count(2) [OF q(2)]])
          (auto intro!: dec_if dec_return safe_bind live_field(1))
      moreover have "results (\<lambda>(ok, j, k). it_good d base j \<and> extensions k = 0)
          (State_Monad.bind (enter_fixed_count j l) ?k)"
      proof (rule results_bind [OF enter_fixed_count(2) [OF q(2)]])
        fix a :: "bool \<times> pb_field_iter \<times> dec_locals"
        assume R: "?R a"
        obtain ok j' k where a: "a = (ok, j', k)" by (cases a)
        from R a q(1) l show "results (\<lambda>(ok, j, k). it_good d base j \<and> extensions k = 0) (?k a)"
          by (auto simp: it_good_def intro!: results_return results_bind [OF live_field(2)])
      qed
      ultimately have "wp (State_Monad.bind (enter_fixed_count j l) ?k)
          (\<lambda>a t. dstep False base (base + n) (endpos s) s t \<and>
            (case a of (ok, j, k) \<Rightarrow> it_good d base j \<and> extensions k = 0)) s"
        by (intro wp_both safeD r)
      with True find msg_ok_field(3) [OF m base q] show ?thesis
        by (simp add: wp_def result_st_def exec_st_def decode_one_def split_def)
    qed
  qed
qed

lemma dstep_fail_in: "dstep fx lo hi E s t \<Longrightarrow> dstep fx lo hi E s (fail_in msg t)"
  by (simp add: dstep_def in_step_def fail_in_def)

lemma safe_bind_wp:
  fixes m :: "('w pb, 'a) st"
  assumes "\<And>s. ready lo hi s \<Longrightarrow> wp m (\<lambda>a t. dstep False lo hi (endpos s) s t \<and> R a) s"
    "\<And>a. R a \<Longrightarrow> safe lo hi (f a)"
  shows "safe lo hi (State_Monad.bind m f)"
proof (rule safeI, rule wp_bind)
  fix s :: "'w pb"
  assume r: "ready lo hi s"
  show "wp m (\<lambda>a. wp (f a) (\<lambda>_. dstep False lo hi (endpos s) s)) s"
  proof (rule wp_mono [OF assms(1) [OF r]], elim conjE)
    fix a t assume st: "dstep False lo hi (endpos s) s t" and R: "R a"
    show "wp (f a) (\<lambda>_. dstep False lo hi (endpos s) s) t"
      by (rule wp_mono [OF safeD [OF assms(2) [OF R] ready_dstep [OF r st]]]) (auto intro: dstep_trans [OF st])
  qed
qed

lemma wp_decode_loop:
  assumes m: "msg_ok n rec d" and base: "0 < base" and u: "callbacks_ok u"
  shows "it_good d base it \<Longrightarrow> extensions l = 0 \<Longrightarrow> ready base (base + n) s \<Longrightarrow> left (pb_in s) < k \<Longrightarrow>
    wp (decode_loop k u rec flags it l) (\<lambda>_ t. dstep False base (base + n) (endpos s) s t) s"
proof (induction k arbitrary: it l s)
  case 0
  then show ?case by simp
next
  case (Suc k)
  let ?Q = "\<lambda>_ t. dstep False base (base + n) (endpos s) s t"
  have same: "?Q a s" for a :: "dec_locals option" by (rule dstep_refl [OF Suc.prems(3)])
  show ?case
  proof (cases "bytes_left (pb_in s) = 0")
    case True
    with same show ?thesis by (simp add: wp_def exec_st_def)
  next
    case False
    obtain v eof t where tag: "run_state pb_decode_tag s = ((v, eof), t)"
      and st: "dstep False base (base + n) (endpos s) s t" and less: "got v \<Longrightarrow> left (pb_in t) + 1 \<le> left (pb_in s)"
      using decD [OF dec_reads [OF reads_pb_decode_tag, where fx = False] Suc.prems(3)]
      by (cases "run_state pb_decode_tag s") (auto simp: wp_def result_st_def exec_st_def)
    have rt: "ready base (base + n) t" by (rule ready_dstep [OF Suc.prems(3) st]) simp
    show ?thesis
    proof (cases v)
      case None
      with False tag st show ?thesis by (simp add: wp_def exec_st_def)
    next
      case (Some w)
      obtain wt tg where w: "w = (wt, tg)" by (cases w)
      show ?thesis
      proof (cases "tg = 0")
        case True
        with False tag st Some w dstep_fail_in [OF st] show ?thesis by (simp add: wp_def exec_st_def)
      next
        case tg: False
        obtain ok j l' t' where one: "run_state (decode_one u rec wt tg it l) t = ((ok, j, l'), t')"
          and st': "dstep False base (base + n) (endpos t) t t'" and j: "it_good d base j" "extensions l' = 0"
          using wp_decode_one [OF m base Suc.prems(1,2) u rt tg, of wt]
          by (cases "run_state (decode_one u rec wt tg it l) t") (auto simp: wp_def result_st_def exec_st_def)
        have ss: "dstep False base (base + n) (endpos s) s t'" by (rule dstep_trans [OF st st'])
        show ?thesis
        proof (cases ok)
          case False
          with \<open>bytes_left (pb_in s) \<noteq> 0\<close> tag Some w tg one ss show ?thesis by (simp add: wp_def exec_st_def)
        next
          case ok: True
          have rt': "ready base (base + n) t'" by (rule ready_dstep [OF rt st']) simp
          have "left (pb_in t') \<le> left (pb_in t)" using st' by (simp add: dstep_def in_step_def)
          then have "left (pb_in t') < k" using less Some Suc.prems(4) by simp
          from Suc.IH [OF j rt' this]
          have "wp (decode_loop k u rec flags j l') ?Q t'"
            by (rule wp_mono) (rule dstep_trans [OF ss])
          with False tag Some w tg one ok show ?thesis by (simp add: wp_def result_st_def exec_st_def)
        qed
      qed
    qed
  qed
qed

section \<open>Messages\<close>

lemma safe_decode_checks: "safe lo hi (decode_checks d l)"
  unfolding decode_checks_def fixed_count_mismatch_def
  by (intro dec_if safe_bind dec_return dec_gets safe_in_error) simp_all

lemma safe_submsg_defaults:
  assumes m: "msg_ok n rec d" and base: "0 < base"
  shows "safe base (base + n) (submsg_defaults u rec d base)"
proof (rule safeI)
  fix s :: "'a pb"
  assume r: "ready base (base + n) s"
  have d: "desc_arrays d" using m by (simp add: msg_ok_def)
  show "wp (submsg_defaults u rec d base) (\<lambda>_ t. dstep False base (base + n) (endpos s) s t) s"
  proof (cases "0 < n_fields d")
    case True
    with run_iter_begin [OF d base, of s] wp_message_set_to_defaults [OF m base True r, of u]
    show ?thesis by (auto simp: wp_def result_st_def exec_st_def submsg_defaults_def split: prod.splits)
  next
    case False
    with run_iter_begin [OF d base, of s] dstep_refl [OF r, of False]
    show ?thesis by (simp add: wp_def exec_st_def submsg_defaults_def)
  qed
qed

lemma it_good_begin:
  "desc_arrays d \<Longrightarrow> it_good d base (if 0 < n_fields d then iter_at d base 0 else zero_iter d base)"
  by (auto simp: it_good_def)

lemma wp_iter_begin:
  assumes "desc_arrays d" "0 < base" "ready lo hi s"
  shows "wp (pb_field_iter_begin d base) (\<lambda>(ok, it) t. dstep False lo hi (endpos s) s t \<and>
    it_good d base it \<and> (ok \<longrightarrow> 0 < n_fields d \<and> it = iter_at d base 0)) s"
  using run_iter_begin [OF assms(1,2), of s] it_good_begin [OF assms(1), of base] dstep_refl [OF assms(3)]
  by (auto simp: wp_def result_st_def exec_st_def)

lemma wp_inner_defaults:
  assumes m: "msg_ok n rec d" and base: "0 < base" and r: "ready base (base + n) s"
    and it: "it_good d base it" "ok \<longrightarrow> 0 < n_fields d \<and> it = iter_at d base 0"
  shows "wp (if ok \<and> c then do {
        (ok, iter) \<leftarrow> pb_message_set_to_defaults u rec it;
        if \<not> ok then do {
          ok \<leftarrow> in_error ''failed to set defaults'';
          return (ok, iter)
        }
        else return (True, iter)
      }
      else return (True, it))
    (\<lambda>(ok, j) t. dstep False base (base + n) (endpos s) s t \<and> (ok \<longrightarrow> it_good d base j)) s"
proof (rule wp_if)
  assume "ok \<and> c"
  with it have n: "0 < n_fields d" "it = iter_at d base 0" by auto
  have good: "it_good d base (iter_at d base 0)" using n(1) by (auto simp: it_good_def)
  show "wp (do {
        (ok, iter) \<leftarrow> pb_message_set_to_defaults u rec it;
        if \<not> ok then do {
          ok \<leftarrow> in_error ''failed to set defaults'';
          return (ok, iter)
        }
        else return (True, iter)
      }) (\<lambda>(ok, j) t. dstep False base (base + n) (endpos s) s t \<and> (ok \<longrightarrow> it_good d base j)) s"
    unfolding n(2)
    by (rule wp_bind, rule wp_mono [OF wp_message_set_to_defaults [OF m base n(1) r]])
      (auto simp: good wp_def result_st_def exec_st_def intro: dstep_fail_in split: prod.splits)
qed (use it(1) dstep_refl [OF r] in \<open>simp add: wp_def result_st_def exec_st_def\<close>)

lemma safe_inner_loop:
  assumes m: "msg_ok n rec d" and base: "0 < base" and u: "callbacks_ok u" and it: "it_good d base it"
  shows "safe base (base + n) (do {
      left \<leftarrow> gets (\<lambda>s. bytes_left (pb_in s));
      with_value (decode_loop (Suc (unat left)) u rec flags it dec_locals_init) (decode_checks d)
    })"
proof (rule safeI, intro wp_bind wp_gets)
  fix s :: "'a pb"
  assume r: "ready base (base + n) s"
  have loop: "wp (decode_loop (Suc (left (pb_in s))) u rec flags it dec_locals_init)
      (\<lambda>_ t. dstep False base (base + n) (endpos s) s t) s"
    by (rule wp_decode_loop [OF m base u it _ r]) (simp_all add: dec_locals_init_def)
  show "wp (with_value (decode_loop (Suc (unat (bytes_left (pb_in s)))) u rec flags it dec_locals_init)
      (decode_checks d)) (\<lambda>_. dstep False base (base + n) (endpos s) s) s"
    unfolding with_value_def
  proof (rule wp_bind, rule wp_mono [OF loop])
    fix v :: "dec_locals option" and t :: "'a pb"
    assume st: "dstep False base (base + n) (endpos s) s t"
    have "safe base (base + n) (case v of None \<Rightarrow> return False | Some l \<Rightarrow> decode_checks d l)"
      by (intro dec_case_option safe_decode_checks dec_return) simp
    from safeD [OF this ready_dstep [OF r st]]
    show "wp (case v of None \<Rightarrow> return False | Some l \<Rightarrow> decode_checks d l)
        (\<lambda>_. dstep False base (base + n) (endpos s) s) t"
      by (rule wp_mono) (auto intro: dstep_trans [OF st])
  qed
qed

lemma safe_decode_inner:
  assumes m: "msg_ok n rec d" and base: "0 < base" and u: "callbacks_ok u"
  shows "safe base (base + n) (decode_inner u rec d base flags)"
proof -
  have d: "desc_arrays d" using m by (simp add: msg_ok_def)
  show ?thesis
    unfolding decode_inner_def
  proof (intro safe_bind [OF dec_gets] safe_bind [OF safe_fixed_count])
    fix outer
    show "safe base (base + n) (do {
       (ok, iter) \<leftarrow> pb_field_iter_begin d base;
       (ok, iter) \<leftarrow>
         (if ok \<and> flags AND PB_DECODE_NOINIT = 0 then do {
            (ok, iter) \<leftarrow> pb_message_set_to_defaults u rec iter;
            if \<not> ok then do {
              ok \<leftarrow> in_error ''failed to set defaults'';
              return (ok, iter)
            }
            else return (True, iter)
          }
          else return (True, iter));
       ok \<leftarrow>
         (if \<not> ok then return False
          else do {
            left \<leftarrow> gets (\<lambda>s. bytes_left (pb_in s));
            with_value (decode_loop (Suc (unat left)) u rec flags iter dec_locals_init)
              (decode_checks d)
          });
       modify (\<lambda>s. s\<lparr>pb_fixed_count := outer\<rparr>);
       return ok
     })"
    proof (rule safe_bind_wp [where R = "\<lambda>(ok, it). it_good d base it \<and> (ok \<longrightarrow> 0 < n_fields d \<and> it = iter_at d base 0)"],
        goal_cases)
      case (1 s)
      from wp_iter_begin [OF d base 1] show ?case by (rule wp_mono) auto
    next
      case (2 a)
      obtain ok it where a: "a = (ok, it)" by (cases a)
      with 2 have it: "it_good d base it" "ok \<longrightarrow> 0 < n_fields d \<and> it = iter_at d base 0" by auto
      show ?case
        unfolding a prod.case
      proof (rule safe_bind_wp [where R = "\<lambda>(ok, j). ok \<longrightarrow> it_good d base j"], goal_cases)
        case (1 s)
        from wp_inner_defaults [OF m base 1 it, of "flags AND PB_DECODE_NOINIT = 0" u]
        show ?case by (rule wp_mono) auto
      next
        case (2 b)
        obtain ok j where b: "b = (ok, j)" by (cases b)
        show ?case
          unfolding b prod.case
          by (rule safe_bind, rule dec_if, rule dec_return, simp, rule safe_inner_loop [OF m base u],
            use 2 b in simp, rule safe_bind [OF safe_fixed_count], rule dec_return, simp)
      qed
    qed
  qed
qed

lemma desc_depth_submsg:
  assumes "Some d' \<in> set (submsg_info d)"
  shows "desc_depth d' < desc_depth d"
proof -
  have le: "x \<in> set xs \<Longrightarrow> x \<le> foldr max xs (0 :: nat)" for x xs
    by (induction xs) (auto simp: le_max_iff_disj)
  obtain fi subs dv cb fc rc lt where d: "d = PbMsgdesc fi subs dv cb fc rc lt" by (cases d)
  have "desc_depth d' \<in> set (map (\<lambda>d. case d of None \<Rightarrow> 0 | Some d \<Rightarrow> desc_depth d) subs)"
    using assms unfolding d by (force simp: image_iff)
  from le [OF this] show ?thesis unfolding d by simp
qed

lemma msg_ok_wf:
  assumes "wf_desc n d" "\<And>d' m. wf_desc m d' \<Longrightarrow> desc_depth d' < desc_depth d \<Longrightarrow> rec_safe rec d' m"
  shows "msg_ok n rec d"
proof -
  note wf = wf_desc.cases [OF assms(1)]
  have arr: "desc_arrays d" by (rule wf) simp
  have subs: "subs_ok rec d"
    unfolding subs_ok_def
  proof (intro allI impI)
    fix i assume i: "i < n_fields d" "PB_ATYPE (f_type d i) = PB_ATYPE_STATIC" "PB_LTYPE_IS_SUBMSG (f_type d i)"
    then obtain d' where d': "f_submsg d i = Some d'" "wf_desc (unat (fv_data_size (f_values d i))) d'"
      by (rule_tac wf) auto
    have "sub_index d i \<le> sub_index d (n_fields d)" using i(1) by (intro sub_index_mono) simp
    then have "sub_index d i < length (submsg_info d)" using arr by (simp add: desc_arrays_def)
    then have "Some d' \<in> set (submsg_info d)" using d'(1) i(3) by (simp add: f_submsg_def) (metis nth_mem)
    then have "rec_safe rec d' (unat (fv_data_size (f_values d i)))"
      by (intro assms(2) [OF d'(2)] desc_depth_submsg)
    moreover have "submsg_info d' \<noteq> []"
      using d'(2) by cases (auto simp: desc_arrays_def)
    ultimately show "\<exists>d'. f_submsg d i = Some d' \<and> submsg_info d' \<noteq> [] \<and>
        rec_safe rec d' (unat (fv_data_size (f_values d i)))"
      using d'(1) by blast
  qed
  show ?thesis unfolding msg_ok_def by (rule wf) (simp add: subs)
qed

lemma rec_safe_decode_depth:
  assumes u: "callbacks_ok u"
  shows "wf_desc n d \<Longrightarrow> desc_depth d \<le> k \<Longrightarrow> rec_safe (decode_depth k u) d n"
proof (induction k arbitrary: n d)
  case 0
  then show ?case by (cases d) simp
next
  case (Suc k)
  have "msg_ok n (decode_depth k u) d"
    by (rule msg_ok_wf [OF Suc.prems(1)]) (use Suc in auto)
  then show ?case
    unfolding rec_safe_def by (auto intro: safe_submsg_defaults safe_decode_inner u)
qed

end
