(* ===== verification/Nanopb_Schema_Wf.thy ===== *)
theory Nanopb_Schema_Wf
  imports Nanopb_Bind Nanopb_Safe_Decode
begin

text \<open>
  Every message type of the repository is laid out so that the decoder is safe on it: the static
  assertions of its field list hold, the fields lie in the struct, and the submessages are
  well-formed for the size of the member that holds them.
\<close>

definition sub_entry_ok :: "pb_field_entry \<Rightarrow> bool" where
  "sub_entry_ok e \<longleftrightarrow> (fe_atype e = AT_STATIC \<longrightarrow> fe_ltype e = LT_MESSAGE \<or> fe_ltype e = LT_MSG_W_CB \<longrightarrow>
     (\<exists>d. fe_submsg e = Some d \<and> wf_desc (unat (ucast (fe_data_size e) :: u16)) d))"

lemma wf_PB_BIND:
  assumes b: "bind_ok width es" and f: "list_all (\<lambda>e. field_fits n (fe_type e) (entry_values e)) es"
    and s: "list_all sub_entry_ok es"
  shows "wf_desc n (PB_BIND width cb es)"
proof -
  have ok: "list_all (bind_entry_ok width) es" and n: "n_fields (PB_BIND width cb es) = length es"
    using b n_fields_PB_BIND [of es width cb] by (simp_all add: bind_ok_def)
  note field = PB_BIND_field [OF ok, of _ cb]
  show ?thesis
  proof (rule wf_descI)
    show "desc_arrays (PB_BIND width cb es)" "no_extensions (PB_BIND width cb es)" "tags_sorted (PB_BIND width cb es)"
      using desc_arrays_PB_BIND [OF b] no_extensions_PB_BIND [OF b] tags_sorted_PB_BIND [OF b] by simp_all
    show "\<forall>i < n_fields (PB_BIND width cb es).
        field_fits n (f_type (PB_BIND width cb es) i) (f_values (PB_BIND width cb es) i)"
      unfolding n using f field by (simp add: list_all_length)
    show "\<forall>i < n_fields (PB_BIND width cb es). PB_ATYPE (f_type (PB_BIND width cb es) i) = PB_ATYPE_STATIC \<longrightarrow>
        PB_LTYPE_IS_SUBMSG (f_type (PB_BIND width cb es) i) \<longrightarrow>
        (\<exists>d'. f_submsg (PB_BIND width cb es) i = Some d' \<and>
          wf_desc (unat (fv_data_size (f_values (PB_BIND width cb es) i))) d')"
      unfolding n
    proof (intro allI impI)
      fix i assume i: "i < length es" "PB_ATYPE (f_type (PB_BIND width cb es) i) = PB_ATYPE_STATIC"
        "PB_LTYPE_IS_SUBMSG (f_type (PB_BIND width cb es) i)"
      have "fe_atype (es ! i) = AT_STATIC"
        using i field by (cases "fe_atype (es ! i)") (simp_all add: fe_type_parts atype_code_def)
      moreover have sub: "PB_LTYPE_IS_SUBMSG (fe_type (es ! i))" using i field by simp
      ultimately obtain d where "fe_submsg (es ! i) = Some d" "wf_desc (unat (ucast (fe_data_size (es ! i)) :: u16)) d"
        using s i(1) by (auto simp: list_all_length sub_entry_ok_def is_submsg_fe_type)
      with PB_BIND_submsg [OF ok i(1) sub] field(2) [OF i(1)]
      show "\<exists>d'. f_submsg (PB_BIND width cb es) i = Some d' \<and>
          wf_desc (unat (fv_data_size (f_values (PB_BIND width cb es) i))) d'"
        by (simp add: entry_values_def)
    qed
  qed simp
qed

lemmas layout_defs = message_type_def place_member_def align_up_def max_of_def entry_of_def member_align_def
  scalar_def string_m_def fixed_bytes_m_def bytes_m_def message_i_def callback_m_def


section \<open>The types\<close>

text \<open>The layout of each type, its static assertions and its well-formedness, by evaluation.\<close>

definition type_ok :: "pb_type \<Rightarrow> bool" where
  "type_ok t \<longleftrightarrow> t_desc t = PB_BIND (t_width t) (field_callback (t_desc t)) (t_entries t)
     \<and> bind_ok (t_width t) (t_entries t)
     \<and> list_all (\<lambda>e. field_fits (t_size t) (fe_type e) (entry_values e)) (t_entries t)
     \<and> list_all sub_entry_ok (t_entries t)"

lemma wf_type_ok: "type_ok t \<Longrightarrow> wf_desc (t_size t) (t_desc t)"
  unfolding type_ok_def using wf_PB_BIND [of "t_width t" "t_entries t" "t_size t"] by metis

lemmas check_defs = bind_ok_def bind_entry_ok_def entry_width_def PB_FIELDINFO_WIDTH_AUTO_def PB_FI_WIDTH_LTYPE_def
  PB_FIELDINFO_ASSERT_def PB_FIELDINFO_ASSERT_1_def PB_FIELDINFO_ASSERT_2_def PB_FIELDINFO_ASSERT_4_def
  PB_FIELDINFO_ASSERT_8_def PB_FITS_def

lemmas fit_defs = field_fits_def Let_def entry_values_def psize_width_def fe_type_parts atype_code_def
  htype_code_def PB_LTYPE_MAP_def

named_theorems sizes "size, alignment and well-formedness of the message types"

lemma manage_DeviceInfo_layout [sizes]: "t_size si_manage_DeviceInfo = 96" "t_align si_manage_DeviceInfo = 8"
  by (simp_all add: si_manage_DeviceInfo_def layout_defs sizes)

lemma manage_DeviceInfo_ok: "type_ok si_manage_DeviceInfo"
  unfolding type_ok_def
  by (intro conjI) (simp_all add: si_manage_DeviceInfo_def layout_defs check_defs fit_defs sub_entry_ok_def sizes)

lemma manage_DeviceInfo_wf [sizes]: "wf_desc 96 (t_desc si_manage_DeviceInfo)"
  using wf_type_ok [OF manage_DeviceInfo_ok] by (simp add: sizes)

lemma manage_SetTimeRequest_layout [sizes]: "t_size si_manage_SetTimeRequest = 8" "t_align si_manage_SetTimeRequest = 8"
  by (simp_all add: si_manage_SetTimeRequest_def layout_defs sizes)

lemma manage_SetTimeRequest_ok: "type_ok si_manage_SetTimeRequest"
  unfolding type_ok_def
  by (intro conjI) (simp_all add: si_manage_SetTimeRequest_def layout_defs check_defs fit_defs sub_entry_ok_def sizes)

lemma manage_SetTimeRequest_wf [sizes]: "wf_desc 8 (t_desc si_manage_SetTimeRequest)"
  using wf_type_ok [OF manage_SetTimeRequest_ok] by (simp add: sizes)

lemma manage_AssetBeginRequest_layout [sizes]: "t_size si_manage_AssetBeginRequest = 68" "t_align si_manage_AssetBeginRequest = 4"
  by (simp_all add: si_manage_AssetBeginRequest_def layout_defs sizes)

lemma manage_AssetBeginRequest_ok: "type_ok si_manage_AssetBeginRequest"
  unfolding type_ok_def
  by (intro conjI) (simp_all add: si_manage_AssetBeginRequest_def layout_defs check_defs fit_defs sub_entry_ok_def sizes)

lemma manage_AssetBeginRequest_wf [sizes]: "wf_desc 68 (t_desc si_manage_AssetBeginRequest)"
  using wf_type_ok [OF manage_AssetBeginRequest_ok] by (simp add: sizes)

lemma manage_AssetBeginResponse_layout [sizes]: "t_size si_manage_AssetBeginResponse = 8" "t_align si_manage_AssetBeginResponse = 4"
  by (simp_all add: si_manage_AssetBeginResponse_def layout_defs sizes)

lemma manage_AssetBeginResponse_ok: "type_ok si_manage_AssetBeginResponse"
  unfolding type_ok_def
  by (intro conjI) (simp_all add: si_manage_AssetBeginResponse_def layout_defs check_defs fit_defs sub_entry_ok_def sizes)

lemma manage_AssetBeginResponse_wf [sizes]: "wf_desc 8 (t_desc si_manage_AssetBeginResponse)"
  using wf_type_ok [OF manage_AssetBeginResponse_ok] by (simp add: sizes)

lemma manage_JobSetRequest_layout [sizes]: "t_size si_manage_JobSetRequest = 36" "t_align si_manage_JobSetRequest = 4"
  by (simp_all add: si_manage_JobSetRequest_def layout_defs sizes)

lemma manage_JobSetRequest_ok: "type_ok si_manage_JobSetRequest"
  unfolding type_ok_def
  by (intro conjI) (simp_all add: si_manage_JobSetRequest_def layout_defs check_defs fit_defs sub_entry_ok_def sizes)

lemma manage_JobSetRequest_wf [sizes]: "wf_desc 36 (t_desc si_manage_JobSetRequest)"
  using wf_type_ok [OF manage_JobSetRequest_ok] by (simp add: sizes)

lemma manage_RunResult_layout [sizes]: "t_size si_manage_RunResult = 16" "t_align si_manage_RunResult = 4"
  by (simp_all add: si_manage_RunResult_def layout_defs sizes)

lemma manage_RunResult_ok: "type_ok si_manage_RunResult"
  unfolding type_ok_def
  by (intro conjI) (simp_all add: si_manage_RunResult_def layout_defs check_defs fit_defs sub_entry_ok_def sizes)

lemma manage_RunResult_wf [sizes]: "wf_desc 16 (t_desc si_manage_RunResult)"
  using wf_type_ok [OF manage_RunResult_ok] by (simp add: sizes)

lemma manage_JobStatus_layout [sizes]: "t_size si_manage_JobStatus = 100" "t_align si_manage_JobStatus = 4"
  by (simp_all add: si_manage_JobStatus_def layout_defs sizes)

lemma manage_JobStatus_ok: "type_ok si_manage_JobStatus"
  unfolding type_ok_def
  by (intro conjI) (simp_all add: si_manage_JobStatus_def layout_defs check_defs fit_defs sub_entry_ok_def sizes)

lemma manage_JobStatus_wf [sizes]: "wf_desc 100 (t_desc si_manage_JobStatus)"
  using wf_type_ok [OF manage_JobStatus_ok] by (simp add: sizes)

lemma manage_JobRunOnceResponse_layout [sizes]: "t_size si_manage_JobRunOnceResponse = 4" "t_align si_manage_JobRunOnceResponse = 4"
  by (simp_all add: si_manage_JobRunOnceResponse_def layout_defs sizes)

lemma manage_JobRunOnceResponse_ok: "type_ok si_manage_JobRunOnceResponse"
  unfolding type_ok_def
  by (intro conjI) (simp_all add: si_manage_JobRunOnceResponse_def layout_defs check_defs fit_defs sub_entry_ok_def sizes)

lemma manage_JobRunOnceResponse_wf [sizes]: "wf_desc 4 (t_desc si_manage_JobRunOnceResponse)"
  using wf_type_ok [OF manage_JobRunOnceResponse_ok] by (simp add: sizes)

lemma manage_JobCancelRequest_layout [sizes]: "t_size si_manage_JobCancelRequest = 4" "t_align si_manage_JobCancelRequest = 4"
  by (simp_all add: si_manage_JobCancelRequest_def layout_defs sizes)

lemma manage_JobCancelRequest_ok: "type_ok si_manage_JobCancelRequest"
  unfolding type_ok_def
  by (intro conjI) (simp_all add: si_manage_JobCancelRequest_def layout_defs check_defs fit_defs sub_entry_ok_def sizes)

lemma manage_JobCancelRequest_wf [sizes]: "wf_desc 4 (t_desc si_manage_JobCancelRequest)"
  using wf_type_ok [OF manage_JobCancelRequest_ok] by (simp add: sizes)

lemma manage_BootRecord_layout [sizes]: "t_size si_manage_BootRecord = 4" "t_align si_manage_BootRecord = 4"
  by (simp_all add: si_manage_BootRecord_def layout_defs sizes)

lemma manage_BootRecord_ok: "type_ok si_manage_BootRecord"
  unfolding type_ok_def
  by (intro conjI) (simp_all add: si_manage_BootRecord_def layout_defs check_defs fit_defs sub_entry_ok_def sizes)

lemma manage_BootRecord_wf [sizes]: "wf_desc 4 (t_desc si_manage_BootRecord)"
  using wf_type_ok [OF manage_BootRecord_ok] by (simp add: sizes)

lemma manage_RunRecord_layout [sizes]: "t_size si_manage_RunRecord = 92" "t_align si_manage_RunRecord = 4"
  by (simp_all add: si_manage_RunRecord_def layout_defs sizes)

lemma manage_RunRecord_ok: "type_ok si_manage_RunRecord"
  unfolding type_ok_def
  by (intro conjI) (simp_all add: si_manage_RunRecord_def layout_defs check_defs fit_defs sub_entry_ok_def sizes)

lemma manage_RunRecord_wf [sizes]: "wf_desc 92 (t_desc si_manage_RunRecord)"
  using wf_type_ok [OF manage_RunRecord_ok] by (simp add: sizes)

lemma manage_LogReadRequest_layout [sizes]: "t_size si_manage_LogReadRequest = 8" "t_align si_manage_LogReadRequest = 8"
  by (simp_all add: si_manage_LogReadRequest_def layout_defs sizes)

lemma manage_LogReadRequest_ok: "type_ok si_manage_LogReadRequest"
  unfolding type_ok_def
  by (intro conjI) (simp_all add: si_manage_LogReadRequest_def layout_defs check_defs fit_defs sub_entry_ok_def sizes)

lemma manage_LogReadRequest_wf [sizes]: "wf_desc 8 (t_desc si_manage_LogReadRequest)"
  using wf_type_ok [OF manage_LogReadRequest_ok] by (simp add: sizes)

lemma manage_LogEntry_layout [sizes]: "t_size si_manage_LogEntry = 160" "t_align si_manage_LogEntry = 8"
  by (simp_all add: si_manage_LogEntry_def layout_defs sizes)

lemma manage_LogEntry_ok: "type_ok si_manage_LogEntry"
  unfolding type_ok_def
  by (intro conjI) (simp_all add: si_manage_LogEntry_def layout_defs check_defs fit_defs sub_entry_ok_def sizes)

lemma manage_LogEntry_wf [sizes]: "wf_desc 160 (t_desc si_manage_LogEntry)"
  using wf_type_ok [OF manage_LogEntry_ok] by (simp add: sizes)

lemma manage_LogReadResponse_layout [sizes]: "t_size si_manage_LogReadResponse = 8" "t_align si_manage_LogReadResponse = 4"
  by (simp_all add: si_manage_LogReadResponse_def layout_defs sizes)

lemma manage_LogReadResponse_ok: "type_ok si_manage_LogReadResponse"
  unfolding type_ok_def
  by (intro conjI) (simp_all add: si_manage_LogReadResponse_def layout_defs check_defs fit_defs sub_entry_ok_def sizes)

lemma manage_LogReadResponse_wf [sizes]: "wf_desc 8 (t_desc si_manage_LogReadResponse)"
  using wf_type_ok [OF manage_LogReadResponse_ok] by (simp add: sizes)

lemma manage_LogAckRequest_layout [sizes]: "t_size si_manage_LogAckRequest = 8" "t_align si_manage_LogAckRequest = 8"
  by (simp_all add: si_manage_LogAckRequest_def layout_defs sizes)

lemma manage_LogAckRequest_ok: "type_ok si_manage_LogAckRequest"
  unfolding type_ok_def
  by (intro conjI) (simp_all add: si_manage_LogAckRequest_def layout_defs check_defs fit_defs sub_entry_ok_def sizes)

lemma manage_LogAckRequest_wf [sizes]: "wf_desc 8 (t_desc si_manage_LogAckRequest)"
  using wf_type_ok [OF manage_LogAckRequest_ok] by (simp add: sizes)

lemma job_MemoryRegion_layout [sizes]: "t_size si_job_MemoryRegion = 12" "t_align si_job_MemoryRegion = 4"
  by (simp_all add: si_job_MemoryRegion_def layout_defs sizes)

lemma job_MemoryRegion_ok: "type_ok si_job_MemoryRegion"
  unfolding type_ok_def
  by (intro conjI) (simp_all add: si_job_MemoryRegion_def layout_defs check_defs fit_defs sub_entry_ok_def sizes)

lemma job_MemoryRegion_wf [sizes]: "wf_desc 12 (t_desc si_job_MemoryRegion)"
  using wf_type_ok [OF job_MemoryRegion_ok] by (simp add: sizes)

lemma job_FlashAlgorithm_layout [sizes]: "t_size si_job_FlashAlgorithm = 144" "t_align si_job_FlashAlgorithm = 4"
  by (simp_all add: si_job_FlashAlgorithm_def layout_defs sizes)

lemma job_FlashAlgorithm_ok: "type_ok si_job_FlashAlgorithm"
  unfolding type_ok_def
  by (intro conjI) (simp_all add: si_job_FlashAlgorithm_def layout_defs check_defs fit_defs sub_entry_ok_def sizes)

lemma job_FlashAlgorithm_wf [sizes]: "wf_desc 144 (t_desc si_job_FlashAlgorithm)"
  using wf_type_ok [OF job_FlashAlgorithm_ok] by (simp add: sizes)

lemma job_CortexM_layout [sizes]: "t_size si_job_CortexM = 180" "t_align si_job_CortexM = 4"
  by (simp_all add: si_job_CortexM_def layout_defs sizes)

lemma job_CortexM_ok: "type_ok si_job_CortexM"
  unfolding type_ok_def
  by (intro conjI) (simp_all add: si_job_CortexM_def layout_defs check_defs fit_defs sub_entry_ok_def sizes)

lemma job_CortexM_wf [sizes]: "wf_desc 180 (t_desc si_job_CortexM)"
  using wf_type_ok [OF job_CortexM_ok] by (simp add: sizes)

lemma job_Esp32Image_layout [sizes]: "t_size si_job_Esp32Image = 100" "t_align si_job_Esp32Image = 4"
  by (simp_all add: si_job_Esp32Image_def layout_defs sizes)

lemma job_Esp32Image_ok: "type_ok si_job_Esp32Image"
  unfolding type_ok_def
  by (intro conjI) (simp_all add: si_job_Esp32Image_def layout_defs check_defs fit_defs sub_entry_ok_def sizes)

lemma job_Esp32Image_wf [sizes]: "wf_desc 100 (t_desc si_job_Esp32Image)"
  using wf_type_ok [OF job_Esp32Image_ok] by (simp add: sizes)

lemma job_Esp32_layout [sizes]: "t_size si_job_Esp32 = 840" "t_align si_job_Esp32 = 4"
  by (simp_all add: si_job_Esp32_def layout_defs sizes)

lemma job_Esp32_ok: "type_ok si_job_Esp32"
  unfolding type_ok_def
  by (intro conjI) (simp_all add: si_job_Esp32_def layout_defs check_defs fit_defs sub_entry_ok_def sizes)

lemma job_Esp32_wf [sizes]: "wf_desc 840 (t_desc si_job_Esp32)"
  using wf_type_ok [OF job_Esp32_ok] by (simp add: sizes)

lemma job_SelfTest_layout [sizes]: "t_size si_job_SelfTest = 40" "t_align si_job_SelfTest = 4"
  by (simp_all add: si_job_SelfTest_def layout_defs sizes)

lemma job_SelfTest_ok: "type_ok si_job_SelfTest"
  unfolding type_ok_def
  by (intro conjI) (simp_all add: si_job_SelfTest_def layout_defs check_defs fit_defs sub_entry_ok_def sizes)

lemma job_SelfTest_wf [sizes]: "wf_desc 40 (t_desc si_job_SelfTest)"
  using wf_type_ok [OF job_SelfTest_ok] by (simp add: sizes)

lemma job_Target_layout [sizes]: "t_size si_job_Target = 1900" "t_align si_job_Target = 4"
  by (simp_all add: si_job_Target_def layout_defs sizes)

lemma job_Target_ok: "type_ok si_job_Target"
  unfolding type_ok_def
  by (intro conjI) (simp_all add: si_job_Target_def layout_defs check_defs fit_defs sub_entry_ok_def sizes)

lemma job_Target_wf [sizes]: "wf_desc 1900 (t_desc si_job_Target)"
  using wf_type_ok [OF job_Target_ok] by (simp add: sizes)

lemma job_Empty_layout [sizes]: "t_size si_job_Empty = 1" "t_align si_job_Empty = 1"
  by (simp_all add: si_job_Empty_def layout_defs sizes)

lemma job_Empty_ok: "type_ok si_job_Empty"
  unfolding type_ok_def
  by (intro conjI) (simp_all add: si_job_Empty_def layout_defs check_defs fit_defs sub_entry_ok_def sizes)

lemma job_Empty_wf [sizes]: "wf_desc (Suc 0) (t_desc si_job_Empty)"
  using wf_type_ok [OF job_Empty_ok] by (simp add: sizes)

lemma job_Read32_layout [sizes]: "t_size si_job_Read32 = 4" "t_align si_job_Read32 = 4"
  by (simp_all add: si_job_Read32_def layout_defs sizes)

lemma job_Read32_ok: "type_ok si_job_Read32"
  unfolding type_ok_def
  by (intro conjI) (simp_all add: si_job_Read32_def layout_defs check_defs fit_defs sub_entry_ok_def sizes)

lemma job_Read32_wf [sizes]: "wf_desc 4 (t_desc si_job_Read32)"
  using wf_type_ok [OF job_Read32_ok] by (simp add: sizes)

lemma job_Write32_layout [sizes]: "t_size si_job_Write32 = 8" "t_align si_job_Write32 = 4"
  by (simp_all add: si_job_Write32_def layout_defs sizes)

lemma job_Write32_ok: "type_ok si_job_Write32"
  unfolding type_ok_def
  by (intro conjI) (simp_all add: si_job_Write32_def layout_defs check_defs fit_defs sub_entry_ok_def sizes)

lemma job_Write32_wf [sizes]: "wf_desc 8 (t_desc si_job_Write32)"
  using wf_type_ok [OF job_Write32_ok] by (simp add: sizes)

lemma job_ReadModWrite32_layout [sizes]: "t_size si_job_ReadModWrite32 = 12" "t_align si_job_ReadModWrite32 = 4"
  by (simp_all add: si_job_ReadModWrite32_def layout_defs sizes)

lemma job_ReadModWrite32_ok: "type_ok si_job_ReadModWrite32"
  unfolding type_ok_def
  by (intro conjI) (simp_all add: si_job_ReadModWrite32_def layout_defs check_defs fit_defs sub_entry_ok_def sizes)

lemma job_ReadModWrite32_wf [sizes]: "wf_desc 12 (t_desc si_job_ReadModWrite32)"
  using wf_type_ok [OF job_ReadModWrite32_ok] by (simp add: sizes)

lemma job_Poll32_layout [sizes]: "t_size si_job_Poll32 = 16" "t_align si_job_Poll32 = 4"
  by (simp_all add: si_job_Poll32_def layout_defs sizes)

lemma job_Poll32_ok: "type_ok si_job_Poll32"
  unfolding type_ok_def
  by (intro conjI) (simp_all add: si_job_Poll32_def layout_defs check_defs fit_defs sub_entry_ok_def sizes)

lemma job_Poll32_wf [sizes]: "wf_desc 16 (t_desc si_job_Poll32)"
  using wf_type_ok [OF job_Poll32_ok] by (simp add: sizes)

lemma job_Delay_layout [sizes]: "t_size si_job_Delay = 4" "t_align si_job_Delay = 4"
  by (simp_all add: si_job_Delay_def layout_defs sizes)

lemma job_Delay_ok: "type_ok si_job_Delay"
  unfolding type_ok_def
  by (intro conjI) (simp_all add: si_job_Delay_def layout_defs check_defs fit_defs sub_entry_ok_def sizes)

lemma job_Delay_wf [sizes]: "wf_desc 4 (t_desc si_job_Delay)"
  using wf_type_ok [OF job_Delay_ok] by (simp add: sizes)

lemma job_Step_layout [sizes]: "t_size si_job_Step = 20" "t_align si_job_Step = 4"
  by (simp_all add: si_job_Step_def layout_defs sizes)

lemma job_Step_ok: "type_ok si_job_Step"
  unfolding type_ok_def
  by (intro conjI) (simp_all add: si_job_Step_def layout_defs check_defs fit_defs sub_entry_ok_def sizes)

lemma job_Step_wf [sizes]: "wf_desc 20 (t_desc si_job_Step)"
  using wf_type_ok [OF job_Step_ok] by (simp add: sizes)

lemma job_Procedure_layout [sizes]: "t_size si_job_Procedure = 1924" "t_align si_job_Procedure = 4"
  by (simp_all add: si_job_Procedure_def layout_defs sizes)

lemma job_Procedure_ok: "type_ok si_job_Procedure"
  unfolding type_ok_def
  by (intro conjI) (simp_all add: si_job_Procedure_def layout_defs check_defs fit_defs sub_entry_ok_def sizes)

lemma job_Procedure_wf [sizes]: "wf_desc 1924 (t_desc si_job_Procedure)"
  using wf_type_ok [OF job_Procedure_ok] by (simp add: sizes)

lemma job_Job_layout [sizes]: "t_size si_job_Job = 5796" "t_align si_job_Job = 4"
  by (simp_all add: si_job_Job_def layout_defs sizes)

lemma job_Job_ok: "type_ok si_job_Job"
  unfolding type_ok_def
  by (intro conjI) (simp_all add: si_job_Job_def layout_defs check_defs fit_defs sub_entry_ok_def sizes)

lemma job_Job_wf [sizes]: "wf_desc 5796 (t_desc si_job_Job)"
  using wf_type_ok [OF job_Job_ok] by (simp add: sizes)

section \<open>The repository's types\<close>

definition protobuf_types :: "pb_type list" where
  "protobuf_types =
     [si_manage_DeviceInfo, si_manage_SetTimeRequest, si_manage_AssetBeginRequest,
      si_manage_AssetBeginResponse, si_manage_JobSetRequest, si_manage_RunResult,
      si_manage_JobStatus, si_manage_JobRunOnceResponse, si_manage_JobCancelRequest,
      si_manage_BootRecord, si_manage_RunRecord, si_manage_LogReadRequest,
      si_manage_LogEntry, si_manage_LogReadResponse, si_manage_LogAckRequest,
      si_job_MemoryRegion, si_job_FlashAlgorithm, si_job_CortexM,
      si_job_Esp32Image, si_job_Esp32, si_job_SelfTest,
      si_job_Target, si_job_Empty, si_job_Read32,
      si_job_Write32, si_job_ReadModWrite32, si_job_Poll32,
      si_job_Delay, si_job_Step, si_job_Procedure,
      si_job_Job]"

lemmas types_ok = manage_DeviceInfo_ok manage_SetTimeRequest_ok manage_AssetBeginRequest_ok manage_AssetBeginResponse_ok
  manage_JobSetRequest_ok manage_RunResult_ok manage_JobStatus_ok manage_JobRunOnceResponse_ok
  manage_JobCancelRequest_ok manage_BootRecord_ok manage_RunRecord_ok manage_LogReadRequest_ok
  manage_LogEntry_ok manage_LogReadResponse_ok manage_LogAckRequest_ok job_MemoryRegion_ok
  job_FlashAlgorithm_ok job_CortexM_ok job_Esp32Image_ok job_Esp32_ok
  job_SelfTest_ok job_Target_ok job_Empty_ok job_Read32_ok
  job_Write32_ok job_ReadModWrite32_ok job_Poll32_ok job_Delay_ok
  job_Step_ok job_Procedure_ok job_Job_ok

lemmas types_wf = wf_type_ok [OF manage_DeviceInfo_ok] wf_type_ok [OF manage_SetTimeRequest_ok]
  wf_type_ok [OF manage_AssetBeginRequest_ok] wf_type_ok [OF manage_AssetBeginResponse_ok]
  wf_type_ok [OF manage_JobSetRequest_ok] wf_type_ok [OF manage_RunResult_ok]
  wf_type_ok [OF manage_JobStatus_ok] wf_type_ok [OF manage_JobRunOnceResponse_ok]
  wf_type_ok [OF manage_JobCancelRequest_ok] wf_type_ok [OF manage_BootRecord_ok]
  wf_type_ok [OF manage_RunRecord_ok] wf_type_ok [OF manage_LogReadRequest_ok]
  wf_type_ok [OF manage_LogEntry_ok] wf_type_ok [OF manage_LogReadResponse_ok]
  wf_type_ok [OF manage_LogAckRequest_ok] wf_type_ok [OF job_MemoryRegion_ok]
  wf_type_ok [OF job_FlashAlgorithm_ok] wf_type_ok [OF job_CortexM_ok]
  wf_type_ok [OF job_Esp32Image_ok] wf_type_ok [OF job_Esp32_ok]
  wf_type_ok [OF job_SelfTest_ok] wf_type_ok [OF job_Target_ok]
  wf_type_ok [OF job_Empty_ok] wf_type_ok [OF job_Read32_ok]
  wf_type_ok [OF job_Write32_ok] wf_type_ok [OF job_ReadModWrite32_ok]
  wf_type_ok [OF job_Poll32_ok] wf_type_ok [OF job_Delay_ok]
  wf_type_ok [OF job_Step_ok] wf_type_ok [OF job_Procedure_ok]
  wf_type_ok [OF job_Job_ok]

lemma type_ok_ASSERT: "type_ok t \<Longrightarrow> PB_BIND_ASSERT (t_width t) (t_entries t)"
  by (auto simp: type_ok_def bind_ok_def bind_entry_ok_def PB_BIND_ASSERT_def list_all_iff)

text \<open>C9. Every message type of \<open>proto/job.proto\<close> and \<open>proto/manage.proto\<close> satisfies the static
  assertions of its field list, and its descriptor is well-formed for its struct: the constant
  arrays are complete, the tags ascend, every field with its count, presence or \<open>which_\<close> member
  lies inside the struct, and so do the submessages, at every level of nesting.\<close>

theorem schema_types_well_formed:
  "list_all (\<lambda>t. PB_BIND_ASSERT (t_width t) (t_entries t) \<and> wf_desc (t_size t) (t_desc t)) protobuf_types"
  by (simp add: protobuf_types_def types_ok types_wf type_ok_ASSERT del: One_nat_def)

end
