(* ===== verification/Nanopb_Claims.thy ===== *)
theory Nanopb_Claims
  imports Nanopb_Packing
begin

text \<open>
  The properties of the runtime's integers and wire fields. \<open>encode_to\<close> runs an encoder on a fresh buffer and gives
  what it wrote, \<open>decode_from\<close> runs a decoder on a buffer and gives its value and the bytes it
  left.
\<close>

section \<open>Runs\<close>

definition machine :: "bytes \<Rightarrow> pb_istream \<Rightarrow> pb_ostream \<Rightarrow> unit pb" where
  "machine mem i ost = \<lparr>pb_mem = mem, pb_in = i, pb_out = ost, pb_fixed_count = 0, pb_world = (),
     pb_ub = False\<rparr>"

definition encode_to :: "nat \<Rightarrow> (unit pb, bool) st \<Rightarrow> bytes option" where
  "encode_to n m =
     (case run_state m (machine [] PB_ISTREAM_EMPTY
             (pb_ostream_from_buffer (replicate n 0) (of_nat n))) of
        (ok, t) \<Rightarrow> if ok \<and> \<not> pb_ub t
          then Some (take (unat (bytes_written (pb_out t))) (os_buf (pb_out t))) else None)"

definition decode_from :: "bytes \<Rightarrow> (unit pb, 'a option) st \<Rightarrow> ('a \<times> bytes) option" where
  "decode_from bs m =
     (case run_state m (machine [] (pb_istream_from_buffer bs (of_nat (length bs)))
             PB_OSTREAM_SIZING) of
        (None, t) \<Rightarrow> None
      | (Some v, t) \<Rightarrow> if pb_ub t then None else Some (v, avail (pb_in t)))"

lemma encode_to_emits:
  assumes "emits [] m bs" "n < 2 ^ 32"
  shows "encode_to n m = (if length bs \<le> n then Some bs else None)"
proof -
  let ?o = "pb_ostream_from_buffer (replicate n 0) (of_nat n)"
  let ?s = "machine [] PB_ISTREAM_EMPTY ?o"
  have n: "unat (of_nat n :: u32) = n" using assms(2) by (simp add: unat_of_nat)
  have ok: "out_ok ?o" "\<not> sizing ?o" "max_size ?o = of_nat n" "bytes_written ?o = 0"
    by (simp_all add: out_ok_def pb_ostream_from_buffer_def n)
  have mem: "pb_mem ?s = []" "pb_out ?s = ?o" "pb_ub ?s = False" by (simp_all add: machine_def)
  have fits: "fits bs ?o \<longleftrightarrow> length bs \<le> n" by (simp add: fits_def ok n)
  show ?thesis
  proof (cases "length bs \<le> n")
    case True
    have "unat (of_nat (length bs) :: u32) = length bs"
      using True assms(2) by (simp add: unat_of_nat)
    moreover have "take (length bs) (splice 0 bs (replicate n 0)) = bs" by (simp add: splice_def)
    ultimately show ?thesis
      using emitsD(1) [OF assms(1) mem(1)] ok mem fits True
      by (simp add: encode_to_def put_def) (simp add: pb_ostream_from_buffer_def)
  next
    case False
    with emitsD(2) [OF assms(1) mem(1)] ok mem fits show ?thesis
      by (auto simp: encode_to_def)
  qed
qed

lemma decode_from_parses:
  assumes "parses m bs v" "length (bs @ rest) < 2 ^ 32"
  shows "decode_from (bs @ rest) m = Some (v, rest)"
proof -
  let ?i = "pb_istream_from_buffer (bs @ rest) (of_nat (length (bs @ rest)))"
  have n: "unat (of_nat (length (bs @ rest)) :: u32) = length (bs @ rest)"
    using assms(2) by (simp only: unat_of_nat take_bit_nat_eq_self) (simp add: take_bit_nat_eq_self)
  then have i: "in_ok ?i" "avail ?i = bs @ rest" "unat (bytes_left ?i) = length (bs @ rest)"
    by (simp_all add: in_ok_def avail_def pb_istream_from_buffer_def slice_def del: of_nat_add)
  have "run_state m (machine [] ?i PB_OSTREAM_SIZING) =
      (Some v, eat (length bs) (machine [] ?i PB_OSTREAM_SIZING))"
    by (rule parsesD [OF assms(1)]) (use i in \<open>simp_all add: machine_def\<close>)
  moreover have "avail (consume (length bs) ?i) = rest" using i by (simp add: avail_consume)
  ultimately show ?thesis by (simp add: decode_from_def eat_def machine_def)
qed

section \<open>Integers and fields on the wire\<close>

definition decode_tag_value :: "(unit pb, (u8 \<times> u32) option) st" where
  "decode_tag_value = do { (r, eof) \<leftarrow> pb_decode_tag; return r }"

lemma parses_decode_tag:
  "w < 8 \<Longrightarrow> f < 2 ^ 29 \<Longrightarrow> parses decode_tag_value (leb128 (8 * f + w)) (of_nat w, of_nat f)"
  by (simp add: parses_def decode_tag_value_def run_pb_decode_tag)

lemma codec_roundtrip:
  assumes "emits [] enc bs" "parses dec bs v" "length bs \<le> 10"
    and "10 \<le> n" "n < 2 ^ 32" "length rest + 10 < 2 ^ 32"
  shows "\<exists>bs. encode_to n enc = Some bs \<and> decode_from (bs @ rest) dec = Some (v, rest)"
  using assms by (intro exI [of _ bs]) (simp add: encode_to_emits decode_from_parses)

text \<open>C26. Every integer encoding of the runtime round-trips: what an encoder writes into a buffer of
  at least ten bytes, its decoder reads back from the front of any input, and it leaves the rest:
  varints of all 64-bit values, zigzag varints of all signed ones, fixed 32 and 64 bit, and tags of
  every wire type and every field number below 2^29.\<close>

theorem integer_codecs_roundtrip:
  assumes n: "10 \<le> n" "n < 2 ^ 32" and r: "length rest + 10 < 2 ^ 32"
    and tag: "wt < 8" "field < 2 ^ 29"
  shows "(\<exists>bs. encode_to n (pb_encode_varint v) = Some bs \<and>
      decode_from (bs @ rest) pb_decode_varint = Some (v, rest)) \<and>
    (\<exists>bs. encode_to n (pb_encode_svarint w) = Some bs \<and>
      decode_from (bs @ rest) pb_decode_svarint = Some (w, rest)) \<and>
    (\<exists>bs. encode_to n (pb_encode_fixed32 x) = Some bs \<and>
      decode_from (bs @ rest) pb_decode_fixed32 = Some (x, rest)) \<and>
    (\<exists>bs. encode_to n (pb_encode_fixed64 v) = Some bs \<and>
      decode_from (bs @ rest) pb_decode_fixed64 = Some (v, rest)) \<and>
    (\<exists>bs. encode_to n (pb_encode_tag wt field) = Some bs \<and>
      decode_from (bs @ rest) decode_tag_value = Some ((wt, field), rest))"
proof -
  note rt = codec_roundtrip [OF _ _ _ n r]
  have t: "unat wt < 8" "unat field < 2 ^ 29" using tag by (simp_all add: word_less_nat_alt)
  then have "8 * unat field + unat wt < 128 ^ 5" by simp
  then have "length (leb128 (8 * unat field + unat wt)) \<le> 10"
    using length_leb128 [of "8 * unat field + unat wt" 5] by simp
  from rt [OF emits_pb_encode_tag [OF t(1)] parses_decode_tag [OF t] this]
  have "\<exists>bs. encode_to n (pb_encode_tag wt field) = Some bs \<and>
      decode_from (bs @ rest) decode_tag_value = Some ((wt, field), rest)" by simp
  then show ?thesis
    by (intro conjI rt [OF emits_pb_encode_varint parses_pb_decode_varint length_leb128_u64]
        rt [OF emits_pb_encode_svarint parses_pb_decode_svarint length_leb128_u64]
        rt [OF emits_pb_encode_fixed32 parses_pb_decode_fixed32]
        rt [OF emits_pb_encode_fixed64 parses_pb_decode_fixed64]) simp_all
qed

theorem integer_codecs_roundtrip_witness:
  "\<exists>bs. encode_to 10 (pb_encode_svarint (- 3)) = Some bs \<and>
     decode_from (bs @ [7]) pb_decode_svarint = Some (- 3, [7])"
  using integer_codecs_roundtrip [of 10 "[7]" 0 1 0 "- 3" 0] by simp

text \<open>The 32-bit varint decoder is the 64-bit one with a check: whatever the input, when it gives
  a value, the 64-bit decoder reads the same bytes and its value has those low 32 bits.\<close>

theorem varint32_is_varint:
  assumes "in_ok (pb_in s)" "run_state pb_decode_varint32 s = (Some x, t)"
  shows "\<exists>v. run_state pb_decode_varint s = (Some v, t) \<and> ucast v = x"
  using assms by (rule varint32_agrees)

theorem varint32_is_varint_witness:
  "\<exists>v t. run_state pb_decode_varint
      (machine [] (pb_istream_from_buffer [0xAC, 0x02] 2) PB_OSTREAM_SIZING) = (Some v, t) \<and>
     (ucast v :: u32) = 300"
proof -
  let ?s = "machine [] (pb_istream_from_buffer [0xAC, 0x02] 2) PB_OSTREAM_SIZING"
  have ok: "in_ok (pb_in ?s)" by (simp add: machine_def pb_istream_from_buffer_def in_ok_def)
  have "leb128 300 = [0xAC, 0x02]" by (simp add: leb128.simps)
  then have "avail (pb_in ?s) = leb128 (unat (300 :: u32)) @ []"
    by (simp add: machine_def pb_istream_from_buffer_def avail_def slice_def)
  from parsesD [OF parses_pb_decode_varint32 ok this] varint32_is_varint [OF ok]
  show ?thesis by blast
qed

text \<open>C29. An unknown field is skipped exactly, whatever its type: \<open>pb_skip_field\<close> of its wire type
  consumes the bytes of its value and nothing else.\<close>

theorem skip_field_exact:
  assumes "in_ok (pb_in s)" "avail (pb_in s) = bs @ rest" "field_payload wire_type bs"
  shows "\<exists>t. run_state (pb_skip_field wire_type) s = (True, t) \<and> avail (pb_in t) = rest \<and>
    in_ok (pb_in t) \<and> t = s\<lparr>pb_in := pb_in t\<rparr>"
proof -
  have "length bs \<le> unat (bytes_left (pb_in s))" by (rule avail_le_bytes_left [OF assms(1,2)])
  then show ?thesis
    using run_pb_skip_field [OF assms] assms(1,2)
    by (simp add: avail_consume in_ok_consume) (simp add: eat_def)
qed

theorem skip_field_exact_witness:
  "\<exists>t. run_state (pb_skip_field 0)
      (machine [] (pb_istream_from_buffer [0xAC, 0x02, 0x55] 3) PB_OSTREAM_SIZING) = (True, t) \<and>
     avail (pb_in t) = [0x55]"
proof -
  let ?s = "machine [] (pb_istream_from_buffer [0xAC, 0x02, 0x55] 3) PB_OSTREAM_SIZING"
  have "in_ok (pb_in ?s)" "avail (pb_in ?s) = [0xAC, 0x02] @ [0x55]"
    by (simp_all add: machine_def pb_istream_from_buffer_def in_ok_def avail_def slice_def)
  moreover have "field_payload 0 [0xAC, 0x02]" by (simp add: field_payload_def varint_bytes_def)
  ultimately show ?thesis using skip_field_exact by blast
qed

end
