(* ===== verification/Spec2Isabelle.thy ===== *)
theory Spec2Isabelle
  imports Session_Program Session_Link Transport_Websocket_Inv Nanopb_Message_Claims
begin

text \<open>
  SIDP client: the device side of the Soul Injector Debug Protocol.

  The program. A host sends requests (attach, halt, run, read and write memory and registers,
  reset, detach) over a transport; \<open>sidp_session\<close> serves them one at a time against a debug
  backend, tracks the state of the target, and sends responses and STOPPED / TARGET_LOST events.
  The transports check the CRC of what they receive before the session sees it.

  Parts and theories, in the order of the imports.
  \<^item> \<open>Prelude\<close>: words and little-endian bytes, splices of byte buffers, the state monad and its
    backward rules (\<open>wps\<close>).
  \<^item> \<open>Sidp_Defs\<close>: \<open>include/sidp_defs.hpp\<close>, constants, enumerations, packed structures as records
    with encoders and decoders (collection \<open>wire\<close>).
  \<^item> \<open>Crc32\<close>: \<open>crc32_hasher\<close> of \<open>sidp_transport.cpp\<close>; its bit-serial reference, the locale
    \<open>frame_check\<close> of what senders and receivers rely on, interpreted on the code's functions.
  \<^item> \<open>Backend\<close>: \<open>include/sidp_backend.hpp\<close>. The backend, the allocator and the sink are code outside
    this repository: a record of functions over a world state, arbitrary in every theorem unless
    the locale \<open>backend_memory\<close> is named. \<open>Mock_Backend\<close> models the backend of the host tests
    and interprets that locale.
  \<^item> \<open>Session_State\<close>, \<open>Session_Frame\<close>, \<open>Session_Memory\<close>, \<open>Session_Breakpoints\<close>, \<open>Session_Stop\<close>,
    \<open>Session_Ops\<close>, \<open>Session_Access\<close>, \<open>Session_Run\<close>: \<open>sidp_session.cpp\<close> function by function. The
    members are the record \<open>session\<close>; a function that changes them is a state computation of
    the same name. A pointer to an allocated buffer is an option. Every call that leaves the
    session is appended to \<open>trace\<close>, and every access outside a buffer sets \<open>ub\<close>.
  \<^item> \<open>Session_Inv\<close>, \<open>Session_Safe\<close>, \<open>Session_Stop_Safe\<close>: the invariant \<open>wf\<close> and its preservation by the
    building blocks. \<open>Session_Serve\<close>, \<open>Session_Serve_Link\<close>, \<open>Session_Serve_Run\<close>: what each handler
    shows on the wire. \<open>Session_Main\<close>: the request path and the reachable states.
    \<open>Session_Specs\<close>: functional specifications of the routines on data. \<open>Session_Contract\<close>:
    refusals, the lost session, the generations of a connection.
  \<^item> \<open>Session_Shadow\<close>: the program behind the software breakpoints, target memory with the original
    bytes put back, and what the loops over the breakpoint table do to it under \<open>backend_memory\<close>.
    \<open>Session_Table\<close>: the table is well-formed and its entries disjoint in every reachable state.
    \<open>Session_Program\<close>: READ_MEMORY and WRITE_MEMORY on that program. \<open>Mock_Session\<close>: sessions over
    the mock, for the witnesses.

  \<^item> \<open>Transport_Queue\<close>: \<open>packet_queue_transport\<close>. The class is a record; its virtual methods and
    the FreeRTOS calls are the record \<open>platform\<close>. A section under the queue mutex is one function.
    \<open>Transport_Queue_Inv\<close> lets the tasks that share a transport interleave (\<open>reached\<close>, with what
    was written and what is on the wire as history) and states what the base class asks of a
    derived transport as the locale \<open>wire\<close>; the invariant, the order of control frames, session
    boundaries and the waiting loops are proved once inside it.
  \<^item> \<open>Transport_Cdc\<close>: \<open>cdc_slip_transport\<close>, over TinyUSB and the timer as the record \<open>usb_driver\<close>.
    \<open>Transport_Cdc_Slip\<close>: the SLIP automaton the decoder refines, the whole-segment reference it
    equals, and the round trip with the encoder. \<open>Transport_Cdc_Inv\<close>: buffers and queues over whole
    runs, sends that end, and the interpretation of \<open>wire\<close>.
  \<^item> \<open>Transport_Websocket\<close>: \<open>websocket_transport\<close>, over Espressif's client as the record \<open>ws_client\<close>.
    \<open>Transport_Websocket_Inv\<close>: the reassembly automaton the handler refines, fragmentation, buffers
    over whole runs, and the interpretation of \<open>wire\<close>.
  \<^item> \<open>Session_Link\<close>: the session over a CDC link, from its sink to the receive queue of the peer.

  \<^item> \<open>Nanopb_Machine\<close>, \<open>Nanopb_Stream\<close>, \<open>Nanopb_Field\<close>, \<open>Nanopb_Encode\<close>, \<open>Nanopb_Decode\<close>: the protobuf
    runtime \<open>nanopb/\<close>, in the configuration it is built with: streams and integer encodings, the
    field iterator of \<open>pb_common.c\<close>, the encoder and the decoder, over a byte memory in which the
    message structs lie (record \<open>pb\<close>). \<open>pb_ub\<close> is set by an access outside a buffer, a struct or a
    constant array. Recursion over submessages is a parameter, tied by the depth of the descriptor.
  \<^item> \<open>Nanopb_Schema\<close>: the macros of \<open>pb.h\<close> that build descriptors (\<open>PB_BIND\<close>), the layout of structs,
    and the message types of \<open>proto/job.pb.h\<close> and \<open>proto/manage.pb.h\<close>.
  \<^item> \<open>Nanopb_Stream_Spec\<close>, \<open>Nanopb_Varint\<close>, \<open>Nanopb_Output\<close>, \<open>Nanopb_Codec\<close>: what encoders emit and
    decoders parse, byte by byte (\<open>emits\<close>, \<open>parses\<close>); \<open>Nanopb_Claims\<close> has the round trips.
    \<open>Nanopb_Iter\<close>, \<open>Nanopb_Packing\<close>, \<open>Nanopb_Bind\<close>: the iterator against the field list of a
    descriptor. \<open>Nanopb_Reads\<close>, \<open>Nanopb_Safe\<close> and \<open>Nanopb_Safe_Fields\<close> to \<open>Nanopb_Safe_Decode\<close>: safety of
    the decoder, operation by operation, for a well-formed descriptor (\<open>wf_desc\<close>).
    \<open>Nanopb_Schema_Wf\<close>: the descriptors of the repository are well-formed, by evaluation.
    \<open>Nanopb_Message_Claims\<close>: the properties of descriptors and whole messages.

  Bounds. The one loop of the session whose length the target decides, the polling of an internal
  step, has the code's own bound of 100 attempts as fuel (\<open>poll_step\<close>); running out of it is a
  branch of the code. The loops of the transports that wait on a clock or a driver (\<open>wait_loop\<close>,
  \<open>push_tx\<close>, \<open>drain_tx\<close>, \<open>read_chunks\<close>, \<open>tx_drain\<close>) are partial functions to an option, \<open>None\<close> when
  they never return; \<open>waits_return\<close> and \<open>cdc_tx_drains\<close> prove that they return. Loops of the protobuf
  decoder have a bound (the bytes left, the fields of the descriptor) and its recursion the depth
  of the descriptor; exceeding one sets \<open>pb_ub\<close>, and \<open>decode_memory_safe\<close> proves that it never happens.
  Every other loop is structural or has a measure.

  Assumptions. Nothing is assumed of the backend, the allocator or the sink, except that a call
  returns; a backend that writes past the extent it was given is outside the documented contract,
  so a caller overlays at most that many bytes. The theorems on wire behaviour ask that the
  32-bit stop generation is not about to wrap. Of the code under the transports, safety assumes
  nothing; a theorem that needs more names it: a ring buffer answers by its own contents and not
  by the other members (\<open>ring_blind\<close>, \<open>ws_blind\<close>), holds no more than its bytes (\<open>rings_bounded\<close>), a
  delay wakes at most so many ticks late (\<open>timely\<close>), the timer moves during a flush and a USB call
  takes less than a minute (\<open>usb_timely\<close>), a WebSocket connection takes every message
  (\<open>reliable\<close>). The theorems on memory contents name \<open>backend_memory\<close>, the documented contract of
  \<open>read_mem\<close> and \<open>write_mem\<close>; the one on WRITE_MEMORY also that sending a frame leaves target memory
  alone (\<open>sink_blind\<close>). The decoder asks of the user's callbacks that they stay in the stream they
  are given and leave the structs alone (\<open>callbacks_ok\<close>).

  Not modelled: log output; the memory ordering of the atomic members, which one mutex protects
  where it matters; the outer loop of the TX task, which never ends. Of nanopb: pointer fields and
  \<open>pb_release\<close>, which need \<open>malloc\<close> support that is not configured, extension lists that are not
  empty, streams over callbacks of the user instead of buffers, and code compiled out.
\<close>

section \<open>Safety and the state invariant\<close>



text \<open>C15. In every reachable state: a halted or running target is attached and its session has its
  buffers, a halted target has a stop generation, a session with no buffers is detached and idle,
  and every count is within its table: 32 software breakpoints, 16 hardware breakpoints, 64
  memory regions, and a snapshot that fits one STOPPED event.\<close>

theorem session_state_invariant:
  assumes "reachable e s"
  shows "(state s = TARGET_HALTED \<or> state s = TARGET_RUNNING \<longrightarrow> attached s) \<and>
    (attached s \<longrightarrow> storage_ready e s) \<and> (state s = TARGET_HALTED \<longrightarrow> stop_id s \<noteq> 0) \<and>
    (scratch s = None \<longrightarrow> state s = TARGET_DETACHED \<and> \<not> attached s) \<and>
    sw_count s \<le> 32 \<and> hw_count s \<le> 16 \<and> region_count s \<le> 64 \<and>
    36 + pending_registers_size s + pending_stack_size s \<le> FRAME_PAYLOAD_MAX \<and>
    max_memory_transfer s \<le> MAX_MEMORY_TRANSFER"
proof -
  have wf: "wf e s" by (rule wf_reachable [OF assms])
  then have "attached s \<longrightarrow> storage_ready e s" using wf_attached by blast
  with wf show ?thesis
    by (auto simp: wf_def table_ok_def idle_def storage_ready_def)
qed

theorem session_state_invariant_witness: "36 + pending_registers_size fresh + pending_stack_size fresh \<le> 8180"
  using session_state_invariant [OF reachable_fresh] by simp

lemma frame_of_reachable: "reachable e s \<Longrightarrow> Tx f ok \<in> set (trace s) \<Longrightarrow> frame_ok f"
  using wf_reachable [of e s] by (fastforce simp: wf_def list_all_iff)

text \<open>C17. Every frame any session ever handed to its sink is a valid SIDP message: 12 to 8192
  bytes, protocol version 1, a CRC that verifies, and a response or an event, an event with
  request id 0.\<close>

theorem session_frames_valid:
  assumes "reachable e s" and "Tx f ok \<in> set (trace s)"
  shows "is_valid_message_size (length f) \<and> verify_message_crc f \<and>
    hdr_version (dec_msg_header f) = PROTOCOL_VERSION \<and>
    (hdr_kind (dec_msg_header f) = KIND_RESPONSE \<or>
     hdr_kind (dec_msg_header f) = KIND_EVENT \<and> hdr_request_id (dec_msg_header f) = 0)"
  using frame_of_reachable [OF assms] by (simp add: frame_ok_def)

lemma refused_halt:
  "\<exists>f ok. Tx f ok \<in> set (trace (exec_st (handle_request mock_env (request OP_HALT [])) fresh))"
proof -
  have "request_verdict fresh OP_HALT [] = Some STATUS_ERROR"
    by (simp add: request_verdict_def gate_column_def)
  then show ?thesis
    using request_refused [OF wf_reachable [OF reachable_fresh], of "request OP_HALT []" STATUS_ERROR]
    by (fastforce simp: accepted_request refused_def)
qed

theorem session_frames_valid_witness:
  "\<exists>f ok. Tx f ok \<in> set (trace (exec_st (handle_request mock_env (request OP_HALT [])) fresh)) \<and>
     verify_message_crc f"
  using refused_halt session_frames_valid [OF reach_request [OF reachable_fresh]] by blast

text \<open>C10. Every frame a session ever sent has the type of its opcode. A response is a status code
  alone, or \<open>STATUS_OK\<close> with the data of ATTACH (as many regions as it counts), GET_STATE (a target
  state), READ_MEMORY (as many bytes as it announces) or READ_REGISTERS (as many entries as it
  counts). An event is STOPPED, with a stop reason, a register blob of as many entries as it counts
  and a stack of the length it gives, or TARGET_LOST, with a loss reason.\<close>

theorem frames_typed:
  assumes "reachable e s" and "Tx f ok \<in> set (trace s)"
  shows "if hdr_kind (dec_msg_header f) = KIND_RESPONSE
    then response_body (hdr_opcode (dec_msg_header f)) (drop 12 f)
    else event_body (hdr_opcode (dec_msg_header f)) (drop 12 f)"
  using frame_of_reachable [OF assms] by (simp add: frame_ok_def typed_body_def)

theorem frames_typed_witness:
  "\<exists>f ok. Tx f ok \<in> set (trace (exec_st (handle_request mock_env (request OP_HALT [])) fresh)) \<and>
     (if hdr_kind (dec_msg_header f) = KIND_RESPONSE
      then response_body (hdr_opcode (dec_msg_header f)) (drop 12 f)
      else event_body (hdr_opcode (dec_msg_header f)) (drop 12 f))"
  using refused_halt frames_typed [OF reach_request [OF reachable_fresh]] by blast

section \<open>Requests\<close>

text \<open>C2. Every accepted request on a live connection gets exactly one response, with its opcode
  and request id, and every event it causes follows that response. (The stop generation must not
  be about to wrap; see the findings.)\<close>

theorem request_answered_once:
  assumes "reachable e s" "scratch s \<noteq> None" "\<not> transport_dead s" "accepted m" "nowrap s"
  shows "\<exists>tr st evs. trace (exec_st (handle_request e m) s) = trace s @ tr \<and>
    outs tr = Response (opcode_of m) (request_of m) st # evs \<and> list_all is_event evs"
proof -
  have wf: "wf e s" by (rule wf_reachable [OF assms(1)])
  have "wp (handle_accepted e (opcode_of m) (request_of m) (drop 12 m))
      (\<lambda>_. replied e (opcode_of m) (request_of m) s) s"
    by (rule wp_mono [OF serve_accepted [OF wf assms(2)]])
      (use assms(5) in \<open>auto intro: op_post_replied split: if_splits\<close>)
  then have "replied e (opcode_of m) (request_of m) s (exec_st (handle_request e m) s)"
    using handle_request_accepted [OF assms(3,4), of e] by (simp add: wp_def exec_st_def)
  then show ?thesis
    using assms(3) by (fastforce simp: replied_def ext_def answered_def)
qed

theorem request_answered_once_witness:
  "\<exists>tr st evs. trace (exec_st (handle_request mock_env (request OP_GET_STATE [])) fresh) = trace fresh @ tr \<and>
     outs tr = Response OP_GET_STATE 7 st # evs"
  using request_answered_once [OF reachable_fresh, of "request OP_GET_STATE []"]
  by (auto simp: accepted_request nowrap_def)



text \<open>What is not a request is ignored: on a dead transport, or for a message of invalid size,
  of another version, that is not a request or has request id 0, the session is unchanged.\<close>

theorem non_request_ignored:
  assumes "transport_dead s \<or> \<not> is_valid_message_size (length m) \<or>
    hdr_version (dec_msg_header m) \<noteq> PROTOCOL_VERSION \<or> hdr_kind (dec_msg_header m) \<noteq> KIND_REQUEST \<or>
    hdr_request_id (dec_msg_header m) = 0"
  shows "exec_st (handle_request e m) s = s"
  using handle_request_ignored [of s m e] assms by (auto simp: exec_st_def accepted_def)

theorem non_request_ignored_witness: "exec_st (handle_request mock_env []) fresh = fresh"
  by (rule non_request_ignored) (simp add: is_valid_message_size_def)

text \<open>C16. LOST is quiet: whatever message arrives, the session stays LOST and makes no backend
  call, and polling changes nothing; only a disconnect leaves LOST.\<close>

theorem lost_is_quiet:
  assumes "state s = TARGET_LOST"
  shows "state (exec_st (handle_request e m) s) = TARGET_LOST \<and>
    (\<exists>tr. trace (exec_st (handle_request e m) s) = trace s @ tr \<and> list_all is_tx tr) \<and>
    exec_st (handle_poll e) s = s"
  using lost_request [OF assms, of e m] lost_poll [OF assms, of e] assms
  by (auto simp: sends_def)

theorem lost_is_quiet_witness:
  "state (exec_st (handle_request mock_env (request OP_RUN [])) (fresh\<lparr>state := TARGET_LOST\<rparr>)) = TARGET_LOST"
  using lost_is_quiet [of "fresh\<lparr>state := TARGET_LOST\<rparr>" mock_env "request OP_RUN []"] by simp



section \<open>Connection life cycle\<close>

text \<open>C18. A disconnect never speaks on the transport and always kills it. When it reports success
  the session is detached with no software breakpoint left in the table and the generation reset;
  when it reports failure the target is LOST and still attached, so the cleanup can be retried.\<close>

theorem disconnect_outcome:
  assumes "reachable e s"
  shows "case run_state (handle_disconnect e) s of (done, s') \<Rightarrow>
    transport_dead s' \<and> (\<exists>tr. trace s' = trace s @ tr \<and> outs tr = []) \<and> attached s' = (\<not> done) \<and>
    (if done then \<not> attached s \<or> state s' = TARGET_DETACHED \<and> stop_id s' = 0 \<and> sw_count s' = 0
     else state s' = TARGET_LOST)"
proof -
  have "wp (handle_disconnect e) (\<lambda>ok s'. transport_dead s' \<and>
    (\<exists>tr. trace s' = trace s @ tr \<and> outs tr = []) \<and> attached s' = (\<not> ok) \<and>
    (if ok then \<not> attached s \<or> state s' = TARGET_DETACHED \<and> stop_id s' = 0 \<and> sw_count s' = 0
     else state s' = TARGET_LOST)) s"
    by (rule wp_handle_disconnect [OF wf_reachable [OF assms]]) (auto simp: mute_def ext_def)
  then show ?thesis
    by (cases "run_state (handle_disconnect e) s") (auto simp: wp_def exec_st_def result_st_def)
qed

theorem disconnect_outcome_witness: "transport_dead (exec_st (handle_disconnect mock_env) fresh)"
  using disconnect_outcome [OF reachable_fresh] by (simp add: exec_st_def split: prod.splits)



end
